(* ===== verification/Prelude.thy ===== *)
theory Prelude
  imports Main
begin

text \<open>
  What every component of the development shares: the collections of rewrite rules the
  component proofs pass to the simplifier, the result type of a server action, and tables of
  the relational store as lists of rows.

  A table is the list of its rows in insertion order. The four statements the code issues
  against a table are \<open>find_id\<close> (\<open>SELECT .. WHERE id = k LIMIT 1\<close>), \<open>put_id\<close>
  (\<open>UPDATE .. WHERE id = k\<close>), \<open>update_where\<close> (\<open>UPDATE .. WHERE p\<close>) and
  \<open>add_row\<close> (\<open>INSERT\<close>). The locale \<open>row_store\<close> is the contract the writing
  components rely on; every table of \<open>Database\<close> interprets it.
\<close>

named_theorems row_simps "rewrite rules for rows looked up after a write"
named_theorems money_simps "rewrite rules for sums of cents over tables"
named_theorems status_defs "definitions of the status machines and their tables"

section \<open>Results of server actions\<close>

text \<open>
  A server action answers \<open>{ error }\<close> or \<open>{ data }\<close>; errors are translation keys, the
  argument of the code's \<open>t(...)\<close>.
\<close>

type_synonym message = string
type_synonym 'a result = "message + 'a"
type_synonym ident = string

definition bind_result :: "'e + 'a \<Rightarrow> ('a \<Rightarrow> 'e + 'b) \<Rightarrow> 'e + 'b" where
  "bind_result r f = (case r of Inl e \<Rightarrow> Inl e | Inr x \<Rightarrow> f x)"

lemma bind_result_simps [simp]:
  "bind_result (Inl e) f = Inl e" "bind_result (Inr x) f = f x"
  by (simp_all add: bind_result_def)

lemma bind_result_Inr:
  "bind_result r f = Inr y \<longleftrightarrow> (\<exists>x. r = Inr x \<and> f x = Inr y)"
  by (cases r) auto

section \<open>Tables\<close>

definition find_id :: "('r \<Rightarrow> ident) \<Rightarrow> ident \<Rightarrow> 'r list \<Rightarrow> 'r option" where
  "find_id key k t = List.find (\<lambda>r. key r = k) t"

definition update_where :: "('r \<Rightarrow> bool) \<Rightarrow> ('r \<Rightarrow> 'r) \<Rightarrow> 'r list \<Rightarrow> 'r list" where
  "update_where p f t = map (\<lambda>r. if p r then f r else r) t"

definition put_id :: "('r \<Rightarrow> ident) \<Rightarrow> ident \<Rightarrow> ('r \<Rightarrow> 'r) \<Rightarrow> 'r list \<Rightarrow> 'r list" where
  "put_id key k f t = update_where (\<lambda>r. key r = k) f t"

definition add_row :: "'r \<Rightarrow> 'r list \<Rightarrow> 'r list" where
  "add_row r t = t @ [r]"

definition sum_where :: "('r \<Rightarrow> bool) \<Rightarrow> ('r \<Rightarrow> int) \<Rightarrow> 'r list \<Rightarrow> int" where
  "sum_where p f t = sum_list (map f (filter p t))"

locale row_store =
  fixes key :: "'r \<Rightarrow> ident"
    and lookup :: "ident \<Rightarrow> 'r list \<Rightarrow> 'r option"
    and put :: "ident \<Rightarrow> ('r \<Rightarrow> 'r) \<Rightarrow> 'r list \<Rightarrow> 'r list"
    and add :: "'r \<Rightarrow> 'r list \<Rightarrow> 'r list"
  assumes lookup_key: "lookup k t = Some r \<Longrightarrow> key r = k"
    and lookup_in: "lookup k t = Some r \<Longrightarrow> r \<in> set t"
    and lookup_put:
      "(\<And>r. key (f r) = key r) \<Longrightarrow>
        lookup k (put k' f t) = (if k = k' then map_option f (lookup k t) else lookup k t)"
    and lookup_add:
      "lookup k (add r t) = (case lookup k t of None \<Rightarrow> if key r = k then Some r else None
                              | Some x \<Rightarrow> Some x)"
    and keys_put: "(\<And>r. key (f r) = key r) \<Longrightarrow> map key (put k f t) = map key t"
    and keys_add: "map key (add r t) = map key t @ [key r]"
    and rows_put: "set (put k f t) = (\<lambda>r. if key r = k then f r else r) ` set t"
    and rows_add: "set (add r t) = insert r (set t)"
begin

lemma lookup_put_same:
  "(\<And>r. key (f r) = key r) \<Longrightarrow> lookup k (put k f t) = map_option f (lookup k t)"
  by (simp add: lookup_put)

lemma lookup_put_other:
  "(\<And>r. key (f r) = key r) \<Longrightarrow> k \<noteq> k' \<Longrightarrow> lookup k (put k' f t) = lookup k t"
  by (simp add: lookup_put)

lemma lookup_fresh: "k \<notin> key ` set t \<Longrightarrow> lookup k t = None"
  using lookup_key lookup_in by (cases "lookup k t") force+

lemma lookup_add_fresh: "key r \<notin> key ` set t \<Longrightarrow> lookup (key r) (add r t) = Some r"
  by (simp add: lookup_add lookup_fresh)

lemma distinct_put:
  "(\<And>r. key (f r) = key r) \<Longrightarrow> distinct (map key t) \<Longrightarrow> distinct (map key (put k f t))"
  by (simp add: keys_put)

lemma distinct_add:
  "key r \<notin> key ` set t \<Longrightarrow> distinct (map key t) \<Longrightarrow> distinct (map key (add r t))"
  by (auto simp: keys_add)

end

lemma find_id_simps [row_simps]:
  "find_id key k [] = None"
  "find_id key k (r # t) = (if key r = k then Some r else find_id key k t)"
  by (simp_all add: find_id_def)

lemma find_id_Some: "find_id key k t = Some r \<Longrightarrow> r \<in> set t \<and> key r = k"
  by (induction t) (auto simp: row_simps split: if_splits)

lemma find_id_append:
  "find_id key k (t @ u) = (case find_id key k t of None \<Rightarrow> find_id key k u | Some r \<Rightarrow> Some r)"
  by (induction t) (auto simp: row_simps)

lemma find_id_put:
  "(\<And>r. key (f r) = key r) \<Longrightarrow>
    find_id key k (put_id key k' f t) = (if k = k' then map_option f (find_id key k t) else find_id key k t)"
  by (induction t) (auto simp: row_simps put_id_def update_where_def)

lemma row_store_lists: "row_store key (find_id key) (put_id key) add_row"
proof unfold_locales
  show "find_id key k t = Some r \<Longrightarrow> key r = k" for k t r by (auto dest: find_id_Some)
  show "find_id key k t = Some r \<Longrightarrow> r \<in> set t" for k t r by (auto dest: find_id_Some)
  show "(\<And>r. key (f r) = key r) \<Longrightarrow> find_id key k (put_id key k' f t)
      = (if k = k' then map_option f (find_id key k t) else find_id key k t)" for f k k' t
    by (rule find_id_put)
  show "find_id key k (add_row r t) = (case find_id key k t of None \<Rightarrow> if key r = k then Some r else None
      | Some x \<Rightarrow> Some x)" for k r t
    by (auto simp: add_row_def find_id_append row_simps split: option.splits)
qed (auto simp: put_id_def update_where_def add_row_def)

subsection \<open>Sums over the rows a predicate selects\<close>

lemma sum_where_simps [money_simps]:
  "sum_where p f [] = 0"
  "sum_where p f (r # t) = (if p r then f r else 0) + sum_where p f t"
  by (simp_all add: sum_where_def)

lemma sum_where_append [money_simps]: "sum_where p f (t @ u) = sum_where p f t + sum_where p f u"
  by (simp add: sum_where_def)

lemma sum_where_add_row [money_simps]:
  "sum_where p f (add_row r t) = sum_where p f t + (if p r then f r else 0)"
  by (simp add: add_row_def money_simps)

lemma sum_where_cong:
  "(\<And>r. r \<in> set t \<Longrightarrow> p r = q r) \<Longrightarrow> (\<And>r. r \<in> set t \<Longrightarrow> p r \<Longrightarrow> f r = g r) \<Longrightarrow>
    sum_where p f t = sum_where q g t"
  by (induction t) (auto simp: money_simps)

lemma sum_where_nonneg: "(\<And>r. r \<in> set t \<Longrightarrow> p r \<Longrightarrow> 0 \<le> f r) \<Longrightarrow> 0 \<le> sum_where p f t"
  by (induction t) (auto simp: money_simps)

lemma sum_where_none: "(\<And>r. r \<in> set t \<Longrightarrow> \<not> p r) \<Longrightarrow> sum_where p f t = 0"
  by (induction t) (auto simp: money_simps)

lemma put_id_absent: "k \<notin> key ` set t \<Longrightarrow> put_id key k f t = t"
  by (induction t) (auto simp: put_id_def update_where_def)

lemma sum_where_put_id:
  assumes "distinct (map key t)" and "find_id key k t = Some r"
  shows "sum_where p f (put_id key k g t)
    = sum_where p f t - (if p r then f r else 0) + (if p (g r) then f (g r) else 0)"
  using assms
proof (induction t)
  case (Cons x t)
  show ?case
  proof (cases "key x = k")
    case True
    then have "put_id key k g t = t" using Cons.prems(1) by (intro put_id_absent) auto
    then show ?thesis using True Cons.prems(2)
      by (simp add: put_id_def update_where_def money_simps row_simps)
  next
    case False
    then show ?thesis using Cons
      by (simp add: put_id_def update_where_def money_simps row_simps)
  qed
qed (simp add: row_simps)

lemma distinct_lookup:
  "distinct (map key t) \<Longrightarrow> r \<in> set t \<Longrightarrow> find_id key (key r) t = Some r"
  by (induction t) (auto simp: row_simps)

end
