(* ===== verification/JsNumber.thy ===== *)
theory JsNumber
  imports Complex_Main "HOL-Library.Log_Nat"
begin

text \<open>
  The numbers of the source language. A JavaScript \<open>number\<close> is a binary64 float; a finite one is
  modelled by its exact value, a rational, and \<open>fl\<close> rounds a rational to the nearest value with a
  53-bit significand, ties to even, which is what every arithmetic operator of the language does to
  its exact result. Exponents are unbounded here: overflow to infinity and the subnormal range lie
  outside the model, as do NaN and the sign of zero. The amounts of the program (cents, hours,
  percentages) are far inside that range.

  Integer cents are modelled as \<open>int\<close>. Sums and differences of integers are exact in binary64 up to
  \<open>2 ^ 53\<close> (\<open>fl_int\<close>), so the model writes them as integer arithmetic; a product with a percentage or
  a fractional quantity, and every quotient, goes through \<open>fl\<close>.
\<close>

type_synonym jsnum = rat

section \<open>Rounding to binary64\<close>

definition binade :: "rat \<Rightarrow> int" where
  "binade x =
     (let (p, q) = quotient_of \<bar>x\<bar>; e = bitlen p - bitlen q
      in if \<bar>x\<bar> < 2 powi e then e - 1 else e)"

definition round_half_even :: "rat \<Rightarrow> int" where
  "round_half_even y =
     (let f = \<lfloor>y\<rfloor>; d = y - of_int f
      in if d < 1 / 2 then f else if 1 / 2 < d then f + 1 else if even f then f else f + 1)"

definition fl :: "rat \<Rightarrow> jsnum" where
  "fl x = (if x = 0 then 0
           else (let u = 2 powi (binade x - 52) in of_int (round_half_even (x / u)) * u))"

lemma bitlen_powi:
  assumes "0 < p"
  shows "(2::rat) powi (bitlen p - 1) \<le> of_int p" and "of_int p < (2::rat) powi (bitlen p)"
proof -
  have b: "2 ^ nat (bitlen p - 1) \<le> p \<and> p < 2 ^ nat (bitlen p)"
    using bitlen_bounds [OF assms] .
  have n: "0 \<le> bitlen p - 1" using bitlen_ge_iff_power [of 1 p] assms by simp
  have "(2::rat) powi (bitlen p - 1) = of_int (2 ^ nat (bitlen p - 1))"
    using n by (simp add: power_int_def)
  then show "(2::rat) powi (bitlen p - 1) \<le> of_int p" using b of_int_le_iff by metis
  have "(2::rat) powi (bitlen p) = of_int (2 ^ nat (bitlen p))"
    using n by (simp add: power_int_def)
  then show "of_int p < (2::rat) powi (bitlen p)" using b of_int_less_iff by metis
qed

lemma binade_bounds:
  assumes "x \<noteq> 0"
  shows "2 powi (binade x) \<le> \<bar>x\<bar>" and "\<bar>x\<bar> < 2 powi (binade x + 1)"
proof -
  obtain p q where pq: "quotient_of \<bar>x\<bar> = (p, q)" by (cases "quotient_of \<bar>x\<bar>")
  have q: "0 < q" using quotient_of_denom_pos [OF pq] .
  have x: "\<bar>x\<bar> = of_int p / of_int q" using quotient_of_div [OF pq] .
  have p: "0 < p" using x q assms by (metis divide_le_0_iff not_less of_int_0_le_iff of_int_le_0_iff
      of_int_pos zero_less_abs_iff order_less_le)
  let ?e = "bitlen p - bitlen q"
  note bp = bitlen_powi [OF p] and bq = bitlen_powi [OF q]
  have lo: "2 powi (?e - 1) \<le> \<bar>x\<bar>"
  proof -
    have "(2::rat) powi (?e - 1) = 2 powi (bitlen p - 1) / 2 powi (bitlen q)"
      by (simp add: power_int_diff)
    also have "\<dots> \<le> of_int p / of_int q"
      using bp bq q p by (intro frac_le) auto
    finally show ?thesis using x by simp
  qed
  have hi: "\<bar>x\<bar> < 2 powi (?e + 1)"
  proof -
    have "of_int p / of_int q < (2::rat) powi (bitlen p) / 2 powi (bitlen q - 1)"
      using bp bq q p by (intro frac_less) auto
    also have "\<dots> = 2 powi (?e + 1)"
      by (simp add: power_int_diff power_int_add)
    finally show ?thesis using x by simp
  qed
  have b: "binade x = (if \<bar>x\<bar> < 2 powi ?e then ?e - 1 else ?e)"
    by (simp add: binade_def pq)
  show "2 powi (binade x) \<le> \<bar>x\<bar>" using lo b by (simp split: if_splits)
  show "\<bar>x\<bar> < 2 powi (binade x + 1)" using hi b by (simp split: if_splits)
qed


lemma rhe_of_int [simp]: "round_half_even (of_int n) = n"
  by (simp add: round_half_even_def)

lemma rhe_error: "\<bar>of_int (round_half_even y) - y\<bar> \<le> 1 / 2"
proof -
  have "of_int \<lfloor>y\<rfloor> \<le> y" and "y < of_int \<lfloor>y\<rfloor> + 1" by linarith+
  then show ?thesis by (auto simp: round_half_even_def Let_def abs_le_iff)
qed

lemma rhe_mono:
  assumes "x \<le> y"
  shows "round_half_even x \<le> round_half_even y"
proof (cases "\<lfloor>x\<rfloor> = \<lfloor>y\<rfloor>")
  case True
  then show ?thesis using assms by (auto simp: round_half_even_def Let_def)
next
  case False
  then have "\<lfloor>x\<rfloor> + 1 \<le> \<lfloor>y\<rfloor>" using floor_mono [OF assms] by linarith
  moreover have "round_half_even x \<le> \<lfloor>x\<rfloor> + 1" and "\<lfloor>y\<rfloor> \<le> round_half_even y"
    by (auto simp: round_half_even_def Let_def)
  ultimately show ?thesis by linarith
qed

lemma rhe_minus: "round_half_even (- y) = - round_half_even y"
proof (cases "y = of_int \<lfloor>y\<rfloor>")
  case True
  then have "round_half_even y = \<lfloor>y\<rfloor>" by (metis rhe_of_int)
  moreover have "round_half_even (- y) = - \<lfloor>y\<rfloor>" using True by (metis of_int_minus rhe_of_int)
  ultimately show ?thesis by simp
next
  case False
  then have "\<lfloor>- y\<rfloor> = - \<lfloor>y\<rfloor> - 1" by linarith
  then show ?thesis by (auto simp: round_half_even_def Let_def)
qed

lemma fl_0 [simp]: "fl 0 = 0" by (simp add: fl_def)

lemma binade_minus: "binade (- x) = binade x"
  by (simp add: binade_def)

lemma fl_minus: "fl (- x) = - fl x"
  by (simp add: fl_def binade_minus Let_def rhe_minus)

lemma powi_pos [simp]: "0 < (2::rat) powi k"
  by simp

lemma pow2_less_iff: "(2::rat) powi a < 2 powi b \<longleftrightarrow> a < b"
proof
  assume *: "(2::rat) powi a < 2 powi b"
  show "a < b"
  proof (rule ccontr)
    assume "\<not> a < b"
    then have "(2::rat) powi b \<le> 2 powi a" by (intro power_int_increasing) auto
    with * show False by simp
  qed
qed (auto intro: power_int_strict_increasing)

lemma pow2_le_iff: "(2::rat) powi a \<le> 2 powi b \<longleftrightarrow> a \<le> b"
  using pow2_less_iff [of b a] by (simp add: not_less [symmetric])

lemma binade_mono:
  assumes "0 < x" and "x \<le> y"
  shows "binade x \<le> binade y"
proof -
  have "2 powi (binade x) \<le> x" using binade_bounds(1) [of x] assms by simp
  also have "\<dots> \<le> y" by fact
  also have "\<dots> < 2 powi (binade y + 1)" using binade_bounds(2) [of y] assms by simp
  finally have "binade x < binade y + 1" by (simp add: pow2_less_iff)
  then show ?thesis by simp
qed

lemma scaled_bounds:
  assumes "0 < x"
  shows "2 ^ 52 \<le> x / 2 powi (binade x - 52)" and "x / 2 powi (binade x - 52) < 2 ^ 53"
proof -
  have e: "(2::rat) powi (binade x) = 2 ^ 52 * 2 powi (binade x - 52)"
    by (simp add: power_int_diff)
  have e': "(2::rat) powi (binade x + 1) = 2 ^ 53 * 2 powi (binade x - 52)"
    by (simp add: power_int_diff power_int_add)
  show "2 ^ 52 \<le> x / 2 powi (binade x - 52)"
    using binade_bounds(1) [of x] assms e by (simp add: pos_le_divide_eq)
  show "x / 2 powi (binade x - 52) < 2 ^ 53"
    using binade_bounds(2) [of x] assms e' by (simp add: pos_divide_less_eq)
qed

lemma fl_binade:
  assumes "0 < x"
  shows "2 powi (binade x) \<le> fl x" and "fl x \<le> 2 powi (binade x + 1)"
proof -
  let ?u = "(2::rat) powi (binade x - 52)"
  have e: "(2::rat) powi (binade x) = of_int (2 ^ 52) * ?u"
    by (simp add: power_int_diff)
  have e': "(2::rat) powi (binade x + 1) = of_int (2 ^ 53) * ?u"
    by (simp add: power_int_diff power_int_add)
  have f: "fl x = of_int (round_half_even (x / ?u)) * ?u"
    using assms by (simp add: fl_def Let_def)
  have "(2::int) ^ 52 \<le> round_half_even (x / ?u)"
    using rhe_mono [OF scaled_bounds(1) [OF assms]] rhe_of_int [of "2 ^ 52"] by simp
  then show "2 powi (binade x) \<le> fl x"
    unfolding f e by (intro mult_right_mono) (auto simp only: of_int_le_iff less_imp_le powi_pos)
  have "round_half_even (x / ?u) \<le> (2::int) ^ 53"
    using rhe_mono [OF less_imp_le [OF scaled_bounds(2) [OF assms]]] rhe_of_int [of "2 ^ 53"] by simp
  then show "fl x \<le> 2 powi (binade x + 1)"
    unfolding f e' by (intro mult_right_mono) (auto simp only: of_int_le_iff less_imp_le powi_pos)
qed

lemma fl_pos: "0 < x \<Longrightarrow> 0 < fl x"
  using fl_binade(1) [of x] powi_pos order_less_le_trans by blast

lemma fl_mono_pos:
  assumes "0 < x" and "x \<le> y"
  shows "fl x \<le> fl y"
proof (cases "binade x = binade y")
  case True
  have "x / 2 powi (binade x - 52) \<le> y / 2 powi (binade x - 52)"
    using assms by (simp add: divide_right_mono)
  from rhe_mono [OF this] show ?thesis
    using assms True by (simp add: fl_def Let_def)
next
  case False
  then have "binade x + 1 \<le> binade y" using binade_mono [OF assms] by linarith
  then have "(2::rat) powi (binade x + 1) \<le> 2 powi (binade y)"
    by (simp add: pow2_le_iff)
  then show ?thesis
    using fl_binade(2) [OF assms(1)] fl_binade(1) [of y] assms by linarith
qed

lemma fl_mono:
  assumes "x \<le> y"
  shows "fl x \<le> fl y"
proof -
  consider "0 < x" | "y < 0" | "x \<le> 0" "0 \<le> y" by linarith
  then show ?thesis
  proof cases
    case 1
    then show ?thesis using fl_mono_pos assms by blast
  next
    case 2
    then have "fl (- y) \<le> fl (- x)" using fl_mono_pos [of "- y" "- x"] assms by simp
    then show ?thesis by (simp add: fl_minus)
  next
    case 3
    have "fl x \<le> 0" using fl_pos [of "- x"] 3 by (cases "x = 0") (auto simp: fl_minus)
    moreover have "0 \<le> fl y" using fl_pos [of y] 3 by (cases "y = 0") auto
    ultimately show ?thesis by linarith
  qed
qed

lemma fl_nonneg: "0 \<le> x \<Longrightarrow> 0 \<le> fl x"
  using fl_mono [of 0 x] by simp

lemma fl_exact:
  assumes "x / 2 powi (binade x - 52) = of_int n"
  shows "fl x = x"
proof -
  have "x = of_int n * 2 powi (binade x - 52)"
    using assms powi_pos [of "binade x - 52"] by (simp add: divide_eq_eq)
  then show ?thesis using assms by (simp add: fl_def Let_def)
qed

lemma fl_dyadic:
  assumes "\<bar>m\<bar> \<le> 2 ^ 53"
  shows "fl (of_int m * 2 powi k) = of_int m * 2 powi k"
proof (cases "m = 0")
  case False
  let ?x = "of_int m * (2::rat) powi k"
  have ax: "\<bar>?x\<bar> = of_int \<bar>m\<bar> * 2 powi k" by (simp add: abs_mult)
  have x0: "?x \<noteq> 0" using False by simp
  show ?thesis
  proof (cases "\<bar>m\<bar> = 2 ^ 53")
    case True
    have "2 powi (binade ?x) \<le> (2::rat) powi (53 + k)"
      using binade_bounds(1) [OF x0] unfolding ax True by (simp add: power_int_add)
    then have b: "binade ?x \<le> 53 + k" by (simp add: pow2_le_iff)
    have "(2::rat) powi (53 + k) < 2 powi (binade ?x + 1)"
      using binade_bounds(2) [OF x0] unfolding ax True by (simp add: power_int_add)
    then have "53 + k < binade ?x + 1" by (simp add: pow2_less_iff)
    with b have be: "binade ?x = 53 + k" by simp
    have "m = 2 ^ 53 \<or> m = - (2 ^ 53)" using True by linarith
    then have "?x / 2 powi (binade ?x - 52) = of_int (if m = 2 ^ 53 then 2 ^ 52 else - (2 ^ 52))"
      unfolding be by (auto simp: power_int_add power_int_diff field_simps)
    then show ?thesis by (rule fl_exact)
  next
    case False
    then have "\<bar>m\<bar> < 2 ^ 53" using assms by simp
    then have "(of_int \<bar>m\<bar> :: rat) < 2 ^ 53" by (metis of_int_less_iff of_int_numeral of_int_power)
    then have "\<bar>?x\<bar> < 2 powi (53 + k)" unfolding ax by (simp add: power_int_add)
    then have "(2::rat) powi (binade ?x) < 2 powi (53 + k)"
      using binade_bounds(1) [OF x0] by linarith
    then have b: "binade ?x - 52 \<le> k" by (simp add: pow2_less_iff)
    then obtain n where n: "k = binade ?x - 52 + int n" by (metis zle_iff_zadd)
    have "?x / 2 powi (binade ?x - 52) = of_int (m * 2 ^ n)"
      by (subst n) (simp add: power_int_add)
    then show ?thesis by (rule fl_exact)
  qed
qed simp

lemma fl_int [simp]: "\<bar>n\<bar> \<le> 2 ^ 53 \<Longrightarrow> fl (of_int n) = of_int n"
  using fl_dyadic [of n 0] by simp

text \<open>Evaluation rounds nothing where the value is a representable integer.\<close>

lemma fl_code [code]:
  "fl x = (case quotient_of x of (n, q) \<Rightarrow> if q = 1 \<and> \<bar>n\<bar> \<le> 9007199254740992 then x
     else (let u = 2 powi (binade x - 52) in of_int (round_half_even (x / u)) * u))"
proof -
  obtain n q where nq: "quotient_of x = (n, q)" by fastforce
  have x: "x = of_int n / of_int q" using nq by (rule quotient_of_div)
  have "fl x = x" if "q = 1" "\<bar>n\<bar> \<le> 9007199254740992"
    using fl_int [of n] that x by simp
  moreover have "x \<noteq> 0" if "\<not> (q = 1 \<and> \<bar>n\<bar> \<le> 9007199254740992)"
    using that nq by (auto simp: rat_zero_code)
  ultimately show ?thesis by (simp add: nq fl_def)
qed

lemma fl_error: "\<bar>fl x - x\<bar> \<le> \<bar>x\<bar> / 2 ^ 53"
proof (cases "x = 0")
  case False
  let ?u = "(2::rat) powi (binade x - 52)"
  have f: "fl x - x = (of_int (round_half_even (x / ?u)) - x / ?u) * ?u"
    using False by (simp add: fl_def Let_def left_diff_distrib)
  have "\<bar>fl x - x\<bar> \<le> 1 / 2 * ?u"
    unfolding f abs_mult using rhe_error by (intro mult_mono) auto
  also have "\<dots> = 2 powi (binade x) / 2 ^ 53"
    by (simp add: power_int_diff)
  also have "\<dots> \<le> \<bar>x\<bar> / 2 ^ 53"
    using binade_bounds(1) [OF False] by (intro divide_right_mono) auto
  finally show ?thesis .
qed simp

section \<open>The operators and the Math functions the code uses\<close>

definition js_mul :: "jsnum \<Rightarrow> jsnum \<Rightarrow> jsnum" where "js_mul a b = fl (a * b)"
definition js_div :: "jsnum \<Rightarrow> jsnum \<Rightarrow> jsnum" where "js_div a b = fl (a / b)"
definition js_add :: "jsnum \<Rightarrow> jsnum \<Rightarrow> jsnum" where "js_add a b = fl (a + b)"
definition js_sub :: "jsnum \<Rightarrow> jsnum \<Rightarrow> jsnum" where "js_sub a b = fl (a - b)"

text \<open>\<open>Math.round\<close> is the nearest integer, ties towards positive infinity.\<close>

definition math_round :: "jsnum \<Rightarrow> int" where "math_round x = \<lfloor>x + 1 / 2\<rfloor>"

text \<open>The expression \<open>Math.round((base * percentage) / 100)\<close>, written in every pricing file.\<close>

definition percent_cents :: "int \<Rightarrow> jsnum \<Rightarrow> int" where
  "percent_cents base pct = math_round (js_div (js_mul (of_int base) pct) 100)"

lemma math_round_mono: "x \<le> y \<Longrightarrow> math_round x \<le> math_round y"
  by (simp add: math_round_def floor_mono)

lemma math_round_of_int [simp]: "math_round (of_int n) = n"
  by (simp add: math_round_def floor_eq_iff)

lemma math_round_0 [simp]: "math_round 0 = 0"
  using math_round_of_int [of 0] by simp

lemma math_round_nonneg: "0 \<le> x \<Longrightarrow> 0 \<le> math_round x"
  using math_round_mono [of 0 x] by simp

lemma js_mul_nonneg: "0 \<le> a \<Longrightarrow> 0 \<le> b \<Longrightarrow> 0 \<le> js_mul a b"
  by (simp add: js_mul_def fl_nonneg)

lemma js_div_nonneg: "0 \<le> a \<Longrightarrow> 0 \<le> b \<Longrightarrow> 0 \<le> js_div a b"
  by (simp add: js_div_def fl_nonneg)

lemma js_mul_int [simp]: "\<bar>a * b\<bar> \<le> 2 ^ 53 \<Longrightarrow> js_mul (of_int a) (of_int b) = of_int (a * b)"
  unfolding js_mul_def of_int_mult [symmetric] by (rule fl_int)

lemma percent_cents_nonneg: "0 \<le> base \<Longrightarrow> 0 \<le> pct \<Longrightarrow> 0 \<le> percent_cents base pct"
  by (simp add: percent_cents_def math_round_nonneg js_div_nonneg js_mul_nonneg)

lemma percent_cents_0 [simp]: "percent_cents 0 pct = 0" "percent_cents base 0 = 0"
  by (simp_all add: percent_cents_def js_mul_def js_div_def)

lemma percent_cents_100: "\<bar>base\<bar> \<le> 2 ^ 46 \<Longrightarrow> percent_cents base 100 = base"
  using js_mul_int [of base 100] by (simp add: percent_cents_def js_div_def)

lemma percent_cents_mono:
  assumes "0 \<le> base" and "p \<le> q"
  shows "percent_cents base p \<le> percent_cents base q"
  unfolding percent_cents_def js_mul_def js_div_def
  by (intro math_round_mono fl_mono divide_right_mono mult_left_mono) (use assms in auto)

text \<open>A percentage of at most one hundred never takes more than the base.\<close>

lemma percent_cents_le:
  assumes "0 \<le> base" "base \<le> 2 ^ 46" "pct \<le> 100"
  shows "percent_cents base pct \<le> base"
  using percent_cents_mono [OF assms(1,3)] percent_cents_100 [of base] assms by simp

end
