(* ===== verification/InvoiceTotals.thy ===== *)
theory InvoiceTotals
  imports Prelude JsNumber
begin

text \<open>
  The invoice arithmetic of \<open>features/invoices/services/calculateInvoiceTotal.ts\<close> and the mapping
  between the three shapes of a discount in \<open>invoiceDiscount.ts\<close>. Quantities and percentages are
  binary64 numbers, cents are integers. The lemmas show that the largest-remainder allocation hands
  out exactly the document discount, so that the stored lines add up to the stored total, that no
  line is allocated more than its net, and that the totals meet \<open>chk_invoices_totals\<close>.
\<close>

section \<open>Discounts\<close>

datatype discount = Percentage jsnum | Fixed int

datatype discount_kind = KindNone | KindPercentage | KindFixed

datatype discount_type = TypePercentage | TypeFixed

record discount_values =
  dv_kind :: discount_kind
  dv_percentage :: "jsnum option"
  dv_amount :: "int option"

text \<open>
  The percentage column holds the decimal text of the number, \<open>String(percentage)\<close>, and is read back
  with \<open>Number\<close>; the language guarantees that this returns the same number, so the column is modelled
  by the number it denotes.
\<close>

record discount_columns =
  dc_type :: "discount_type option"
  dc_percentage :: "jsnum option"
  dc_amount_cents :: "int option"

definition no_discount_columns :: discount_columns where
  "no_discount_columns = \<lparr>dc_type = None, dc_percentage = None, dc_amount_cents = None\<rparr>"

fun toInvoiceDiscount :: "discount_values \<Rightarrow> discount option" where
  "toInvoiceDiscount v =
     (case (dv_kind v, dv_percentage v, dv_amount v) of
        (KindPercentage, Some p, _) \<Rightarrow> Some (Percentage p)
      | (KindFixed, _, Some a) \<Rightarrow> Some (Fixed a)
      | _ \<Rightarrow> None)"

fun toInvoiceColumnDiscount :: "discount_columns \<Rightarrow> discount option" where
  "toInvoiceColumnDiscount c =
     (case (dc_type c, dc_percentage c, dc_amount_cents c) of
        (Some TypePercentage, Some p, _) \<Rightarrow> Some (Percentage p)
      | (Some TypeFixed, _, Some a) \<Rightarrow> Some (Fixed a)
      | _ \<Rightarrow> None)"

definition toInvoiceDiscountColumns :: "discount_values \<Rightarrow> discount_columns" where
  "toInvoiceDiscountColumns v =
     (case toInvoiceDiscount v of
        None \<Rightarrow> no_discount_columns
      | Some (Percentage p) \<Rightarrow>
          \<lparr>dc_type = Some TypePercentage, dc_percentage = Some p, dc_amount_cents = None\<rparr>
      | Some (Fixed a) \<Rightarrow>
          \<lparr>dc_type = Some TypeFixed, dc_percentage = None, dc_amount_cents = Some a\<rparr>)"

section \<open>Lines and totals\<close>

record line_item_input =
  quantity :: jsnum
  unitPriceCents :: int
  line_discount :: "discount option"
  taxPercentage :: jsnum

record line_totals =
  lt_subtotalCents :: int
  lt_taxAmountCents :: int
  lt_totalCents :: int

record invoice_totals =
  subtotalCents :: int
  discountAmountTotalCents :: int
  taxAmountCents :: int
  totalCents :: int

record allocated_line =
  al_grossCents :: int
  al_discountCents :: int
  al_netCents :: int
  al_taxPercentage :: jsnum
  al_documentDiscountShareCents :: int
  al_taxableCents :: int
  al_taxAmountCents :: int

record allocation =
  alloc_lines :: "allocated_line list"
  alloc_subtotalCents :: int
  alloc_lineDiscountTotalCents :: int
  alloc_documentDiscountCents :: int
  alloc_taxAmountCents :: int

fun applyDiscount :: "int \<Rightarrow> discount option \<Rightarrow> int" where
  "applyDiscount base None = 0"
| "applyDiscount base (Some (Percentage p)) = percent_cents base p"
| "applyDiscount base (Some (Fixed a)) = min a base"

text \<open>
  The loop over \<open>remainderOrder\<close>: one cent per line, in order, until nothing is left over.
\<close>

fun hand_out :: "nat list \<Rightarrow> int \<Rightarrow> int list \<Rightarrow> int list" where
  "hand_out [] leftover shares = shares"
| "hand_out (i # is) leftover shares =
     (if leftover \<le> 0 then shares else hand_out is (leftover - 1) (shares[i := shares ! i + 1]))"

definition exact_shares :: "int list \<Rightarrow> int \<Rightarrow> jsnum list" where
  "exact_shares weights amount =
     map (\<lambda>w. js_div (js_mul (of_int w) (of_int amount)) (of_int (sum_list weights))) weights"

text \<open>
  The code sorts by descending remainder and then by index; sorting the indices in ascending order
  with a stable sort on the negated remainder is that order.
\<close>

definition remainder_order :: "jsnum list \<Rightarrow> nat list" where
  "remainder_order exact =
     map fst (sort_key (\<lambda>(i, r). - r)
       (zip [0..<length exact] (map (\<lambda>v. js_sub v (of_int \<lfloor>v\<rfloor>)) exact)))"

definition allocateShares :: "int list \<Rightarrow> int \<Rightarrow> int list" where
  "allocateShares weights amount =
     (if amount = 0 \<or> sum_list weights = 0 then map (\<lambda>_. 0) weights
      else let exact = exact_shares weights amount;
               shares = map floor exact
           in hand_out (remainder_order exact) (amount - sum_list shares) shares)"

definition line_grossCents :: "line_item_input \<Rightarrow> int" where
  "line_grossCents item = math_round (js_mul (quantity item) (of_int (unitPriceCents item)))"

definition line_discountCents :: "line_item_input \<Rightarrow> int" where
  "line_discountCents item = applyDiscount (line_grossCents item) (line_discount item)"

definition line_netCents :: "line_item_input \<Rightarrow> int" where
  "line_netCents item = line_grossCents item - line_discountCents item"

definition allocate_line :: "line_item_input \<times> int \<Rightarrow> allocated_line" where
  "allocate_line = (\<lambda>(item, share).
     \<lparr>al_grossCents = line_grossCents item,
      al_discountCents = line_discountCents item,
      al_netCents = line_netCents item,
      al_taxPercentage = taxPercentage item,
      al_documentDiscountShareCents = share,
      al_taxableCents = line_netCents item - share,
      al_taxAmountCents = percent_cents (line_netCents item - share) (taxPercentage item)\<rparr>)"

definition allocate :: "line_item_input list \<Rightarrow> discount option \<Rightarrow> allocation" where
  "allocate items discount =
     (let subtotal = sum_list (map line_grossCents items);
          lineDiscounts = sum_list (map line_discountCents items);
          documentDiscount = applyDiscount (subtotal - lineDiscounts) discount;
          shares = allocateShares (map line_netCents items) documentDiscount;
          lines = map allocate_line (zip items shares)
      in \<lparr>alloc_lines = lines, alloc_subtotalCents = subtotal,
          alloc_lineDiscountTotalCents = lineDiscounts,
          alloc_documentDiscountCents = documentDiscount,
          alloc_taxAmountCents = sum_list (map al_taxAmountCents lines)\<rparr>)"

definition calculateInvoiceTotal :: "line_item_input list \<Rightarrow> discount option \<Rightarrow> invoice_totals" where
  "calculateInvoiceTotal items discount =
     (let a = allocate items discount;
          discountTotal = alloc_lineDiscountTotalCents a + alloc_documentDiscountCents a
      in \<lparr>subtotalCents = alloc_subtotalCents a,
          discountAmountTotalCents = discountTotal,
          taxAmountCents = alloc_taxAmountCents a,
          totalCents = alloc_subtotalCents a - discountTotal + alloc_taxAmountCents a\<rparr>)"

definition calculateInvoiceLineTotals ::
  "line_item_input list \<Rightarrow> discount option \<Rightarrow> line_totals list" where
  "calculateInvoiceLineTotals items discount =
     map (\<lambda>l. \<lparr>lt_subtotalCents = al_netCents l, lt_taxAmountCents = al_taxAmountCents l,
                lt_totalCents = al_taxableCents l + al_taxAmountCents l\<rparr>)
       (alloc_lines (allocate items discount))"

section \<open>The constraints of the invoices table on these values\<close>

definition chk_invoices_discount_shape :: "discount_columns \<Rightarrow> bool" where
  "chk_invoices_discount_shape c \<longleftrightarrow>
     (dc_type c = None \<and> dc_percentage c = None \<and> dc_amount_cents c = None) \<or>
     (dc_type c = Some TypePercentage \<and> dc_percentage c \<noteq> None \<and> dc_amount_cents c = None) \<or>
     (dc_type c = Some TypeFixed \<and> dc_amount_cents c \<noteq> None \<and> dc_percentage c = None)"

definition chk_invoices_discount_ranges :: "discount_columns \<Rightarrow> bool" where
  "chk_invoices_discount_ranges c \<longleftrightarrow>
     (case dc_percentage c of None \<Rightarrow> True | Some p \<Rightarrow> 0 \<le> p \<and> p \<le> 100) \<and>
     (case dc_amount_cents c of None \<Rightarrow> True | Some a \<Rightarrow> 0 \<le> a)"

definition chk_invoices_totals :: "invoice_totals \<Rightarrow> bool" where
  "chk_invoices_totals t \<longleftrightarrow>
     0 \<le> subtotalCents t \<and> 0 \<le> discountAmountTotalCents t \<and> 0 \<le> taxAmountCents t \<and> 0 \<le> totalCents t"

text \<open>\<open>refineDiscountShape\<close> of the form schema: the issues it adds, as path and message.\<close>

definition refineDiscountShape :: "discount_values \<Rightarrow> (string \<times> message) list" where
  "refineDiscountShape v =
     (if dv_kind v = KindPercentage \<and> dv_percentage v = None
      then [(''discountPercentage'', ''invoices.validation.discountPercentageRequired'')] else []) @
     (if dv_kind v = KindFixed \<and> dv_amount v = None
      then [(''discountAmount'', ''invoices.validation.discountAmountRequired'')] else [])"

section \<open>The largest-remainder allocation\<close>

lemma length_hand_out [simp]: "length (hand_out is l sh) = length sh"
  by (induction "is" l sh rule: hand_out.induct) auto

lemma sum_list_bump: "i < length sh \<Longrightarrow> sum_list (sh[i := sh ! i + 1]) = sum_list sh + (1::int)"
proof (induction sh arbitrary: i)
  case (Cons x sh)
  then show ?case by (cases i) auto
qed simp

lemma sum_hand_out:
  "set is \<subseteq> {..<length sh} \<Longrightarrow> 0 \<le> l \<Longrightarrow> l \<le> int (length is) \<Longrightarrow>
    sum_list (hand_out is l sh) = sum_list sh + l"
  by (induction "is" l sh rule: hand_out.induct) (auto simp: sum_list_bump)

lemma nth_hand_out:
  "distinct is \<Longrightarrow> set is \<subseteq> {..<length sh} \<Longrightarrow> j < length sh \<Longrightarrow>
    hand_out is l sh ! j = sh ! j + (if j \<in> set (take (nat l) is) then 1 else 0)"
proof (induction "is" l sh rule: hand_out.induct)
  case (2 i "is" l sh)
  show ?case
  proof (cases "l \<le> 0")
    case False
    then have "nat l = Suc (nat (l - 1))" by simp
    then show ?thesis using 2 False
      by (auto simp: nth_list_update dest: in_set_takeD)
  qed simp
qed simp

lemma remainder_order_set: "set (remainder_order e) = {..<length e}"
proof -
  have "set (remainder_order e)
      = set (map fst (zip [0..<length e] (map (\<lambda>v. js_sub v (of_int \<lfloor>v\<rfloor>)) e)))"
    unfolding remainder_order_def set_map set_sort ..
  also have "\<dots> = {..<length e}" by (simp only: map_fst_zip length_map length_upt) auto
  finally show ?thesis .
qed

lemma remainder_order_distinct: "distinct (remainder_order e)"
proof -
  let ?zs = "zip [0..<length e] (map (\<lambda>v. js_sub v (of_int \<lfloor>v\<rfloor>)) e)"
  have "distinct (map fst ?zs)" by (simp add: map_fst_zip)
  then have "distinct ?zs \<and> inj_on fst (set ?zs)" unfolding distinct_map .
  then show ?thesis by (simp only: remainder_order_def distinct_map set_sort distinct_sort)
qed

lemma length_remainder_order [simp]: "length (remainder_order e) = length e"
  by (simp add: remainder_order_def)

lemma length_exact_shares [simp]: "length (exact_shares w a) = length w"
  by (simp add: exact_shares_def)

lemma length_allocateShares [simp]: "length (allocateShares w a) = length w"
  by (simp add: allocateShares_def Let_def)

lemma error_steps:
  fixes q y e :: rat
  assumes "\<bar>q - y\<bar> \<le> y / 2 ^ 53" "y \<le> 2 * e" "\<bar>y - e\<bar> \<le> e / 2 ^ 53"
  shows "\<bar>q - e\<bar> \<le> e * (3 / 2 ^ 53)"
proof -
  have "\<bar>q - e\<bar> \<le> y / 2 ^ 53 + e / 2 ^ 53" using assms(1,3) by linarith
  also have "y / 2 ^ 53 \<le> 2 * e / 2 ^ 53" using assms(2) by (rule divide_right_mono) simp
  finally show ?thesis by simp
qed

text \<open>Each quotient is within three ulps of the exact share.\<close>

lemma share_error:
  assumes "0 \<le> w" "0 \<le> a" "0 < W"
  shows "\<bar>js_div (js_mul (of_int w) (of_int a)) (of_int W) - of_int w * of_int a / of_int W\<bar>
    \<le> of_int w * of_int a / of_int W * (3 / 2 ^ 53)"
proof -
  let ?x = "of_int w * of_int a :: rat" and ?W = "of_int W :: rat"
  let ?y = "fl ?x / ?W"
  have x: "0 \<le> ?x" and W: "0 < ?W" using assms by simp_all
  have "\<bar>fl ?x - ?x\<bar> \<le> ?x / 2 ^ 53" using fl_error [of ?x] x by simp
  then have "\<bar>fl ?x - ?x\<bar> / ?W \<le> ?x / 2 ^ 53 / ?W" using W by (intro divide_right_mono) auto
  then have e1: "\<bar>?y - ?x / ?W\<bar> \<le> ?x / ?W / 2 ^ 53"
    using W by (simp add: diff_divide_distrib [symmetric] abs_divide mult.commute)
  have y: "0 \<le> ?y" using fl_nonneg [OF x] W by simp
  have "\<bar>fl ?y - ?y\<bar> \<le> ?y / 2 ^ 53" using fl_error [of ?y] y by simp
  moreover have "?y \<le> 2 * (?x / ?W)"
  proof -
    have "0 \<le> ?x / ?W" using x W by simp
    moreover from this have "?x / ?W / 2 ^ 53 \<le> ?x / ?W / 1" by (intro divide_left_mono) auto
    ultimately show ?thesis using e1 by linarith
  qed
  ultimately have "\<bar>fl ?y - ?x / ?W\<bar> \<le> ?x / ?W * (3 / 2 ^ 53)" using e1 by (rule error_steps)
  then show ?thesis by (simp add: js_div_def js_mul_def)
qed

lemma sum_list_error:
  fixes f g :: "'a \<Rightarrow> rat"
  assumes "\<And>x. x \<in> set xs \<Longrightarrow> \<bar>f x - g x\<bar> \<le> g x * c"
  shows "\<bar>sum_list (map f xs) - sum_list (map g xs)\<bar> \<le> sum_list (map g xs) * c"
  using assms
proof (induction xs)
  case (Cons x xs)
  then have "\<bar>f x - g x\<bar> \<le> g x * c"
    and "\<bar>sum_list (map f xs) - sum_list (map g xs)\<bar> \<le> sum_list (map g xs) * c" by auto
  then show ?case unfolding list.map sum_list.Cons distrib_right by linarith
qed simp

lemma sum_exact_shares:
  assumes "\<forall>w\<in>set ws. 0 \<le> w" "0 \<le> a" "0 < sum_list ws"
  shows "\<bar>sum_list (exact_shares ws a) - of_int a\<bar> \<le> of_int a * (3 / 2 ^ 53)"
proof -
  let ?g = "\<lambda>w. of_int w * of_int a / of_int (sum_list ws) :: rat"
  have "sum_list (map ?g ws) = sum_list (map of_int ws) * (of_int a / of_int (sum_list ws))"
    unfolding times_divide_eq_right [symmetric] by (rule sum_list_mult_const)
  also have "sum_list (map of_int ws) = (of_int (sum_list ws) :: rat)"
    by (induction ws) auto
  finally have "sum_list (map ?g ws) = of_int a" using assms(3) by simp
  then show ?thesis
    using sum_list_error [of ws _ ?g, OF share_error [OF _ assms(2,3)]] assms(1)
    unfolding exact_shares_def by simp
qed

lemma sum_floor_bounds:
  fixes q :: "rat list"
  shows "of_int (sum_list (map floor q)) \<le> sum_list q"
    and "sum_list q \<le> of_int (sum_list (map floor q)) + of_nat (length q)"
  by (induction q) (auto simp: algebra_simps, linarith+)

lemma leftover_bounds:
  assumes "\<forall>w\<in>set ws. 0 \<le> w" "0 \<le> a" "a \<le> 2 ^ 50" "0 < sum_list ws"
  shows "0 \<le> a - sum_list (map floor (exact_shares ws a))"
    and "a - sum_list (map floor (exact_shares ws a)) \<le> int (length ws)"
proof -
  let ?q = "exact_shares ws a"
  have "\<bar>sum_list ?q - of_int a\<bar> \<le> of_int a * (3 / 2 ^ 53)"
    by (rule sum_exact_shares [OF assms(1,2,4)])
  moreover have "(of_int a :: rat) \<le> 2 ^ 50"
    using assms(3) by (metis of_int_le_iff of_int_numeral of_int_power)
  ultimately have e: "\<bar>sum_list ?q - of_int a\<bar> < 1" by simp
  then have "(of_int (sum_list (map floor ?q)) :: rat) < of_int (a + 1)"
    using sum_floor_bounds(1) [of ?q] by simp
  then show "0 \<le> a - sum_list (map floor ?q)" by (simp only: of_int_less_iff)
  have "(of_int a :: rat) < of_int (sum_list (map floor ?q) + int (length ws) + 1)"
    using e sum_floor_bounds(2) [of ?q] by simp
  then show "a - sum_list (map floor ?q) \<le> int (length ws)" by (simp only: of_int_less_iff)
qed

lemma sum_list_zero_nonneg:
  "\<forall>w\<in>set ws. 0 \<le> (w::int) \<Longrightarrow> 0 \<le> sum_list ws"
  by (simp add: sum_list_nonneg)

lemma allocateShares_sum:
  assumes "\<forall>w\<in>set ws. 0 \<le> w" "0 \<le> a" "a \<le> 2 ^ 50" "a \<le> sum_list ws"
  shows "sum_list (allocateShares ws a) = a"
proof (cases "a = 0 \<or> sum_list ws = 0")
  case True
  then have "a = 0" using assms by auto
  then show ?thesis by (simp add: allocateShares_def)
next
  case False
  then have W: "0 < sum_list ws" using sum_list_zero_nonneg [OF assms(1)] by simp
  show ?thesis using False leftover_bounds [OF assms(1-3) W]
    by (simp add: allocateShares_def Let_def sum_hand_out remainder_order_set)
qed

lemma allocateShares_nonneg:
  assumes "\<forall>w\<in>set ws. 0 \<le> w" "0 \<le> a" "s \<in> set (allocateShares ws a)"
  shows "0 \<le> s"
proof (cases "a = 0 \<or> sum_list ws = 0")
  case False
  then have W: "0 < sum_list ws" using sum_list_zero_nonneg [OF assms(1)] by simp
  obtain j where j: "j < length ws" "s = allocateShares ws a ! j"
    using assms(3) by (auto simp: in_set_conv_nth)
  have "0 \<le> exact_shares ws a ! j"
    using j(1) assms(1,2) W by (simp add: exact_shares_def js_div_nonneg js_mul_nonneg)
  then show ?thesis using j False
    by (simp add: allocateShares_def Let_def nth_hand_out remainder_order_distinct remainder_order_set)
qed (use assms in \<open>auto simp: allocateShares_def\<close>)

lemma div_le_dividend_int: "0 \<le> p \<Longrightarrow> 0 < W \<Longrightarrow> p div W \<le> (p::int)"
  using zdiv_mono2 [of p 1 W] by simp

lemma fl_quotient:
  fixes p W :: int
  assumes "0 \<le> p" "p < 2 ^ 53" "0 < W"
  shows "\<lfloor>fl (of_int p / of_int W)\<rfloor> = p div W"
    and "of_int (p div W) < fl (of_int p / of_int W) \<longleftrightarrow> p mod W \<noteq> 0"
proof -
  let ?x = "of_int p / of_int W :: rat" and ?k = "p div W" and ?r = "p mod W"
  have W: "0 < (of_int W :: rat)" using assms by simp
  have k: "0 \<le> ?k" "?k \<le> p" using assms div_le_dividend_int [of p W] by (simp_all add: pos_imp_zdiv_nonneg_iff)
  have "p = W * ?k + ?r" by simp
  then have "(of_int p :: rat) = of_int W * of_int ?k + of_int ?r"
    by (metis of_int_add of_int_mult)
  then have x: "?x = of_int ?k + of_int ?r / of_int W" using W by (simp add: field_simps)
  have r: "0 \<le> ?r" "?r + 1 \<le> W" using assms by (simp_all add: zless_imp_add1_zle)
  have "(of_int p :: rat) < 2 ^ 53" using assms(2) by (metis of_int_less_iff of_int_numeral of_int_power)
  then have "of_int p / 2 ^ 53 / of_int W < 1 / (of_int W :: rat)"
    using W by (intro divide_strict_right_mono) auto
  then have "?x / 2 ^ 53 < 1 / of_int W" by (simp add: mult.commute)
  moreover have "0 \<le> ?x" using assms by simp
  ultimately have e: "\<bar>fl ?x - ?x\<bar> < 1 / of_int W" using fl_error [of ?x] by simp
  have "of_int (?r + 1) / of_int W \<le> (1 :: rat)" using r W by (simp add: divide_le_eq del: of_int_add)
  then have hi: "of_int ?r / of_int W + 1 / of_int W \<le> (1 :: rat)"
    by (simp add: add_divide_distrib)
  have lo: "of_int ?k \<le> fl ?x"
  proof -
    have "fl (of_int ?k) \<le> fl ?x" using r(1) W x by (intro fl_mono) simp
    then show ?thesis using k assms(2) fl_int [of ?k] by simp
  qed
  have up: "fl ?x < of_int ?k + 1" using e hi x by linarith
  show "\<lfloor>fl ?x\<rfloor> = ?k" using lo up by (simp add: floor_eq_iff)
  show "of_int ?k < fl ?x \<longleftrightarrow> ?r \<noteq> 0"
  proof
    assume "?r \<noteq> 0"
    then have "1 \<le> ?r" using r by linarith
    then have "1 / of_int W \<le> of_int ?r / (of_int W :: rat)"
      using W by (intro divide_right_mono) auto
    then show "of_int ?k < fl ?x" using e x by linarith
  next
    assume "of_int ?k < fl ?x"
    then show "?r \<noteq> 0" using x fl_int [of ?k] k assms(2) by auto
  qed
qed

lemma take_sorted_neg:
  fixes f :: "'a \<Rightarrow> rat"
  shows "sorted (map f xs) \<Longrightarrow> n \<le> length (filter (\<lambda>x. f x < 0) xs) \<Longrightarrow> x \<in> set (take n xs) \<Longrightarrow> f x < 0"
proof (induction xs arbitrary: n)
  case (Cons y xs)
  show ?case
  proof (cases "f y < 0")
    case True
    then show ?thesis using Cons by (cases n) auto
  next
    case False
    then have "filter (\<lambda>x. f x < 0) (y # xs) = []" using Cons.prems(1) by (auto simp: filter_empty_conv)
    then show ?thesis using Cons.prems by simp
  qed
qed simp

lemma nth_le_sum_list: "\<forall>w\<in>set ws. 0 \<le> (w::int) \<Longrightarrow> i < length ws \<Longrightarrow> ws ! i \<le> sum_list ws"
proof (induction ws arbitrary: i)
  case (Cons w ws)
  then show ?case using sum_list_zero_nonneg [of ws] by (cases i) (auto intro: add_increasing)
qed simp

text \<open>An index among the first \<open>n\<close> of the order has a dropped fraction when \<open>n\<close> indices have one.\<close>

lemma remainder_order_take:
  assumes "n \<le> card {i. i < length e \<and> of_int \<lfloor>e ! i\<rfloor> < e ! i}"
    and "i \<in> set (take n (remainder_order e))"
  shows "of_int \<lfloor>e ! i\<rfloor> < e ! i"
proof -
  let ?rem = "\<lambda>v. js_sub v (of_int \<lfloor>v\<rfloor>)"
  let ?f = "\<lambda>(i::nat, r::jsnum). - r"
  let ?zs = "zip [0..<length e] (map ?rem e)"
  let ?xs = "sort_key ?f ?zs"
  have rem: "0 < ?rem v \<longleftrightarrow> of_int \<lfloor>v\<rfloor> < v" for v
    proof (cases "of_int \<lfloor>v\<rfloor> = v")
    case False
    then have "of_int \<lfloor>v\<rfloor> < v" by linarith
    then show ?thesis using fl_pos [of "v - of_int \<lfloor>v\<rfloor>"] by (simp add: js_sub_def)
  qed (use fl_0 in \<open>auto simp: js_sub_def\<close>)
  have "filter (\<lambda>x. ?f x < 0) ?xs = sort_key ?f (filter (\<lambda>x. ?f x < 0) ?zs)" by (rule filter_sort)
  then have len: "length (filter (\<lambda>x. ?f x < 0) ?xs) = length (filter (\<lambda>x. ?f x < 0) ?zs)" by simp
  have zs: "?zs = map (\<lambda>i. (i, ?rem (e ! i))) [0..<length e]"
    by (rule nth_equalityI) auto
  have "length (filter (\<lambda>x. ?f x < 0) ?zs) = card {i. i < length e \<and> of_int \<lfloor>e ! i\<rfloor> < e ! i}"
    by (simp add: zs filter_map comp_def rem distinct_length_filter Int_def conj_commute)
  then have n: "n \<le> length (filter (\<lambda>x. ?f x < 0) ?xs)" using assms(1) len by simp
  obtain p where p: "p \<in> set (take n ?xs)" "fst p = i"
    using assms(2) by (auto simp: remainder_order_def take_map)
  have "?f p < 0" by (rule take_sorted_neg [OF sorted_sort_key n p(1)])
  moreover have "p \<in> set ?zs" using p(1) in_set_takeD set_sort by metis
  ultimately show ?thesis using p(2) by (auto simp: set_zip rem)
qed

lemma leftover_le_card:
  assumes "0 < sum_list ws"
  shows "nat (a - (\<Sum>i<length ws. ws ! i * a div sum_list ws))
    \<le> card {i. i < length ws \<and> ws ! i * a mod sum_list ws \<noteq> (0::int)}"
proof -
  let ?W = "sum_list ws" and ?n = "length ws"
  have "?W * a = (\<Sum>i<?n. ws ! i * a)"
    by (simp add: sum_list_sum_nth atLeast0LessThan sum_distrib_right)
  also have "\<dots> = (\<Sum>i<?n. ?W * (ws ! i * a div ?W) + ws ! i * a mod ?W)" by simp
  also have "\<dots> = ?W * (\<Sum>i<?n. ws ! i * a div ?W) + (\<Sum>i<?n. ws ! i * a mod ?W)"
    by (simp only: sum.distrib sum_distrib_left)
  finally have "?W * (a - (\<Sum>i<?n. ws ! i * a div ?W)) = (\<Sum>i<?n. ws ! i * a mod ?W)"
    by (simp add: right_diff_distrib)
  also have "\<dots> \<le> (\<Sum>i<?n. if ws ! i * a mod ?W \<noteq> 0 then ?W else 0)"
    using assms by (intro sum_mono) (simp add: less_imp_le)
  also have "\<dots> = ?W * int (card {i. i < ?n \<and> ws ! i * a mod ?W \<noteq> 0})"
    by (simp add: sum.If_cases Int_def conj_commute)
  finally show ?thesis using assms by (simp add: mult_le_cancel_left)
qed

lemma allocateShares_le:
  assumes "\<forall>w\<in>set ws. 0 \<le> w" "0 \<le> a" "a \<le> sum_list ws" "sum_list ws * a < 2 ^ 53"
    and "j < length ws"
  shows "allocateShares ws a ! j \<le> ws ! j"
proof (cases "a = 0 \<or> sum_list ws = 0")
  case True
  then show ?thesis using assms by (simp add: allocateShares_def)
next
  case False
  let ?W = "sum_list ws" and ?q = "exact_shares ws a"
  have W: "0 < ?W" using False sum_list_zero_nonneg [OF assms(1)] by simp
  have p: "0 \<le> ws ! i * a \<and> ws ! i * a < 2 ^ 53 \<and> ws ! i \<le> ?W" if "i < length ws" for i
  proof -
    have "0 \<le> ws ! i" "ws ! i \<le> ?W" using that assms(1) nth_le_sum_list by auto
    then show ?thesis using assms(2,4) mult_right_mono [of "ws ! i" ?W a] by auto
  qed
  have q: "?q ! i = fl (of_int (ws ! i * a) / of_int ?W)" if "i < length ws" for i
    using that p [OF that] fl_int [of "ws ! i * a"] by (simp add: exact_shares_def js_div_def js_mul_def)
  note fq = fl_quotient [OF _ _ W]
  have fl: "\<lfloor>?q ! i\<rfloor> = ws ! i * a div ?W" if "i < length ws" for i
    using fq(1) [of "ws ! i * a"] p [OF that] q [OF that] by (simp del: of_int_mult)
  have pos: "of_int \<lfloor>?q ! i\<rfloor> < ?q ! i \<longleftrightarrow> ws ! i * a mod ?W \<noteq> 0" if "i < length ws" for i
    using fq [of "ws ! i * a"] p [OF that] q [OF that] by (simp del: of_int_mult)
  let ?shares = "map floor ?q" and ?N = "{i. i < length ws \<and> ws ! i * a mod ?W \<noteq> 0}"
  have N: "?N = {i. i < length ?q \<and> of_int \<lfloor>?q ! i\<rfloor> < ?q ! i}" using pos by auto
  have "sum_list ?shares = (\<Sum>i<length ws. ws ! i * a div ?W)"
    by (simp add: sum_list_sum_nth atLeast0LessThan fl)
  then have left: "nat (a - sum_list ?shares) \<le> card ?N"
    using leftover_le_card [OF W] by simp
  have sh: "allocateShares ws a ! j
      = ws ! j * a div ?W + (if j \<in> set (take (nat (a - sum_list ?shares)) (remainder_order ?q)) then 1 else 0)"
    using False assms(5)
    by (simp add: allocateShares_def Let_def nth_hand_out remainder_order_distinct remainder_order_set fl)
  have le: "ws ! j * a div ?W \<le> ws ! j" and lt: "ws ! j * a mod ?W \<noteq> 0 \<Longrightarrow> ws ! j * a div ?W < ws ! j"
  proof -
    have m: "ws ! j * a \<le> ws ! j * ?W" using assms by (intro mult_left_mono) auto
    show le: "ws ! j * a div ?W \<le> ws ! j" using zdiv_mono1 [OF m W] W by simp
    assume n: "ws ! j * a mod ?W \<noteq> 0"
    show "ws ! j * a div ?W < ws ! j"
    proof (rule ccontr)
      assume "\<not> ?thesis"
      then have "ws ! j * a div ?W = ws ! j" using le by simp
      then have "ws ! j * a = ?W * ws ! j + ws ! j * a mod ?W" by (metis mult_div_mod_eq)
      moreover have "0 < ws ! j * a mod ?W" using n pos_mod_sign [OF W, of "ws ! j * a"] by linarith
      ultimately show False using m by (simp add: mult.commute)
    qed
  qed
  show ?thesis
  proof (cases "j \<in> set (take (nat (a - sum_list ?shares)) (remainder_order ?q))")
    case True
    then have "of_int \<lfloor>?q ! j\<rfloor> < ?q ! j" by (rule remainder_order_take [OF left [unfolded N]])
    then have "ws ! j * a div ?W < ws ! j" using pos [OF assms(5)] lt by blast
    then show ?thesis unfolding sh using True by (simp only: if_True)
  next
    case False
    then show ?thesis unfolding sh using le by (simp only: if_False add_0_right)
  qed
qed

section \<open>What an allocation promises\<close>

lemma zip_sum:
  "length ss = length xs \<Longrightarrow>
    sum_list (map (\<lambda>(x, s). f x - s + g x s) (zip xs ss))
    = sum_list (map f xs) - sum_list ss + sum_list (map (\<lambda>(x, s). g x s) (zip xs (ss :: int list)))"
  by (induction ss xs rule: list_induct2) auto

text \<open>
  The contract between the pricing of a document and the routine that splits its discount: one share
  per line, adding up to the discount, none negative, and none above its line's net while the
  products stay below \<open>2 ^ 53\<close>. Both documents that carry a document discount use it.
\<close>

locale share_allocator =
  fixes shares :: "int list \<Rightarrow> int \<Rightarrow> int list"
  assumes length_shares: "length (shares ws a) = length ws"
    and sum_shares: "\<forall>w\<in>set ws. 0 \<le> w \<Longrightarrow> 0 \<le> a \<Longrightarrow> a \<le> 2 ^ 50 \<Longrightarrow> a \<le> sum_list ws \<Longrightarrow>
      sum_list (shares ws a) = a"
    and shares_nonneg: "\<forall>w\<in>set ws. 0 \<le> w \<Longrightarrow> 0 \<le> a \<Longrightarrow> s \<in> set (shares ws a) \<Longrightarrow> 0 \<le> s"
    and shares_le: "\<forall>w\<in>set ws. 0 \<le> w \<Longrightarrow> 0 \<le> a \<Longrightarrow> a \<le> sum_list ws \<Longrightarrow>
      sum_list ws * a < 2 ^ 53 \<Longrightarrow> j < length ws \<Longrightarrow> shares ws a ! j \<le> ws ! j"
begin

text \<open>Lines priced as net less share plus tax add up to the document total.\<close>

lemma lines_sum:
  assumes "\<forall>x\<in>set xs. 0 \<le> net x" "0 \<le> a" "a \<le> 2 ^ 50" "a \<le> sum_list (map net xs)"
  shows "sum_list (map (\<lambda>(x, s). net x - s + tax x s) (zip xs (shares (map net xs) a)))
    = sum_list (map net xs) - a
      + sum_list (map (\<lambda>(x, s). tax x s) (zip xs (shares (map net xs) a)))"
  using sum_shares [of "map net xs" a] assms by (simp add: zip_sum length_shares)

lemma taxable_nonneg:
  assumes "\<forall>x\<in>set xs. 0 \<le> net x" "0 \<le> a" "a \<le> sum_list (map net xs)"
    and "sum_list (map net xs) * a < 2 ^ 53" "(x, s) \<in> set (zip xs (shares (map net xs) a))"
  shows "0 \<le> net x - s"
proof -
  obtain j where "j < length xs" "x = xs ! j" "s = shares (map net xs) a ! j"
    using assms(5) by (auto simp: set_zip length_shares)
  then show ?thesis using shares_le [of "map net xs" a j] assms(1-4) by simp
qed

end

interpretation inv_shares: share_allocator allocateShares
  by unfold_locales
    (auto simp: allocateShares_sum allocateShares_le intro: allocateShares_nonneg)

section \<open>What a submitted line and discount satisfy\<close>

fun valid_discount :: "discount option \<Rightarrow> bool" where
  "valid_discount None = True"
| "valid_discount (Some (Percentage p)) = (0 \<le> p \<and> p \<le> 100)"
| "valid_discount (Some (Fixed a)) = (0 \<le> a)"

text \<open>
  What \<open>invoiceLineItemSchema\<close> lets through (quantity and price not negative, discount in range, the
  tax percentage of a \<open>tax_rates\<close> row), with a bound on the gross amount that keeps the percentage
  products exact: \<open>2 ^ 46\<close> cents.
\<close>

definition valid_line :: "line_item_input \<Rightarrow> bool" where
  "valid_line item \<longleftrightarrow> 0 \<le> quantity item \<and> 0 \<le> unitPriceCents item \<and> valid_discount (line_discount item)
     \<and> 0 \<le> taxPercentage item \<and> line_grossCents item \<le> 2 ^ 46"

lemma applyDiscount_bounds:
  "valid_discount d \<Longrightarrow> 0 \<le> base \<Longrightarrow> base \<le> 2 ^ 46 \<Longrightarrow> 0 \<le> applyDiscount base d \<and> applyDiscount base d \<le> base"
  by (cases "(base, d)" rule: applyDiscount.cases) (auto simp: percent_cents_nonneg percent_cents_le)

lemma line_gross_nonneg: "valid_line item \<Longrightarrow> 0 \<le> line_grossCents item"
  by (simp add: valid_line_def line_grossCents_def math_round_nonneg js_mul_nonneg)

lemma line_discount_bounds:
  "valid_line item \<Longrightarrow> 0 \<le> line_discountCents item \<and> line_discountCents item \<le> line_grossCents item"
  using applyDiscount_bounds line_gross_nonneg by (auto simp: line_discountCents_def valid_line_def)

lemma line_net_bounds: "valid_line item \<Longrightarrow> 0 \<le> line_netCents item \<and> line_netCents item \<le> line_grossCents item"
  using line_discount_bounds by (simp add: line_netCents_def)

lemma sum_net: "sum_list (map line_grossCents items) - sum_list (map line_discountCents items)
    = sum_list (map line_netCents items)"
  by (induction items) (auto simp: line_netCents_def)

lemma valid_sums:
  assumes "\<forall>i\<in>set items. valid_line i"
  shows "0 \<le> sum_list (map line_discountCents items)" "0 \<le> sum_list (map line_grossCents items)"
    and "0 \<le> sum_list (map line_netCents items)"
    and "sum_list (map line_netCents items) \<le> sum_list (map line_grossCents items)"
  using assms line_net_bounds line_gross_nonneg line_discount_bounds
  by (auto intro!: sum_list_nonneg sum_list_mono)

definition documentDiscount :: "line_item_input list \<Rightarrow> discount option \<Rightarrow> int" where
  "documentDiscount items d = applyDiscount (sum_list (map line_netCents items)) d"

lemma documentDiscount_bounds:
  assumes "\<forall>i\<in>set items. valid_line i" "valid_discount d" "sum_list (map line_grossCents items) \<le> 2 ^ 46"
  shows "0 \<le> documentDiscount items d" "documentDiscount items d \<le> sum_list (map line_netCents items)"
    and "documentDiscount items d \<le> 2 ^ 50"
  using applyDiscount_bounds [OF assms(2), of "sum_list (map line_netCents items)"]
    valid_sums [OF assms(1)] assms(3)
  by (auto simp: documentDiscount_def)

lemma allocate_fields:
  "alloc_subtotalCents (allocate items d) = sum_list (map line_grossCents items)"
  "alloc_lineDiscountTotalCents (allocate items d) = sum_list (map line_discountCents items)"
  "alloc_documentDiscountCents (allocate items d) = documentDiscount items d"
  "alloc_lines (allocate items d)
    = map allocate_line (zip items (allocateShares (map line_netCents items) (documentDiscount items d)))"
  "alloc_taxAmountCents (allocate items d) = sum_list (map al_taxAmountCents (alloc_lines (allocate items d)))"
  by (simp_all add: allocate_def Let_def sum_net documentDiscount_def)

lemma line_totals_sum:
  assumes "\<forall>i\<in>set items. valid_line i" "valid_discount d" "sum_list (map line_grossCents items) \<le> 2 ^ 46"
  shows "sum_list (map lt_totalCents (calculateInvoiceLineTotals items d))
    = totalCents (calculateInvoiceTotal items d)"
    and "sum_list (map lt_taxAmountCents (calculateInvoiceLineTotals items d))
    = taxAmountCents (calculateInvoiceTotal items d)"
proof -
  let ?a = "documentDiscount items d"
  let ?zs = "zip items (allocateShares (map line_netCents items) ?a)"
  let ?tax = "\<lambda>i s. percent_cents (line_netCents i - s) (taxPercentage i)"
  have lines: "sum_list (map (\<lambda>(i, s). line_netCents i - s + ?tax i s) ?zs)
      = sum_list (map line_netCents items) - ?a + sum_list (map (\<lambda>(i, s). ?tax i s) ?zs)"
    using line_net_bounds assms(1)
    by (intro inv_shares.lines_sum documentDiscount_bounds [OF assms]) auto
  have "sum_list (map lt_totalCents (calculateInvoiceLineTotals items d))
      = sum_list (map (\<lambda>(i, s). line_netCents i - s + ?tax i s) ?zs)"
    by (simp add: calculateInvoiceLineTotals_def allocate_fields comp_def allocate_line_def case_prod_unfold)
  moreover have "totalCents (calculateInvoiceTotal items d)
      = sum_list (map line_netCents items) - ?a + sum_list (map (\<lambda>(i, s). ?tax i s) ?zs)"
    by (simp add: calculateInvoiceTotal_def Let_def allocate_fields comp_def allocate_line_def
        case_prod_unfold sum_net [symmetric])
  ultimately show "sum_list (map lt_totalCents (calculateInvoiceLineTotals items d))
    = totalCents (calculateInvoiceTotal items d)" using lines by simp
qed (simp add: calculateInvoiceLineTotals_def calculateInvoiceTotal_def Let_def allocate_fields comp_def)

lemma totals_nonneg:
  assumes "\<forall>i\<in>set items. valid_line i" "valid_discount d"
    and "sum_list (map line_grossCents items) \<le> 2 ^ 46"
    and "sum_list (map line_netCents items) * documentDiscount items d < 2 ^ 53"
  shows "0 \<le> taxAmountCents (calculateInvoiceTotal items d)"
    and "0 \<le> totalCents (calculateInvoiceTotal items d)"
    and "0 \<le> discountAmountTotalCents (calculateInvoiceTotal items d)"
    and "discountAmountTotalCents (calculateInvoiceTotal items d) \<le> subtotalCents (calculateInvoiceTotal items d)"
    and "0 \<le> subtotalCents (calculateInvoiceTotal items d)"
    and "\<forall>l\<in>set (calculateInvoiceLineTotals items d). 0 \<le> lt_taxAmountCents l \<and> 0 \<le> lt_totalCents l"
proof -
  note b = documentDiscount_bounds [OF assms(1-3)] and v = valid_sums [OF assms(1)]
  have tax: "0 \<le> al_taxableCents l" "0 \<le> al_taxAmountCents l" if l: "l \<in> set (alloc_lines (allocate items d))" for l
  proof -
    obtain i s where mem: "(i, s) \<in> set (zip items (allocateShares (map line_netCents items) (documentDiscount items d)))"
        "l = allocate_line (i, s)" using l by (auto simp: allocate_fields)
    then have "0 \<le> line_netCents i - s"
      using assms line_net_bounds by (intro inv_shares.taxable_nonneg [OF _ b(1,2)]) auto
    moreover have "0 \<le> taxPercentage i" using mem(1) assms(1) by (auto dest!: set_zip_leftD simp: valid_line_def)
    ultimately show "0 \<le> al_taxableCents l" "0 \<le> al_taxAmountCents l"
      using mem(2) by (simp_all add: allocate_line_def percent_cents_nonneg)
  qed
  show "0 \<le> taxAmountCents (calculateInvoiceTotal items d)"
    unfolding calculateInvoiceTotal_def Let_def
    using tax by (auto simp: allocate_fields(5) intro!: sum_list_nonneg)
  then show "0 \<le> totalCents (calculateInvoiceTotal items d)"
    using b v sum_net [of items] by (simp add: calculateInvoiceTotal_def Let_def allocate_fields)
  show "0 \<le> discountAmountTotalCents (calculateInvoiceTotal items d)"
    "discountAmountTotalCents (calculateInvoiceTotal items d) \<le> subtotalCents (calculateInvoiceTotal items d)"
    "0 \<le> subtotalCents (calculateInvoiceTotal items d)"
    using b v sum_net [of items] by (simp_all add: calculateInvoiceTotal_def Let_def allocate_fields)
  show "\<forall>l\<in>set (calculateInvoiceLineTotals items d). 0 \<le> lt_taxAmountCents l \<and> 0 \<le> lt_totalCents l"
    using tax by (auto simp: calculateInvoiceLineTotals_def)
qed

lemma column_discount_round_trip: "toInvoiceColumnDiscount (toInvoiceDiscountColumns v) = toInvoiceDiscount v"
  by (auto simp: toInvoiceDiscountColumns_def no_discount_columns_def
      split: option.splits discount_kind.splits discount.splits)

lemma discount_columns_meet_checks:
  "chk_invoices_discount_shape (toInvoiceDiscountColumns v)"
  "valid_discount (toInvoiceDiscount v) \<Longrightarrow> chk_invoices_discount_ranges (toInvoiceDiscountColumns v)"
  by (auto simp: toInvoiceDiscountColumns_def no_discount_columns_def chk_invoices_discount_shape_def
      chk_invoices_discount_ranges_def split: option.splits discount_kind.splits discount.splits)

lemma refined_discount_kept:
  "refineDiscountShape v = [] \<Longrightarrow> toInvoiceDiscount v = None \<longleftrightarrow> dv_kind v = KindNone"
  by (auto simp: refineDiscountShape_def split: option.splits discount_kind.splits if_splits)

section \<open>Properties\<close>

definition sample_items :: "line_item_input list" where
  "sample_items =
     [\<lparr>quantity = 3/2, unitPriceCents = 3333, line_discount = Some (Percentage 10), taxPercentage = 23\<rparr>,
      \<lparr>quantity = 2, unitPriceCents = 505, line_discount = Some (Fixed 99), taxPercentage = 6\<rparr>,
      \<lparr>quantity = 1, unitPriceCents = 10, line_discount = None, taxPercentage = 0\<rparr>]"



text \<open>
  The totals of an invoice meet \<open>chk_invoices_totals\<close>, the discount never exceeds the subtotal, and
  no line is stored with a negative tax or total, as long as the product of the net total and the
  document discount stays below \<open>2 ^ 53\<close>.
\<close>

theorem invoice_totals_meet_checks:
  assumes "\<forall>i\<in>set items. valid_line i" "valid_discount d"
    and "sum_list (map line_grossCents items) \<le> 2 ^ 46"
    and "sum_list (map line_netCents items) * documentDiscount items d < 2 ^ 53"
  shows "chk_invoices_totals (calculateInvoiceTotal items d)
       \<and> discountAmountTotalCents (calculateInvoiceTotal items d) \<le> subtotalCents (calculateInvoiceTotal items d)
       \<and> (\<forall>l\<in>set (calculateInvoiceLineTotals items d). 0 \<le> lt_taxAmountCents l \<and> 0 \<le> lt_totalCents l)"
  unfolding chk_invoices_totals_def using totals_nonneg [OF assms] by blast

lemma invoice_totals_meet_checks_witness:
  "chk_invoices_totals (calculateInvoiceTotal sample_items (Some (Fixed 1234)))
   \<and> discountAmountTotalCents (calculateInvoiceTotal sample_items (Some (Fixed 1234)))
       \<le> subtotalCents (calculateInvoiceTotal sample_items (Some (Fixed 1234)))"
proof -
  have "\<forall>i\<in>set sample_items. valid_line i" "valid_discount (Some (Fixed 1234))"
    "sum_list (map line_grossCents sample_items) \<le> 2 ^ 46"
    "sum_list (map line_netCents sample_items) * documentDiscount sample_items (Some (Fixed 1234)) < 2 ^ 53"
    by code_simp+
  from invoice_totals_meet_checks [OF this] show ?thesis by simp
qed

text \<open>
  The largest-remainder allocation hands out exactly the discount, one non-negative share per line,
  and never more to a line than its net amount.
\<close>

theorem allocateShares_exact:
  assumes "\<forall>w\<in>set weights. 0 \<le> w" "0 \<le> amount" "amount \<le> sum_list weights"
    and "sum_list weights * amount < 2 ^ 53" "amount \<le> 2 ^ 50"
  shows "length (allocateShares weights amount) = length weights
       \<and> sum_list (allocateShares weights amount) = amount
       \<and> (\<forall>j < length weights. 0 \<le> allocateShares weights amount ! j
            \<and> allocateShares weights amount ! j \<le> weights ! j)"
proof (intro conjI allI impI)
  fix j assume j: "j < length weights"
  then have "allocateShares weights amount ! j \<in> set (allocateShares weights amount)" by simp
  then show "0 \<le> allocateShares weights amount ! j" by (rule inv_shares.shares_nonneg [OF assms(1,2)])
  show "allocateShares weights amount ! j \<le> weights ! j"
    using j by (rule inv_shares.shares_le [OF assms(1-4)])
qed (use inv_shares.length_shares inv_shares.sum_shares [OF assms(1,2,5,3)] in auto)

lemma allocateShares_exact_witness:
  "sum_list (allocateShares [10, 10, 10] 10) = 10 \<and> allocateShares [10, 10, 10] 10 = [4, 3, 3]"
proof -
  have "allocateShares [10, 10, 10] 10 = [4, 3, 3]" by code_simp
  with allocateShares_exact [of "[10, 10, 10]" 10] show ?thesis by simp
qed

text \<open>
  A discount written to the columns reads back as the discount submitted, the columns always have
  the shape \<open>chk_invoices_discount_shape\<close> demands, and a submission the schema raises no issue
  about loses its discount only when it has none.
\<close>

theorem discount_columns_round_trip:
  "toInvoiceColumnDiscount (toInvoiceDiscountColumns v) = toInvoiceDiscount v
   \<and> chk_invoices_discount_shape (toInvoiceDiscountColumns v)
   \<and> (refineDiscountShape v = [] \<longrightarrow>
        (toInvoiceColumnDiscount (toInvoiceDiscountColumns v) = None \<longleftrightarrow> dv_kind v = KindNone))"
  using column_discount_round_trip discount_columns_meet_checks(1) refined_discount_kept by metis

lemma discount_columns_round_trip_witness:
  "toInvoiceColumnDiscount (toInvoiceDiscountColumns
     \<lparr>dv_kind = KindFixed, dv_percentage = None, dv_amount = Some 250\<rparr>) \<noteq> None"
proof -
  let ?v = "\<lparr>dv_kind = KindFixed, dv_percentage = None, dv_amount = Some (250::int)\<rparr>"
  have "refineDiscountShape ?v = []" by (simp add: refineDiscountShape_def)
  then show ?thesis using discount_columns_round_trip [of ?v] by simp
qed

end
