(* ===== verification/CreditNoteTotals.thy ===== *)
theory CreditNoteTotals
  imports InvoiceTotals
begin

text \<open>
  The credit-note arithmetic (\<open>features/creditNotes/services/calculateCreditNoteTotal.ts\<close>,
  \<open>creditNoteDiscount.ts\<close>, \<open>effectiveReceivable.ts\<close>). The discount and line types are structurally the
  ones of the invoice and share its records. The lemmas show that the stored lines add up, that the
  totals meet \<open>chk_credit_notes_totals\<close>, and that a credit note over the lines of an invoice without
  a document discount is worth exactly that invoice.
\<close>

section \<open>Definitions\<close>

record credit_note_totals =
  cnt_subtotalCents :: int
  cnt_taxAmountCents :: int
  cnt_totalCents :: int

record credit_allocated_line =
  cal_netCents :: int
  cal_taxAmountCents :: int

fun credit_applyDiscount :: "int \<Rightarrow> discount option \<Rightarrow> int" where
  "credit_applyDiscount base None = 0"
| "credit_applyDiscount base (Some (Percentage p)) = percent_cents base p"
| "credit_applyDiscount base (Some (Fixed a)) = min a base"

definition credit_allocate_line :: "line_item_input \<Rightarrow> credit_allocated_line" where
  "credit_allocate_line item =
     (let gross = math_round (js_mul (quantity item) (of_int (unitPriceCents item)));
          net = gross - credit_applyDiscount gross (line_discount item)
      in \<lparr>cal_netCents = net, cal_taxAmountCents = percent_cents net (taxPercentage item)\<rparr>)"

definition credit_allocate :: "line_item_input list \<Rightarrow> credit_allocated_line list" where
  "credit_allocate items = map credit_allocate_line items"

definition calculateCreditNoteTotal :: "line_item_input list \<Rightarrow> credit_note_totals" where
  "calculateCreditNoteTotal items =
     (let lines = credit_allocate items;
          subtotal = sum_list (map cal_netCents lines);
          tax = sum_list (map cal_taxAmountCents lines)
      in \<lparr>cnt_subtotalCents = subtotal, cnt_taxAmountCents = tax, cnt_totalCents = subtotal + tax\<rparr>)"

definition calculateCreditNoteLineTotals :: "line_item_input list \<Rightarrow> line_totals list" where
  "calculateCreditNoteLineTotals items =
     map (\<lambda>l. \<lparr>lt_subtotalCents = cal_netCents l, lt_taxAmountCents = cal_taxAmountCents l,
                lt_totalCents = cal_netCents l + cal_taxAmountCents l\<rparr>) (credit_allocate items)"

fun toCreditNoteDiscount :: "discount_values \<Rightarrow> discount option" where
  "toCreditNoteDiscount v =
     (case (dv_kind v, dv_percentage v, dv_amount v) of
        (KindPercentage, Some p, _) \<Rightarrow> Some (Percentage p)
      | (KindFixed, _, Some a) \<Rightarrow> Some (Fixed a)
      | _ \<Rightarrow> None)"

definition toCreditNoteDiscountColumns :: "discount_values \<Rightarrow> discount_columns" where
  "toCreditNoteDiscountColumns v =
     (case toCreditNoteDiscount v of
        None \<Rightarrow> no_discount_columns
      | Some (Percentage p) \<Rightarrow>
          \<lparr>dc_type = Some TypePercentage, dc_percentage = Some p, dc_amount_cents = None\<rparr>
      | Some (Fixed a) \<Rightarrow>
          \<lparr>dc_type = Some TypeFixed, dc_percentage = None, dc_amount_cents = Some a\<rparr>)"

definition sumCreditNoteTotalCents :: "int list \<Rightarrow> int" where
  "sumCreditNoteTotalCents totals = sum_list totals"

definition computeInvoiceEffectiveReceivable :: "int \<Rightarrow> int list \<Rightarrow> int" where
  "computeInvoiceEffectiveReceivable invoiceTotal credits =
     max (invoiceTotal - sumCreditNoteTotalCents credits) 0"

definition chk_credit_notes_totals :: "credit_note_totals \<Rightarrow> bool" where
  "chk_credit_notes_totals t \<longleftrightarrow>
     0 \<le> cnt_subtotalCents t \<and> 0 \<le> cnt_taxAmountCents t \<and> 0 \<le> cnt_totalCents t"

section \<open>Lemmas\<close>

lemma credit_applyDiscount_eq: "credit_applyDiscount base d = applyDiscount base d"
  by (cases "(base, d)" rule: applyDiscount.cases) auto

lemma credit_line_fields:
  "cal_netCents (credit_allocate_line i) = line_netCents i"
  "cal_taxAmountCents (credit_allocate_line i) = percent_cents (line_netCents i) (taxPercentage i)"
  by (simp_all add: credit_allocate_line_def Let_def credit_applyDiscount_eq line_netCents_def
      line_discountCents_def line_grossCents_def)

lemma allocateShares_zero: "allocateShares ws 0 = map (\<lambda>_. 0) ws"
  by (simp add: allocateShares_def)

lemma plain_allocation:
  "alloc_lines (allocate items None) = map (\<lambda>i. allocate_line (i, 0)) items"
  by (simp add: allocate_fields documentDiscount_def allocateShares_zero) (induction items, auto)

lemma credit_lines_sum:
  "cnt_totalCents (calculateCreditNoteTotal items) = sum_list (map lt_totalCents (calculateCreditNoteLineTotals items))"
proof -
  have "sum_list (map line_netCents items)
      + sum_list (map (\<lambda>i. percent_cents (line_netCents i) (taxPercentage i)) items)
      = sum_list (map (\<lambda>i. line_netCents i + percent_cents (line_netCents i) (taxPercentage i)) items)"
    by (induction items) auto
  then show ?thesis
    by (simp add: calculateCreditNoteTotal_def calculateCreditNoteLineTotals_def Let_def credit_allocate_def comp_def
        credit_line_fields)
qed

section \<open>Properties\<close>

text \<open>
  A credit note over given lines is worth exactly what an invoice over the same lines without a
  document discount is worth: same total, same tax, and its subtotal is the invoice's subtotal net of
  the line discounts; its lines are stored with the same three amounts as the invoice's.
\<close>

theorem credit_note_mirrors_invoice:
  "cnt_totalCents (calculateCreditNoteTotal items) = totalCents (calculateInvoiceTotal items None)
   \<and> cnt_taxAmountCents (calculateCreditNoteTotal items) = taxAmountCents (calculateInvoiceTotal items None)
   \<and> cnt_subtotalCents (calculateCreditNoteTotal items)
       = subtotalCents (calculateInvoiceTotal items None)
         - discountAmountTotalCents (calculateInvoiceTotal items None)
   \<and> calculateCreditNoteLineTotals items = calculateInvoiceLineTotals items None"
proof -
  have tax: "alloc_taxAmountCents (allocate items None)
      = sum_list (map (\<lambda>i. percent_cents (line_netCents i) (taxPercentage i)) items)"
    by (simp add: allocate_fields(5) plain_allocation comp_def allocate_line_def)
  show ?thesis
    using sum_net [of items]
    by (simp add: calculateCreditNoteTotal_def calculateInvoiceTotal_def Let_def credit_allocate_def comp_def
        credit_line_fields tax allocate_fields(1-3) documentDiscount_def
        calculateCreditNoteLineTotals_def calculateInvoiceLineTotals_def plain_allocation allocate_line_def)
qed

text \<open>
  The totals of a credit note meet \<open>chk_credit_notes_totals\<close>, are subtotal plus tax, and are the
  sum of its stored lines.
\<close>

theorem credit_note_totals_meet_checks:
  assumes "\<forall>i\<in>set items. valid_line i"
  shows "chk_credit_notes_totals (calculateCreditNoteTotal items)
       \<and> cnt_totalCents (calculateCreditNoteTotal items)
           = sum_list (map lt_totalCents (calculateCreditNoteLineTotals items))"
proof -
  have "0 \<le> line_netCents i \<and> 0 \<le> percent_cents (line_netCents i) (taxPercentage i)" if "i \<in> set items" for i
    using assms that line_net_bounds percent_cents_nonneg by (auto simp: valid_line_def)
  then have pos: "0 \<le> sum_list (map line_netCents items)"
    "0 \<le> sum_list (map (\<lambda>i. percent_cents (line_netCents i) (taxPercentage i)) items)"
    by (auto intro!: sum_list_nonneg)
  have "chk_credit_notes_totals (calculateCreditNoteTotal items)"
    using pos by (simp add: chk_credit_notes_totals_def calculateCreditNoteTotal_def Let_def credit_allocate_def comp_def
        credit_line_fields)
  then show ?thesis using credit_lines_sum by (intro conjI) simp_all
qed

lemma credit_note_totals_meet_checks_witness:
  "chk_credit_notes_totals (calculateCreditNoteTotal sample_items)"
proof -
  have "\<forall>i\<in>set sample_items. valid_line i" by code_simp
  from credit_note_totals_meet_checks [OF this] show ?thesis by simp
qed

end
