(* ===== verification/ProposalTotals.thy ===== *)
theory ProposalTotals
  imports InvoiceTotals
begin

text \<open>
  The proposal arithmetic of \<open>features/proposals/services/calculateProposalTotal.ts\<close>, a copy of the
  invoice's that the code keeps apart on purpose. Its types are structurally those of the invoice and
  share the records; its functions are declared again, as in the code. The allocation meets the same
  contract, and the two documents price alike, which is what converting a proposal relies on.
\<close>

section \<open>Definitions\<close>

type_synonym proposal_discount = discount
type_synonym proposal_line_item_input = line_item_input

fun proposal_applyDiscount :: "int \<Rightarrow> proposal_discount option \<Rightarrow> int" where
  "proposal_applyDiscount base None = 0"
| "proposal_applyDiscount base (Some (Percentage p)) = percent_cents base p"
| "proposal_applyDiscount base (Some (Fixed a)) = min a base"

fun proposal_hand_out :: "nat list \<Rightarrow> int \<Rightarrow> int list \<Rightarrow> int list" where
  "proposal_hand_out [] leftover shares = shares"
| "proposal_hand_out (i # is) leftover shares =
     (if leftover \<le> 0 then shares
      else proposal_hand_out is (leftover - 1) (shares[i := shares ! i + 1]))"

definition proposal_allocateShares :: "int list \<Rightarrow> int \<Rightarrow> int list" where
  "proposal_allocateShares weights amount =
     (let totalWeight = sum_list weights
      in if amount = 0 \<or> totalWeight = 0 then map (\<lambda>_. 0) weights
         else let exact = map (\<lambda>w. js_div (js_mul (of_int w) (of_int amount)) (of_int totalWeight)) weights;
                  shares = map floor exact;
                  order = map fst (sort_key (\<lambda>(i, r). - r)
                    (zip [0..<length exact] (map (\<lambda>v. js_sub v (of_int \<lfloor>v\<rfloor>)) exact)))
              in proposal_hand_out order (amount - sum_list shares) shares)"

definition proposal_gross :: "proposal_line_item_input \<Rightarrow> int" where
  "proposal_gross item = math_round (js_mul (quantity item) (of_int (unitPriceCents item)))"

definition proposal_allocate_line :: "proposal_line_item_input \<times> int \<Rightarrow> allocated_line" where
  "proposal_allocate_line = (\<lambda>(item, share).
     let gross = proposal_gross item;
         disc = proposal_applyDiscount gross (line_discount item);
         taxable = gross - disc - share
     in \<lparr>al_grossCents = gross, al_discountCents = disc, al_netCents = gross - disc,
         al_taxPercentage = taxPercentage item, al_documentDiscountShareCents = share,
         al_taxableCents = taxable,
         al_taxAmountCents = percent_cents taxable (taxPercentage item)\<rparr>)"

definition proposal_allocate :: "proposal_line_item_input list \<Rightarrow> proposal_discount option \<Rightarrow> allocation" where
  "proposal_allocate items discount =
     (let gross = map proposal_gross items;
          discounts = map (\<lambda>i. proposal_applyDiscount (proposal_gross i) (line_discount i)) items;
          subtotal = sum_list gross;
          lineDiscounts = sum_list discounts;
          documentDiscount = proposal_applyDiscount (subtotal - lineDiscounts) discount;
          shares = proposal_allocateShares
            (map (\<lambda>i. proposal_gross i - proposal_applyDiscount (proposal_gross i) (line_discount i)) items)
            documentDiscount;
          lines = map proposal_allocate_line (zip items shares)
      in \<lparr>alloc_lines = lines, alloc_subtotalCents = subtotal,
          alloc_lineDiscountTotalCents = lineDiscounts,
          alloc_documentDiscountCents = documentDiscount,
          alloc_taxAmountCents = sum_list (map al_taxAmountCents lines)\<rparr>)"

definition calculateProposalTotal ::
  "proposal_line_item_input list \<Rightarrow> proposal_discount option \<Rightarrow> invoice_totals" where
  "calculateProposalTotal items discount =
     (let a = proposal_allocate items discount;
          discountTotal = alloc_lineDiscountTotalCents a + alloc_documentDiscountCents a
      in \<lparr>subtotalCents = alloc_subtotalCents a,
          discountAmountTotalCents = discountTotal,
          taxAmountCents = alloc_taxAmountCents a,
          totalCents = alloc_subtotalCents a - discountTotal + alloc_taxAmountCents a\<rparr>)"

definition calculateProposalLineTotals ::
  "proposal_line_item_input list \<Rightarrow> proposal_discount option \<Rightarrow> line_totals list" where
  "calculateProposalLineTotals items discount =
     map (\<lambda>l. \<lparr>lt_subtotalCents = al_netCents l, lt_taxAmountCents = al_taxAmountCents l,
                lt_totalCents = al_taxableCents l + al_taxAmountCents l\<rparr>)
       (alloc_lines (proposal_allocate items discount))"

section \<open>The two documents agree\<close>

lemma proposal_applyDiscount_eq: "proposal_applyDiscount base d = applyDiscount base d"
  by (cases "(base, d)" rule: applyDiscount.cases) auto

lemma proposal_hand_out_eq: "proposal_hand_out is l sh = hand_out is l sh"
  by (induction "is" l sh rule: hand_out.induct) auto

lemma proposal_allocateShares_eq: "proposal_allocateShares ws a = allocateShares ws a"
  by (simp add: proposal_allocateShares_def allocateShares_def Let_def exact_shares_def
      remainder_order_def proposal_hand_out_eq)

lemma proposal_gross_eq: "proposal_gross item = line_grossCents item"
  by (simp add: proposal_gross_def line_grossCents_def)

lemma proposal_allocate_line_eq: "proposal_allocate_line = allocate_line"
  by (auto simp: fun_eq_iff proposal_allocate_line_def allocate_line_def Let_def proposal_gross_eq
      proposal_applyDiscount_eq line_netCents_def line_discountCents_def)

lemma proposal_allocate_eq: "proposal_allocate items d = allocate items d"
proof -
  have disc: "map (\<lambda>i. proposal_applyDiscount (proposal_gross i) (line_discount i)) items
      = map line_discountCents items"
    by (simp add: line_discountCents_def proposal_gross_eq proposal_applyDiscount_eq)
  have net: "map (\<lambda>i. proposal_gross i - proposal_applyDiscount (proposal_gross i) (line_discount i)) items
      = map line_netCents items"
    by (simp add: line_netCents_def line_discountCents_def proposal_gross_eq proposal_applyDiscount_eq)
  have gross: "map proposal_gross items = map line_grossCents items"
    by (simp add: proposal_gross_eq)
  show ?thesis
    unfolding proposal_allocate_def allocate_def Let_def disc net gross
    unfolding proposal_allocate_line_eq proposal_allocateShares_eq proposal_applyDiscount_eq ..
qed

lemma proposal_allocateShares_fun: "proposal_allocateShares = allocateShares"
  by (simp add: fun_eq_iff proposal_allocateShares_eq)

interpretation prop_shares: share_allocator proposal_allocateShares
  using inv_shares.share_allocator_axioms by (simp add: proposal_allocateShares_fun)

section \<open>Properties\<close>

text \<open>
  A proposal re-priced as an invoice keeps its totals: the proposal's arithmetic and the invoice's
  give the same totals and the same stored lines for the same lines and document discount.
\<close>

theorem proposal_prices_like_invoice:
  "calculateProposalTotal items d = calculateInvoiceTotal items d
   \<and> calculateProposalLineTotals items d = calculateInvoiceLineTotals items d"
  by (simp add: calculateProposalTotal_def calculateInvoiceTotal_def calculateProposalLineTotals_def
      calculateInvoiceLineTotals_def proposal_allocate_eq)

end
