(* ===== verification/StatusMachines.thy ===== *)
theory StatusMachines
  imports Prelude
begin

text \<open>
  The stored status machines: invoices, proposals, contracts, recurring schedules, projects, leads and
  tasks (the \<open>canTransition...Status.ts\<close> service of each feature). Every service is an
  \<open>ALLOWED_TRANSITIONS\<close> table and a guard that answers with the next status or a reason. The locale
  \<open>status_machine\<close> is what a writer relies on: the guard accepts exactly the edges of the table.
  \<open>forward_machine\<close> adds a rank every edge increases, from which no accepted run comes back.
\<close>

section \<open>The contract of a status machine\<close>

datatype transition_reason = Same_status | Terminal | Not_allowed

datatype 's transition = Allowed (nextStatus: 's) | Refused (reason: transition_reason)

text \<open>A run of accepted status changes, each from the status the previous one reached.\<close>

fun accepted_run :: "('s \<Rightarrow> 's \<Rightarrow> 's transition) \<Rightarrow> 's \<Rightarrow> 's list \<Rightarrow> bool" where
  "accepted_run can s [] = True"
| "accepted_run can s (t # ts) = (can s t = Allowed t \<and> accepted_run can t ts)"

locale status_machine =
  fixes edges :: "'s \<Rightarrow> 's list"
    and can :: "'s \<Rightarrow> 's \<Rightarrow> 's transition"
  assumes can_iff: "can s t = Allowed u \<longleftrightarrow> u = t \<and> t \<in> set (edges s)"
    and irreflexive: "s \<notin> set (edges s)"
begin

lemma accepted_cases: "(\<exists>u. can s t = Allowed u) \<longleftrightarrow> t \<in> set (edges s)"
  by (simp add: can_iff)

lemma run_Cons: "accepted_run can s (t # ts) \<longleftrightarrow> t \<in> set (edges s) \<and> accepted_run can t ts"
  by (simp add: can_iff)

lemma terminal_run: "edges s = [] \<Longrightarrow> accepted_run can s ts \<Longrightarrow> ts = []"
  by (cases ts) (simp_all add: can_iff)

lemma run_append:
  "accepted_run can s (ts @ us) \<longleftrightarrow> accepted_run can s ts \<and> accepted_run can (last (s # ts)) us"
  by (induction ts arbitrary: s) auto

end

locale forward_machine = status_machine +
  fixes rank :: "'a \<Rightarrow> nat"
  assumes forward: "t \<in> set (edges s) \<Longrightarrow> rank s < rank t"
begin

lemma run_rank: "accepted_run can s ts \<Longrightarrow> t \<in> set ts \<Longrightarrow> rank s < rank t"
proof (induction ts arbitrary: s)
  case (Cons u ts)
  then have "rank s < rank u" by (simp add: can_iff forward)
  then show ?case using Cons by (auto dest: less_trans)
qed simp

lemma never_back: "accepted_run can s ts \<Longrightarrow> s \<notin> set ts"
  using run_rank by blast

lemma run_distinct: "accepted_run can s ts \<Longrightarrow> distinct (s # ts)"
proof (induction ts arbitrary: s)
  case (Cons u ts)
  then have "distinct (u # ts)" by (simp only: run_Cons)
  then show ?case using never_back [OF Cons.prems] by simp
qed simp

end

section \<open>Invoices\<close>

datatype invoice_status = Draft | Sent | Paid

fun invoice_edges :: "invoice_status \<Rightarrow> invoice_status list" where
  "invoice_edges Draft = [Sent]"
| "invoice_edges Sent = [Paid]"
| "invoice_edges Paid = []"

definition getNextInvoiceStatuses :: "invoice_status \<Rightarrow> invoice_status list" where
  "getNextInvoiceStatuses current = invoice_edges current"

definition canTransitionInvoiceStatus :: "invoice_status \<Rightarrow> invoice_status \<Rightarrow> invoice_status transition" where
  [status_defs]: "canTransitionInvoiceStatus current next =
     (if next = current then Refused Same_status
      else if next \<in> set (invoice_edges current) then Allowed next
      else Refused Not_allowed)"

definition isInvoiceEditable :: "invoice_status \<Rightarrow> bool" where
  "isInvoiceEditable status \<longleftrightarrow> status = Draft"

section \<open>Proposals\<close>

datatype proposal_status = ProposalDraft | ProposalSent | Accepted | Rejected

fun proposal_edges :: "proposal_status \<Rightarrow> proposal_status list" where
  "proposal_edges ProposalDraft = [ProposalSent]"
| "proposal_edges ProposalSent = [Accepted, Rejected]"
| "proposal_edges Accepted = []"
| "proposal_edges Rejected = []"

definition getNextProposalStatuses :: "proposal_status \<Rightarrow> proposal_status list" where
  "getNextProposalStatuses current = proposal_edges current"

definition canTransitionProposalStatus ::
  "proposal_status \<Rightarrow> proposal_status \<Rightarrow> proposal_status transition" where
  [status_defs]: "canTransitionProposalStatus current next =
     (if next = current then Refused Same_status
      else if next \<in> set (proposal_edges current) then Allowed next
      else Refused Not_allowed)"

definition isProposalEditable :: "proposal_status \<Rightarrow> bool" where
  "isProposalEditable status \<longleftrightarrow> status = ProposalDraft"

section \<open>Contracts\<close>

datatype contract_status = ContractDraft | ContractSent | Signed | Expired | Terminated

fun contract_edges :: "contract_status \<Rightarrow> contract_status list" where
  "contract_edges ContractDraft = [ContractSent]"
| "contract_edges ContractSent = [Signed, Expired, Terminated]"
| "contract_edges Signed = [Terminated]"
| "contract_edges Expired = []"
| "contract_edges Terminated = []"

definition getNextContractStatuses :: "contract_status \<Rightarrow> contract_status list" where
  "getNextContractStatuses current = contract_edges current"

definition canTransitionContractStatus ::
  "contract_status \<Rightarrow> contract_status \<Rightarrow> contract_status transition" where
  [status_defs]: "canTransitionContractStatus current next =
     (if next = current then Refused Same_status
      else if next \<in> set (contract_edges current) then Allowed next
      else Refused Not_allowed)"

definition isContractEditable :: "contract_status \<Rightarrow> bool" where
  "isContractEditable status \<longleftrightarrow> status = ContractDraft"

section \<open>Recurring invoice schedules\<close>

datatype recurring_status = Active | Paused | Completed | Cancelled

fun recurring_edges :: "recurring_status \<Rightarrow> recurring_status list" where
  "recurring_edges Active = [Paused, Cancelled, Completed]"
| "recurring_edges Paused = [Active, Cancelled]"
| "recurring_edges Completed = []"
| "recurring_edges Cancelled = []"

definition canTransitionRecurringInvoiceStatus ::
  "recurring_status \<Rightarrow> recurring_status \<Rightarrow> recurring_status transition" where
  [status_defs]: "canTransitionRecurringInvoiceStatus from_s to_s =
     (if from_s = to_s then Refused Same_status
      else if length (recurring_edges from_s) = 0 then Refused Terminal
      else if to_s \<notin> set (recurring_edges from_s) then Refused Not_allowed
      else Allowed to_s)"

section \<open>Projects\<close>

datatype project_status = ProjectActive | ProjectOn_hold | ProjectCompleted | ProjectCancelled

fun project_edges :: "project_status \<Rightarrow> project_status list" where
  "project_edges ProjectActive = [ProjectOn_hold, ProjectCompleted, ProjectCancelled]"
| "project_edges ProjectOn_hold = [ProjectActive, ProjectCompleted, ProjectCancelled]"
| "project_edges ProjectCompleted = []"
| "project_edges ProjectCancelled = []"

definition getNextProjectStatuses :: "project_status \<Rightarrow> project_status list" where
  "getNextProjectStatuses current = project_edges current"

definition isTerminalProjectStatus :: "project_status \<Rightarrow> bool" where
  "isTerminalProjectStatus status \<longleftrightarrow> length (project_edges status) = 0"

definition canTransitionProjectStatus :: "project_status \<Rightarrow> project_status \<Rightarrow> project_status transition" where
  [status_defs]: "canTransitionProjectStatus current next =
     (if next \<in> set (project_edges current) then Allowed next
      else if next = current then Refused Same_status
      else if isTerminalProjectStatus current then Refused Terminal
      else Refused Not_allowed)"

section \<open>Leads\<close>

datatype lead_status = New | Contacted | Qualified | Proposal_sent | Won | Lost

fun lead_edges :: "lead_status \<Rightarrow> lead_status list" where
  "lead_edges New = [Contacted]"
| "lead_edges Contacted = [New, Qualified]"
| "lead_edges Qualified = [Contacted, Proposal_sent]"
| "lead_edges Proposal_sent = [Qualified, Won, Lost]"
| "lead_edges Won = []"
| "lead_edges Lost = []"

definition getNextLeadStatuses :: "lead_status \<Rightarrow> lead_status list" where
  "getNextLeadStatuses current = lead_edges current"

definition isTerminalLeadStatus :: "lead_status \<Rightarrow> bool" where
  "isTerminalLeadStatus status \<longleftrightarrow> length (lead_edges status) = 0"

definition canTransitionLeadStatus :: "lead_status \<Rightarrow> lead_status \<Rightarrow> lead_status transition" where
  [status_defs]: "canTransitionLeadStatus current next =
     (if next \<in> set (lead_edges current) then Allowed next
      else if next = current then Refused Same_status
      else if isTerminalLeadStatus current then Refused Terminal
      else Refused Not_allowed)"

section \<open>Tasks\<close>

datatype task_status = Backlog | Todo | In_progress | Done | TaskCancelled

definition task_status_values :: "task_status list" where
  "task_status_values = [Backlog, Todo, In_progress, Done, TaskCancelled]"

fun task_edges :: "task_status \<Rightarrow> task_status list" where
  "task_edges Backlog = filter (\<lambda>s. s \<noteq> Backlog) task_status_values"
| "task_edges Todo = filter (\<lambda>s. s \<noteq> Todo) task_status_values"
| "task_edges In_progress = filter (\<lambda>s. s \<noteq> In_progress) task_status_values"
| "task_edges Done = filter (\<lambda>s. s \<noteq> Done) task_status_values"
| "task_edges TaskCancelled = filter (\<lambda>s. s \<noteq> TaskCancelled) task_status_values"

definition getNextTaskStatuses :: "task_status \<Rightarrow> task_status list" where
  "getNextTaskStatuses current = task_edges current"

definition canTransitionTaskStatus :: "task_status \<Rightarrow> task_status \<Rightarrow> task_status transition" where
  [status_defs]: "canTransitionTaskStatus current next =
     (if next = current then Refused Same_status
      else if next \<in> set (task_edges current) then Allowed next
      else Refused Not_allowed)"

section \<open>The machines meet the contract\<close>

fun invoice_rank :: "invoice_status \<Rightarrow> nat" where
  "invoice_rank Draft = 0" | "invoice_rank Sent = 1" | "invoice_rank Paid = 2"

fun proposal_rank :: "proposal_status \<Rightarrow> nat" where
  "proposal_rank ProposalDraft = 0" | "proposal_rank ProposalSent = 1"
| "proposal_rank Accepted = 2" | "proposal_rank Rejected = 2"

fun contract_rank :: "contract_status \<Rightarrow> nat" where
  "contract_rank ContractDraft = 0" | "contract_rank ContractSent = 1"
| "contract_rank Signed = 2" | "contract_rank Expired = 2" | "contract_rank Terminated = 3"

lemma set_invoice_edges: "t \<in> set (invoice_edges s) \<longleftrightarrow> (s, t) \<in> {(Draft, Sent), (Sent, Paid)}"
  by (cases s) auto

interpretation invoice_machine: forward_machine invoice_edges canTransitionInvoiceStatus invoice_rank
proof unfold_locales
  show "canTransitionInvoiceStatus s t = Allowed u \<longleftrightarrow> u = t \<and> t \<in> set (invoice_edges s)" for s t u
    by (cases s) (auto simp: status_defs)
  show "s \<notin> set (invoice_edges s)" for s by (cases s) auto
  show "t \<in> set (invoice_edges s) \<Longrightarrow> invoice_rank s < invoice_rank t" for s t by (cases s) auto
qed

interpretation proposal_machine: forward_machine proposal_edges canTransitionProposalStatus proposal_rank
proof unfold_locales
  show "canTransitionProposalStatus s t = Allowed u \<longleftrightarrow> u = t \<and> t \<in> set (proposal_edges s)" for s t u
    by (cases s) (auto simp: status_defs)
  show "s \<notin> set (proposal_edges s)" for s by (cases s) auto
  show "t \<in> set (proposal_edges s) \<Longrightarrow> proposal_rank s < proposal_rank t" for s t by (cases s) auto
qed

interpretation contract_machine: forward_machine contract_edges canTransitionContractStatus contract_rank
proof unfold_locales
  show "canTransitionContractStatus s t = Allowed u \<longleftrightarrow> u = t \<and> t \<in> set (contract_edges s)" for s t u
    by (cases s) (auto simp: status_defs)
  show "s \<notin> set (contract_edges s)" for s by (cases s) auto
  show "t \<in> set (contract_edges s) \<Longrightarrow> contract_rank s < contract_rank t" for s t by (cases s) auto
qed

interpretation recurring_machine: status_machine recurring_edges canTransitionRecurringInvoiceStatus
proof unfold_locales
  show "canTransitionRecurringInvoiceStatus s t = Allowed u \<longleftrightarrow> u = t \<and> t \<in> set (recurring_edges s)" for s t u
    by (cases s) (auto simp: status_defs)
  show "s \<notin> set (recurring_edges s)" for s by (cases s) auto
qed

interpretation project_machine: status_machine project_edges canTransitionProjectStatus
proof unfold_locales
  show "canTransitionProjectStatus s t = Allowed u \<longleftrightarrow> u = t \<and> t \<in> set (project_edges s)" for s t u
    by (auto simp: status_defs)
  show "s \<notin> set (project_edges s)" for s by (cases s) auto
qed

interpretation lead_machine: status_machine lead_edges canTransitionLeadStatus
proof unfold_locales
  show "canTransitionLeadStatus s t = Allowed u \<longleftrightarrow> u = t \<and> t \<in> set (lead_edges s)" for s t u
    by (auto simp: status_defs)
  show "s \<notin> set (lead_edges s)" for s by (cases s) auto
qed

interpretation task_machine: status_machine task_edges canTransitionTaskStatus
proof unfold_locales
  show "canTransitionTaskStatus s t = Allowed u \<longleftrightarrow> u = t \<and> t \<in> set (task_edges s)" for s t u
    by (cases s) (auto simp: status_defs task_status_values_def)
  show "s \<notin> set (task_edges s)" for s by (cases s) auto
qed

lemmas machine_laws = invoice_machine.can_iff proposal_machine.can_iff contract_machine.can_iff
  recurring_machine.can_iff project_machine.can_iff lead_machine.can_iff task_machine.can_iff

subsection \<open>The lead pipeline\<close>

fun lead_stage :: "lead_status \<Rightarrow> nat" where
  "lead_stage New = 0" | "lead_stage Contacted = 1" | "lead_stage Qualified = 2"
| "lead_stage Proposal_sent = 3" | "lead_stage Won = 4" | "lead_stage Lost = 4"

lemma lead_step_stage: "t \<in> set (lead_edges s) \<Longrightarrow> lead_stage t \<le> Suc (lead_stage s)"
  by (cases s) auto

text \<open>A run that ends at a stage passes every stage between its start and its end.\<close>

lemma run_passes_stages:
  "accepted_run canTransitionLeadStatus s ts \<Longrightarrow> lead_stage s \<le> k \<Longrightarrow> k \<le> lead_stage (last (s # ts)) \<Longrightarrow>
    \<exists>t\<in>set (s # ts). lead_stage t = k"
proof (induction ts arbitrary: s)
  case (Cons u ts)
  show ?case
  proof (cases "lead_stage s = k")
    case False
    have "u \<in> set (lead_edges s)" and run: "accepted_run canTransitionLeadStatus u ts"
      using Cons.prems(1) lead_machine.run_Cons by blast+
    then have "lead_stage u \<le> k" using lead_step_stage [of u s] Cons.prems(2) False by linarith
    then have "\<exists>t\<in>set (u # ts). lead_stage t = k" using Cons.IH [OF run] Cons.prems(3) by simp
    then show ?thesis by auto
  qed auto
qed simp

lemma lead_stage_inv:
  "lead_stage t = 1 \<longleftrightarrow> t = Contacted" "lead_stage t = 2 \<longleftrightarrow> t = Qualified"
  "lead_stage t = 3 \<longleftrightarrow> t = Proposal_sent"
  by (cases t; simp)+

section \<open>Properties\<close>

text \<open>
  C17. The document machines only move forward: a run of accepted status changes of an invoice, a
  proposal or a contract never visits a status twice, so a sent document never returns to draft, and
  nothing is accepted after \<open>paid\<close>, \<open>accepted\<close>, \<open>rejected\<close>, \<open>expired\<close> or \<open>terminated\<close>.
\<close>

theorem documents_move_forward:
  "(accepted_run canTransitionInvoiceStatus i is \<longrightarrow> distinct (i # is) \<and> (i = Paid \<longrightarrow> is = []))
   \<and> (accepted_run canTransitionProposalStatus p ps \<longrightarrow>
        distinct (p # ps) \<and> (p \<in> {Accepted, Rejected} \<longrightarrow> ps = []))
   \<and> (accepted_run canTransitionContractStatus c cs \<longrightarrow>
        distinct (c # cs) \<and> (c \<in> {Expired, Terminated} \<longrightarrow> cs = []))"
proof (intro conjI impI)
  assume "accepted_run canTransitionInvoiceStatus i is"
  then show "distinct (i # is)" and "i = Paid \<Longrightarrow> is = []"
    using invoice_machine.run_distinct invoice_machine.terminal_run [of Paid "is"] by auto
next
  assume "accepted_run canTransitionProposalStatus p ps"
  then show "distinct (p # ps)" and "p \<in> {Accepted, Rejected} \<Longrightarrow> ps = []"
    using proposal_machine.run_distinct proposal_machine.terminal_run [of p ps] by auto
next
  assume "accepted_run canTransitionContractStatus c cs"
  then show "distinct (c # cs)" and "c \<in> {Expired, Terminated} \<Longrightarrow> cs = []"
    using contract_machine.run_distinct contract_machine.terminal_run [of c cs] by auto
qed

lemma documents_move_forward_witness:
  "accepted_run canTransitionContractStatus ContractDraft [ContractSent, Signed, Terminated]
   \<and> distinct [ContractDraft, ContractSent, Signed, Terminated]
   \<and> accepted_run canTransitionInvoiceStatus Draft [Sent, Paid] \<and> distinct [Draft, Sent, Paid]"
proof -
  have c: "accepted_run canTransitionContractStatus ContractDraft [ContractSent, Signed, Terminated]"
    and i: "accepted_run canTransitionInvoiceStatus Draft [Sent, Paid]"
    by (simp_all add: status_defs)
  with documents_move_forward [of Draft "[Sent, Paid]" ProposalDraft "[]" ContractDraft
      "[ContractSent, Signed, Terminated]"]
  show ?thesis by blast
qed

text \<open>
  A lead is won or lost only through the whole pipeline: a run of accepted changes from \<open>new\<close> to
  \<open>won\<close> or \<open>lost\<close> passes \<open>contacted\<close>, \<open>qualified\<close> and \<open>proposal_sent\<close>, and nothing is accepted after it.
\<close>

theorem decided_lead_passed_the_pipeline:
  assumes "accepted_run canTransitionLeadStatus New ts" "ts \<noteq> []" "last ts = Won \<or> last ts = Lost"
  shows "{Contacted, Qualified, Proposal_sent} \<subseteq> set ts
       \<and> (accepted_run canTransitionLeadStatus New (ts @ us) \<longrightarrow> us = [])"
proof -
  have "lead_stage (last (New # ts)) = 4" using assms by auto
  then have "\<exists>t\<in>set (New # ts). lead_stage t = k" if "k \<le> 4" for k
    using run_passes_stages [OF assms(1), of k] that by simp
  from this [of 1] this [of 2] this [of 3]
  have "Contacted \<in> set ts" "Qualified \<in> set ts" "Proposal_sent \<in> set ts"
    using lead_stage_inv by (auto split: if_splits)
  moreover have "us = []" if "accepted_run canTransitionLeadStatus New (ts @ us)"
    using that assms lead_machine.run_append [of New ts us] lead_machine.terminal_run [of "last ts" us] by auto
  ultimately show ?thesis by simp
qed

lemma decided_lead_passed_the_pipeline_witness:
  "{Contacted, Qualified, Proposal_sent} \<subseteq> set [Contacted, Qualified, Contacted, Qualified, Proposal_sent, Won]"
  using decided_lead_passed_the_pipeline
    [of "[Contacted, Qualified, Contacted, Qualified, Proposal_sent, Won]" "[]"]
  by (simp add: status_defs)

text \<open>
  The guards agree with their tables: each service accepts exactly the statuses it lists as next,
  refuses a change to the current status as \<open>same_status\<close>, and the project, lead and schedule guards
  refuse every other change out of a status without successors as \<open>terminal\<close>.
\<close>

theorem guards_follow_the_tables:
  "((\<exists>u. canTransitionInvoiceStatus i i' = Allowed u) \<longleftrightarrow> i' \<in> set (getNextInvoiceStatuses i))
   \<and> ((\<exists>u. canTransitionProposalStatus p p' = Allowed u) \<longleftrightarrow> p' \<in> set (getNextProposalStatuses p))
   \<and> ((\<exists>u. canTransitionContractStatus c c' = Allowed u) \<longleftrightarrow> c' \<in> set (getNextContractStatuses c))
   \<and> ((\<exists>u. canTransitionProjectStatus j j' = Allowed u) \<longleftrightarrow> j' \<in> set (getNextProjectStatuses j))
   \<and> ((\<exists>u. canTransitionLeadStatus l l' = Allowed u) \<longleftrightarrow> l' \<in> set (getNextLeadStatuses l))
   \<and> ((\<exists>u. canTransitionTaskStatus t t' = Allowed u) \<longleftrightarrow> t' \<noteq> t)
   \<and> canTransitionRecurringInvoiceStatus r r = Refused Same_status
   \<and> (r \<in> {Completed, Cancelled} \<and> r' \<noteq> r \<longleftrightarrow> canTransitionRecurringInvoiceStatus r r' = Refused Terminal)
   \<and> (canTransitionLeadStatus l l' = Refused Terminal \<longleftrightarrow> l \<in> {Won, Lost} \<and> l' \<noteq> l)
   \<and> (canTransitionProjectStatus j j' = Refused Terminal
        \<longleftrightarrow> j \<in> {ProjectCompleted, ProjectCancelled} \<and> j' \<noteq> j)"
proof (intro conjI)
  show "(\<exists>u. canTransitionTaskStatus t t' = Allowed u) \<longleftrightarrow> t' \<noteq> t"
    by (cases t; cases t') (auto simp: status_defs task_status_values_def)
  show "r \<in> {Completed, Cancelled} \<and> r' \<noteq> r \<longleftrightarrow> canTransitionRecurringInvoiceStatus r r' = Refused Terminal"
    by (cases r) (auto simp: status_defs)
  show "canTransitionLeadStatus l l' = Refused Terminal \<longleftrightarrow> l \<in> {Won, Lost} \<and> l' \<noteq> l"
    by (cases l) (auto simp: status_defs isTerminalLeadStatus_def)
  show "canTransitionProjectStatus j j' = Refused Terminal
      \<longleftrightarrow> j \<in> {ProjectCompleted, ProjectCancelled} \<and> j' \<noteq> j"
    by (cases j) (auto simp: status_defs isTerminalProjectStatus_def)
qed (auto simp: machine_laws getNextInvoiceStatuses_def getNextProposalStatuses_def getNextContractStatuses_def
    getNextProjectStatuses_def getNextLeadStatuses_def canTransitionRecurringInvoiceStatus_def)

end
