(* ===== verification/Session.thy ===== *)
theory Session
  imports Prelude
begin

text \<open>
  Who may call a server action. \<open>getSession\<close> and \<open>getCurrentRole\<close> belong to the authentication package;
  their answers are the fields of a request. Every \<open>mutationContext.ts\<close> holds the same gate over the
  roles it allows; \<open>require_role\<close> is that gate, and the named gates of the features instantiate it.
\<close>

datatype role = Owner | Accountant | Assistant

record request =
  req_session :: "ident option"
  req_currentRole :: "string option"
  req_ipAddress :: "string option"
  req_userAgent :: "string option"

record actor =
  actor_userId :: ident
  actor_role :: role
  actor_ipAddress :: "string option"
  actor_userAgent :: "string option"

fun isRole :: "string option \<Rightarrow> role option" where
  "isRole None = None"
| "isRole (Some s) =
     (if s = ''owner'' then Some Owner
      else if s = ''accountant'' then Some Accountant
      else if s = ''assistant'' then Some Assistant
      else None)"

definition getActionContext :: "request \<Rightarrow> actor result" where
  "getActionContext req =
     (case req_session req of
        None \<Rightarrow> Inl ''errors.unauthorized''
      | Some userId \<Rightarrow>
          (case isRole (req_currentRole req) of
             None \<Rightarrow> Inl ''errors.forbidden''
           | Some r \<Rightarrow>
               Inr \<lparr>actor_userId = userId, actor_role = r,
                    actor_ipAddress = req_ipAddress req, actor_userAgent = req_userAgent req\<rparr>))"

definition require_role :: "role list \<Rightarrow> request \<Rightarrow> actor result" where
  "require_role allowed req =
     bind_result (getActionContext req)
       (\<lambda>a. if actor_role a \<in> set allowed then Inr a else Inl ''errors.forbidden'')"

section \<open>The named gates\<close>

definition requirePaymentWrite :: "request \<Rightarrow> actor result" where
  "requirePaymentWrite = require_role [Owner, Accountant]"

definition requirePaymentDelete :: "request \<Rightarrow> actor result" where
  "requirePaymentDelete = require_role [Owner]"

definition requireCreditNoteWrite :: "request \<Rightarrow> actor result" where
  "requireCreditNoteWrite = require_role [Owner, Accountant]"

definition requireCreditNoteDelete :: "request \<Rightarrow> actor result" where
  "requireCreditNoteDelete = require_role [Owner]"

definition requireInvoiceWrite :: "request \<Rightarrow> actor result" where
  "requireInvoiceWrite = require_role [Owner, Assistant]"

definition requireInvoiceSend :: "request \<Rightarrow> actor result" where
  "requireInvoiceSend = require_role [Owner]"

definition requireInvoiceMarkPaid :: "request \<Rightarrow> actor result" where
  "requireInvoiceMarkPaid = require_role [Owner, Accountant]"

definition requireInvoiceDelete :: "request \<Rightarrow> actor result" where
  "requireInvoiceDelete = require_role [Owner]"

definition requireInvoiceLateFee :: "request \<Rightarrow> actor result" where
  "requireInvoiceLateFee = require_role [Owner]"

definition requireInvoicePublicLink :: "request \<Rightarrow> actor result" where
  "requireInvoicePublicLink = require_role [Owner]"

text \<open>The task gates spell out their roles as comparisons.\<close>

definition requireTaskWrite :: "request \<Rightarrow> actor result" where
  "requireTaskWrite req =
     bind_result (getActionContext req)
       (\<lambda>a. if actor_role a \<noteq> Owner \<and> actor_role a \<noteq> Assistant then Inl ''errors.forbidden'' else Inr a)"

definition requireTaskDelete :: "request \<Rightarrow> actor result" where
  "requireTaskDelete req =
     bind_result (getActionContext req)
       (\<lambda>a. if actor_role a \<noteq> Owner then Inl ''errors.forbidden'' else Inr a)"

section \<open>What a gate promises\<close>

text \<open>
  A gate for a set of roles lets a request through exactly when it carries a session whose current role
  is one of them, and then hands on that user under that role.
\<close>

definition signed_in_as :: "request \<Rightarrow> ident \<Rightarrow> role \<Rightarrow> bool" where
  "signed_in_as req u r \<longleftrightarrow> req_session req = Some u \<and> isRole (req_currentRole req) = Some r"

locale role_gate =
  fixes gate :: "request \<Rightarrow> actor result"
    and allowed :: "role set"
  assumes pass_iff: "(\<exists>a. gate req = Inr a) \<longleftrightarrow> (\<exists>u. \<exists>r\<in>allowed. signed_in_as req u r)"
    and pass_actor: "gate req = Inr a \<Longrightarrow> signed_in_as req (actor_userId a) (actor_role a)"
begin

lemma pass_role: "gate req = Inr a \<Longrightarrow> actor_role a \<in> allowed"
proof -
  assume a: "gate req = Inr a"
  then obtain u r where "r \<in> allowed" "signed_in_as req u r" using pass_iff by blast
  with pass_actor [OF a] show ?thesis by (auto simp: signed_in_as_def)
qed

lemma refused: "\<not> (\<exists>u. \<exists>r\<in>allowed. signed_in_as req u r) \<Longrightarrow> \<exists>e. gate req = Inl e"
  using pass_iff by (metis sumE)

end

lemma role_gate_require_role: "role_gate (require_role rs) (set rs)"
proof
  show "(\<exists>a. require_role rs req = Inr a) \<longleftrightarrow> (\<exists>u. \<exists>r\<in>set rs. signed_in_as req u r)" for req
    by (auto simp: require_role_def getActionContext_def signed_in_as_def split: option.splits)
  show "require_role rs req = Inr a \<Longrightarrow> signed_in_as req (actor_userId a) (actor_role a)" for req a
    by (auto simp: require_role_def getActionContext_def signed_in_as_def split: option.splits if_splits)
qed

interpretation payment_write: role_gate requirePaymentWrite "{Owner, Accountant}"
  using role_gate_require_role [of "[Owner, Accountant]"] by (simp add: requirePaymentWrite_def)

interpretation payment_delete: role_gate requirePaymentDelete "{Owner}"
  using role_gate_require_role [of "[Owner]"] by (simp add: requirePaymentDelete_def)

interpretation credit_write: role_gate requireCreditNoteWrite "{Owner, Accountant}"
  using role_gate_require_role [of "[Owner, Accountant]"] by (simp add: requireCreditNoteWrite_def)

interpretation credit_delete: role_gate requireCreditNoteDelete "{Owner}"
  using role_gate_require_role [of "[Owner]"] by (simp add: requireCreditNoteDelete_def)

interpretation invoice_write: role_gate requireInvoiceWrite "{Owner, Assistant}"
  using role_gate_require_role [of "[Owner, Assistant]"] by (simp add: requireInvoiceWrite_def)

interpretation invoice_send: role_gate requireInvoiceSend "{Owner}"
  using role_gate_require_role [of "[Owner]"] by (simp add: requireInvoiceSend_def)

interpretation invoice_mark_paid: role_gate requireInvoiceMarkPaid "{Owner, Accountant}"
  using role_gate_require_role [of "[Owner, Accountant]"] by (simp add: requireInvoiceMarkPaid_def)

interpretation invoice_delete: role_gate requireInvoiceDelete "{Owner}"
  using role_gate_require_role [of "[Owner]"] by (simp add: requireInvoiceDelete_def)

interpretation invoice_late_fee: role_gate requireInvoiceLateFee "{Owner}"
  using role_gate_require_role [of "[Owner]"] by (simp add: requireInvoiceLateFee_def)

interpretation task_write: role_gate requireTaskWrite "{Owner, Assistant}"
proof
  show "(\<exists>a. requireTaskWrite req = Inr a) \<longleftrightarrow> (\<exists>u. \<exists>r\<in>{Owner, Assistant}. signed_in_as req u r)" for req
    by (auto simp: requireTaskWrite_def getActionContext_def signed_in_as_def split: option.splits)
  show "requireTaskWrite req = Inr a \<Longrightarrow> signed_in_as req (actor_userId a) (actor_role a)" for req a
    by (auto simp: requireTaskWrite_def getActionContext_def signed_in_as_def split: option.splits if_splits)
qed

interpretation task_delete: role_gate requireTaskDelete "{Owner}"
proof
  show "(\<exists>a. requireTaskDelete req = Inr a) \<longleftrightarrow> (\<exists>u. \<exists>r\<in>{Owner}. signed_in_as req u r)" for req
    by (auto simp: requireTaskDelete_def getActionContext_def signed_in_as_def split: option.splits)
  show "requireTaskDelete req = Inr a \<Longrightarrow> signed_in_as req (actor_userId a) (actor_role a)" for req a
    by (auto simp: requireTaskDelete_def getActionContext_def signed_in_as_def split: option.splits if_splits)
qed

section \<open>Text helpers of the write contexts\<close>

text \<open>\<open>String.prototype.trim\<close> on the code points below 256: tab to carriage return, space, no-break space.\<close>

definition js_space :: "char \<Rightarrow> bool" where
  "js_space c \<longleftrightarrow> (let n = of_char c :: nat in (9 \<le> n \<and> n \<le> 13) \<or> n = 32 \<or> n = 160)"

definition js_trim :: "string \<Rightarrow> string" where
  "js_trim s = rev (dropWhile js_space (rev (dropWhile js_space s)))"

definition emptyToNull :: "string \<Rightarrow> string option" where
  "emptyToNull value = (let trimmed = js_trim value in if length trimmed > 0 then Some trimmed else None)"

text \<open>
  A parent that is itself in the trash blocks a restore: the first deleted parent's label
  (\<open>features/trash/services/restoreEligibility.ts\<close>).
\<close>

fun resolveRestoreBlocker :: "(string \<times> 't option) list \<Rightarrow> string option" where
  "resolveRestoreBlocker [] = None"
| "resolveRestoreBlocker ((label, deletedAt) # ps) =
     (if deletedAt \<noteq> None then Some label else resolveRestoreBlocker ps)"

end
