(* ===== verification/JsDate.thy ===== *)
theory JsDate
  imports Main
begin

text \<open>
  The UTC half of the language's \<open>Date\<close>: a date is its time value, milliseconds since the epoch,
  an integer. The definitions follow ECMA-262 (Day, YearFromTime, MonthFromTime, DateFromTime,
  MakeDay and \<open>Date.UTC\<close> with its two-digit-year rule); months count from 0, days from 1. Invalid
  dates and the range limit of TimeClip are outside the model. The lemmas show that the civil
  calendar and the day count are inverse to each other.
\<close>

type_synonym jsdate = int

definition ms_per_day :: int where "ms_per_day = 86400000"

definition day_of :: "jsdate \<Rightarrow> int" where "day_of t = t div ms_per_day"

definition leap_year :: "int \<Rightarrow> bool" where
  "leap_year y \<longleftrightarrow> y mod 4 = 0 \<and> (y mod 100 \<noteq> 0 \<or> y mod 400 = 0)"

definition year_start :: "int \<Rightarrow> int" where
  "year_start y = 365 * (y - 1970) + (y - 1969) div 4 - (y - 1901) div 100 + (y - 1601) div 400"

definition year_of_day :: "int \<Rightarrow> int" where
  "year_of_day d =
     (let y = 1970 + (400 * d) div 146097
      in if year_start (y + 1) \<le> d then y + 1 else if year_start y \<le> d then y else y - 1)"

definition month_start :: "bool \<Rightarrow> int \<Rightarrow> int" where
  "month_start lp m =
     (let l = (if lp then 1 else 0)
      in if m \<le> 0 then 0 else if m = 1 then 31 else if m = 2 then 59 + l else if m = 3 then 90 + l
         else if m = 4 then 120 + l else if m = 5 then 151 + l else if m = 6 then 181 + l
         else if m = 7 then 212 + l else if m = 8 then 243 + l else if m = 9 then 273 + l
         else if m = 10 then 304 + l else if m = 11 then 334 + l else 365 + l)"

definition month_of_yday :: "bool \<Rightarrow> int \<Rightarrow> int" where
  "month_of_yday lp n =
     (let l = (if lp then 1 else 0)
      in if n < 31 then 0 else if n < 59 + l then 1 else if n < 90 + l then 2
         else if n < 120 + l then 3 else if n < 151 + l then 4 else if n < 181 + l then 5
         else if n < 212 + l then 6 else if n < 243 + l then 7 else if n < 273 + l then 8
         else if n < 304 + l then 9 else if n < 334 + l then 10 else 11)"

definition make_day :: "int \<Rightarrow> int \<Rightarrow> int \<Rightarrow> int" where
  "make_day y m d =
     (let ym = y + m div 12 in year_start ym + month_start (leap_year ym) (m mod 12) + d - 1)"

definition utc_year :: "jsdate \<Rightarrow> int" where "utc_year t = year_of_day (day_of t)"

definition utc_month :: "jsdate \<Rightarrow> int" where
  "utc_month t =
     (let y = utc_year t in month_of_yday (leap_year y) (day_of t - year_start y))"

definition utc_date :: "jsdate \<Rightarrow> int" where
  "utc_date t =
     day_of t - year_start (utc_year t) - month_start (leap_year (utc_year t)) (utc_month t) + 1"

definition utc_weekday :: "jsdate \<Rightarrow> int" where
  "utc_weekday t = (day_of t + 4) mod 7"

definition date_UTC :: "int \<Rightarrow> int \<Rightarrow> int \<Rightarrow> jsdate" where
  "date_UTC y m d =
     (let yr = (if 0 \<le> y \<and> y \<le> 99 then 1900 + y else y) in ms_per_day * make_day yr m d)"

definition days_in_month :: "int \<Rightarrow> int \<Rightarrow> int" where
  "days_in_month y m = (let ym = y + m div 12; mn = m mod 12
     in month_start (leap_year ym) (mn + 1) - month_start (leap_year ym) mn)"

section \<open>Years\<close>

lemma div_enclose:
  fixes k :: int
  assumes "0 < k"
  shows "k * (x div k) \<le> x" and "x < k * (x div k) + k"
proof -
  have "x = k * (x div k) + x mod k" by simp
  moreover have "0 \<le> x mod k" and "x mod k < k" using assms by auto
  ultimately show "k * (x div k) \<le> x" and "x < k * (x div k) + k" by linarith+
qed

lemma div_step:
  fixes k :: int
  assumes "0 < k"
  shows "(x + 1) div k = x div k + (if k dvd x + 1 then 1 else 0)"
proof (cases "x mod k + 1 < k")
  case True
  have e: "x + 1 = k * (x div k) + (x mod k + 1)" by simp
  have "(x + 1) div k = x div k" using int_div_pos_eq [OF e] True assms by simp
  moreover have "(x + 1) mod k = x mod k + 1" using int_mod_pos_eq [OF e] True assms by simp
  moreover have "0 \<le> x mod k" using assms by simp
  ultimately show ?thesis by (simp add: dvd_eq_mod_eq_0)
next
  case False
  then have r: "x mod k + 1 = k" using pos_mod_bound [OF assms, of x] by linarith
  have e: "x + 1 = k * (x div k + 1) + 0" unfolding distrib_left using r mult_div_mod_eq [of k x] by linarith
  have "(x + 1) div k = x div k + 1" using int_div_pos_eq [OF e] assms by simp
  moreover have "k dvd x + 1" using e by (metis add.right_neutral dvd_triv_left)
  ultimately show ?thesis by simp
qed

lemma year_start_bounds:
  "146097 * (y - 1970) - 700 \<le> 400 * year_start y \<and> 400 * year_start y \<le> 146097 * (y - 1970) + 700"
  using div_enclose [of 4 "y - 1969"] div_enclose [of 100 "y - 1901"] div_enclose [of 400 "y - 1601"]
  unfolding year_start_def by simp

lemma dvd_shift: "k dvd c \<Longrightarrow> k dvd x - c \<longleftrightarrow> k dvd (x::int)"
  by (metis diff_add_cancel dvd_add_left_iff)

lemma leap_div:
  fixes k c :: int
  assumes "0 < k" and "k dvd c - 1"
  shows "(y + 1 - c) div k = (y - c) div k + (if k dvd y then 1 else 0)"
proof -
  have e: "y + 1 - c = y - c + 1" and "y - c + 1 = y - (c - 1)" by simp_all
  then have d: "k dvd y - c + 1 \<longleftrightarrow> k dvd y" using dvd_shift [OF assms(2), of y] by metis
  show ?thesis unfolding e div_step [OF assms(1)] d by (rule refl)
qed

lemma year_start_Suc: "year_start (y + 1) = year_start y + (if leap_year y then 366 else 365)"
proof -
  have a: "(y + 1 - 1969) div 4 = (y - 1969) div 4 + (if 4 dvd y then 1 else 0)"
    by (rule leap_div [of 4 1969]) simp_all
  have b: "(y + 1 - 1901) div 100 = (y - 1901) div 100 + (if 100 dvd y then 1 else 0)"
    by (rule leap_div [of 100 1901]) simp_all
  have c: "(y + 1 - 1601) div 400 = (y - 1601) div 400 + (if 400 dvd y then 1 else 0)"
    by (rule leap_div [of 400 1601]) simp_all
  have m1: "400 dvd y \<Longrightarrow> 100 dvd y" by (rule dvd_trans [of 100 400]) simp_all
  have m2: "100 dvd y \<Longrightarrow> 4 dvd y" by (rule dvd_trans [of 4 100]) simp_all
  have leap: "leap_year y \<longleftrightarrow> 4 dvd y \<and> (\<not> 100 dvd y \<or> 400 dvd y)"
    unfolding leap_year_def dvd_eq_mod_eq_0 by (rule refl)
  have sum: "365 * (y + 1 - 1970) + (A + (if P then 1 else 0)) - (B + (if Q then 1 else 0))
      + (C + (if R then 1 else 0))
    = (365 * (y - 1970) + A - B + C) + (if P \<and> (\<not> Q \<or> R) then 366 else 365)"
    if "R \<Longrightarrow> Q" "Q \<Longrightarrow> P" for A B C :: int and P Q R
    using that by (cases P; cases Q; cases R) simp_all
  show ?thesis
    unfolding year_start_def a b c leap by (rule sum [OF m1 m2])
qed

lemma year_of_day_bounds: "year_start (year_of_day d) \<le> d \<and> d < year_start (year_of_day d + 1)"
proof -
  define q where "q = (400 * d) div 146097"
  have d: "146097 * q \<le> 400 * d" "400 * d < 146097 * q + 146097"
    using div_enclose [of 146097 "400 * d"] by (simp_all add: q_def)
  have lo: "year_start (1970 + q - 1) \<le> d"
    using year_start_bounds [of "1970 + q - 1"] d by (simp add: algebra_simps)
  have hi: "d < year_start (1970 + q + 1 + 1)"
    using year_start_bounds [of "1970 + q + 1 + 1"] d by (simp add: algebra_simps)
  show ?thesis
    using lo hi by (simp add: year_of_day_def Let_def q_def [symmetric])
qed

lemma year_start_mono: "a \<le> b \<Longrightarrow> year_start a \<le> year_start b"
proof (induction "nat (b - a)" arbitrary: b)
  case (Suc n)
  have "year_start a \<le> year_start (b - 1)" using Suc by auto
  also have "\<dots> \<le> year_start b" using year_start_Suc [of "b - 1"] by (simp split: if_splits)
  finally show ?case .
qed simp

lemma year_of_day_unique:
  assumes "year_start y \<le> d" and "d < year_start (y + 1)"
  shows "year_of_day d = y"
proof -
  have "\<not> year_of_day d < y"
    using year_start_mono [of "year_of_day d + 1" y] year_of_day_bounds [of d] assms by auto
  moreover have "\<not> y < year_of_day d"
    using year_start_mono [of "y + 1" "year_of_day d"] year_of_day_bounds [of d] assms by auto
  ultimately show ?thesis by simp
qed

section \<open>Months\<close>

lemma month_of_yday_range: "0 \<le> month_of_yday lp n \<and> month_of_yday lp n \<le> 11"
  by (auto simp: month_of_yday_def Let_def)

lemma month_of_yday_bounds:
  assumes "0 \<le> n" and "n < (if lp then 366 else 365)"
  shows "month_start lp (month_of_yday lp n) \<le> n" and "n < month_start lp (month_of_yday lp n + 1)"
  using assms by (auto simp: month_of_yday_def month_start_def Let_def)

lemma month_of_yday_unique:
  assumes "0 \<le> m" "m \<le> 11" "month_start lp m \<le> n" "n < month_start lp (m + 1)"
  shows "month_of_yday lp n = m"
proof -
  have "m = 0 \<or> m = 1 \<or> m = 2 \<or> m = 3 \<or> m = 4 \<or> m = 5 \<or> m = 6 \<or> m = 7 \<or> m = 8 \<or> m = 9
    \<or> m = 10 \<or> m = 11" using assms(1,2) by presburger
  then show ?thesis using assms(3,4)
    by (elim disjE) (auto simp: month_of_yday_def month_start_def Let_def split: if_splits)
qed

lemma civil_of_day: "make_day (utc_year t) (utc_month t) (utc_date t) = day_of t"
proof -
  have "utc_month t div 12 = 0" and "utc_month t mod 12 = utc_month t"
    using month_of_yday_range [of "leap_year (utc_year t)" "day_of t - year_start (utc_year t)"]
    by (simp_all add: utc_month_def Let_def)
  then show ?thesis by (simp add: make_day_def utc_date_def Let_def)
qed

lemma day_of_civil:
  assumes m: "0 \<le> m" "m \<le> 11" and d: "1 \<le> d" "d \<le> days_in_month y m"
    and t: "day_of t = make_day y m d"
  shows "utc_year t = y" and "utc_month t = m" and "utc_date t = d"
proof -
  have mm: "m div 12 = 0" "m mod 12 = m" using m by auto
  have ge: "0 \<le> month_start (leap_year y) m" and
    le: "month_start (leap_year y) (m + 1) \<le> (if leap_year y then 366 else 365)"
    using m by (auto simp: month_start_def Let_def)
  have dd: "day_of t = year_start y + month_start (leap_year y) m + d - 1"
    using t mm by (simp add: make_day_def)
  have dim: "d \<le> month_start (leap_year y) (m + 1) - month_start (leap_year y) m"
    using d mm by (simp add: days_in_month_def)
  show y: "utc_year t = y" unfolding utc_year_def
    by (rule year_of_day_unique) (use dd d ge le dim year_start_Suc [of y] in auto)
  show mo: "utc_month t = m" unfolding utc_month_def Let_def y
    by (rule month_of_yday_unique) (use m dd d dim in auto)
  show "utc_date t = d" by (simp add: utc_date_def y mo dd)
qed

lemma day_of_date_UTC:
  "\<not> (0 \<le> y \<and> y \<le> 99) \<Longrightarrow> day_of (date_UTC y m d) = make_day y m d"
  by (auto simp: date_UTC_def day_of_def ms_per_day_def Let_def)

text \<open>
  Outside the first century, whose years \<open>Date.UTC\<close> reads as 1900 to 1999, rebuilding a date from its
  own UTC fields truncates it to midnight.
\<close>

lemma date_UTC_truncates:
  "\<not> (0 \<le> utc_year t \<and> utc_year t \<le> 99) \<Longrightarrow>
    date_UTC (utc_year t) (utc_month t) (utc_date t) = ms_per_day * day_of t"
  using civil_of_day [of t] by (auto simp: date_UTC_def Let_def)

lemma modern_year: "- 59011459200000 \<le> t \<Longrightarrow> 100 \<le> utc_year t"
proof (rule ccontr)
  assume t: "- 59011459200000 \<le> t" and "\<not> 100 \<le> utc_year t"
  then have "year_start (utc_year t + 1) \<le> year_start 100" by (intro year_start_mono) simp
  moreover have "year_start 100 = - 683003" by (simp add: year_start_def)
  ultimately have "day_of t < - 683003"
    using year_of_day_bounds [of "day_of t"] by (simp add: utc_year_def)
  moreover have "- 683003 \<le> day_of t"
    using t zdiv_mono1 [of "- 59011459200000" t 86400000] by (simp add: day_of_def ms_per_day_def)
  ultimately show False by simp
qed

lemma make_day_add: "make_day y m (d + n) = make_day y m d + n"
  by (simp add: make_day_def Let_def)

section \<open>Calendar days\<close>

text \<open>
  \<open>new Date(Date.UTC(d.getUTCFullYear(), d.getUTCMonth(), d.getUTCDate()))\<close>, the truncation to the
  UTC day that the services spell out one by one.
\<close>

definition toUtcDay :: "jsdate \<Rightarrow> jsdate" where
  "toUtcDay value = date_UTC (utc_year value) (utc_month value) (utc_date value)"

text \<open>\<open>setUTCDate(d)\<close>: the day changes, the time within the day stays.\<close>

definition setUTCDate :: "jsdate \<Rightarrow> int \<Rightarrow> jsdate" where
  "setUTCDate t d = ms_per_day * make_day (utc_year t) (utc_month t) d + t mod ms_per_day"

text \<open>A date the program can meet: the year is not one of the two-digit years \<open>Date.UTC\<close> rewrites.\<close>

definition modern :: "jsdate \<Rightarrow> bool" where "modern t \<longleftrightarrow> - 59011459200000 \<le> t"

lemma toUtcDay_modern: "modern t \<Longrightarrow> toUtcDay t = ms_per_day * day_of t"
  using modern_year [of t] by (auto simp: toUtcDay_def modern_def intro!: date_UTC_truncates)

lemma day_of_mult [simp]: "day_of (ms_per_day * d) = d" "day_of (d * ms_per_day) = d"
  by (simp_all add: day_of_def ms_per_day_def)

lemma modern_day: "modern t \<Longrightarrow> - 683003 \<le> day_of t"
  using zdiv_mono1 [of "- 59011459200000" t ms_per_day] by (simp add: modern_def day_of_def ms_per_day_def)

lemma modern_day_mult: "- 683003 \<le> d \<Longrightarrow> modern (ms_per_day * d)"
  by (simp add: modern_def ms_per_day_def)

lemma modern_toUtcDay: "modern t \<Longrightarrow> modern (toUtcDay t)"
  by (simp add: toUtcDay_modern modern_day modern_day_mult)

lemma toUtcDay_idem: "modern t \<Longrightarrow> toUtcDay (toUtcDay t) = toUtcDay t"
  using modern_toUtcDay [of t] by (simp add: toUtcDay_modern)

lemma toUtcDay_le: "modern t \<Longrightarrow> toUtcDay t \<le> t"
  using div_enclose(1) [of ms_per_day t] by (simp add: toUtcDay_modern day_of_def ms_per_day_def)

lemma toUtcDay_mono: "modern s \<Longrightarrow> modern t \<Longrightarrow> s \<le> t \<Longrightarrow> toUtcDay s \<le> toUtcDay t"
  by (simp add: toUtcDay_modern day_of_def zdiv_mono1 ms_per_day_def)

lemma setUTCDate_add: "setUTCDate t (utc_date t + n) = t + n * ms_per_day"
proof -
  have "setUTCDate t (utc_date t + n) = ms_per_day * (day_of t + n) + t mod ms_per_day"
    unfolding setUTCDate_def make_day_add civil_of_day ..
  also have "\<dots> = (ms_per_day * (t div ms_per_day) + t mod ms_per_day) + n * ms_per_day"
    unfolding day_of_def by (simp only: distrib_left mult.commute [of n] add_ac)
  finally show ?thesis unfolding mult_div_mod_eq .
qed

end
