(* ===== verification/InvoiceStatus.thy ===== *)
theory InvoiceStatus
  imports StatusMachines JsNumber JsDate
begin

text \<open>
  The invoice services that read the stored columns: the derived status and the outstanding amount
  (\<open>invoiceStatusView.ts\<close>), the dates a send stamps (\<open>invoiceDates.ts\<close>), the reminder due today
  (\<open>invoiceReminders.ts\<close>), the late-fee decision (\<open>lateFee.ts\<close>) and the settlement decision
  (\<open>features/payments/services\<close>). Dates are milliseconds; comparisons are between UTC days.
\<close>

section \<open>The derived status\<close>

datatype invoice_view_status = ViewDraft | ViewSent | ViewPaid | ViewOverdue | ViewPartially_paid

record status_view_input =
  svi_status :: invoice_status
  svi_dueDate :: "jsdate option"
  svi_paidAt :: "jsdate option"
  svi_amountPaidCents :: int
  svi_totalCents :: int

fun view_of_stored :: "invoice_status \<Rightarrow> invoice_view_status" where
  "view_of_stored Draft = ViewDraft"
| "view_of_stored Sent = ViewSent"
| "view_of_stored Paid = ViewPaid"

definition isInvoiceOverdue :: "invoice_status \<Rightarrow> jsdate option \<Rightarrow> jsdate option \<Rightarrow> jsdate \<Rightarrow> bool" where
  "isInvoiceOverdue status dueDate paidAt now =
     (if status = Draft then False
      else case dueDate of
        None \<Rightarrow> False
      | Some due \<Rightarrow> if paidAt \<noteq> None then False else toUtcDay due < toUtcDay now)"

definition isInvoicePartiallyPaid :: "int \<Rightarrow> int \<Rightarrow> bool" where
  "isInvoicePartiallyPaid amountPaid totalAmount \<longleftrightarrow> 0 < amountPaid \<and> amountPaid < totalAmount"

definition deriveInvoiceStatusView :: "status_view_input \<Rightarrow> jsdate \<Rightarrow> invoice_view_status" where
  "deriveInvoiceStatusView i now =
     (if svi_status i = Paid then ViewPaid
      else if isInvoiceOverdue (svi_status i) (svi_dueDate i) (svi_paidAt i) now then ViewOverdue
      else if isInvoicePartiallyPaid (svi_amountPaidCents i) (svi_totalCents i) then ViewPartially_paid
      else view_of_stored (svi_status i))"

record outstanding_input =
  oi_totalCents :: int
  oi_amountPaidCents :: int
  oi_creditedCents :: int

definition getInvoiceOutstandingCents :: "outstanding_input \<Rightarrow> int" where
  "getInvoiceOutstandingCents i = max (oi_totalCents i - oi_creditedCents i - oi_amountPaidCents i) 0"

section \<open>The dates a send stamps\<close>

definition resolveInvoiceIssueDates ::
  "jsdate \<Rightarrow> jsdate option \<Rightarrow> jsdate option \<Rightarrow> int \<Rightarrow> jsdate \<times> jsdate" where
  "resolveInvoiceIssueDates now currentIssueDate currentDueDate paymentTermsDays =
     (let issueDate = toUtcDay (case currentIssueDate of Some d \<Rightarrow> d | None \<Rightarrow> now);
          fromTerms = setUTCDate issueDate (utc_date issueDate + max paymentTermsDays 0)
      in case currentDueDate of
           Some d \<Rightarrow> if issueDate \<le> toUtcDay d then (issueDate, toUtcDay d) else (issueDate, fromTerms)
         | None \<Rightarrow> (issueDate, fromTerms))"

section \<open>Reminders\<close>

record reminder_schedule =
  beforeDueDays :: "int list"
  afterDueDays :: "int list"

datatype reminder_phase = Before | After

definition toUtcDayDifference :: "jsdate \<Rightarrow> jsdate \<Rightarrow> int" where
  "toUtcDayDifference dueDate now = (toUtcDay dueDate - toUtcDay now) div ms_per_day"

definition resolveDueReminder ::
  "jsdate \<Rightarrow> reminder_schedule \<Rightarrow> jsdate \<Rightarrow> (int \<times> reminder_phase) option" where
  "resolveDueReminder dueDate schedule now =
     (let daysUntilDue = toUtcDayDifference dueDate now
      in if daysUntilDue < 0 \<and> - daysUntilDue \<in> set (afterDueDays schedule)
         then Some (- daysUntilDue, After)
         else if 0 \<le> daysUntilDue \<and> daysUntilDue \<in> set (beforeDueDays schedule)
         then Some (daysUntilDue, Before)
         else None)"

definition getReminderWindowDays :: "reminder_schedule \<Rightarrow> int option" where
  "getReminderWindowDays schedule =
     (let offsets = filter (\<lambda>d. 0 \<le> d) (beforeDueDays schedule @ afterDueDays schedule)
      in if offsets = [] then None else Some (foldr max offsets (hd offsets)))"

section \<open>Late fees\<close>

datatype late_fee_policy =
    PolicyOff
  | PolicyPercentage jsnum int "int option"
  | PolicyFixed int int "int option"

datatype late_fee_type = LateFeePercentage | LateFeeFixed

record late_fee_policy_row =
  lfp_enabled :: bool
  lfp_type :: "late_fee_type option"
  lfp_percentage :: "jsnum option"
  lfp_amountCents :: "int option"
  lfp_graceDays :: int
  lfp_maxCents :: "int option"

record late_fee_candidate =
  lfc_status :: invoice_status
  lfc_dueDate :: "jsdate option"
  lfc_paidAt :: "jsdate option"
  lfc_totalCents :: int
  lfc_amountPaidCents :: int
  lfc_creditedCents :: int
  lfc_lateFeeCents :: "int option"

datatype late_fee_refusal =
  Policy_off | Already_assessed | Not_issued | Settled_fee | No_due_date | Within_grace
  | Nothing_outstanding_fee | Rounds_to_zero

datatype late_fee_assessment = Charge int int | No_charge late_fee_refusal

fun toLateFeePolicy :: "late_fee_policy_row option \<Rightarrow> late_fee_policy" where
  "toLateFeePolicy None = PolicyOff"
| "toLateFeePolicy (Some row) =
     (if \<not> lfp_enabled row then PolicyOff
      else case (lfp_type row, lfp_percentage row, lfp_amountCents row) of
        (Some LateFeePercentage, Some p, _) \<Rightarrow> PolicyPercentage p (lfp_graceDays row) (lfp_maxCents row)
      | (Some LateFeeFixed, _, Some a) \<Rightarrow> PolicyFixed a (lfp_graceDays row) (lfp_maxCents row)
      | _ \<Rightarrow> PolicyOff)"

definition countDaysLate :: "jsdate \<Rightarrow> jsdate \<Rightarrow> int" where
  "countDaysLate dueDate now = (toUtcDay now - toUtcDay dueDate) div ms_per_day"

fun policy_graceDays :: "late_fee_policy \<Rightarrow> int" where
  "policy_graceDays PolicyOff = 0"
| "policy_graceDays (PolicyPercentage p g m) = g"
| "policy_graceDays (PolicyFixed a g m) = g"

fun policy_maxCents :: "late_fee_policy \<Rightarrow> int option" where
  "policy_maxCents PolicyOff = None"
| "policy_maxCents (PolicyPercentage p g m) = m"
| "policy_maxCents (PolicyFixed a g m) = m"

fun rawFeeCents :: "late_fee_policy \<Rightarrow> int \<Rightarrow> int" where
  "rawFeeCents PolicyOff outstanding = 0"
| "rawFeeCents (PolicyFixed a g m) outstanding = a"
| "rawFeeCents (PolicyPercentage p g m) outstanding = percent_cents outstanding p"

definition capFee :: "int \<Rightarrow> int option \<Rightarrow> int" where
  "capFee fee maxCents = (case maxCents of None \<Rightarrow> fee | Some m \<Rightarrow> min fee m)"

definition assessLateFee :: "late_fee_candidate \<Rightarrow> late_fee_policy \<Rightarrow> jsdate \<Rightarrow> late_fee_assessment" where
  "assessLateFee invoice policy now =
     (if policy = PolicyOff then No_charge Policy_off
      else if lfc_lateFeeCents invoice \<noteq> None then No_charge Already_assessed
      else if lfc_status invoice = Draft then No_charge Not_issued
      else if lfc_status invoice = Paid \<or> lfc_paidAt invoice \<noteq> None then No_charge Settled_fee
      else case lfc_dueDate invoice of
        None \<Rightarrow> No_charge No_due_date
      | Some due \<Rightarrow>
          (let daysLate = countDaysLate due now
           in if daysLate \<le> policy_graceDays policy then No_charge Within_grace
              else let outstanding = getInvoiceOutstandingCents
                         \<lparr>oi_totalCents = lfc_totalCents invoice,
                          oi_amountPaidCents = lfc_amountPaidCents invoice,
                          oi_creditedCents = lfc_creditedCents invoice\<rparr>
                   in if outstanding \<le> 0 then No_charge Nothing_outstanding_fee
                      else let fee = capFee (rawFeeCents policy outstanding) (policy_maxCents policy)
                           in if fee \<le> 0 then No_charge Rounds_to_zero else Charge fee daysLate))"

section \<open>Settlement and checkout\<close>

datatype settlement = Unpaid | Partial | Settled | Overpaid int

fun is_overpaid :: "settlement \<Rightarrow> bool" where
  "is_overpaid (Overpaid x) = True"
| "is_overpaid s = False"

definition evaluateInvoiceSettlement :: "outstanding_input \<Rightarrow> settlement" where
  "evaluateInvoiceSettlement i =
     (if oi_amountPaidCents i > oi_totalCents i then Overpaid (oi_amountPaidCents i - oi_totalCents i)
      else if oi_totalCents i > 0 \<and> getInvoiceOutstandingCents i = 0 then Settled
      else if oi_amountPaidCents i > 0 then Partial
      else Unpaid)"

definition sumPaymentAmountCents :: "int list \<Rightarrow> int" where
  "sumPaymentAmountCents amounts = sum_list amounts"

datatype checkout_refusal = Not_configured | Invoice_not_issued_checkout | Nothing_outstanding

datatype checkout_decision = Payable int | Not_payable checkout_refusal

definition decideInvoiceCheckout :: "invoice_status \<Rightarrow> outstanding_input \<Rightarrow> bool \<Rightarrow> checkout_decision" where
  "decideInvoiceCheckout status i stripeConfigured =
     (if \<not> stripeConfigured then Not_payable Not_configured
      else if status = Draft then Not_payable Invoice_not_issued_checkout
      else let outstanding = getInvoiceOutstandingCents i
           in if outstanding \<le> 0 then Not_payable Nothing_outstanding else Payable outstanding)"

datatype payment_method = Bank_transfer | Stripe | Cash | Other

definition manual_payment_methods :: "payment_method list" where
  "manual_payment_methods = [Bank_transfer, Cash, Other]"

definition isManualPaymentMethod :: "payment_method \<Rightarrow> bool" where
  "isManualPaymentMethod m \<longleftrightarrow> m \<in> set manual_payment_methods"

definition toManualPaymentMethod :: "payment_method \<Rightarrow> payment_method" where
  "toManualPaymentMethod m = (if isManualPaymentMethod m then m else Other)"

section \<open>Lemmas\<close>

lemma outstanding_nonneg [simp]: "0 \<le> getInvoiceOutstandingCents i"
  by (simp add: getInvoiceOutstandingCents_def)

lemma outstanding_0: "getInvoiceOutstandingCents i = 0 \<longleftrightarrow> oi_totalCents i \<le> oi_creditedCents i + oi_amountPaidCents i"
  by (auto simp: getInvoiceOutstandingCents_def)

lemma is_overpaid_iff [simp]: "is_overpaid s \<longleftrightarrow> (\<exists>x. s = Overpaid x)"
  by (cases s) auto

lemma settlement_iff:
  "evaluateInvoiceSettlement i = Settled \<longleftrightarrow>
     oi_amountPaidCents i \<le> oi_totalCents i \<and> 0 < oi_totalCents i
     \<and> oi_totalCents i \<le> oi_creditedCents i + oi_amountPaidCents i"
  by (auto simp: evaluateInvoiceSettlement_def outstanding_0)

lemma overpaid_iff: "(\<exists>x. evaluateInvoiceSettlement i = Overpaid x) \<longleftrightarrow> oi_totalCents i < oi_amountPaidCents i"
  by (auto simp: evaluateInvoiceSettlement_def)

lemma day_distance:
  "modern s \<Longrightarrow> modern t \<Longrightarrow> (toUtcDay s - toUtcDay t) div ms_per_day = day_of s - day_of t"
proof -
  assume "modern s" "modern t"
  then have "toUtcDay s - toUtcDay t = ms_per_day * (day_of s - day_of t)"
    by (simp only: toUtcDay_modern right_diff_distrib)
  moreover have "ms_per_day \<noteq> 0" by (simp add: ms_per_day_def)
  ultimately show ?thesis by simp
qed

lemma overdue_iff:
  "modern due \<Longrightarrow> modern now \<Longrightarrow>
    isInvoiceOverdue status (Some due) paidAt now \<longleftrightarrow> status \<noteq> Draft \<and> paidAt = None \<and> day_of due < day_of now"
  by (simp add: isInvoiceOverdue_def toUtcDay_modern ms_per_day_def)

text \<open>With the policy on and priced within bounds, the fee is positive, capped and, as a percentage, no
  more than what is outstanding.\<close>

lemma late_fee_charge:
  assumes "assessLateFee i p now = Charge fee days"
  shows "0 < fee" and "\<forall>m. policy_maxCents p = Some m \<longrightarrow> fee \<le> m"
    and "lfc_status i = Sent" and "lfc_paidAt i = None" and "lfc_lateFeeCents i = None"
    and "\<exists>due. lfc_dueDate i = Some due \<and> days = countDaysLate due now \<and> policy_graceDays p < days"
    and "lfc_creditedCents i + lfc_amountPaidCents i < lfc_totalCents i"
    and "fee \<le> rawFeeCents p (lfc_totalCents i - lfc_creditedCents i - lfc_amountPaidCents i)"
proof -
  have s: "lfc_status i \<noteq> Draft" "lfc_status i \<noteq> Paid"
    using assms by (auto simp: assessLateFee_def split: if_splits option.splits)
  then show "lfc_status i = Sent" by (cases "lfc_status i") auto
  show "0 < fee" "\<forall>m. policy_maxCents p = Some m \<longrightarrow> fee \<le> m" "lfc_paidAt i = None" "lfc_lateFeeCents i = None"
    "\<exists>due. lfc_dueDate i = Some due \<and> days = countDaysLate due now \<and> policy_graceDays p < days"
    using assms by (auto simp: assessLateFee_def Let_def capFee_def split: if_splits option.splits)
  have o: "0 < getInvoiceOutstandingCents \<lparr>oi_totalCents = lfc_totalCents i,
      oi_amountPaidCents = lfc_amountPaidCents i, oi_creditedCents = lfc_creditedCents i\<rparr>"
    using assms by (auto simp: assessLateFee_def Let_def split: if_splits option.splits)
  then show "lfc_creditedCents i + lfc_amountPaidCents i < lfc_totalCents i"
    by (auto simp: getInvoiceOutstandingCents_def split: if_splits)
  then show "fee \<le> rawFeeCents p (lfc_totalCents i - lfc_creditedCents i - lfc_amountPaidCents i)"
    using assms by (auto simp: assessLateFee_def Let_def capFee_def getInvoiceOutstandingCents_def
        split: if_splits option.splits)
qed

section \<open>Properties\<close>

text \<open>
  An invoice is settled exactly when its payments and credit notes cover a positive total without
  the payments exceeding it, and then checkout refuses it; an unsettled issued invoice with a positive
  total is charged exactly the outstanding amount, which is never more than what is left unpaid.
\<close>

theorem settlement_and_checkout_agree:
  fixes i :: outstanding_input
  assumes "status \<noteq> Draft" "0 < oi_totalCents i" "oi_amountPaidCents i \<le> oi_totalCents i"
    and "0 \<le> oi_creditedCents i"
  shows "(evaluateInvoiceSettlement i = Settled \<longleftrightarrow> getInvoiceOutstandingCents i = 0)
       \<and> (evaluateInvoiceSettlement i = Settled
            \<longleftrightarrow> decideInvoiceCheckout status i True = Not_payable Nothing_outstanding)
       \<and> (\<forall>a. decideInvoiceCheckout status i True = Payable a \<longrightarrow>
            0 < a \<and> a \<le> oi_totalCents i - oi_amountPaidCents i
            \<and> evaluateInvoiceSettlement (i\<lparr>oi_amountPaidCents := oi_amountPaidCents i + a\<rparr>) = Settled)"
  using assms by (auto simp: settlement_iff outstanding_0 decideInvoiceCheckout_def Let_def
      getInvoiceOutstandingCents_def evaluateInvoiceSettlement_def split: if_splits)

lemma settlement_and_checkout_agree_witness:
  "decideInvoiceCheckout Sent \<lparr>oi_totalCents = 1000, oi_amountPaidCents = 300, oi_creditedCents = 200\<rparr> True
     = Payable 500
   \<and> evaluateInvoiceSettlement \<lparr>oi_totalCents = 1000, oi_amountPaidCents = 800, oi_creditedCents = 200\<rparr> = Settled"
proof -
  let ?i = "\<lparr>oi_totalCents = 1000, oi_amountPaidCents = 300, oi_creditedCents = 200\<rparr> :: outstanding_input"
  have d: "decideInvoiceCheckout Sent ?i True = Payable 500"
    by (simp add: decideInvoiceCheckout_def getInvoiceOutstandingCents_def)
  with settlement_and_checkout_agree [of Sent ?i] show ?thesis by simp
qed

text \<open>
  A late fee is charged only to a sent, unpaid invoice that was never assessed, owes money and is
  past its due date by more than the grace days; the fee is positive, within the policy's cap, and a
  percentage policy of at most one hundred percent never charges more than what is outstanding.
\<close>

theorem late_fee_is_fair:
  assumes "assessLateFee i p now = Charge fee days"
  shows "0 < fee \<and> (\<forall>m. policy_maxCents p = Some m \<longrightarrow> fee \<le> m)
       \<and> lfc_status i = Sent \<and> lfc_paidAt i = None \<and> lfc_lateFeeCents i = None
       \<and> (\<exists>due. lfc_dueDate i = Some due \<and> (modern due \<and> modern now \<longrightarrow>
            day_of now - day_of due = days \<and> policy_graceDays p < day_of now - day_of due))
       \<and> (\<forall>pct g m. p = PolicyPercentage pct g m \<and> pct \<le> 100 \<and> 0 \<le> lfc_amountPaidCents i
            \<and> 0 \<le> lfc_creditedCents i \<and> lfc_totalCents i \<le> 2 ^ 46
          \<longrightarrow> fee \<le> lfc_totalCents i - lfc_creditedCents i - lfc_amountPaidCents i)"
proof -
  note c = late_fee_charge [OF assms]
  have "fee \<le> lfc_totalCents i - lfc_creditedCents i - lfc_amountPaidCents i"
    if "p = PolicyPercentage pct g m" "pct \<le> 100" "0 \<le> lfc_amountPaidCents i" "0 \<le> lfc_creditedCents i"
      "lfc_totalCents i \<le> 2 ^ 46" for pct g m
  proof -
    let ?o = "lfc_totalCents i - lfc_creditedCents i - lfc_amountPaidCents i"
    have "percent_cents ?o pct \<le> ?o" using that c(7) by (intro percent_cents_le) auto
    then show ?thesis using c(8) that(1) by simp
  qed
  then show ?thesis using c day_distance by (auto simp: countDaysLate_def)
qed

lemma late_fee_is_fair_witness:
  "\<exists>fee days. assessLateFee
     \<lparr>lfc_status = Sent, lfc_dueDate = Some (20000 * 86400000), lfc_paidAt = None, lfc_totalCents = 10000,
      lfc_amountPaidCents = 2000, lfc_creditedCents = 0, lfc_lateFeeCents = None\<rparr>
     (PolicyPercentage 5 3 (Some 5000)) (20010 * 86400000) = Charge fee days \<and> 0 < fee \<and> fee \<le> 8000"
proof -
  let ?i = "\<lparr>lfc_status = Sent, lfc_dueDate = Some (20000 * 86400000), lfc_paidAt = None, lfc_totalCents = 10000,
      lfc_amountPaidCents = 2000, lfc_creditedCents = 0, lfc_lateFeeCents = None\<rparr> :: late_fee_candidate"
  have e: "assessLateFee ?i (PolicyPercentage 5 3 (Some 5000)) (20010 * 86400000) = Charge 400 10"
    by code_simp
  with late_fee_is_fair [OF e] show ?thesis by auto
qed

text \<open>
  A send stamps dates that meet \<open>chk_invoices_dates\<close>: the due day is never before the issue day,
  both are whole UTC days, an issue date chosen by hand keeps its day, and so does a due date that is
  not earlier than it; otherwise the due day is the issue day plus the payment terms.
\<close>

theorem issue_dates_meet_check:
  assumes "modern now" "\<forall>d. currentIssue = Some d \<longrightarrow> modern d" "\<forall>d. currentDue = Some d \<longrightarrow> modern d"
    and "resolveInvoiceIssueDates now currentIssue currentDue terms = (issue, due)"
  shows "issue \<le> due \<and> issue = ms_per_day * day_of issue \<and> due = ms_per_day * day_of due
       \<and> day_of issue = day_of (case currentIssue of Some d \<Rightarrow> d | None \<Rightarrow> now)
       \<and> (case currentDue of
            Some d \<Rightarrow> day_of due = (if day_of issue \<le> day_of d then day_of d else day_of issue + max terms 0)
          | None \<Rightarrow> day_of due = day_of issue + max terms 0)"
proof -
  let ?d = "case currentIssue of Some d \<Rightarrow> d | None \<Rightarrow> now"
  have m: "modern ?d" using assms(1,2) by (auto split: option.splits)
  have i: "issue = ms_per_day * day_of ?d"
    using assms(4) toUtcDay_modern [OF m] by (auto simp: resolveInvoiceIssueDates_def Let_def split: option.splits if_splits)
  have t: "setUTCDate issue (utc_date issue + max terms 0) = ms_per_day * (day_of ?d + max terms 0)"
    unfolding setUTCDate_add by (simp add: i algebra_simps)
  have le: "ms_per_day * a \<le> ms_per_day * b \<longleftrightarrow> a \<le> b" for a b by (simp add: ms_per_day_def)
  show ?thesis
  proof (cases currentDue)
    case None
    then have "due = ms_per_day * (day_of ?d + max terms 0)"
      using assms(4) t toUtcDay_modern [OF m] i by (auto simp: resolveInvoiceIssueDates_def Let_def)
    then show ?thesis using i None le by simp
  next
    case (Some d)
    then have "modern d" using assms(3) by simp
    then have "due = (if day_of ?d \<le> day_of d then ms_per_day * day_of d
        else ms_per_day * (day_of ?d + max terms 0))"
      using assms(4) t toUtcDay_modern [OF m] toUtcDay_modern [of d] i Some le
      by (auto simp: resolveInvoiceIssueDates_def Let_def split: if_splits)
    then show ?thesis using i Some le by (auto split: if_splits)
  qed
qed

lemma issue_dates_meet_check_witness:
  "\<exists>issue due. resolveInvoiceIssueDates 1767225600500 None (Some 1700000000000) 30 = (issue, due)
     \<and> issue \<le> due \<and> day_of due = day_of issue + 30"
proof -
  obtain issue due where r: "resolveInvoiceIssueDates 1767225600500 None (Some 1700000000000) 30 = (issue, due)"
    by (cases "resolveInvoiceIssueDates 1767225600500 None (Some 1700000000000) 30")
  have "modern 1767225600500" "\<forall>d. Some (1700000000000::int) = Some d \<longrightarrow> modern d" by (simp_all add: modern_def)
  from issue_dates_meet_check [OF this(1) _ this(2) r] show ?thesis
    using r by (auto simp: day_of_def ms_per_day_def)
qed

end
