(* ===== verification/Database.thy ===== *)
theory Database
  imports Session InvoiceStatus InvoiceTotals
begin

text \<open>
  The part of the relational store (\<open>database/schema\<close>) the money paths read and write: invoices, line
  items, payments, credit notes, the settings row, the parents a document names, and three logs that
  stand for what leaves the transaction (the audit table, the event bus, the job queue). A table is a
  list of rows. Row ids are the database's \<open>defaultRandom()\<close> uuids: the operations take them as
  arguments and the theorems assume them unused. Columns no modelled operation touches are left out.
\<close>

section \<open>Rows\<close>

record invoice_row =
  inv_id :: ident
  inv_projectId :: "ident option"
  inv_clientId :: "ident option"
  inv_proposalId :: "ident option"
  inv_templateId :: "ident option"
  inv_recurringInvoiceId :: "ident option"
  inv_pdfUploadId :: "ident option"
  inv_number :: string
  inv_status :: invoice_status
  inv_currency :: string
  inv_discount :: discount_columns
  inv_subtotalCents :: int
  inv_discountAmountTotalCents :: int
  inv_taxAmountCents :: int
  inv_totalCents :: int
  inv_amountPaidCents :: int
  inv_issueDate :: "jsdate option"
  inv_dueDate :: "jsdate option"
  inv_paidAt :: "jsdate option"
  inv_lateFeeCents :: "int option"
  inv_notes :: "string option"
  inv_publicToken :: "string option"
  inv_deletedAt :: "jsdate option"

record payment_row =
  pay_id :: ident
  pay_invoiceId :: ident
  pay_method :: payment_method
  pay_amountCents :: int
  pay_currency :: string
  pay_paidAt :: jsdate
  pay_reference :: "string option"
  pay_stripePaymentIntentId :: "string option"
  pay_notes :: "string option"
  pay_deletedAt :: "jsdate option"

record credit_note_row =
  cn_id :: ident
  cn_invoiceId :: ident
  cn_number :: string
  cn_reason :: "string option"
  cn_currency :: string
  cn_subtotalCents :: int
  cn_taxAmountCents :: int
  cn_totalCents :: int
  cn_deletedAt :: "jsdate option"

record line_item_row =
  li_id :: ident
  li_proposalId :: "ident option"
  li_invoiceId :: "ident option"
  li_creditNoteId :: "ident option"
  li_taxRateId :: "ident option"
  li_position :: int
  li_description :: string
  li_unit :: "string option"
  li_quantity :: jsnum
  li_unitPriceCents :: int
  li_discount :: discount_columns
  li_taxPercentageSnapshot :: jsnum
  li_subtotalCents :: int
  li_taxAmountCents :: int
  li_totalCents :: int
  li_sourceTimeEntryId :: "ident option"
  li_sourceExpenseId :: "ident option"
  li_deletedAt :: "jsdate option"

record settings_row =
  set_defaultCurrency :: string
  set_defaultHourlyRateCents :: "int option"
  set_invoicePrefix :: string
  set_proposalPrefix :: string
  set_contractPrefix :: string
  set_creditNotePrefix :: string
  set_nextInvoiceNumber :: int
  set_nextProposalNumber :: int
  set_nextContractNumber :: int
  set_nextCreditNoteNumber :: int
  set_numberPaddingWidth :: int
  set_paymentTermsDays :: int
  set_proposalValidityDays :: int
  set_lateFee :: late_fee_policy_row
  set_stripeSecretKey :: "string option"
  set_stripeWebhookSecret :: "string option"

record project_row =
  prj_id :: ident
  prj_clientId :: ident
  prj_name :: string
  prj_currency :: "string option"
  prj_hourlyRateCents :: "int option"
  prj_deletedAt :: "jsdate option"

record client_row =
  cli_id :: ident
  cli_name :: string
  cli_email :: string
  cli_currency :: "string option"
  cli_defaultHourlyRateCents :: "int option"
  cli_deletedAt :: "jsdate option"

record tax_rate_row =
  tax_id :: ident
  tax_name :: string
  tax_percentage :: jsnum
  tax_isDefault :: bool
  tax_deletedAt :: "jsdate option"

text \<open>An audit entry without its metadata, an emitted event, a queued job with the second value of its payload: what to mail, or the signature it is for.\<close>

record audit_entry =
  aud_event :: string
  aud_actor :: "ident option"
  aud_target :: "ident option"

record domain_event =
  evt_name :: string
  evt_subject :: ident
  evt_user :: "ident option"

record queued_job =
  job_name :: string
  job_subject :: ident
  job_detail :: "string option"

record db =
  invoices :: "invoice_row list"
  payments :: "payment_row list"
  creditNotes :: "credit_note_row list"
  lineItems :: "line_item_row list"
  settings :: "settings_row option"
  projects :: "project_row list"
  clients :: "client_row list"
  taxRates :: "tax_rate_row list"
  audit_log :: "audit_entry list"
  events :: "domain_event list"
  jobs :: "queued_job list"

interpretation invoice_table: row_store inv_id "find_id inv_id" "put_id inv_id" add_row
  by (rule row_store_lists)

interpretation payment_table: row_store pay_id "find_id pay_id" "put_id pay_id" add_row
  by (rule row_store_lists)

interpretation credit_note_table: row_store cn_id "find_id cn_id" "put_id cn_id" add_row
  by (rule row_store_lists)

section \<open>Logs\<close>

definition writeAudit :: "string \<Rightarrow> ident option \<Rightarrow> ident option \<Rightarrow> db \<Rightarrow> db" where
  "writeAudit event actor target d =
     d\<lparr>audit_log := audit_log d @ [\<lparr>aud_event = event, aud_actor = actor, aud_target = target\<rparr>]\<rparr>"

definition emit :: "string \<Rightarrow> ident \<Rightarrow> ident option \<Rightarrow> db \<Rightarrow> db" where
  "emit name subject user d =
     d\<lparr>events := events d @ [\<lparr>evt_name = name, evt_subject = subject, evt_user = user\<rparr>]\<rparr>"

definition enqueueJob :: "string \<Rightarrow> ident \<Rightarrow> string option \<Rightarrow> db \<Rightarrow> db" where
  "enqueueJob name subject detail d =
     d\<lparr>jobs := jobs d @ [\<lparr>job_name = name, job_subject = subject, job_detail = detail\<rparr>]\<rparr>"

lemma log_tables [simp]:
  "invoices (writeAudit e a t d) = invoices d" "payments (writeAudit e a t d) = payments d"
  "creditNotes (writeAudit e a t d) = creditNotes d" "lineItems (writeAudit e a t d) = lineItems d"
  "settings (writeAudit e a t d) = settings d"
  "invoices (emit n s u d) = invoices d" "payments (emit n s u d) = payments d"
  "creditNotes (emit n s u d) = creditNotes d" "lineItems (emit n s u d) = lineItems d"
  "settings (emit n s u d) = settings d"
  "invoices (enqueueJob n s m d) = invoices d" "payments (enqueueJob n s m d) = payments d"
  "creditNotes (enqueueJob n s m d) = creditNotes d" "lineItems (enqueueJob n s m d) = lineItems d"
  "settings (enqueueJob n s m d) = settings d"
  by (simp_all add: writeAudit_def emit_def enqueueJob_def)

section \<open>The reads the writes decide by\<close>

definition live_payment :: "ident \<Rightarrow> payment_row \<Rightarrow> bool" where
  "live_payment i p \<longleftrightarrow> pay_invoiceId p = i \<and> pay_deletedAt p = None"

definition live_credit :: "ident \<Rightarrow> credit_note_row \<Rightarrow> bool" where
  "live_credit i c \<longleftrightarrow> cn_invoiceId c = i \<and> cn_deletedAt c = None"

text \<open>\<open>SELECT .. WHERE id = i AND deleted_at IS NULL FOR UPDATE\<close>\<close>

definition lockInvoice :: "ident \<Rightarrow> db \<Rightarrow> invoice_row option" where
  "lockInvoice i d =
     (case find_id inv_id i (invoices d) of
        Some r \<Rightarrow> if inv_deletedAt r = None then Some r else None
      | None \<Rightarrow> None)"

definition sumRecordedPayments :: "ident \<Rightarrow> ident option \<Rightarrow> db \<Rightarrow> int" where
  "sumRecordedPayments i exclude d =
     sum_where (\<lambda>p. live_payment i p \<and> exclude \<noteq> Some (pay_id p)) pay_amountCents (payments d)"

definition sumCreditedCents :: "ident \<Rightarrow> db \<Rightarrow> int" where
  "sumCreditedCents i d = sum_where (live_credit i) cn_totalCents (creditNotes d)"

text \<open>The invoice side reads the credited total through a copy of its own.\<close>

definition readInvoiceCreditedCents :: "ident \<Rightarrow> db \<Rightarrow> int" where
  "readInvoiceCreditedCents i d =
     sum_list (map cn_totalCents (filter (\<lambda>c. cn_invoiceId c = i \<and> cn_deletedAt c = None) (creditNotes d)))"

lemma readInvoiceCreditedCents_eq: "readInvoiceCreditedCents i d = sumCreditedCents i d"
  by (simp add: readInvoiceCreditedCents_def sumCreditedCents_def sum_where_def live_credit_def [abs_def])

lemma lockInvoice_Some:
  "lockInvoice i d = Some r \<longleftrightarrow> find_id inv_id i (invoices d) = Some r \<and> inv_deletedAt r = None"
  by (auto simp: lockInvoice_def split: option.splits)

lemma lockInvoice_id: "lockInvoice i d = Some r \<Longrightarrow> inv_id r = i"
  by (auto simp: lockInvoice_Some dest: invoice_table.lookup_key)

lemma sumRecordedPayments_None: "sumRecordedPayments i None d = sum_where (live_payment i) pay_amountCents (payments d)"
  by (simp add: sumRecordedPayments_def)

section \<open>The book-keeping invariant\<close>

text \<open>
  What ties the tables together. For every invoice, deleted or not: the stored aggregate is the sum of
  its live payments and stays within the total. For one that is not deleted: a draft carries no money
  and no fee; an issued one is \<open>paid\<close>, with a payment date, exactly when the settlement decision says
  so. Ids are unique, payments positive, credit notes not negative, and no provider id occurs twice.
\<close>

definition settled_amounts :: "int \<Rightarrow> int \<Rightarrow> int \<Rightarrow> bool" where
  "settled_amounts tot paid credited \<longleftrightarrow>
     evaluateInvoiceSettlement \<lparr>oi_totalCents = tot, oi_amountPaidCents = paid, oi_creditedCents = credited\<rparr> = Settled"

definition aggregate_ok :: "db \<Rightarrow> invoice_row \<Rightarrow> bool" where
  "aggregate_ok d i \<longleftrightarrow>
     inv_amountPaidCents i = sumRecordedPayments (inv_id i) None d
     \<and> 0 \<le> inv_amountPaidCents i \<and> inv_amountPaidCents i \<le> inv_totalCents i
     \<and> (\<forall>f. inv_lateFeeCents i = Some f \<longrightarrow> 0 \<le> f \<and> f \<le> inv_totalCents i)
     \<and> (inv_status i = Draft \<longrightarrow>
          inv_paidAt i = None \<and> inv_lateFeeCents i = None
          \<and> (\<forall>p\<in>set (payments d). pay_invoiceId p \<noteq> inv_id i)
          \<and> (\<forall>c\<in>set (creditNotes d). cn_invoiceId c \<noteq> inv_id i))"

definition status_ok :: "db \<Rightarrow> invoice_row \<Rightarrow> bool" where
  "status_ok d i \<longleftrightarrow>
     inv_status i \<noteq> Draft \<longrightarrow>
       (inv_status i = Paid \<longleftrightarrow>
          settled_amounts (inv_totalCents i) (inv_amountPaidCents i) (sumCreditedCents (inv_id i) d))
       \<and> (inv_paidAt i \<noteq> None \<longleftrightarrow> inv_status i = Paid)"

definition ids_ok :: "db \<Rightarrow> bool" where
  "ids_ok d \<longleftrightarrow>
     distinct (map inv_id (invoices d)) \<and> distinct (map pay_id (payments d))
     \<and> distinct (map cn_id (creditNotes d))
     \<and> (\<forall>p\<in>set (payments d). 0 < pay_amountCents p \<and> pay_invoiceId p \<in> inv_id ` set (invoices d))
     \<and> (\<forall>c\<in>set (creditNotes d). 0 \<le> cn_totalCents c \<and> cn_invoiceId c \<in> inv_id ` set (invoices d))
     \<and> distinct (map pay_stripePaymentIntentId (filter (\<lambda>p. pay_stripePaymentIntentId p \<noteq> None) (payments d)))"

definition books_ok :: "db \<Rightarrow> bool" where
  "books_ok d \<longleftrightarrow> ids_ok d \<and> (\<forall>i\<in>set (invoices d). aggregate_ok d i)
     \<and> (\<forall>i\<in>set (invoices d). inv_deletedAt i = None \<longrightarrow> status_ok d i)"

lemma books_ok_tables:
  "invoices d' = invoices d \<Longrightarrow> payments d' = payments d \<Longrightarrow> creditNotes d' = creditNotes d \<Longrightarrow>
    books_ok d' = books_ok d"
  by (simp add: books_ok_def ids_ok_def aggregate_ok_def status_ok_def sumRecordedPayments_def sumCreditedCents_def)

lemma books_ok_logs [simp]:
  "books_ok (writeAudit e a t d) = books_ok d" "books_ok (emit n s u d) = books_ok d"
  "books_ok (enqueueJob n s m d) = books_ok d"
  by (rule books_ok_tables; simp)+

lemma sumCredited_nonneg: "ids_ok d \<Longrightarrow> 0 \<le> sumCreditedCents i d"
  unfolding sumCreditedCents_def by (rule sum_where_nonneg) (simp add: ids_ok_def)

lemma sumRecorded_nonneg: "ids_ok d \<Longrightarrow> 0 \<le> sumRecordedPayments i x d"
  unfolding sumRecordedPayments_def by (rule sum_where_nonneg) (auto simp: ids_ok_def)

end
