(* ===== verification/Numbering.thy ===== *)
theory Numbering
  imports Prelude
begin

text \<open>
  Document numbers: a prefix and the counter, zero-padded to a width and never truncated. The four
  features hold a copy each (\<open>invoiceNumber.ts\<close>, \<open>proposalNumber.ts\<close>, \<open>contractNumber.ts\<close>,
  \<open>creditNoteNumber.ts\<close>). The locale \<open>document_numbering\<close> states what the unique indexes on the number
  columns rely on: under one prefix, distinct counters give distinct numbers.
\<close>

section \<open>Decimal text\<close>

fun nat_digits :: "nat \<Rightarrow> string" where
  "nat_digits n = (if n < 10 then [char_of (48 + n)] else nat_digits (n div 10) @ [char_of (48 + n mod 10)])"

declare nat_digits.simps [simp del]

definition js_int_string :: "int \<Rightarrow> string" where
  "js_int_string i = (if i < 0 then CHR ''-'' # nat_digits (nat (- i)) else nat_digits (nat i))"

definition padStart :: "string \<Rightarrow> int \<Rightarrow> char \<Rightarrow> string" where
  "padStart s width c = replicate (nat width - length s) c @ s"

definition digits_value :: "string \<Rightarrow> nat" where
  "digits_value = foldl (\<lambda>v c. 10 * v + (of_char c - 48)) 0"

lemma digit_value [simp]: "d < 10 \<Longrightarrow> of_char (char_of (48 + d) :: char) - 48 = (d::nat)"
  by (simp add: of_char_of)

lemma digits_value_nat: "digits_value (nat_digits n) = n"
proof (induction n rule: nat_digits.induct)
  case (1 n)
  show ?case
  proof (cases "n < 10")
    case True
    then show ?thesis by (subst nat_digits.simps) (simp add: digits_value_def)
  next
    case False
    then have "digits_value (nat_digits (n div 10) @ [char_of (48 + n mod 10)]) = 10 * (n div 10) + n mod 10"
      using 1 by (simp add: digits_value_def)
    then show ?thesis using False by (subst nat_digits.simps) simp
  qed
qed

lemma digits_value_zeros: "digits_value (replicate k CHR ''0'' @ s) = digits_value s"
proof -
  have "foldl (\<lambda>v c. 10 * v + (of_char c - 48)) 0 (replicate k CHR ''0'') = (0::nat)"
    by (induction k) auto
  then show ?thesis by (simp add: digits_value_def)
qed

lemma padded_injective:
  assumes "0 \<le> m" "0 \<le> n"
    and "padStart (js_int_string m) w CHR ''0'' = padStart (js_int_string n) w' CHR ''0''"
  shows "m = n"
proof -
  have "digits_value (padStart (js_int_string k) v CHR ''0'') = nat k" if "0 \<le> k" for k v
    using that by (simp add: padStart_def digits_value_zeros js_int_string_def digits_value_nat)
  with assms show ?thesis by (metis eq_nat_nat_iff)
qed

section \<open>The formats\<close>

definition generateInvoiceNumber :: "string \<Rightarrow> int \<Rightarrow> int \<Rightarrow> string" where
  "generateInvoiceNumber prefix paddingWidth nextSequence =
     prefix @ padStart (js_int_string nextSequence) paddingWidth CHR ''0''"

definition generateCreditNoteNumber :: "string \<Rightarrow> int \<Rightarrow> int \<Rightarrow> string" where
  "generateCreditNoteNumber prefix paddingWidth nextSequence =
     prefix @ padStart (js_int_string nextSequence) paddingWidth CHR ''0''"

definition formatProposalNumber :: "string \<Rightarrow> int \<Rightarrow> int \<Rightarrow> string" where
  "formatProposalNumber prefix nextNumber paddingWidth =
     prefix @ padStart (js_int_string nextNumber) paddingWidth CHR ''0''"

definition formatContractNumber :: "string \<Rightarrow> int \<Rightarrow> int \<Rightarrow> string" where
  "formatContractNumber prefix nextNumber paddingWidth =
     prefix @ padStart (js_int_string nextNumber) paddingWidth CHR ''0''"

locale document_numbering =
  fixes number :: "string \<Rightarrow> int \<Rightarrow> int \<Rightarrow> string"
  assumes number_injective: "0 \<le> m \<Longrightarrow> 0 \<le> n \<Longrightarrow> number p w m = number p w' n \<Longrightarrow> m = n"
    and number_shape: "\<exists>s. number p w n = p @ s \<and> nat w \<le> length s"
begin

text \<open>Numbers drawn from a counter that only moves up never repeat, even when the padding changes.\<close>

lemma claimed_distinct: "0 \<le> n \<Longrightarrow> distinct (map (\<lambda>i. number p (w i) (n + int i)) [0..<k])"
  using number_injective [of "n + int i" "n + int j" p "w i" "w j" for i j] by (fastforce simp: distinct_map inj_on_def)

end

interpretation invoice_numbers: document_numbering generateInvoiceNumber
  by unfold_locales (auto simp: generateInvoiceNumber_def padStart_def dest: padded_injective [unfolded padStart_def])

interpretation credit_note_numbers: document_numbering generateCreditNoteNumber
  by unfold_locales (auto simp: generateCreditNoteNumber_def padStart_def dest: padded_injective [unfolded padStart_def])

interpretation proposal_numbers: document_numbering "\<lambda>p w n. formatProposalNumber p n w"
  by unfold_locales (auto simp: formatProposalNumber_def padStart_def dest: padded_injective [unfolded padStart_def])

interpretation contract_numbers: document_numbering "\<lambda>p w n. formatContractNumber p n w"
  by unfold_locales (auto simp: formatContractNumber_def padStart_def dest: padded_injective [unfolded padStart_def])

section \<open>Properties\<close>

text \<open>
  A document number is never minted twice: under one prefix two counters give the same invoice,
  credit-note, proposal or contract number only when they are equal, whatever the padding was at the
  time, so a counter that outgrows the padding is not truncated into an earlier number.
\<close>

theorem numbers_never_collide:
  assumes "0 \<le> m" "0 \<le> n"
  shows "(generateInvoiceNumber p w m = generateInvoiceNumber p w' n \<longrightarrow> m = n)
       \<and> (generateCreditNoteNumber p w m = generateCreditNoteNumber p w' n \<longrightarrow> m = n)
       \<and> (formatProposalNumber p m w = formatProposalNumber p n w' \<longrightarrow> m = n)
       \<and> (formatContractNumber p m w = formatContractNumber p n w' \<longrightarrow> m = n)"
proof (intro conjI impI)
  show "generateInvoiceNumber p w m = generateInvoiceNumber p w' n \<Longrightarrow> m = n"
    by (rule invoice_numbers.number_injective [OF assms])
  show "generateCreditNoteNumber p w m = generateCreditNoteNumber p w' n \<Longrightarrow> m = n"
    by (rule credit_note_numbers.number_injective [OF assms])
  show "formatProposalNumber p m w = formatProposalNumber p n w' \<Longrightarrow> m = n"
    by (rule proposal_numbers.number_injective [OF assms])
  show "formatContractNumber p m w = formatContractNumber p n w' \<Longrightarrow> m = n"
    by (rule contract_numbers.number_injective [OF assms])
qed

lemma numbers_never_collide_witness:
  "generateInvoiceNumber ''INV-'' 4 42 = ''INV-0042''
   \<and> generateInvoiceNumber ''INV-'' 2 123 = ''INV-123''
   \<and> generateInvoiceNumber ''INV-'' 4 42 \<noteq> generateInvoiceNumber ''INV-'' 2 123"
proof (intro conjI)
  show "generateInvoiceNumber ''INV-'' 4 42 = ''INV-0042''" by code_simp
  show "generateInvoiceNumber ''INV-'' 2 123 = ''INV-123''" by code_simp
  show "generateInvoiceNumber ''INV-'' 4 42 \<noteq> generateInvoiceNumber ''INV-'' 2 123"
    using numbers_never_collide [of 42 123 "''INV-''" 4 2] by force
qed

end
