(* ===== verification/InvoiceWrites.thy ===== *)
theory InvoiceWrites
  imports Database CreditNoteTotals Numbering "HOL-Library.Multiset"
begin

text \<open>
  The writes an invoice is made of (\<open>features/invoices/invoiceWrites.ts\<close>): claiming a number from the
  counter, inserting lines with their allocated totals, and appending lines to a draft, which moves the
  share of the document discount every line already there carries. The numeric columns belong to
  Postgres: \<open>store\<close> is the number a quantity reads back as from \<open>numeric(10, 2)\<close>. The ids the database
  draws for inserted lines are \<open>lineIds 0, lineIds 1, ..\<close>.
\<close>

section \<open>Document numbers\<close>

definition claimInvoiceNumber :: "db \<Rightarrow> (string \<times> db) result" where
  "claimInvoiceNumber d =
     (case settings d of
        None \<Rightarrow> Inl ''invoices.errors.updateFailed''
      | Some s \<Rightarrow>
          let s' = s\<lparr>set_nextInvoiceNumber := set_nextInvoiceNumber s + 1\<rparr>
          in Inr (generateInvoiceNumber (set_invoicePrefix s') (set_numberPaddingWidth s')
                    (set_nextInvoiceNumber s' - 1), d\<lparr>settings := Some s'\<rparr>))"

section \<open>Inserting lines\<close>

record line_row_input =
  lr_taxRateId :: "ident option"
  lr_description :: string
  lr_unit :: "string option"
  lr_quantity :: jsnum
  lr_unitPriceCents :: int
  lr_discount :: discount_columns
  lr_taxPercentage :: jsnum
  lr_sourceTimeEntryId :: "ident option"
  lr_sourceExpenseId :: "ident option"

definition line_insert_batch_size :: nat where "line_insert_batch_size = 1000"

fun chunkLines :: "'a list \<Rightarrow> 'a list list" where
  "chunkLines [] = []"
| "chunkLines (x # xs) = take line_insert_batch_size (x # xs) # chunkLines (drop (line_insert_batch_size - 1) xs)"

definition row_input :: "line_row_input \<Rightarrow> line_item_input" where
  "row_input r =
     \<lparr>quantity = lr_quantity r, unitPriceCents = lr_unitPriceCents r,
      line_discount = toInvoiceColumnDiscount (lr_discount r), taxPercentage = lr_taxPercentage r\<rparr>"

definition line_row :: "(jsnum \<Rightarrow> jsnum) \<Rightarrow> ident \<Rightarrow> ident \<Rightarrow> int \<Rightarrow> line_row_input \<Rightarrow> line_totals \<Rightarrow> line_item_row" where
  "line_row store invoiceId lineId position r t =
     \<lparr>li_id = lineId, li_proposalId = None, li_invoiceId = Some invoiceId, li_creditNoteId = None, li_taxRateId = lr_taxRateId r,
      li_position = position, li_description = lr_description r, li_unit = lr_unit r,
      li_quantity = store (lr_quantity r), li_unitPriceCents = lr_unitPriceCents r, li_discount = lr_discount r,
      li_taxPercentageSnapshot = lr_taxPercentage r, li_subtotalCents = lt_subtotalCents t,
      li_taxAmountCents = lt_taxAmountCents t, li_totalCents = lt_totalCents t,
      li_sourceTimeEntryId = lr_sourceTimeEntryId r, li_sourceExpenseId = lr_sourceExpenseId r,
      li_deletedAt = None\<rparr>"

definition no_totals :: line_totals where
  "no_totals = \<lparr>lt_subtotalCents = 0, lt_taxAmountCents = 0, lt_totalCents = 0\<rparr>"

text \<open>\<open>lineTotals[index]?.subtotalCents ?? 0\<close>\<close>

definition nth_totals :: "line_totals list \<Rightarrow> nat \<Rightarrow> line_totals" where
  "nth_totals ts i = (if i < length ts then ts ! i else no_totals)"

definition insert_batches :: "line_item_row list list \<Rightarrow> db \<Rightarrow> db" where
  "insert_batches batches d = foldl (\<lambda>d' batch. d'\<lparr>lineItems := lineItems d' @ batch\<rparr>) d batches"

definition writeInvoiceLineItems ::
  "(jsnum \<Rightarrow> jsnum) \<Rightarrow> (nat \<Rightarrow> ident) \<Rightarrow> ident \<Rightarrow> line_row_input list \<Rightarrow> discount option \<Rightarrow> db \<Rightarrow> db" where
  "writeInvoiceLineItems store lineIds invoiceId rows invoiceDiscount d =
     (let lineTotals = calculateInvoiceLineTotals (map row_input rows) invoiceDiscount;
          values = map (\<lambda>(i, r). line_row store invoiceId (lineIds i) (int i) r (nth_totals lineTotals i))
                     (zip [0..<length rows] rows)
      in insert_batches (chunkLines values) d)"

section \<open>Appending lines to a draft\<close>

definition stored_input :: "line_item_row \<Rightarrow> line_item_input" where
  "stored_input l =
     \<lparr>quantity = li_quantity l, unitPriceCents = li_unitPriceCents l,
      line_discount = toInvoiceColumnDiscount (li_discount l), taxPercentage = li_taxPercentageSnapshot l\<rparr>"

definition live_line :: "ident \<Rightarrow> line_item_row \<Rightarrow> bool" where
  "live_line invoiceId l \<longleftrightarrow> li_invoiceId l = Some invoiceId \<and> li_deletedAt l = None"

definition invoice_lines :: "ident \<Rightarrow> db \<Rightarrow> line_item_row list" where
  "invoice_lines invoiceId d = sort_key li_position (filter (live_line invoiceId) (lineItems d))"

definition set_line_totals :: "(ident \<times> line_totals) list \<Rightarrow> line_item_row \<Rightarrow> line_item_row" where
  "set_line_totals totals l =
     (case map_of totals (li_id l) of
        None \<Rightarrow> l
      | Some t \<Rightarrow> l\<lparr>li_subtotalCents := lt_subtotalCents t, li_taxAmountCents := lt_taxAmountCents t,
                    li_totalCents := lt_totalCents t\<rparr>)"

definition appendInvoiceLineItems ::
  "(jsnum \<Rightarrow> jsnum) \<Rightarrow> (nat \<Rightarrow> ident) \<Rightarrow> ident \<Rightarrow> line_row_input list \<Rightarrow> discount option \<Rightarrow> db
    \<Rightarrow> invoice_totals \<times> db" where
  "appendInvoiceLineItems store lineIds invoiceId rows invoiceDiscount d =
     (let existing = invoice_lines invoiceId d;
          nextPosition = foldl (\<lambda>highest l. max highest (li_position l + 1)) 0 existing;
          inserted = map (\<lambda>(i, r). line_row store invoiceId (lineIds i) (nextPosition + int i) r no_totals)
                       (zip [0..<length rows] rows);
          d1 = insert_batches (chunkLines inserted) d;
          allInputs = map stored_input existing @ map row_input rows;
          lineTotals = calculateInvoiceLineTotals allInputs invoiceDiscount;
          ids = map li_id existing @ map li_id (sort_key li_position inserted);
          totals = map (\<lambda>(i, k). (k, nth_totals lineTotals i)) (zip [0..<length ids] ids)
      in (calculateInvoiceTotal allInputs invoiceDiscount,
          d1\<lparr>lineItems := map (set_line_totals totals) (lineItems d1)\<rparr>))"

section \<open>Lemmas\<close>

lemma concat_chunks: "concat (chunkLines xs) = xs"
proof (induction xs rule: chunkLines.induct)
  case (2 x xs)
  have "drop (line_insert_batch_size - 1) xs = drop line_insert_batch_size (x # xs)"
    by (simp add: line_insert_batch_size_def drop_Cons')
  then show ?case using 2 by (simp del: take_Suc_Cons)
qed simp

lemma chunk_sizes: "c \<in> set (chunkLines xs) \<Longrightarrow> 0 < length c \<and> length c \<le> 1000"
  by (induction xs rule: chunkLines.induct) (auto simp: line_insert_batch_size_def)

lemma insert_batches_eq: "insert_batches bs d = d\<lparr>lineItems := lineItems d @ concat bs\<rparr>"
  by (induction bs arbitrary: d) (simp_all add: insert_batches_def)

lemma write_lines_tables [simp]:
  "invoices (writeInvoiceLineItems s l i rows disc d) = invoices d"
  "payments (writeInvoiceLineItems s l i rows disc d) = payments d"
  "creditNotes (writeInvoiceLineItems s l i rows disc d) = creditNotes d"
  "settings (writeInvoiceLineItems s l i rows disc d) = settings d"
  by (simp_all add: writeInvoiceLineItems_def insert_batches_eq Let_def)

lemma claim_tables:
  "claimInvoiceNumber d = Inr (n, d1) \<Longrightarrow>
    invoices d1 = invoices d \<and> payments d1 = payments d \<and> creditNotes d1 = creditNotes d
    \<and> lineItems d1 = lineItems d \<and> taxRates d1 = taxRates d \<and> projects d1 = projects d"
  by (auto simp: claimInvoiceNumber_def Let_def split: option.splits)

lemma length_line_totals [simp]: "length (calculateInvoiceLineTotals items disc) = length items"
  by (simp add: calculateInvoiceLineTotals_def allocate_fields)

text \<open>What the inserted lines of an invoice are.\<close>

lemma written_lines:
  assumes "\<forall>l\<in>set (lineItems d). li_invoiceId l \<noteq> Some i"
  shows "map stored_input (filter (live_line i) (lineItems (writeInvoiceLineItems s lineIds i rows disc d)))
       = map (\<lambda>r. (row_input r)\<lparr>quantity := s (lr_quantity r)\<rparr>) rows"
    and "map (\<lambda>l. (li_subtotalCents l, li_taxAmountCents l, li_totalCents l))
          (filter (live_line i) (lineItems (writeInvoiceLineItems s lineIds i rows disc d)))
       = map (\<lambda>t. (lt_subtotalCents t, lt_taxAmountCents t, lt_totalCents t))
          (calculateInvoiceLineTotals (map row_input rows) disc)"
    and "map li_position (filter (live_line i) (lineItems (writeInvoiceLineItems s lineIds i rows disc d)))
       = map int [0..<length rows]"
proof -
  have none: "filter (live_line i) (lineItems d) = []" using assms by (auto simp: filter_empty_conv live_line_def)
  let ?ts = "calculateInvoiceLineTotals (map row_input rows) disc"
  let ?rows = "\<lambda>s. map (\<lambda>(k, r). line_row s i (lineIds k) (int k) r (nth_totals ?ts k)) (zip [0..<length rows] rows)"
  have all: "filter (live_line i) (?rows s) = ?rows s" for s
    by (auto simp: filter_id_conv live_line_def line_row_def)
  have lines: "filter (live_line i) (lineItems (writeInvoiceLineItems s lineIds i rows disc d)) = ?rows s" for s
    using none all [of s] by (simp add: writeInvoiceLineItems_def Let_def insert_batches_eq concat_chunks)
  show "map stored_input (filter (live_line i) (lineItems (writeInvoiceLineItems s lineIds i rows disc d)))
      = map (\<lambda>r. (row_input r)\<lparr>quantity := s (lr_quantity r)\<rparr>) rows"
    unfolding lines by (rule nth_equalityI) (simp_all add: stored_input_def line_row_def row_input_def)
  show "map (\<lambda>l. (li_subtotalCents l, li_taxAmountCents l, li_totalCents l))
          (filter (live_line i) (lineItems (writeInvoiceLineItems s lineIds i rows disc d)))
      = map (\<lambda>t. (lt_subtotalCents t, lt_taxAmountCents t, lt_totalCents t)) ?ts"
    unfolding lines by (rule nth_equalityI) (simp_all add: line_row_def nth_totals_def)
  show "map li_position (filter (live_line i) (lineItems (writeInvoiceLineItems s lineIds i rows disc d)))
      = map int [0..<length rows]"
    unfolding lines by (rule nth_equalityI) (simp_all add: line_row_def)
qed

subsection \<open>Appending\<close>

lemma sort_stable_at: "filter (\<lambda>x. f k = f x) (sort_key f xs) = filter (\<lambda>x. f k = f x) xs"
proof -
  have "(\<lambda>x. f k = f x) = (\<lambda>x. f x = f k)" by auto
  then show ?thesis using sort_key_stable [of f "f k" xs] by simp
qed

lemma sort_key_append:
  "(\<And>x y. x \<in> set xs \<Longrightarrow> y \<in> set ys \<Longrightarrow> f x \<le> f y) \<Longrightarrow>
    sort_key f (xs @ ys) = sort_key f xs @ sort_key f (ys :: 'a list)" for f :: "'a \<Rightarrow> 'b::linorder"
  by (rule properties_for_sort_key) (auto simp: sort_stable_at sorted_append)

lemma sort_key_map:
  fixes f :: "'a \<Rightarrow> 'b::linorder"
  assumes "\<And>x. f (g x) = f x"
  shows "sort_key f (map g xs) = map g (sort_key f xs)"
proof -
  have "insort_key f (g x) (map g ys) = map g (insort_key f x ys)" for x ys
    by (induction ys) (simp_all add: assms)
  then show ?thesis by (induction xs) simp_all
qed

lemma filter_map_keeps: "(\<And>x. p (g x) = p x) \<Longrightarrow> filter p (map g xs) = map g (filter p xs)"
  by (induction xs) auto

lemma set_line_totals_keeps [simp]:
  "li_position (set_line_totals m l) = li_position l" "live_line i (set_line_totals m l) = live_line i l"
  "li_id (set_line_totals m l) = li_id l" "stored_input (set_line_totals m l) = stored_input l"
  "li_invoiceId (set_line_totals m l) = li_invoiceId l"
  by (simp_all add: set_line_totals_def live_line_def stored_input_def del: toInvoiceColumnDiscount.simps
      split: option.split)

lemma map_of_enumerated:
  "distinct ids \<Longrightarrow> k < length ids \<Longrightarrow>
    map_of (map (\<lambda>(i, k). (k, h i)) (zip [0..<length ids] ids)) (ids ! k) = Some (h k)"
proof (rule map_of_is_SomeI)
  assume "k < length ids"
  then have "(k, ids ! k) \<in> set (zip [0..<length ids] ids)" by (force simp: set_zip)
  then show "(ids ! k, h k) \<in> set (map (\<lambda>(i, k). (k, h i)) (zip [0..<length ids] ids))" by force
qed (simp add: comp_def case_prod_unfold)

definition next_position :: "line_item_row list \<Rightarrow> int" where
  "next_position existing = foldl (\<lambda>highest l. max highest (li_position l + 1)) 0 existing"

lemma next_position_above: "l \<in> set existing \<Longrightarrow> li_position l < next_position existing"
proof -
  have base: "a \<le> foldl (\<lambda>h l. max h (li_position l + 1)) a ls" for a ls
    by (induction ls arbitrary: a) (auto intro: order_trans [OF max.cobounded1])
  have "l \<in> set ls \<Longrightarrow> li_position l < foldl (\<lambda>h l. max h (li_position l + 1)) a ls" for a ls
  proof (induction ls arbitrary: a)
    case (Cons x ls)
    then show ?case using base [of "max a (li_position x + 1)" ls] by auto
  qed simp
  then show "l \<in> set existing \<Longrightarrow> li_position l < next_position existing" by (simp add: next_position_def)
qed

definition inserted_lines ::
  "(jsnum \<Rightarrow> jsnum) \<Rightarrow> (nat \<Rightarrow> ident) \<Rightarrow> ident \<Rightarrow> int \<Rightarrow> line_row_input list \<Rightarrow> line_item_row list" where
  "inserted_lines store lineIds i next rows =
     map (\<lambda>(k, r). line_row store i (lineIds k) (next + int k) r no_totals) (zip [0..<length rows] rows)"

lemma inserted_lines_facts:
  "sort_key li_position (inserted_lines s l i n rows) = inserted_lines s l i n rows"
  "filter (live_line i) (inserted_lines s l i n rows) = inserted_lines s l i n rows"
  "\<forall>x\<in>set (inserted_lines s l i n rows). n \<le> li_position x"
  "map li_id (inserted_lines s l i n rows) = map l [0..<length rows]"
  "map li_position (inserted_lines s l i n rows) = map (\<lambda>k. n + int k) [0..<length rows]"
  "map stored_input (inserted_lines s l i n rows) = map (\<lambda>r. (row_input r)\<lparr>quantity := s (lr_quantity r)\<rparr>) rows"
proof -
  have "sorted (map li_position (inserted_lines s l i n rows))"
    by (auto simp: inserted_lines_def sorted_iff_nth_mono line_row_def)
  then show "sort_key li_position (inserted_lines s l i n rows) = inserted_lines s l i n rows"
    by (rule sort_key_id_if_sorted)
  show "filter (live_line i) (inserted_lines s l i n rows) = inserted_lines s l i n rows"
    by (auto simp: filter_id_conv inserted_lines_def live_line_def line_row_def)
  show "\<forall>x\<in>set (inserted_lines s l i n rows). n \<le> li_position x"
    by (auto simp: inserted_lines_def line_row_def)
  show "map li_id (inserted_lines s l i n rows) = map l [0..<length rows]"
    "map li_position (inserted_lines s l i n rows) = map (\<lambda>k. n + int k) [0..<length rows]"
    "map stored_input (inserted_lines s l i n rows) = map (\<lambda>r. (row_input r)\<lparr>quantity := s (lr_quantity r)\<rparr>) rows"
    by (rule nth_equalityI; simp add: inserted_lines_def line_row_def stored_input_def row_input_def)+
qed

lemma appended_lines:
  assumes ids: "distinct (map li_id (lineItems d))" "inj lineIds" "\<forall>k. lineIds k \<notin> li_id ` set (lineItems d)"
    and app: "appendInvoiceLineItems store lineIds i rows disc d = (t, d1)"
  defines "inputs \<equiv> map stored_input (invoice_lines i d) @ map row_input rows"
  shows "map (\<lambda>l. (lt_subtotalCents l, lt_taxAmountCents l, lt_totalCents l)) (calculateInvoiceLineTotals inputs disc)
       = map (\<lambda>l. (li_subtotalCents l, li_taxAmountCents l, li_totalCents l)) (invoice_lines i d1)"
    and "map stored_input (invoice_lines i d1)
       = map stored_input (invoice_lines i d) @ map (\<lambda>r. (row_input r)\<lparr>quantity := store (lr_quantity r)\<rparr>) rows"
    and "map li_position (invoice_lines i d1)
       = map li_position (invoice_lines i d) @ map (\<lambda>k. next_position (invoice_lines i d) + int k) [0..<length rows]"
    and "t = calculateInvoiceTotal inputs disc"
    and "j \<noteq> i \<Longrightarrow> filter (live_line j) (lineItems d1) = filter (live_line j) (lineItems d)"
proof -
  let ?ex = "invoice_lines i d"
  let ?new = "inserted_lines store lineIds i (next_position ?ex) rows"
  let ?ids = "map li_id (?ex @ ?new)"
  let ?lt = "calculateInvoiceLineTotals inputs disc"
  let ?m = "map (\<lambda>(k, x). (x, nth_totals ?lt k)) (zip [0..<length ?ids] ?ids)"
  note new = inserted_lines_facts [where s = store and l = lineIds and i = i and n = "next_position ?ex" and rows = rows]
  have d1: "d1 = d\<lparr>lineItems := map (set_line_totals ?m) (lineItems d @ ?new)\<rparr>"
    and t: "t = calculateInvoiceTotal inputs disc"
    using app new(1)
    by (simp_all add: appendInvoiceLineItems_def Let_def insert_batches_eq concat_chunks inputs_def
        next_position_def [symmetric] inserted_lines_def [symmetric])
  show "t = calculateInvoiceTotal inputs disc" by (rule t)
  have L: "lineItems d1 = map (set_line_totals ?m) (lineItems d @ ?new)" unfolding d1 by (simp del: map_append)
  have after: "invoice_lines i d1 = map (set_line_totals ?m) (?ex @ ?new)"
  proof -
    have "invoice_lines i d1 = map (set_line_totals ?m) (sort_key li_position (filter (live_line i) (lineItems d) @ ?new))"
      by (simp only: invoice_lines_def [of i d1] L filter_map_keeps [of "live_line i" "set_line_totals ?m"]
          set_line_totals_keeps sort_key_map filter_append new(2))
    also have "\<dots> = map (set_line_totals ?m) (?ex @ sort_key li_position ?new)"
    proof -
      have "li_position x \<le> li_position y" if "x \<in> set (filter (live_line i) (lineItems d))" "y \<in> set ?new" for x y
      proof -
        have "x \<in> set ?ex" using that(1) by (simp add: invoice_lines_def)
        then show ?thesis using next_position_above [of x ?ex] new(3) that(2) by fastforce
      qed
      then have "sort_key li_position (filter (live_line i) (lineItems d) @ ?new)
          = sort_key li_position (filter (live_line i) (lineItems d)) @ sort_key li_position ?new"
        by (rule sort_key_append)
      then show ?thesis by (simp only: invoice_lines_def [of i d, symmetric])
    qed
    also have "sort_key li_position ?new = ?new" by (rule new(1))
    finally show ?thesis .
  qed
  have "set (map li_id ?ex) \<subseteq> li_id ` set (lineItems d)" by (auto simp: invoice_lines_def)
  moreover have "distinct (map li_id ?ex)"
  proof -
    have "distinct (map li_id (filter (live_line i) (lineItems d)))" by (rule distinct_map_filter [OF ids(1)])
    then show ?thesis
      unfolding invoice_lines_def by (metis distinct_sort distinct_map set_sort)
  qed
  moreover have "distinct (map li_id ?new)" "set (map li_id ?new) \<subseteq> range lineIds"
    using ids(2) unfolding new(4) by (auto simp: distinct_map inj_on_def)
  ultimately have dist: "distinct ?ids" using ids(3) unfolding map_append distinct_append by blast
  have len: "length ?lt = length (?ex @ ?new)" by (simp add: inputs_def inserted_lines_def)
  show "map (\<lambda>l. (lt_subtotalCents l, lt_taxAmountCents l, lt_totalCents l)) ?lt
      = map (\<lambda>l. (li_subtotalCents l, li_taxAmountCents l, li_totalCents l)) (invoice_lines i d1)"
  proof (rule nth_equalityI)
    show "length (map (\<lambda>l. (lt_subtotalCents l, lt_taxAmountCents l, lt_totalCents l)) ?lt)
        = length (map (\<lambda>l. (li_subtotalCents l, li_taxAmountCents l, li_totalCents l)) (invoice_lines i d1))"
      using len after by simp
    fix k assume "k < length (map (\<lambda>l. (lt_subtotalCents l, lt_taxAmountCents l, lt_totalCents l)) ?lt)"
    then have k: "k < length ?lt" "k < length (?ex @ ?new)" "k < length ?ids" using len by simp_all
    have "map_of ?m (?ids ! k) = Some (nth_totals ?lt k)"
      by (rule map_of_enumerated [OF dist k(3)])
    then have "map_of ?m (li_id ((?ex @ ?new) ! k)) = Some (?lt ! k)"
      using k by (simp only: nth_map nth_totals_def if_True)
    then show "map (\<lambda>l. (lt_subtotalCents l, lt_taxAmountCents l, lt_totalCents l)) ?lt ! k
        = map (\<lambda>l. (li_subtotalCents l, li_taxAmountCents l, li_totalCents l)) (invoice_lines i d1) ! k"
      using k unfolding after by (simp only: nth_map length_map) (simp add: set_line_totals_def)
  qed
  show "map stored_input (invoice_lines i d1)
      = map stored_input ?ex @ map (\<lambda>r. (row_input r)\<lparr>quantity := store (lr_quantity r)\<rparr>) rows"
    unfolding after using new(6) by (simp add: comp_def)
  show "map li_position (invoice_lines i d1)
      = map li_position ?ex @ map (\<lambda>k. next_position ?ex + int k) [0..<length rows]"
    unfolding after using new(5) by (simp add: comp_def)
  assume "j \<noteq> i"
  then have none: "filter (live_line j) ?new = []"
    by (auto simp: filter_empty_conv inserted_lines_def live_line_def line_row_def)
  have same: "set_line_totals ?m l = l" if "l \<in> set (filter (live_line j) (lineItems d))" for l
  proof -
    have l: "l \<in> set (lineItems d)" "li_invoiceId l = Some j" using that by (auto simp: live_line_def)
    have "li_id l \<noteq> li_id x" if x: "x \<in> set ?ex" for x
    proof
      assume "li_id l = li_id x"
      moreover have "x \<in> set (lineItems d)" "li_invoiceId x = Some i"
        using x by (auto simp: invoice_lines_def live_line_def)
      ultimately have "x = l" using l(1) ids(1) by (metis distinct_lookup option.inject)
      then show False using l(2) \<open>li_invoiceId x = Some i\<close> \<open>j \<noteq> i\<close> by simp
    qed
    then have "li_id l \<notin> set (map li_id ?ex)" by auto
    moreover have "li_id l \<in> li_id ` set (lineItems d)" using l(1) by (rule imageI)
    then have "li_id l \<notin> set (map li_id ?new)" unfolding new(4) using ids(3) by (metis ex_map_conv)
    ultimately have "li_id l \<notin> set ?ids" by (simp only: map_append set_append Un_iff simp_thms)
    then have "map_of ?m (li_id l) = None"
      by (force simp: map_of_eq_None_iff simp del: map_append dest: set_zip_rightD)
    then show ?thesis by (simp add: set_line_totals_def)
  qed
  have "filter (live_line j) (lineItems d1) = map (set_line_totals ?m) (filter (live_line j) (lineItems d))"
    by (simp only: L filter_map_keeps [of "live_line j" "set_line_totals ?m"] set_line_totals_keeps
        filter_append none append_Nil2)
  also have "\<dots> = filter (live_line j) (lineItems d)" using same by (intro map_idI)
  finally show "filter (live_line j) (lineItems d1) = filter (live_line j) (lineItems d)" .
qed

section \<open>Properties\<close>

text \<open>
  Appending lines to a draft leaves an invoice that adds up: the stored lines, old and new, sum to
  the returned total and tax, the new lines follow the old ones at fresh positions, no other invoice's
  lines change, and when the quantity column stores the given quantities exactly, pricing the stored
  lines again gives the same totals.
\<close>

theorem appended_lines_add_up:
  assumes "distinct (map li_id (lineItems d))" "inj lineIds" "\<forall>k. lineIds k \<notin> li_id ` set (lineItems d)"
    and "appendInvoiceLineItems store lineIds i rows disc d = (t, d1)"
    and "\<forall>x\<in>set (map stored_input (invoice_lines i d) @ map row_input rows). valid_line x" "valid_discount disc"
    and "sum_list (map line_grossCents (map stored_input (invoice_lines i d) @ map row_input rows)) \<le> 2 ^ 46"
  shows "sum_list (map li_totalCents (invoice_lines i d1)) = totalCents t
    \<and> sum_list (map li_taxAmountCents (invoice_lines i d1)) = taxAmountCents t
    \<and> map li_position (invoice_lines i d1)
        = map li_position (invoice_lines i d) @ map (\<lambda>k. next_position (invoice_lines i d) + int k) [0..<length rows]
    \<and> (\<forall>l\<in>set (invoice_lines i d). li_position l < next_position (invoice_lines i d))
    \<and> (\<forall>j. j \<noteq> i \<longrightarrow> filter (live_line j) (lineItems d1) = filter (live_line j) (lineItems d))
    \<and> ((\<forall>r\<in>set rows. store (lr_quantity r) = lr_quantity r) \<longrightarrow>
         calculateInvoiceTotal (map stored_input (invoice_lines i d1)) disc = t)"
proof -
  note app = appended_lines [OF assms(1-4)]
  let ?inputs = "map stored_input (invoice_lines i d) @ map row_input rows"
  have "sum_list (map li_totalCents (invoice_lines i d1)) = sum_list (map lt_totalCents (calculateInvoiceLineTotals ?inputs disc))"
    "sum_list (map li_taxAmountCents (invoice_lines i d1)) = sum_list (map lt_taxAmountCents (calculateInvoiceLineTotals ?inputs disc))"
    using arg_cong [OF app(1), of "\<lambda>xs. sum_list (map (snd \<circ> snd) xs)"]
      arg_cong [OF app(1), of "\<lambda>xs. sum_list (map (fst \<circ> snd) xs)"] by (simp_all add: comp_def)
  moreover have "calculateInvoiceTotal (map stored_input (invoice_lines i d1)) disc = t"
    if "\<forall>r\<in>set rows. store (lr_quantity r) = lr_quantity r"
  proof -
    have m: "map (\<lambda>r. (row_input r)\<lparr>quantity := store (lr_quantity r)\<rparr>) rows = map row_input rows"
      using that by (simp add: row_input_def)
    show ?thesis unfolding app(2) app(4) m by (rule refl)
  qed
  ultimately show ?thesis
    using line_totals_sum [OF assms(5-7)] app(3,4,5) next_position_above by (intro conjI allI impI ballI) simp_all
qed

definition sample_line_row :: line_row_input where
  "sample_line_row = \<lparr>lr_taxRateId = None, lr_description = ''Design'', lr_unit = Some ''h'', lr_quantity = 2,
     lr_unitPriceCents = 505, lr_discount = no_discount_columns, lr_taxPercentage = 0,
     lr_sourceTimeEntryId = None, lr_sourceExpenseId = None\<rparr>"

definition sample_line :: line_item_row where
  "sample_line = line_row id ''i1'' ''l1'' 0 sample_line_row
     \<lparr>lt_subtotalCents = 1010, lt_taxAmountCents = 0, lt_totalCents = 1010\<rparr>"

definition fresh_line_id :: "nat \<Rightarrow> ident" where
  "fresh_line_id n = ''n'' @ nat_digits n"

lemma fresh_line_ids: "inj fresh_line_id" "fresh_line_id k \<noteq> ''l1''"
proof -
  show "inj fresh_line_id" by (rule injI) (metis fresh_line_id_def digits_value_nat append_same_eq same_append_eq)
  show "fresh_line_id k \<noteq> ''l1''" by (simp add: fresh_line_id_def)
qed

lemma appended_lines_add_up_witness:
  "\<exists>d :: db. lineItems d = [sample_line]
    \<and> sum_list (map li_totalCents (invoice_lines ''i1'' (snd (appendInvoiceLineItems id fresh_line_id ''i1'' [sample_line_row] None d))))
      = totalCents (fst (appendInvoiceLineItems id fresh_line_id ''i1'' [sample_line_row] None d))"
proof -
  let ?d = "\<lparr>invoices = [], payments = [], creditNotes = [], lineItems = [sample_line], settings = None, projects = [],
      clients = [], taxRates = [], audit_log = [], events = [], jobs = []\<rparr> :: db"
  have input: "map stored_input (invoice_lines ''i1'' ?d) @ map row_input [sample_line_row]
      = [\<lparr>quantity = 2, unitPriceCents = 505, line_discount = None, taxPercentage = 0\<rparr>,
         \<lparr>quantity = 2, unitPriceCents = 505, line_discount = None, taxPercentage = 0\<rparr>]"
    by (simp add: invoice_lines_def live_line_def sample_line_def sample_line_row_def line_row_def stored_input_def
        row_input_def no_discount_columns_def)
  have "distinct (map li_id (lineItems ?d))" "inj fresh_line_id" "\<forall>k. fresh_line_id k \<notin> li_id ` set (lineItems ?d)"
    using fresh_line_ids by (simp_all add: sample_line_def line_row_def)
  moreover have "\<forall>x\<in>set (map stored_input (invoice_lines ''i1'' ?d) @ map row_input [sample_line_row]). valid_line x"
    "valid_discount None"
    "sum_list (map line_grossCents (map stored_input (invoice_lines ''i1'' ?d) @ map row_input [sample_line_row])) \<le> 2 ^ 46"
    unfolding input by code_simp+
  ultimately show ?thesis
    using appended_lines_add_up [of ?d fresh_line_id id "''i1''" "[sample_line_row]" None]
    by (intro exI [of _ ?d]) (auto simp del: list.map sum_list_simps simp: prod_eq_iff)
qed

end
