(* ===== verification/PaymentWrites.thy ===== *)
theory PaymentWrites
  imports Database
begin

text \<open>
  \<open>features/payments/paymentWrites.ts\<close>: every write that moves \<open>invoices.amount_paid_cents\<close>. Each
  function is one transaction under the invoice lock, a function from the state to a result and the
  state it commits; a rejection commits the state unchanged. The lemmas show that the writes keep the
  books (\<open>books_ok\<close>) and that the stored aggregate, status and payment date always follow the payments.
\<close>

section \<open>Results\<close>

datatype rejection =
  Invoice_deleted | Invoice_not_found | Invoice_not_issued | Currency_mismatch | Overpaid_rejection
  | Payment_not_found | Provider_owned | Already_settled

record applied_payment =
  ap_paymentId :: ident
  ap_invoiceId :: ident
  ap_projectId :: "ident option"
  ap_clientId :: "ident option"
  ap_amountCents :: int
  ap_amountPaidCents :: int
  ap_settled :: bool

datatype write_result = Applied applied_payment | Rejected_write rejection

datatype stripe_write_result = Written write_result | Duplicate ident

record payment_values =
  pv_method :: payment_method
  pv_amountCents :: int
  pv_paidAt :: jsdate
  pv_reference :: "string option"
  pv_notes :: "string option"
  pv_stripePaymentIntentId :: "string option"

section \<open>The decision and its application\<close>

definition decideSettlement :: "db \<Rightarrow> invoice_row \<Rightarrow> int \<Rightarrow> ident option \<Rightarrow> int \<times> settlement" where
  "decideSettlement d invoice addedCents replacedPaymentId =
     (let amountPaid = sumRecordedPayments (inv_id invoice) replacedPaymentId d + addedCents
      in (amountPaid, evaluateInvoiceSettlement
            \<lparr>oi_totalCents = inv_totalCents invoice, oi_amountPaidCents = amountPaid,
             oi_creditedCents = sumCreditedCents (inv_id invoice) d\<rparr>))"

fun resolveInvoiceStatus :: "invoice_status \<Rightarrow> bool \<Rightarrow> invoice_status" where
  "resolveInvoiceStatus current settled =
     (if settled then Paid else if current = Paid then Sent else current)"

definition applyInvoiceAggregate :: "invoice_row \<Rightarrow> int \<Rightarrow> settlement \<Rightarrow> jsdate \<Rightarrow> db \<Rightarrow> db" where
  "applyInvoiceAggregate invoice amountPaid s settledAt d =
     (let settled = (s = Settled)
      in d\<lparr>invoices := put_id inv_id (inv_id invoice)
             (\<lambda>r. r\<lparr>inv_amountPaidCents := amountPaid,
                    inv_status := resolveInvoiceStatus (inv_status invoice) settled,
                    inv_paidAt := (if settled
                                   then Some (case inv_paidAt invoice of Some t \<Rightarrow> t | None \<Rightarrow> settledAt)
                                   else None)\<rparr>) (invoices d)\<rparr>)"

definition toAppliedPayment :: "invoice_row \<Rightarrow> ident \<Rightarrow> int \<Rightarrow> int \<Rightarrow> settlement \<Rightarrow> applied_payment" where
  "toAppliedPayment invoice paymentId amount amountPaid s =
     \<lparr>ap_paymentId = paymentId, ap_invoiceId = inv_id invoice, ap_projectId = inv_projectId invoice,
      ap_clientId = inv_clientId invoice, ap_amountCents = amount, ap_amountPaidCents = amountPaid,
      ap_settled = (s = Settled)\<rparr>"

definition addPayment :: "ident \<Rightarrow> invoice_row \<Rightarrow> payment_values \<Rightarrow> db \<Rightarrow> write_result \<times> db" where
  "addPayment newId invoice v d =
     (let (amountPaid, s) = decideSettlement d invoice (pv_amountCents v) None
      in if is_overpaid s then (Rejected_write Overpaid_rejection, d)
         else let d1 = d\<lparr>payments := add_row
                  \<lparr>pay_id = newId, pay_invoiceId = inv_id invoice, pay_method = pv_method v,
                   pay_amountCents = pv_amountCents v, pay_currency = inv_currency invoice,
                   pay_paidAt = pv_paidAt v, pay_reference = pv_reference v,
                   pay_stripePaymentIntentId = pv_stripePaymentIntentId v, pay_notes = pv_notes v,
                   pay_deletedAt = None\<rparr> (payments d)\<rparr>
              in (Applied (toAppliedPayment invoice newId (pv_amountCents v) amountPaid s),
                  applyInvoiceAggregate invoice amountPaid s (pv_paidAt v) d1))"

section \<open>The writes\<close>

definition recordPaymentWrite :: "ident \<Rightarrow> ident \<Rightarrow> payment_values \<Rightarrow> db \<Rightarrow> write_result \<times> db" where
  "recordPaymentWrite newId invoiceId v d =
     (case lockInvoice invoiceId d of
        None \<Rightarrow> (Rejected_write Invoice_not_found, d)
      | Some invoice \<Rightarrow>
          if inv_status invoice = Draft then (Rejected_write Invoice_not_issued, d)
          else addPayment newId invoice (v\<lparr>pv_stripePaymentIntentId := None\<rparr>) d)"

definition recordStripePaymentWrite ::
  "ident \<Rightarrow> ident \<Rightarrow> int \<Rightarrow> string \<Rightarrow> jsdate \<Rightarrow> string \<Rightarrow> db \<Rightarrow> stripe_write_result \<times> db" where
  "recordStripePaymentWrite newId invoiceId amount currency paidAt intentId d =
     (case lockInvoice invoiceId d of
        None \<Rightarrow> (Written (Rejected_write Invoice_not_found), d)
      | Some invoice \<Rightarrow>
          if inv_status invoice = Draft then (Written (Rejected_write Invoice_not_issued), d)
          else if currency \<noteq> inv_currency invoice then (Written (Rejected_write Currency_mismatch), d)
          else (case List.find (\<lambda>p. pay_stripePaymentIntentId p = Some intentId) (payments d) of
                  Some p \<Rightarrow> (Duplicate (pay_id p), d)
                | None \<Rightarrow> apfst Written (addPayment newId invoice
                    \<lparr>pv_method = Stripe, pv_amountCents = amount, pv_paidAt = paidAt,
                     pv_reference = Some intentId, pv_notes = None,
                     pv_stripePaymentIntentId = Some intentId\<rparr> d)))"

definition findPaymentInvoiceId :: "ident \<Rightarrow> db \<Rightarrow> payment_row option" where
  "findPaymentInvoiceId paymentId d =
     (case find_id pay_id paymentId (payments d) of
        Some p \<Rightarrow> if pay_deletedAt p = None then Some p else None
      | None \<Rightarrow> None)"

definition updatePaymentWrite :: "ident \<Rightarrow> payment_values \<Rightarrow> db \<Rightarrow> write_result \<times> db" where
  "updatePaymentWrite paymentId v d =
     (case findPaymentInvoiceId paymentId d of
        None \<Rightarrow> (Rejected_write Payment_not_found, d)
      | Some existing \<Rightarrow>
          (case lockInvoice (pay_invoiceId existing) d of
             None \<Rightarrow> (Rejected_write Invoice_not_found, d)
           | Some invoice \<Rightarrow>
               if pay_stripePaymentIntentId existing \<notin> {None, Some []} then (Rejected_write Provider_owned, d)
               else let (amountPaid, s) = decideSettlement d invoice (pv_amountCents v) (Some paymentId)
                    in if is_overpaid s then (Rejected_write Overpaid_rejection, d)
                       else let d1 = d\<lparr>payments := put_id pay_id paymentId
                                (\<lambda>p. p\<lparr>pay_method := pv_method v, pay_amountCents := pv_amountCents v,
                                       pay_paidAt := pv_paidAt v, pay_reference := pv_reference v,
                                       pay_notes := pv_notes v\<rparr>) (payments d)\<rparr>
                            in (Applied (toAppliedPayment invoice paymentId (pv_amountCents v) amountPaid s),
                                applyInvoiceAggregate invoice amountPaid s (pv_paidAt v) d1)))"

definition restorePaymentWrite :: "ident \<Rightarrow> jsdate \<Rightarrow> db \<Rightarrow> write_result \<times> db" where
  "restorePaymentWrite paymentId now d =
     (case find_id pay_id paymentId (payments d) of
        None \<Rightarrow> (Rejected_write Payment_not_found, d)
      | Some owner \<Rightarrow>
          if pay_deletedAt owner = None then (Rejected_write Payment_not_found, d)
          else (case find_id inv_id (pay_invoiceId owner) (invoices d) of
                  None \<Rightarrow> (Rejected_write Invoice_not_found, d)
                | Some parent \<Rightarrow>
                    if inv_deletedAt parent \<noteq> None then (Rejected_write Invoice_deleted, d)
                    else (case lockInvoice (pay_invoiceId owner) d of
                            None \<Rightarrow> (Rejected_write Invoice_not_found, d)
                          | Some invoice \<Rightarrow>
                              let (amountPaid, s) = decideSettlement d invoice (pay_amountCents owner) None
                              in if is_overpaid s then (Rejected_write Overpaid_rejection, d)
                                 else let d1 = d\<lparr>payments := put_id pay_id paymentId
                                          (\<lambda>p. p\<lparr>pay_deletedAt := None\<rparr>) (payments d)\<rparr>
                                      in (Applied (toAppliedPayment invoice paymentId (pay_amountCents owner) amountPaid s),
                                          applyInvoiceAggregate invoice amountPaid s now d1))))"

definition softDeletePaymentWrite :: "ident \<Rightarrow> jsdate \<Rightarrow> db \<Rightarrow> write_result \<times> db" where
  "softDeletePaymentWrite paymentId now d =
     (case findPaymentInvoiceId paymentId d of
        None \<Rightarrow> (Rejected_write Payment_not_found, d)
      | Some owner \<Rightarrow>
          (case lockInvoice (pay_invoiceId owner) d of
             None \<Rightarrow> (Rejected_write Invoice_not_found, d)
           | Some invoice \<Rightarrow>
               let d1 = d\<lparr>payments := put_id pay_id paymentId
                        (\<lambda>p. p\<lparr>pay_deletedAt := Some now\<rparr>) (payments d)\<rparr>;
                   (amountPaid, s) = decideSettlement d1 invoice 0 None
               in (Applied (toAppliedPayment invoice paymentId (pay_amountCents owner) amountPaid s),
                   applyInvoiceAggregate invoice amountPaid s now d1)))"

definition settleInvoiceWrite :: "ident \<Rightarrow> ident \<Rightarrow> payment_method \<Rightarrow> jsdate \<Rightarrow> db \<Rightarrow> write_result \<times> db" where
  "settleInvoiceWrite newId invoiceId method paidAt d =
     (case lockInvoice invoiceId d of
        None \<Rightarrow> (Rejected_write Invoice_not_found, d)
      | Some invoice \<Rightarrow>
          if inv_status invoice = Draft then (Rejected_write Invoice_not_issued, d)
          else let outstanding = getInvoiceOutstandingCents
                     \<lparr>oi_totalCents = inv_totalCents invoice,
                      oi_amountPaidCents = sumRecordedPayments (inv_id invoice) None d,
                      oi_creditedCents = sumCreditedCents (inv_id invoice) d\<rparr>
               in if outstanding \<le> 0 then (Rejected_write Already_settled, d)
                  else addPayment newId invoice
                    \<lparr>pv_method = method, pv_amountCents = outstanding, pv_paidAt = paidAt,
                     pv_reference = None, pv_notes = None, pv_stripePaymentIntentId = None\<rparr> d)"

definition resettleInvoiceWrite :: "ident \<Rightarrow> jsdate \<Rightarrow> db \<Rightarrow> db" where
  "resettleInvoiceWrite invoiceId now d =
     (case lockInvoice invoiceId d of
        None \<Rightarrow> d
      | Some invoice \<Rightarrow>
          if inv_status invoice = Draft then d
          else let (amountPaid, s) = decideSettlement d invoice 0 None
               in applyInvoiceAggregate invoice amountPaid s now d)"

section \<open>Keeping the books\<close>

text \<open>A change of payments or credit notes that concerns one invoice only.\<close>

definition concerns_only :: "ident \<Rightarrow> db \<Rightarrow> db \<Rightarrow> bool" where
  "concerns_only i d d1 \<longleftrightarrow>
     invoices d1 = invoices d \<and> ids_ok d1
     \<and> (\<forall>j. j \<noteq> i \<longrightarrow> sumRecordedPayments j None d1 = sumRecordedPayments j None d
           \<and> sumCreditedCents j d1 = sumCreditedCents j d)
     \<and> pay_invoiceId ` set (payments d1) \<subseteq> insert i (pay_invoiceId ` set (payments d))
     \<and> cn_invoiceId ` set (creditNotes d1) \<subseteq> insert i (cn_invoiceId ` set (creditNotes d))"

lemma locked_row:
  assumes "books_ok d" "lockInvoice i d = Some invoice"
  shows "invoice \<in> set (invoices d)" "inv_id invoice = i" "inv_deletedAt invoice = None"
    "aggregate_ok d invoice" "status_ok d invoice"
proof -
  show "inv_id invoice = i" "inv_deletedAt invoice = None" using assms(2) lockInvoice_id
    by (auto simp: lockInvoice_Some)
  show in_t: "invoice \<in> set (invoices d)"
    using assms(2) invoice_table.lookup_in unfolding lockInvoice_Some by blast
  show "aggregate_ok d invoice" "status_ok d invoice"
    using assms(1) in_t \<open>inv_deletedAt invoice = None\<close> by (simp_all add: books_ok_def)
qed

lemma same_id_same_row:
  "books_ok d \<Longrightarrow> lockInvoice i d = Some invoice \<Longrightarrow> r \<in> set (invoices d) \<Longrightarrow> inv_id r = i \<Longrightarrow> r = invoice"
  using distinct_lookup [of inv_id "invoices d" r] by (auto simp: lockInvoice_Some books_ok_def ids_ok_def)

lemma apply_aggregate_tables [simp]:
  "payments (applyInvoiceAggregate invoice a s t d) = payments d"
  "creditNotes (applyInvoiceAggregate invoice a s t d) = creditNotes d"
  "map inv_id (invoices (applyInvoiceAggregate invoice a s t d)) = map inv_id (invoices d)"
  "inv_id ` set (invoices (applyInvoiceAggregate invoice a s t d)) = inv_id ` set (invoices d)"
proof -
  show ids: "map inv_id (invoices (applyInvoiceAggregate invoice a s t d)) = map inv_id (invoices d)"
    by (simp add: applyInvoiceAggregate_def Let_def invoice_table.keys_put)
  show "inv_id ` set (invoices (applyInvoiceAggregate invoice a s t d)) = inv_id ` set (invoices d)"
    using ids by (metis list.set_map)
qed (simp_all add: applyInvoiceAggregate_def Let_def)

lemma apply_aggregate_sums [simp]:
  "sumRecordedPayments j x (applyInvoiceAggregate invoice a s t d) = sumRecordedPayments j x d"
  "sumCreditedCents j (applyInvoiceAggregate invoice a s t d) = sumCreditedCents j d"
  by (simp_all add: sumRecordedPayments_def sumCreditedCents_def)

lemma aggregate_ok_other:
  assumes "aggregate_ok d r" "concerns_only i d d1" "inv_id r \<noteq> i"
    and "payments d2 = payments d1" "creditNotes d2 = creditNotes d1"
  shows "aggregate_ok d2 r"
proof -
  have sums: "sumRecordedPayments (inv_id r) None d2 = sumRecordedPayments (inv_id r) None d"
    using assms by (simp add: sumRecordedPayments_def concerns_only_def)
  have "\<forall>p\<in>set (payments d2). pay_invoiceId p \<noteq> inv_id r"
    if "\<forall>p\<in>set (payments d). pay_invoiceId p \<noteq> inv_id r"
    using that assms by (auto simp: concerns_only_def image_subset_iff)
  moreover have "\<forall>c\<in>set (creditNotes d2). cn_invoiceId c \<noteq> inv_id r"
    if "\<forall>c\<in>set (creditNotes d). cn_invoiceId c \<noteq> inv_id r"
    using that assms by (auto simp: concerns_only_def image_subset_iff)
  ultimately show ?thesis using assms(1) sums by (simp add: aggregate_ok_def)
qed

lemma status_ok_other:
  assumes "status_ok d r" "concerns_only i d d1" "inv_id r \<noteq> i" "creditNotes d2 = creditNotes d1"
  shows "status_ok d2 r"
  using assms by (simp add: status_ok_def concerns_only_def sumCreditedCents_def)

lemma ids_ok_cong:
  "ids_ok d \<Longrightarrow> payments d' = payments d \<Longrightarrow> creditNotes d' = creditNotes d \<Longrightarrow>
    map inv_id (invoices d') = map inv_id (invoices d) \<Longrightarrow> ids_ok d'"
  unfolding ids_ok_def list.set_map [symmetric] by simp

lemma settled_amounts_iff:
  "settled_amounts tot paid credited \<longleftrightarrow> paid \<le> tot \<and> 0 < tot \<and> tot \<le> credited + paid"
  by (auto simp: settled_amounts_def settlement_iff)

lemma resolved_status:
  assumes "st \<noteq> Draft"
  shows "resolveInvoiceStatus st b \<noteq> Draft" and "resolveInvoiceStatus st b = Paid \<longleftrightarrow> b"
  using assms by (cases st; simp)+

text \<open>Re-deciding the settlement of an invoice after a change that concerns it keeps the books.\<close>

lemma books_after_settlement:
  assumes ok: "books_ok d" and lock: "lockInvoice i d = Some invoice" and issued: "inv_status invoice \<noteq> Draft"
    and only: "concerns_only i d d1"
    and paid: "amountPaid = sumRecordedPayments i None d1" "amountPaid \<le> inv_totalCents invoice"
    and s: "s = evaluateInvoiceSettlement \<lparr>oi_totalCents = inv_totalCents invoice,
              oi_amountPaidCents = amountPaid, oi_creditedCents = sumCreditedCents i d1\<rparr>"
  shows "books_ok (applyInvoiceAggregate invoice amountPaid s t d1)"
proof -
  let ?d2 = "applyInvoiceAggregate invoice amountPaid s t d1"
  let ?f = "\<lambda>r. r\<lparr>inv_amountPaidCents := amountPaid,
      inv_status := resolveInvoiceStatus (inv_status invoice) (s = Settled),
      inv_paidAt := (if s = Settled then Some (case inv_paidAt invoice of Some t \<Rightarrow> t | None \<Rightarrow> t) else None)\<rparr>"
  note row = locked_row [OF ok lock]
  have inv: "invoices d1 = invoices d" and ids: "ids_ok d1" using only by (simp_all add: concerns_only_def)
  have rows: "set (invoices ?d2) = (\<lambda>r. if inv_id r = i then ?f r else r) ` set (invoices d)"
    using inv row(2) by (simp add: applyInvoiceAggregate_def Let_def invoice_table.rows_put)
  have settled: "s = Settled \<longleftrightarrow> settled_amounts (inv_totalCents invoice) amountPaid (sumCreditedCents i d1)"
    by (simp add: s settled_amounts_def)
  have cases: "r = ?f invoice \<or> r \<in> set (invoices d) \<and> inv_id r \<noteq> i" if "r \<in> set (invoices ?d2)" for r
    using that same_id_same_row [OF ok lock] unfolding rows by auto
  have "aggregate_ok ?d2 r" if r: "r \<in> set (invoices ?d2)" for r
    using cases [OF r]
  proof
    assume "r = ?f invoice"
    then have "inv_id r = i" "inv_amountPaidCents r = amountPaid" "inv_totalCents r = inv_totalCents invoice"
      "inv_lateFeeCents r = inv_lateFeeCents invoice" "inv_status r \<noteq> Draft"
      using row(2) resolved_status(1) [OF issued] by simp_all
    moreover have "sumRecordedPayments i None ?d2 = amountPaid" by (simp only: apply_aggregate_sums paid(1))
    moreover have "0 \<le> amountPaid" using sumRecorded_nonneg [OF ids, of i None] by (simp only: paid(1))
    ultimately show ?thesis
      using row(4) paid(2) by (simp only: aggregate_ok_def) simp
  next
    assume "r \<in> set (invoices d) \<and> inv_id r \<noteq> i"
    moreover then have "aggregate_ok d r" using ok unfolding books_ok_def by blast
    ultimately show ?thesis using aggregate_ok_other [OF _ only] by (metis apply_aggregate_tables(1,2))
  qed
  moreover have "status_ok ?d2 r" if r: "r \<in> set (invoices ?d2)" "inv_deletedAt r = None" for r
    using cases [OF r(1)]
  proof
    assume "r = ?f invoice"
    then have "inv_id r = i" "inv_amountPaidCents r = amountPaid" "inv_totalCents r = inv_totalCents invoice"
      "inv_status r = Paid \<longleftrightarrow> s = Settled" "inv_paidAt r \<noteq> None \<longleftrightarrow> s = Settled"
      using row(2) resolved_status(2) [OF issued] by simp_all
    then show ?thesis using settled unfolding status_ok_def by (simp only: apply_aggregate_sums simp_thms)
  next
    assume "r \<in> set (invoices d) \<and> inv_id r \<noteq> i"
    moreover then have "status_ok d r" using ok r(2) unfolding books_ok_def by blast
    ultimately show ?thesis using status_ok_other [OF _ only] by (metis apply_aggregate_tables(2))
  qed
  moreover have "ids_ok ?d2" using ids by (rule ids_ok_cong) simp_all
  ultimately show ?thesis by (simp add: books_ok_def)
qed

lemma sum_where_exclude:
  "distinct (map key t) \<Longrightarrow> find_id key k t = Some r \<Longrightarrow>
    sum_where (\<lambda>x. p x \<and> key x \<noteq> k) f t = sum_where p f t - (if p r then f r else 0)"
proof (induction t)
  case (Cons x t)
  show ?case
  proof (cases "key x = k")
    case True
    then have "sum_where (\<lambda>x. p x \<and> key x \<noteq> k) f t = sum_where p f t"
      using Cons.prems(1) by (intro sum_where_cong) (auto simp: image_iff)
    then show ?thesis using True Cons.prems by (simp add: money_simps row_simps)
  qed (use Cons in \<open>auto simp: money_simps row_simps\<close>)
qed (simp add: row_simps)

lemma sumRecorded_exclude:
  "ids_ok d \<Longrightarrow> find_id pay_id k (payments d) = Some p \<Longrightarrow>
    sumRecordedPayments i (Some k) d
      = sumRecordedPayments i None d - (if live_payment i p then pay_amountCents p else 0)"
  using sum_where_exclude [of pay_id "payments d" k p "live_payment i" pay_amountCents]
  by (simp add: sumRecordedPayments_def ids_ok_def eq_commute)

text \<open>The aggregate of a locked invoice is the sum a write starts from.\<close>

lemma locked_paid:
  "books_ok d \<Longrightarrow> lockInvoice i d = Some invoice \<Longrightarrow>
    inv_amountPaidCents invoice = sumRecordedPayments i None d \<and> inv_amountPaidCents invoice \<le> inv_totalCents invoice"
  using locked_row(2,4) [of d i invoice] by (auto simp: aggregate_ok_def)

subsection \<open>Adding and changing payments\<close>

lemma concerns_add_payment:
  assumes ids: "ids_ok d" and fresh: "pay_id p \<notin> pay_id ` set (payments d)"
    and p: "0 < pay_amountCents p" "pay_invoiceId p = i" "pay_deletedAt p = None" "i \<in> inv_id ` set (invoices d)"
    and intent: "pay_stripePaymentIntentId p = None
      \<or> (\<forall>q\<in>set (payments d). pay_stripePaymentIntentId q \<noteq> pay_stripePaymentIntentId p)"
  shows "concerns_only i d (d\<lparr>payments := add_row p (payments d)\<rparr>)"
    and "sumRecordedPayments i None (d\<lparr>payments := add_row p (payments d)\<rparr>)
      = sumRecordedPayments i None d + pay_amountCents p"
proof -
  let ?d = "d\<lparr>payments := add_row p (payments d)\<rparr>"
  have sums: "sumRecordedPayments j None ?d
      = sumRecordedPayments j None d + (if j = i then pay_amountCents p else 0)" for j
    using p by (simp add: sumRecordedPayments_def sum_where_add_row live_payment_def eq_commute)
  have "distinct (map pay_stripePaymentIntentId (filter (\<lambda>p. pay_stripePaymentIntentId p \<noteq> None) (payments d @ [p])))"
    using ids intent by (auto simp: ids_ok_def)
  moreover have "distinct (map pay_id (add_row p (payments d)))"
    using ids fresh by (intro payment_table.distinct_add) (simp_all add: ids_ok_def)
  ultimately have "ids_ok ?d" using ids p by (auto simp: ids_ok_def add_row_def)
  then show "concerns_only i d ?d"
    using p sums by (auto simp: concerns_only_def payment_table.rows_add sumCreditedCents_def)
  show "sumRecordedPayments i None ?d = sumRecordedPayments i None d + pay_amountCents p"
    using sums by simp
qed

lemma map_put_keeps:
  "(\<And>r. h (f r) = h r) \<Longrightarrow> map h (put_id key k f t) = map h t"
  by (simp add: put_id_def update_where_def)

lemma filter_put_keeps:
  "(\<And>r. P (f r) = P r) \<Longrightarrow> (\<And>r. h (f r) = h r) \<Longrightarrow>
    map h (filter P (put_id key k f t)) = map h (filter P t)"
  by (induction t) (auto simp: put_id_def update_where_def)

lemma concerns_put_payment:
  assumes ids: "ids_ok d" and p: "find_id pay_id k (payments d) = Some p" "pay_invoiceId p = i"
    and keeps: "\<And>q. pay_id (g q) = pay_id q" "\<And>q. pay_invoiceId (g q) = pay_invoiceId q"
      "\<And>q. pay_stripePaymentIntentId (g q) = pay_stripePaymentIntentId q" and pos: "0 < pay_amountCents (g p)"
  shows "concerns_only i d (d\<lparr>payments := put_id pay_id k g (payments d)\<rparr>)"
    and "sumRecordedPayments i None (d\<lparr>payments := put_id pay_id k g (payments d)\<rparr>)
      = sumRecordedPayments i None d - (if pay_deletedAt p = None then pay_amountCents p else 0)
        + (if pay_deletedAt (g p) = None then pay_amountCents (g p) else 0)"
proof -
  let ?d = "d\<lparr>payments := put_id pay_id k g (payments d)\<rparr>"
  have dist: "distinct (map pay_id (payments d))" using ids by (simp add: ids_ok_def)
  have sums: "sumRecordedPayments j None ?d = sumRecordedPayments j None d
      - (if live_payment j p then pay_amountCents p else 0)
      + (if live_payment j (g p) then pay_amountCents (g p) else 0)" for j
    using sum_where_put_id [OF dist p(1), of "live_payment j" pay_amountCents g]
    by (simp add: sumRecordedPayments_def)
  have mem: "p \<in> set (payments d)" using p(1) by (rule payment_table.lookup_in)
  have upd: "q \<in> set (payments d) \<and> pay_id q \<noteq> k \<or> q = g p" if "q \<in> set (put_id pay_id k g (payments d))" for q
    using that distinct_lookup [OF dist] p(1) by (auto simp: payment_table.rows_put split: if_splits)
  have pos': "0 < pay_amountCents q" if "q \<in> set (put_id pay_id k g (payments d))" for q
    using upd [OF that] ids pos by (auto simp: ids_ok_def)
  have invs: "map pay_invoiceId (put_id pay_id k g (payments d)) = map pay_invoiceId (payments d)"
    by (rule map_put_keeps) (rule keeps)
  then have invs': "pay_invoiceId ` set (put_id pay_id k g (payments d)) = pay_invoiceId ` set (payments d)"
    by (metis list.set_map)
  have "pay_invoiceId ` set (payments d) \<subseteq> inv_id ` set (invoices d)" using ids by (auto simp: ids_ok_def)
  then have refs: "\<forall>q\<in>set (put_id pay_id k g (payments d)). pay_invoiceId q \<in> inv_id ` set (invoices d)"
    using invs' by blast
  have ids': "map pay_id (put_id pay_id k g (payments d)) = map pay_id (payments d)"
    by (rule map_put_keeps) (rule keeps)
  have intents: "map pay_stripePaymentIntentId
        (filter (\<lambda>p. pay_stripePaymentIntentId p \<noteq> None) (put_id pay_id k g (payments d)))
      = map pay_stripePaymentIntentId (filter (\<lambda>p. pay_stripePaymentIntentId p \<noteq> None) (payments d))"
    by (rule filter_put_keeps) (simp_all add: keeps)
  have "ids_ok ?d" using ids pos' refs unfolding ids_ok_def by (simp add: ids' intents del: not_None_eq)
  then show "concerns_only i d ?d"
    using sums p(2) keeps(2) [of p] invs' by (auto simp: concerns_only_def live_payment_def sumCreditedCents_def)
  show "sumRecordedPayments i None ?d
      = sumRecordedPayments i None d - (if pay_deletedAt p = None then pay_amountCents p else 0)
        + (if pay_deletedAt (g p) = None then pay_amountCents (g p) else 0)"
    using sums [of i] p(2) keeps(2) [of p] by (simp add: live_payment_def)
qed

lemma concerns_credits:
  "concerns_only i d d1 \<Longrightarrow> creditNotes d1 = creditNotes d \<Longrightarrow> sumCreditedCents i d1 = sumCreditedCents i d"
  by (simp add: sumCreditedCents_def)

lemma invoice_id_known: "lockInvoice i d = Some invoice \<Longrightarrow> i \<in> inv_id ` set (invoices d)"
  using invoice_table.lookup_in invoice_table.lookup_key by (fastforce simp: lockInvoice_Some)

subsection \<open>Every write keeps the books\<close>

lemma addPayment_books:
  assumes ok: "books_ok d" and lock: "lockInvoice i d = Some invoice" and issued: "inv_status invoice \<noteq> Draft"
    and fresh: "newId \<notin> pay_id ` set (payments d)" and pos: "0 < pv_amountCents v"
    and intent: "pv_stripePaymentIntentId v = None
      \<or> (\<forall>q\<in>set (payments d). pay_stripePaymentIntentId q \<noteq> pv_stripePaymentIntentId v)"
  shows "books_ok (snd (addPayment newId invoice v d))"
proof -
  note i = locked_row(2) [OF ok lock]
  let ?paid = "sumRecordedPayments i None d + pv_amountCents v"
  let ?s = "evaluateInvoiceSettlement \<lparr>oi_totalCents = inv_totalCents invoice, oi_amountPaidCents = ?paid,
      oi_creditedCents = sumCreditedCents i d\<rparr>"
  let ?p = "\<lparr>pay_id = newId, pay_invoiceId = i, pay_method = pv_method v,
      pay_amountCents = pv_amountCents v, pay_currency = inv_currency invoice,
      pay_paidAt = pv_paidAt v, pay_reference = pv_reference v,
      pay_stripePaymentIntentId = pv_stripePaymentIntentId v, pay_notes = pv_notes v, pay_deletedAt = None\<rparr>"
  have ids: "ids_ok d" using ok by (simp add: books_ok_def)
  note add = concerns_add_payment [OF ids, of ?p i]
  show ?thesis
  proof (cases "\<exists>x. ?s = Overpaid x")
    case True
    then show ?thesis using ok i by (simp add: addPayment_def decideSettlement_def Let_def)
  next
    case False
    then have "?paid \<le> inv_totalCents invoice" using overpaid_iff by (metis not_less outstanding_input.select_convs(1,2))
    then have "books_ok (applyInvoiceAggregate invoice ?paid ?s (pv_paidAt v)
        (d\<lparr>payments := add_row ?p (payments d)\<rparr>))"
      using add fresh pos intent invoice_id_known [OF lock]
      by (intro books_after_settlement [OF ok lock issued]) (simp_all add: sumCreditedCents_def)
    then show ?thesis using False i by (simp add: addPayment_def decideSettlement_def Let_def)
  qed
qed

lemma recordPaymentWrite_books:
  assumes "books_ok d" "newId \<notin> pay_id ` set (payments d)" "0 < pv_amountCents v"
  shows "books_ok (snd (recordPaymentWrite newId invoiceId v d))"
  using assms addPayment_books [OF assms(1) _ _ assms(2)]
  by (auto simp: recordPaymentWrite_def split: option.splits)

lemma recordStripePaymentWrite_books:
  assumes "books_ok d" "newId \<notin> pay_id ` set (payments d)" "0 < amount"
  shows "books_ok (snd (recordStripePaymentWrite newId invoiceId amount currency paidAt intentId d))"
  using assms(1) addPayment_books [OF assms(1) _ _ assms(2)] assms(3)
  by (auto simp: recordStripePaymentWrite_def find_None_iff split: option.splits)

lemma settleInvoiceWrite_books:
  assumes "books_ok d" "newId \<notin> pay_id ` set (payments d)"
  shows "books_ok (snd (settleInvoiceWrite newId invoiceId method paidAt d))"
  using assms(1) addPayment_books [OF assms(1) _ _ assms(2)]
  by (auto simp: settleInvoiceWrite_def Let_def not_le split: option.splits)

lemma issued_of_payment:
  assumes "books_ok d" "lockInvoice i d = Some invoice" "p \<in> set (payments d)" "pay_invoiceId p = i"
  shows "inv_status invoice \<noteq> Draft"
  using locked_row(2,4) [OF assms(1,2)] assms(3,4) by (auto simp: aggregate_ok_def)

lemma findPayment_Some:
  "findPaymentInvoiceId k d = Some p \<longleftrightarrow> find_id pay_id k (payments d) = Some p \<and> pay_deletedAt p = None"
  by (auto simp: findPaymentInvoiceId_def split: option.splits)

lemma updatePaymentWrite_books:
  assumes ok: "books_ok d" and pos: "0 < pv_amountCents v"
  shows "books_ok (snd (updatePaymentWrite k v d))"
proof (cases "fst (updatePaymentWrite k v d)")
  case (Rejected_write r)
  then show ?thesis using ok
    by (auto simp: updatePaymentWrite_def Let_def split: option.splits if_splits prod.splits)
next
  case (Applied a)
  then obtain p invoice where p: "findPaymentInvoiceId k d = Some p"
    and lock: "lockInvoice (pay_invoiceId p) d = Some invoice" and manual: "pay_stripePaymentIntentId p \<in> {None, Some []}"
    by (auto simp: updatePaymentWrite_def Let_def split: option.splits if_splits prod.splits)
  let ?i = "pay_invoiceId p" and ?g = "\<lambda>p. p\<lparr>pay_method := pv_method v, pay_amountCents := pv_amountCents v,
      pay_paidAt := pv_paidAt v, pay_reference := pv_reference v, pay_notes := pv_notes v\<rparr>"
  have ids: "ids_ok d" using ok by (simp add: books_ok_def)
  have found: "find_id pay_id k (payments d) = Some p" "pay_deletedAt p = None" using p by (simp_all add: findPayment_Some)
  note i = locked_row(2) [OF ok lock]
  let ?paid = "sumRecordedPayments ?i (Some k) d + pv_amountCents v"
  let ?s = "evaluateInvoiceSettlement \<lparr>oi_totalCents = inv_totalCents invoice, oi_amountPaidCents = ?paid,
      oi_creditedCents = sumCreditedCents ?i d\<rparr>"
  have nover: "\<not> (\<exists>x. ?s = Overpaid x)"
    using Applied p lock manual i by (auto simp: updatePaymentWrite_def decideSettlement_def Let_def split: if_splits)
  note put = concerns_put_payment [OF ids found(1) refl, of ?g]
  have "?paid = sumRecordedPayments ?i None (d\<lparr>payments := put_id pay_id k ?g (payments d)\<rparr>)"
    using put(2) pos found(2) sumRecorded_exclude [OF ids found(1), of ?i] by (simp add: live_payment_def)
  moreover have "?paid \<le> inv_totalCents invoice"
    using nover overpaid_iff by (metis not_less outstanding_input.select_convs(1,2))
  moreover have "inv_status invoice \<noteq> Draft"
    using issued_of_payment [OF ok lock] payment_table.lookup_in [OF found(1)] by blast
  ultimately have "books_ok (applyInvoiceAggregate invoice ?paid ?s (pv_paidAt v)
      (d\<lparr>payments := put_id pay_id k ?g (payments d)\<rparr>))"
    using put(1) pos by (intro books_after_settlement [OF ok lock]) (simp_all add: sumCreditedCents_def)
  then show ?thesis using p lock manual i nover by (auto simp: updatePaymentWrite_def decideSettlement_def Let_def)
qed

lemma restorePaymentWrite_books:
  assumes ok: "books_ok d"
  shows "books_ok (snd (restorePaymentWrite k now d))"
proof (cases "fst (restorePaymentWrite k now d)")
  case (Rejected_write r)
  then show ?thesis using ok
    by (auto simp: restorePaymentWrite_def Let_def split: option.splits if_splits prod.splits)
next
  case (Applied a)
  then obtain p parent invoice where p: "find_id pay_id k (payments d) = Some p" "pay_deletedAt p \<noteq> None"
    and parent: "find_id inv_id (pay_invoiceId p) (invoices d) = Some parent" "inv_deletedAt parent = None"
    and lock: "lockInvoice (pay_invoiceId p) d = Some invoice"
    by (auto simp: restorePaymentWrite_def Let_def split: option.splits if_splits prod.splits)
  let ?i = "pay_invoiceId p" and ?g = "\<lambda>p. p\<lparr>pay_deletedAt := None\<rparr>"
  have ids: "ids_ok d" using ok by (simp add: books_ok_def)
  note i = locked_row(2) [OF ok lock]
  let ?paid = "sumRecordedPayments ?i None d + pay_amountCents p"
  let ?s = "evaluateInvoiceSettlement \<lparr>oi_totalCents = inv_totalCents invoice, oi_amountPaidCents = ?paid,
      oi_creditedCents = sumCreditedCents ?i d\<rparr>"
  have nover: "\<not> (\<exists>x. ?s = Overpaid x)"
    using Applied p parent lock i by (auto simp: restorePaymentWrite_def decideSettlement_def Let_def split: if_splits)
  have mem: "p \<in> set (payments d)" using p(1) by (rule payment_table.lookup_in)
  then have pos: "0 < pay_amountCents p" using ids by (auto simp: ids_ok_def)
  note put = concerns_put_payment [OF ids p(1) refl, of ?g]
  have "?paid = sumRecordedPayments ?i None (d\<lparr>payments := put_id pay_id k ?g (payments d)\<rparr>)"
    using put(2) pos p(2) by simp
  moreover have "?paid \<le> inv_totalCents invoice"
    using nover overpaid_iff by (metis not_less outstanding_input.select_convs(1,2))
  moreover have "inv_status invoice \<noteq> Draft" using issued_of_payment [OF ok lock mem] by simp
  ultimately have "books_ok (applyInvoiceAggregate invoice ?paid ?s now
      (d\<lparr>payments := put_id pay_id k ?g (payments d)\<rparr>))"
    using put(1) pos by (intro books_after_settlement [OF ok lock]) (simp_all add: sumCreditedCents_def)
  then show ?thesis using p parent lock i nover by (auto simp: restorePaymentWrite_def decideSettlement_def Let_def)
qed

lemma softDeletePaymentWrite_books:
  assumes ok: "books_ok d"
  shows "books_ok (snd (softDeletePaymentWrite k now d))"
proof (cases "fst (softDeletePaymentWrite k now d)")
  case (Rejected_write r)
  then show ?thesis using ok
    by (auto simp: softDeletePaymentWrite_def Let_def split: option.splits if_splits prod.splits)
next
  case (Applied a)
  then obtain p invoice where p: "findPaymentInvoiceId k d = Some p"
    and lock: "lockInvoice (pay_invoiceId p) d = Some invoice"
    by (auto simp: softDeletePaymentWrite_def Let_def split: option.splits)
  let ?i = "pay_invoiceId p" and ?g = "\<lambda>p. p\<lparr>pay_deletedAt := Some now\<rparr>"
  let ?d = "d\<lparr>payments := put_id pay_id k ?g (payments d)\<rparr>"
  have ids: "ids_ok d" using ok by (simp add: books_ok_def)
  have found: "find_id pay_id k (payments d) = Some p" "pay_deletedAt p = None" using p by (simp_all add: findPayment_Some)
  have mem: "p \<in> set (payments d)" using found(1) by (rule payment_table.lookup_in)
  then have pos: "0 < pay_amountCents p" using ids by (auto simp: ids_ok_def)
  note i = locked_row(2) [OF ok lock]
  note put = concerns_put_payment [OF ids found(1) refl, of ?g]
  let ?paid = "sumRecordedPayments ?i None ?d"
  let ?s = "evaluateInvoiceSettlement \<lparr>oi_totalCents = inv_totalCents invoice, oi_amountPaidCents = ?paid,
      oi_creditedCents = sumCreditedCents ?i ?d\<rparr>"
  have "?paid \<le> inv_totalCents invoice"
    using put(2) pos found(2) locked_paid [OF ok lock] by simp
  moreover have "inv_status invoice \<noteq> Draft" using issued_of_payment [OF ok lock mem] by simp
  ultimately have "books_ok (applyInvoiceAggregate invoice ?paid ?s now ?d)"
    using put(1) pos by (intro books_after_settlement [OF ok lock]) simp_all
  then show ?thesis using p lock i by (simp add: softDeletePaymentWrite_def decideSettlement_def Let_def)
qed

subsection \<open>What a write leaves in the row\<close>

definition settled_row :: "invoice_row \<Rightarrow> int \<Rightarrow> settlement \<Rightarrow> jsdate \<Rightarrow> invoice_row" where
  "settled_row invoice amountPaid s settledAt =
     invoice\<lparr>inv_amountPaidCents := amountPaid,
             inv_status := resolveInvoiceStatus (inv_status invoice) (s = Settled),
             inv_paidAt := (if s = Settled
                            then Some (case inv_paidAt invoice of Some t \<Rightarrow> t | None \<Rightarrow> settledAt)
                            else None)\<rparr>"

lemma lock_after_aggregate:
  assumes "lockInvoice i d = Some invoice" "invoices d1 = invoices d"
  shows "lockInvoice i (applyInvoiceAggregate invoice a s t d1) = Some (settled_row invoice a s t)"
proof -
  have f: "find_id inv_id i (invoices d) = Some invoice" "inv_deletedAt invoice = None" "inv_id invoice = i"
    using assms(1) lockInvoice_id by (auto simp: lockInvoice_Some)
  have "find_id inv_id i (invoices (applyInvoiceAggregate invoice a s t d1)) = Some (settled_row invoice a s t)"
    using f assms(2)
    by (simp add: applyInvoiceAggregate_def Let_def settled_row_def find_id_put)
  then show ?thesis using f(2) by (simp add: lockInvoice_Some settled_row_def)
qed

lemma addPayment_Applied:
  assumes "lockInvoice i d = Some invoice" "fst (addPayment newId invoice v d) = Applied a"
  shows "lockInvoice i (snd (addPayment newId invoice v d))
      = Some (settled_row invoice (ap_amountPaidCents a)
          (evaluateInvoiceSettlement \<lparr>oi_totalCents = inv_totalCents invoice,
             oi_amountPaidCents = ap_amountPaidCents a, oi_creditedCents = sumCreditedCents i d\<rparr>) (pv_paidAt v))"
    and "ap_invoiceId a = i" and "ap_amountCents a = pv_amountCents v"
    and "ap_amountPaidCents a = sumRecordedPayments i None d + pv_amountCents v"
    and "ap_settled a \<longleftrightarrow> evaluateInvoiceSettlement \<lparr>oi_totalCents = inv_totalCents invoice,
             oi_amountPaidCents = ap_amountPaidCents a, oi_creditedCents = sumCreditedCents i d\<rparr> = Settled"
proof -
  note i = lockInvoice_id [OF assms(1)]
  let ?paid = "sumRecordedPayments i None d + pv_amountCents v"
  let ?s = "evaluateInvoiceSettlement \<lparr>oi_totalCents = inv_totalCents invoice, oi_amountPaidCents = ?paid,
      oi_creditedCents = sumCreditedCents i d\<rparr>"
  have a: "a = toAppliedPayment invoice newId (pv_amountCents v) ?paid ?s"
    and nover: "\<not> (\<exists>x. ?s = Overpaid x)"
    using assms(2) i by (auto simp: addPayment_def decideSettlement_def Let_def split: if_splits)
  then show "ap_invoiceId a = i" "ap_amountCents a = pv_amountCents v" "ap_amountPaidCents a = ?paid"
    "ap_settled a \<longleftrightarrow> evaluateInvoiceSettlement \<lparr>oi_totalCents = inv_totalCents invoice,
       oi_amountPaidCents = ap_amountPaidCents a, oi_creditedCents = sumCreditedCents i d\<rparr> = Settled"
    using i by (simp_all add: toAppliedPayment_def)
  then show "lockInvoice i (snd (addPayment newId invoice v d))
      = Some (settled_row invoice (ap_amountPaidCents a)
          (evaluateInvoiceSettlement \<lparr>oi_totalCents = inv_totalCents invoice,
             oi_amountPaidCents = ap_amountPaidCents a, oi_creditedCents = sumCreditedCents i d\<rparr>) (pv_paidAt v))"
    using nover i lock_after_aggregate [OF assms(1)] by (simp add: addPayment_def decideSettlement_def Let_def)
qed

lemma rejected_writes_change_nothing:
  "fst (recordPaymentWrite n i v d) = Rejected_write r \<Longrightarrow> snd (recordPaymentWrite n i v d) = d"
  "fst (updatePaymentWrite k v d) = Rejected_write r \<Longrightarrow> snd (updatePaymentWrite k v d) = d"
  "fst (restorePaymentWrite k t d) = Rejected_write r \<Longrightarrow> snd (restorePaymentWrite k t d) = d"
  "fst (softDeletePaymentWrite k t d) = Rejected_write r \<Longrightarrow> snd (softDeletePaymentWrite k t d) = d"
  "fst (settleInvoiceWrite n i m t d) = Rejected_write r \<Longrightarrow> snd (settleInvoiceWrite n i m t d) = d"
  by (auto simp: recordPaymentWrite_def updatePaymentWrite_def restorePaymentWrite_def
      softDeletePaymentWrite_def settleInvoiceWrite_def addPayment_def Let_def
      split: option.splits if_splits prod.splits)

lemma put_put: "key (f r0) = key r0 \<Longrightarrow> (\<And>r. key (f r) = key r) \<Longrightarrow>
  put_id key k g (put_id key k f t) = put_id key k (\<lambda>r. g (f r)) t"
  by (induction t) (auto simp: put_id_def update_where_def)

lemma find_snoc: "List.find P xs = None \<Longrightarrow> P y \<Longrightarrow> List.find P (xs @ [y]) = Some y"
  by (induction xs) (auto split: if_splits)

lemma put_same:
  "distinct (map key t) \<Longrightarrow> find_id key k t = Some r \<Longrightarrow> g r = r \<Longrightarrow> put_id key k g t = t"
proof (induction t)
  case (Cons x t)
  show ?case
  proof (cases "key x = k")
    case True
    then have "put_id key k g t = t" using Cons.prems(1) by (intro put_id_absent) auto
    then show ?thesis using True Cons.prems by (simp add: put_id_def update_where_def row_simps)
  qed (use Cons in \<open>auto simp: put_id_def update_where_def row_simps\<close>)
qed (simp add: put_id_def update_where_def)

lemma stripe_redelivery:
  assumes "recordStripePaymentWrite newId i amount cur t intent d = (Written (Applied a), d1)"
  shows "snd (recordStripePaymentWrite newId' i amount' cur' t' intent d1) = d1
       \<and> (cur' = cur \<longrightarrow> fst (recordStripePaymentWrite newId' i amount' cur' t' intent d1) = Duplicate newId)"
proof -
  let ?v = "\<lparr>pv_method = Stripe, pv_amountCents = amount, pv_paidAt = t, pv_reference = Some intent,
      pv_notes = None, pv_stripePaymentIntentId = Some intent\<rparr>"
  obtain old where lock: "lockInvoice i d = Some old" and issued: "inv_status old \<noteq> Draft"
    and cur: "cur = inv_currency old"
    and none: "List.find (\<lambda>p. pay_stripePaymentIntentId p = Some intent) (payments d) = None"
    and w: "addPayment newId old ?v d = (Applied a, d1)"
    using assms by (auto simp: recordStripePaymentWrite_def apfst_def map_prod_def split: option.splits if_splits prod.splits)
  have a: "fst (addPayment newId old ?v d) = Applied a" "snd (addPayment newId old ?v d) = d1" using w by simp_all
  have lock1: "lockInvoice i d1 = Some (settled_row old (ap_amountPaidCents a)
      (evaluateInvoiceSettlement \<lparr>oi_totalCents = inv_totalCents old,
         oi_amountPaidCents = ap_amountPaidCents a, oi_creditedCents = sumCreditedCents i d\<rparr>) t)"
    using addPayment_Applied(1) [OF lock a(1)] a(2) by simp
  obtain p where p: "payments d1 = payments d @ [p]" "pay_id p = newId" "pay_stripePaymentIntentId p = Some intent"
    using w by (auto simp: addPayment_def decideSettlement_def Let_def add_row_def split: if_splits)
  have "List.find (\<lambda>p. pay_stripePaymentIntentId p = Some intent) (payments d1) = Some p"
    unfolding p(1) by (rule find_snoc) (use none p(3) in simp_all)
  then show ?thesis
    using lock1 resolved_status(1) [OF issued] cur p(2)
    by (simp add: recordStripePaymentWrite_def settled_row_def)
qed

section \<open>Properties\<close>

definition sample_settings :: settings_row where
  "sample_settings =
     \<lparr>set_defaultCurrency = ''EUR'', set_defaultHourlyRateCents = Some 5000, set_invoicePrefix = ''INV-'', set_proposalPrefix = ''PROP-'', set_contractPrefix = ''CTR-'', set_creditNotePrefix = ''CN-'', set_nextInvoiceNumber = 2, set_nextProposalNumber = 1, set_nextContractNumber = 1,
      set_nextCreditNoteNumber = 1, set_numberPaddingWidth = 4, set_paymentTermsDays = 30, set_proposalValidityDays = 30,
      set_lateFee = \<lparr>lfp_enabled = True, lfp_type = Some LateFeePercentage, lfp_percentage = Some 5,
        lfp_amountCents = None, lfp_graceDays = 3, lfp_maxCents = None\<rparr>,
      set_stripeSecretKey = Some ''sk'', set_stripeWebhookSecret = Some ''wh''\<rparr>"

definition sample_invoice :: invoice_row where
  "sample_invoice =
     \<lparr>inv_id = ''i1'', inv_projectId = Some ''p1'', inv_clientId = Some ''c1'', inv_proposalId = None, inv_templateId = None, inv_recurringInvoiceId = None,
      inv_pdfUploadId = None, inv_number = ''INV-0001'', inv_status = Sent, inv_currency = ''EUR'',
      inv_discount = no_discount_columns, inv_subtotalCents = 1000, inv_discountAmountTotalCents = 0,
      inv_taxAmountCents = 0, inv_totalCents = 1000, inv_amountPaidCents = 300,
      inv_issueDate = Some 1700006400000, inv_dueDate = Some 1702598400000, inv_paidAt = None,
      inv_lateFeeCents = None, inv_notes = None, inv_publicToken = Some ''tok'', inv_deletedAt = None\<rparr>"

definition sample_payment :: payment_row where
  "sample_payment =
     \<lparr>pay_id = ''pay1'', pay_invoiceId = ''i1'', pay_method = Cash, pay_amountCents = 300,
      pay_currency = ''EUR'', pay_paidAt = 1700092800000, pay_reference = None,
      pay_stripePaymentIntentId = None, pay_notes = None, pay_deletedAt = None\<rparr>"

definition sample_db :: db where
  "sample_db =
     \<lparr>invoices = [sample_invoice], payments = [sample_payment], creditNotes = [], lineItems = [],
      settings = Some sample_settings,
      projects = [\<lparr>prj_id = ''p1'', prj_clientId = ''c1'', prj_name = ''Site'', prj_currency = None,
        prj_hourlyRateCents = None, prj_deletedAt = None\<rparr>],
      clients = [\<lparr>cli_id = ''c1'', cli_name = ''Acme'', cli_email = ''billing@acme.test'', cli_currency = None, cli_defaultHourlyRateCents = Some 6000, cli_deletedAt = None\<rparr>], taxRates = [],
      audit_log = [], events = [], jobs = []\<rparr>"

lemmas sample_defs = sample_db_def sample_invoice_def sample_payment_def sample_settings_def

lemma sample_books: "books_ok sample_db"
  by (simp add: sample_defs books_ok_def ids_ok_def aggregate_ok_def status_ok_def sumRecordedPayments_def
      sumCreditedCents_def money_simps live_payment_def settled_amounts_iff)

text \<open>
  Every write of money keeps the books: from a state where each aggregate is the sum of the live
  payments, within its total, and each issued invoice is \<open>paid\<close> exactly when settled, recording,
  charging by card, editing, restoring, deleting and settling a payment lead to such a state again.
\<close>

theorem payment_writes_keep_books:
  assumes "books_ok d" "newId \<notin> pay_id ` set (payments d)" "0 < pv_amountCents v" "0 < amount"
  shows "books_ok (snd (recordPaymentWrite newId invoiceId v d))
       \<and> books_ok (snd (recordStripePaymentWrite newId invoiceId amount currency paidAt intentId d))
       \<and> books_ok (snd (updatePaymentWrite paymentId v d))
       \<and> books_ok (snd (restorePaymentWrite paymentId now d))
       \<and> books_ok (snd (softDeletePaymentWrite paymentId now d))
       \<and> books_ok (snd (settleInvoiceWrite newId invoiceId method paidAt d))"
  by (intro conjI recordPaymentWrite_books recordStripePaymentWrite_books updatePaymentWrite_books
      restorePaymentWrite_books softDeletePaymentWrite_books settleInvoiceWrite_books assms)

definition sample_values :: payment_values where
  "sample_values = \<lparr>pv_method = Bank_transfer, pv_amountCents = 700, pv_paidAt = 1700179200000,
     pv_reference = None, pv_notes = None, pv_stripePaymentIntentId = None\<rparr>"

lemma payment_writes_keep_books_witness:
  "books_ok (snd (recordPaymentWrite ''pay2'' ''i1'' sample_values sample_db))
   \<and> books_ok (snd (softDeletePaymentWrite ''pay1'' 1700179200000 sample_db))"
proof -
  have "''pay2'' \<notin> pay_id ` set (payments sample_db)" "0 < pv_amountCents sample_values" "0 < (700::int)"
    by (simp_all add: sample_defs sample_values_def)
  from payment_writes_keep_books [OF sample_books this] show ?thesis by blast
qed

text \<open>
  Recording a payment stores what it reports: the aggregate grows by exactly the amount, the row
  holds the reported aggregate, its status is \<open>paid\<close> exactly when the write reports the invoice
  settled, a settled invoice has a payment date, and other invoices are untouched. A rejected write
  changes nothing.
\<close>

theorem recorded_payment_is_stored:
  assumes "books_ok d" "lockInvoice i d = Some old"
  shows "(\<forall>a. fst (recordPaymentWrite newId i v d) = Applied a \<longrightarrow>
            (\<exists>r. lockInvoice i (snd (recordPaymentWrite newId i v d)) = Some r
               \<and> ap_amountPaidCents a = inv_amountPaidCents old + pv_amountCents v
               \<and> inv_amountPaidCents r = ap_amountPaidCents a
               \<and> (inv_status r = Paid \<longleftrightarrow> ap_settled a) \<and> (inv_paidAt r \<noteq> None \<longleftrightarrow> ap_settled a)
               \<and> inv_totalCents r = inv_totalCents old)
            \<and> (\<forall>j. j \<noteq> i \<longrightarrow> lockInvoice j (snd (recordPaymentWrite newId i v d)) = lockInvoice j d))
       \<and> (\<forall>e. fst (recordPaymentWrite newId i v d) = Rejected_write e \<longrightarrow> snd (recordPaymentWrite newId i v d) = d)"
proof (intro conjI allI impI)
  let ?v = "v\<lparr>pv_stripePaymentIntentId := None\<rparr>"
  fix a assume "fst (recordPaymentWrite newId i v d) = Applied a"
  then have w: "recordPaymentWrite newId i v d = addPayment newId old ?v d" and issued: "inv_status old \<noteq> Draft"
    and a: "fst (addPayment newId old ?v d) = Applied a"
    using assms(2) by (auto simp: recordPaymentWrite_def split: if_splits)
  note add = addPayment_Applied [OF assms(2) a]
  show "\<exists>r. lockInvoice i (snd (recordPaymentWrite newId i v d)) = Some r
      \<and> ap_amountPaidCents a = inv_amountPaidCents old + pv_amountCents v
      \<and> inv_amountPaidCents r = ap_amountPaidCents a
      \<and> (inv_status r = Paid \<longleftrightarrow> ap_settled a) \<and> (inv_paidAt r \<noteq> None \<longleftrightarrow> ap_settled a)
      \<and> inv_totalCents r = inv_totalCents old"
    unfolding w add(1) using add(4,5) locked_paid [OF assms] resolved_status [OF issued]
    by (simp add: settled_row_def)
  fix j assume "j \<noteq> i"
  then show "lockInvoice j (snd (recordPaymentWrite newId i v d)) = lockInvoice j d"
    unfolding w using lockInvoice_id [OF assms(2)]
    by (auto simp: addPayment_def decideSettlement_def Let_def applyInvoiceAggregate_def lockInvoice_def find_id_put)
qed (rule rejected_writes_change_nothing)

lemma recorded_payment_is_stored_witness:
  "\<exists>r. lockInvoice ''i1'' (snd (recordPaymentWrite ''pay2'' ''i1'' sample_values sample_db)) = Some r
     \<and> inv_amountPaidCents r = 1000 \<and> inv_status r = Paid"
proof -
  have l: "lockInvoice ''i1'' sample_db = Some sample_invoice" by (simp add: lockInvoice_def sample_defs row_simps)
  have a: "fst (recordPaymentWrite ''pay2'' ''i1'' sample_values sample_db)
      = Applied \<lparr>ap_paymentId = ''pay2'', ap_invoiceId = ''i1'', ap_projectId = Some ''p1'',
          ap_clientId = Some ''c1'', ap_amountCents = 700, ap_amountPaidCents = 1000, ap_settled = True\<rparr>"
    by code_simp
  from recorded_payment_is_stored [OF sample_books l, of "''pay2''" sample_values] a show ?thesis by auto
qed





lemma softDelete_result:
  assumes "findPaymentInvoiceId k d = Some p" "lockInvoice (pay_invoiceId p) d = Some invoice"
  shows "\<exists>a s. softDeletePaymentWrite k t d = (Applied a,
      applyInvoiceAggregate invoice (ap_amountPaidCents a) s t
        (d\<lparr>payments := put_id pay_id k (\<lambda>p. p\<lparr>pay_deletedAt := Some t\<rparr>) (payments d)\<rparr>))"
  using assms lockInvoice_id [OF assms(2)]
  by (simp add: softDeletePaymentWrite_def decideSettlement_def Let_def toAppliedPayment_def) (rule exI, rule refl)

lemma restore_result:
  assumes p: "find_id pay_id k (payments d) = Some p" "pay_deletedAt p \<noteq> None"
    and lock: "lockInvoice (pay_invoiceId p) d = Some invoice"
    and room: "sumRecordedPayments (pay_invoiceId p) None d + pay_amountCents p \<le> inv_totalCents invoice"
  shows "\<exists>a s. restorePaymentWrite k t d = (Applied a,
      applyInvoiceAggregate invoice (sumRecordedPayments (pay_invoiceId p) None d + pay_amountCents p) s t
        (d\<lparr>payments := put_id pay_id k (\<lambda>p. p\<lparr>pay_deletedAt := None\<rparr>) (payments d)\<rparr>))"
proof -
  let ?o = "\<lparr>oi_totalCents = inv_totalCents invoice,
    oi_amountPaidCents = sumRecordedPayments (pay_invoiceId p) None d + pay_amountCents p,
    oi_creditedCents = sumCreditedCents (pay_invoiceId p) d\<rparr>"
  have "\<not> (\<exists>x. evaluateInvoiceSettlement ?o = Overpaid x)" using room overpaid_iff [of ?o] by simp
  moreover have "find_id inv_id (pay_invoiceId p) (invoices d) = Some invoice" "inv_deletedAt invoice = None"
    using lock by (simp_all add: lockInvoice_Some)
  ultimately show ?thesis using p lock lockInvoice_id [OF lock]
    by (simp add: restorePaymentWrite_def decideSettlement_def Let_def) (rule exI, rule refl)
qed

text \<open>
  Deleting a payment and restoring it brings the books back: the restore succeeds, the payments
  are those before the deletion, and the invoice has its aggregate and its status again.
\<close>

theorem delete_then_restore_payment:
  assumes ok: "books_ok d" and p: "findPaymentInvoiceId k d = Some p"
    and lock: "lockInvoice (pay_invoiceId p) d = Some old"
    and d1: "d1 = snd (softDeletePaymentWrite k t d)" and d2: "d2 = snd (restorePaymentWrite k t' d1)"
  shows "(\<exists>a. fst (restorePaymentWrite k t' d1) = Applied a) \<and> payments d2 = payments d
       \<and> (\<exists>r. lockInvoice (pay_invoiceId p) d2 = Some r \<and> inv_amountPaidCents r = inv_amountPaidCents old
            \<and> inv_totalCents r = inv_totalCents old \<and> inv_status r = inv_status old)"
proof -
  let ?i = "pay_invoiceId p" and ?g = "\<lambda>p. p\<lparr>pay_deletedAt := Some t\<rparr>" and ?h = "\<lambda>p. p\<lparr>pay_deletedAt := None\<rparr>"
  let ?del = "d\<lparr>payments := put_id pay_id k ?g (payments d)\<rparr>"
  have ids: "ids_ok d" using ok by (simp add: books_ok_def)
  have found: "find_id pay_id k (payments d) = Some p" "pay_deletedAt p = None" using p by (simp_all add: findPayment_Some)
  have mem: "p \<in> set (payments d)" using found(1) by (rule payment_table.lookup_in)
  have pos: "0 < pay_amountCents p" using ids mem by (auto simp: ids_ok_def)
  obtain a s where s: "softDeletePaymentWrite k t d = (Applied a, applyInvoiceAggregate old (ap_amountPaidCents a) s t ?del)"
    using softDelete_result [OF p lock] by blast
  then have d1': "d1 = applyInvoiceAggregate old (ap_amountPaidCents a) s t ?del" using d1 by simp
  have pays1: "payments d1 = put_id pay_id k ?g (payments d)" by (simp add: d1')
  have found1: "find_id pay_id k (payments d1) = Some (?g p)" using found(1) by (simp add: pays1 find_id_put)
  have lock1: "lockInvoice ?i d1 = Some (settled_row old (ap_amountPaidCents a) s t)"
    unfolding d1' by (rule lock_after_aggregate [OF lock]) simp
  have sum1: "sumRecordedPayments ?i None d1 + pay_amountCents p = inv_amountPaidCents old"
    using concerns_put_payment(2) [OF ids found(1) refl, of ?g] pos found(2) locked_paid [OF ok lock] by (simp add: d1')
  then have room: "sumRecordedPayments ?i None d1 + pay_amountCents (?g p)
      \<le> inv_totalCents (settled_row old (ap_amountPaidCents a) s t)"
    using locked_paid [OF ok lock] by (simp add: settled_row_def)
  obtain b u where r: "restorePaymentWrite k t' d1 = (Applied b, applyInvoiceAggregate
      (settled_row old (ap_amountPaidCents a) s t) (inv_amountPaidCents old) u t'
      (d1\<lparr>payments := put_id pay_id k ?h (payments d1)\<rparr>))"
    using restore_result [OF found1, of "settled_row old (ap_amountPaidCents a) s t" t'] lock1 room sum1 by auto
  have d2': "d2 = applyInvoiceAggregate (settled_row old (ap_amountPaidCents a) s t) (inv_amountPaidCents old) u t'
      (d1\<lparr>payments := put_id pay_id k ?h (payments d1)\<rparr>)" using d2 r by simp
  have dist: "distinct (map pay_id (payments d))" using ids by (simp add: ids_ok_def)
  have "payments d2 = put_id pay_id k (\<lambda>q. ?h (?g q)) (payments d)"
    by (simp add: d2' pays1 put_put)
  also have "\<dots> = payments d" by (rule put_same [OF dist found(1)]) (simp add: found(2))
  finally have pays2: "payments d2 = payments d" .
  let ?r = "settled_row (settled_row old (ap_amountPaidCents a) s t) (inv_amountPaidCents old) u t'"
  have lock2: "lockInvoice ?i d2 = Some ?r" unfolding d2' by (rule lock_after_aggregate [OF lock1]) simp
  have ok2: "books_ok d2" unfolding d2 d1 using ok softDeletePaymentWrite_books restorePaymentWrite_books by blast
  have cred: "sumCreditedCents ?i d2 = sumCreditedCents ?i d" by (simp add: d2' d1' sumCreditedCents_def)
  have issued: "inv_status old \<noteq> Draft" using issued_of_payment [OF ok lock mem] by simp
  have "status_ok d old" "status_ok d2 ?r" using locked_row(5) ok ok2 lock lock2 by blast+
  moreover have "inv_status ?r \<noteq> Draft" using issued resolved_status(1) by (simp add: settled_row_def)
  moreover have "inv_id ?r = ?i" "inv_id old = ?i" using lockInvoice_id lock lock2 by blast+
  ultimately have "inv_status ?r = Paid \<longleftrightarrow> inv_status old = Paid"
    using issued cred by (simp add: status_ok_def settled_row_def)
  then have "inv_status ?r = inv_status old"
    using issued \<open>inv_status ?r \<noteq> Draft\<close> by (cases "inv_status ?r"; cases "inv_status old") auto
  then show ?thesis using r pays2 lock2 by (simp add: settled_row_def)
qed

lemma delete_then_restore_payment_witness:
  "payments (snd (restorePaymentWrite ''pay1'' 1700265600000 (snd (softDeletePaymentWrite ''pay1'' 1700179200000 sample_db))))
     = [sample_payment]"
proof -
  have l: "lockInvoice (pay_invoiceId sample_payment) sample_db = Some sample_invoice"
    by (simp add: lockInvoice_def sample_defs row_simps)
  have p: "findPaymentInvoiceId ''pay1'' sample_db = Some sample_payment"
    by (simp add: findPaymentInvoiceId_def sample_defs row_simps)
  from delete_then_restore_payment [OF sample_books p l refl refl, of 1700265600000 1700179200000]
  show ?thesis by (simp add: sample_db_def)
qed

end
