(* ===== verification/PaymentActions.thy ===== *)
theory PaymentActions
  imports PaymentWrites Numbering
begin

text \<open>
  The ways a payment write is reached: the server actions of \<open>features/payments/mutations.ts\<close>, the
  Stripe receiver \<open>stripeWebhook.ts\<close> and the checkout producer \<open>stripeCheckout.ts\<close>. The result of the
  zod schema is an argument (\<open>Inl\<close> its first message), the Stripe SDK's signature check, its session
  creation and zod's uuid test are parameters. Cache revalidation and logging have no counterpart.
\<close>

section \<open>Messages\<close>

definition restore_blocked :: "string \<Rightarrow> message" where
  "restore_blocked parent = ''trash.errors.restoreBlocked '' @ parent"

fun toPaymentErrorMessage :: "rejection \<Rightarrow> message" where
  "toPaymentErrorMessage Invoice_deleted = restore_blocked ''trash.entities.invoice''"
| "toPaymentErrorMessage Invoice_not_found = ''payments.errors.invoiceNotFound''"
| "toPaymentErrorMessage Invoice_not_issued = ''payments.errors.invoiceNotIssued''"
| "toPaymentErrorMessage Currency_mismatch = ''payments.errors.currencyMismatch''"
| "toPaymentErrorMessage Overpaid_rejection = ''payments.errors.overpayment''"
| "toPaymentErrorMessage Payment_not_found = ''payments.errors.notFound''"
| "toPaymentErrorMessage Provider_owned = ''payments.errors.providerOwned''"
| "toPaymentErrorMessage Already_settled = ''payments.errors.alreadySettled''"

section \<open>Server actions\<close>

text \<open>What \<open>recordPaymentSchema\<close> and \<open>updatePaymentSchema\<close> parse: the amount is positive cents.\<close>

record payment_form =
  pf_subject :: ident
  pf_amount :: int
  pf_paidAt :: jsdate
  pf_method :: payment_method
  pf_reference :: string
  pf_notes :: string

definition form_values :: "payment_form \<Rightarrow> payment_values" where
  "form_values f =
     \<lparr>pv_method = pf_method f, pv_amountCents = pf_amount f, pv_paidAt = pf_paidAt f,
      pv_reference = emptyToNull (pf_reference f), pv_notes = emptyToNull (pf_notes f),
      pv_stripePaymentIntentId = None\<rparr>"

definition announce_settled :: "applied_payment \<Rightarrow> ident option \<Rightarrow> db \<Rightarrow> db" where
  "announce_settled p user d =
     (if ap_settled p then emit ''invoice.paid'' (ap_invoiceId p) user d else d)"

definition recordPayment :: "request \<Rightarrow> payment_form result \<Rightarrow> ident \<Rightarrow> db \<Rightarrow> ident result \<times> db" where
  "recordPayment req parsed newId d =
     (case requirePaymentWrite req of
        Inl e \<Rightarrow> (Inl e, d)
      | Inr actor \<Rightarrow>
          (case parsed of
             Inl m \<Rightarrow> (Inl m, d)
           | Inr f \<Rightarrow>
               (case recordPaymentWrite newId (pf_subject f) (form_values f) d of
                  (Rejected_write r, d1) \<Rightarrow> (Inl (toPaymentErrorMessage r), d1)
                | (Applied p, d1) \<Rightarrow>
                    let user = Some (actor_userId actor);
                        d2 = writeAudit ''payment.recorded'' user (Some (ap_paymentId p)) d1;
                        d3 = emit ''payment.received'' (ap_paymentId p) user d2;
                        d4 = announce_settled p user d3;
                        d5 = (if ap_settled p
                              then enqueueJob ''invoice.pdf.render'' (ap_invoiceId p) (Some ''receipt'') d4
                              else d4)
                    in (Inr (ap_paymentId p), d5))))"

definition updatePayment :: "request \<Rightarrow> payment_form result \<Rightarrow> db \<Rightarrow> ident result \<times> db" where
  "updatePayment req parsed d =
     (case requirePaymentWrite req of
        Inl e \<Rightarrow> (Inl e, d)
      | Inr actor \<Rightarrow>
          (case parsed of
             Inl m \<Rightarrow> (Inl m, d)
           | Inr f \<Rightarrow>
               (case updatePaymentWrite (pf_subject f) (form_values f) d of
                  (Rejected_write r, d1) \<Rightarrow> (Inl (toPaymentErrorMessage r), d1)
                | (Applied p, d1) \<Rightarrow>
                    let user = Some (actor_userId actor);
                        d2 = writeAudit ''payment.updated'' user (Some (ap_paymentId p)) d1
                    in (Inr (ap_paymentId p), announce_settled p user d2))))"

definition restorePayment :: "request \<Rightarrow> ident result \<Rightarrow> jsdate \<Rightarrow> db \<Rightarrow> ident result \<times> db" where
  "restorePayment req parsed now d =
     (case requirePaymentDelete req of
        Inl e \<Rightarrow> (Inl e, d)
      | Inr actor \<Rightarrow>
          (case parsed of
             Inl m \<Rightarrow> (Inl m, d)
           | Inr k \<Rightarrow>
               (case restorePaymentWrite k now d of
                  (Rejected_write r, d1) \<Rightarrow> (Inl (toPaymentErrorMessage r), d1)
                | (Applied p, d1) \<Rightarrow>
                    (Inr (ap_paymentId p),
                     writeAudit ''payment.restored'' (Some (actor_userId actor)) (Some (ap_paymentId p)) d1))))"

definition softDeletePayment :: "request \<Rightarrow> ident result \<Rightarrow> jsdate \<Rightarrow> db \<Rightarrow> ident result \<times> db" where
  "softDeletePayment req parsed now d =
     (case requirePaymentDelete req of
        Inl e \<Rightarrow> (Inl e, d)
      | Inr actor \<Rightarrow>
          (case parsed of
             Inl m \<Rightarrow> (Inl m, d)
           | Inr k \<Rightarrow>
               (case softDeletePaymentWrite k now d of
                  (Rejected_write r, d1) \<Rightarrow> (Inl (toPaymentErrorMessage r), d1)
                | (Applied p, d1) \<Rightarrow>
                    (Inr (ap_paymentId p),
                     writeAudit ''payment.deleted'' (Some (actor_userId actor)) (Some (ap_paymentId p)) d1))))"

definition recordInvoiceSettlement :: "ident \<Rightarrow> actor \<Rightarrow> ident \<Rightarrow> jsdate \<Rightarrow> db \<Rightarrow> (ident \<times> bool) result \<times> db" where
  "recordInvoiceSettlement invoiceId actor newId now d =
     (case settleInvoiceWrite newId invoiceId Other now d of
        (Rejected_write r, d1) \<Rightarrow> (Inl (toPaymentErrorMessage r), d1)
      | (Applied p, d1) \<Rightarrow>
          let user = Some (actor_userId actor);
              d2 = writeAudit ''payment.recorded'' user (Some (ap_paymentId p)) d1
          in (Inr (ap_paymentId p, ap_settled p), emit ''payment.received'' (ap_paymentId p) user d2))"

section \<open>The Stripe receiver\<close>

record stripe_intent =
  si_id :: string
  si_amount_received :: int
  si_currency :: string
  si_created :: int
  si_remit_invoice_id :: "string option"

record stripe_event =
  se_type :: string
  se_object :: stripe_intent

record webhook_request =
  wr_payload :: string
  wr_signature :: "string option"

datatype webhook_outcome =
    Recorded ident ident bool
  | Duplicate_delivery ident
  | Ignored string
  | Rejected_delivery rejection

datatype webhook_failure = Webhook_not_configured | Invalid_signature

definition js_upper :: "string \<Rightarrow> string" where
  "js_upper = map (\<lambda>c. let n = of_char c :: nat in if 97 \<le> n \<and> n \<le> 122 then char_of (n - 32) else c)"

definition getStripeConfiguration :: "db \<Rightarrow> (string \<times> string) option" where
  "getStripeConfiguration d =
     (case settings d of
        None \<Rightarrow> None
      | Some s \<Rightarrow>
          (case (set_stripeSecretKey s, set_stripeWebhookSecret s) of
             (Some key, Some secret) \<Rightarrow> if key = [] \<or> secret = [] then None else Some (key, secret)
           | _ \<Rightarrow> None))"

text \<open>\<open>stripePaymentIntentSchema\<close>: the parsed intent with the invoice id it links to.\<close>

definition stripePaymentIntentSchema :: "(string \<Rightarrow> bool) \<Rightarrow> stripe_intent \<Rightarrow> (stripe_intent \<times> ident) option" where
  "stripePaymentIntentSchema isUuid o' =
     (let i = o'\<lparr>si_id := js_trim (si_id o'), si_currency := js_trim (si_currency o')\<rparr>
      in case si_remit_invoice_id i of
           None \<Rightarrow> None
         | Some invId \<Rightarrow>
             if 1 \<le> length (si_id i) \<and> 0 < si_amount_received i \<and> length (si_currency i) = 3
                \<and> 0 < si_created i \<and> isUuid invId
             then Some (i, invId) else None)"

definition handleStripeWebhook ::
  "(string \<Rightarrow> string \<Rightarrow> string \<Rightarrow> stripe_event option) \<Rightarrow> (string \<Rightarrow> bool) \<Rightarrow> webhook_request \<Rightarrow> ident \<Rightarrow> db
    \<Rightarrow> (webhook_failure + webhook_outcome) \<times> db" where
  "handleStripeWebhook verify isUuid req newId d =
     (case wr_signature req of
        None \<Rightarrow> (Inl Invalid_signature, d)
      | Some signature \<Rightarrow>
          if signature = [] then (Inl Invalid_signature, d)
          else (case getStripeConfiguration d of
             None \<Rightarrow> (Inl Webhook_not_configured, d)
           | Some (key, secret) \<Rightarrow>
               (case verify (wr_payload req) signature secret of
                  None \<Rightarrow> (Inl Invalid_signature, writeAudit ''payment.stripe.signature_rejected'' None None d)
                | Some event \<Rightarrow>
                    if se_type event \<noteq> ''payment_intent.succeeded''
                    then (Inr (Ignored ''unhandled_event''), d)
                    else (case stripePaymentIntentSchema isUuid (se_object event) of
                       None \<Rightarrow> (Inr (Ignored ''unlinked_intent''), d)
                     | Some (i, invId) \<Rightarrow>
                         (case recordStripePaymentWrite newId invId (si_amount_received i)
                                 (js_upper (si_currency i)) (si_created i * 1000) (si_id i) d of
                            (Duplicate k, d1) \<Rightarrow> (Inr (Duplicate_delivery k), d1)
                          | (Written (Rejected_write r), d1) \<Rightarrow>
                              (Inr (Rejected_delivery r), writeAudit ''payment.stripe.rejected'' None (Some invId) d1)
                          | (Written (Applied p), d1) \<Rightarrow>
                              let d2 = writeAudit ''payment.stripe.recorded'' None (Some (ap_paymentId p)) d1;
                                  d3 = emit ''payment.received'' (ap_paymentId p) None d2
                              in (Inr (Recorded (ap_paymentId p) (ap_invoiceId p) (ap_settled p)),
                                  announce_settled p None d3))))))"

section \<open>Starting a checkout\<close>

record checkout_target =
  ct_id :: ident
  ct_number :: string
  ct_status :: invoice_status
  ct_currency :: string
  ct_amounts :: outstanding_input

record checkout_session_input =
  cs_secretKey :: string
  cs_token :: string
  cs_currency :: string
  cs_itemNumber :: string
  cs_unit_amount :: int
  cs_remit_invoice_id :: ident
  cs_idempotencyKey :: string

definition buildInvoiceCheckoutIdempotencyKey :: "ident \<Rightarrow> int \<Rightarrow> string" where
  "buildInvoiceCheckoutIdempotencyKey invoiceId amount =
     ''remit_invoice_checkout_'' @ invoiceId @ ''_'' @ js_int_string amount"

definition js_lower :: "string \<Rightarrow> string" where
  "js_lower = map (\<lambda>c. let n = of_char c :: nat in if (65 \<le> n \<and> n \<le> 90) \<or> (192 \<le> n \<and> n \<le> 222 \<and> n \<noteq> 215) then char_of (n + 32) else c)"

definition createCheckoutSession ::
  "(checkout_session_input \<Rightarrow> (string \<times> string option) option) \<Rightarrow> string \<Rightarrow> string \<Rightarrow> checkout_target \<Rightarrow> int
    \<Rightarrow> (string \<times> string) option" where
  "createCheckoutSession stripe secretKey token invoice amount =
     (case stripe \<lparr>cs_secretKey = secretKey, cs_token = token, cs_currency = js_lower (ct_currency invoice),
                   cs_itemNumber = ct_number invoice, cs_unit_amount = amount, cs_remit_invoice_id = ct_id invoice,
                   cs_idempotencyKey = buildInvoiceCheckoutIdempotencyKey (ct_id invoice) amount\<rparr> of
        Some (sid, Some url) \<Rightarrow> if url = [] then None else Some (sid, url)
      | _ \<Rightarrow> None)"

definition startInvoiceCheckout ::
  "(checkout_session_input \<Rightarrow> (string \<times> string option) option) \<Rightarrow> checkout_target \<Rightarrow> string \<Rightarrow> db
    \<Rightarrow> string result \<times> db" where
  "startInvoiceCheckout stripe invoice token d =
     (let configuration = getStripeConfiguration d;
          decision = decideInvoiceCheckout (ct_status invoice) (ct_amounts invoice) (configuration \<noteq> None)
      in case (decision, configuration) of
           (Payable amount, Some (key, secret)) \<Rightarrow>
             (case createCheckoutSession stripe key token invoice amount of
                None \<Rightarrow> (Inl ''invoices.public.payment.startFailed'', d)
              | Some (sid, url) \<Rightarrow>
                  (Inr url, writeAudit ''payment.stripe.checkout_started'' None (Some (ct_id invoice)) d))
         | _ \<Rightarrow> (Inl ''invoices.public.payment.unavailable'', d))"

section \<open>Lemmas\<close>

lemma write_logs [simp]:
  "events (snd (addPayment n invoice v d)) = events d" "jobs (snd (addPayment n invoice v d)) = jobs d"
  "audit_log (snd (addPayment n invoice v d)) = audit_log d"
  "settings (snd (addPayment n invoice v d)) = settings d"
  by (simp_all add: addPayment_def Let_def applyInvoiceAggregate_def split: prod.splits)

lemma recordPaymentWrite_logs [simp]:
  "events (snd (recordPaymentWrite n i v d)) = events d" "jobs (snd (recordPaymentWrite n i v d)) = jobs d"
  "audit_log (snd (recordPaymentWrite n i v d)) = audit_log d"
  by (simp_all add: recordPaymentWrite_def split: option.splits)

lemma stripeWrite_settings [simp]:
  "settings (snd (recordStripePaymentWrite n i a c t k d)) = settings d"
  by (simp add: recordStripePaymentWrite_def apfst_def map_prod_def split: option.splits prod.splits)
    (metis snd_conv write_logs(4))

lemma books_announce [simp]: "books_ok (announce_settled p user d) = books_ok d"
  by (simp add: announce_settled_def)

lemma getStripeConfiguration_cong: "settings d' = settings d \<Longrightarrow> getStripeConfiguration d' = getStripeConfiguration d"
  by (simp add: getStripeConfiguration_def)

lemma announce_tables [simp]:
  "invoices (announce_settled p user d) = invoices d" "payments (announce_settled p user d) = payments d"
  "creditNotes (announce_settled p user d) = creditNotes d" "settings (announce_settled p user d) = settings d"
  by (simp_all add: announce_settled_def)

lemma stripe_write_cong:
  "invoices d' = invoices d \<Longrightarrow> payments d' = payments d \<Longrightarrow> creditNotes d' = creditNotes d \<Longrightarrow>
    fst (recordStripePaymentWrite n i a c t k d) = Duplicate p \<Longrightarrow>
    recordStripePaymentWrite n i a c t k d' = (Duplicate p, d')"
  by (auto simp: recordStripePaymentWrite_def lockInvoice_def apfst_def map_prod_def
      split: option.splits if_splits prod.splits)

subsection \<open>The actions keep the books\<close>

lemma recordPayment_books:
  assumes "books_ok d" "newId \<notin> pay_id ` set (payments d)" "\<And>f. parsed = Inr f \<Longrightarrow> 0 < pf_amount f"
  shows "books_ok (snd (recordPayment req parsed newId d))"
  using assms recordPaymentWrite_books [OF assms(1,2)]
  by (auto simp: recordPayment_def Let_def form_values_def split: sum.splits prod.splits write_result.splits)
    (metis snd_conv payment_values.select_convs(2))+

lemma updatePayment_books:
  assumes "books_ok d" "\<And>f. parsed = Inr f \<Longrightarrow> 0 < pf_amount f"
  shows "books_ok (snd (updatePayment req parsed d))"
  using assms updatePaymentWrite_books [OF assms(1)]
  by (auto simp: updatePayment_def Let_def form_values_def split: sum.splits prod.splits write_result.splits)
    (metis snd_conv payment_values.select_convs(2))+

lemma restorePayment_books: "books_ok d \<Longrightarrow> books_ok (snd (restorePayment req parsed now d))"
  using restorePaymentWrite_books [of d]
  by (auto simp: restorePayment_def split: sum.splits prod.splits write_result.splits) (metis snd_conv)+

lemma softDeletePayment_books: "books_ok d \<Longrightarrow> books_ok (snd (softDeletePayment req parsed now d))"
  using softDeletePaymentWrite_books [of d]
  by (auto simp: softDeletePayment_def split: sum.splits prod.splits write_result.splits) (metis snd_conv)+

lemma recordInvoiceSettlement_books:
  "books_ok d \<Longrightarrow> newId \<notin> pay_id ` set (payments d) \<Longrightarrow> books_ok (snd (recordInvoiceSettlement i actor newId now d))"
  using settleInvoiceWrite_books [of d newId]
  by (auto simp: recordInvoiceSettlement_def Let_def split: sum.splits prod.splits write_result.splits) (metis snd_conv)+

lemma webhook_intent_positive: "stripePaymentIntentSchema isUuid obj = Some (i, invId) \<Longrightarrow> 0 < si_amount_received i"
  by (auto simp: stripePaymentIntentSchema_def Let_def split: option.splits if_splits)

lemma handleStripeWebhook_books:
  assumes "books_ok d" "newId \<notin> pay_id ` set (payments d)"
  shows "books_ok (snd (handleStripeWebhook verify isUuid req newId d))"
  using assms recordStripePaymentWrite_books [OF assms] webhook_intent_positive
  by (auto simp: handleStripeWebhook_def Let_def
      split: option.splits prod.splits stripe_write_result.splits write_result.splits) (metis snd_conv)+

subsection \<open>The idempotency key\<close>

lemma nat_digits_no_underscore: "CHR ''_'' \<notin> set (nat_digits n)"
proof (induction n rule: nat_digits.induct)
  case (1 n)
  have d: "CHR ''_'' \<noteq> (char_of (48 + k) :: char)" if "k < 10" for k :: nat
  proof
    assume "CHR ''_'' = (char_of (48 + k) :: char)"
    then have "(of_char (CHR ''_'') :: nat) = of_char (char_of (48 + k) :: char)" by simp
    with that show False by (simp add: of_char_of)
  qed
  show ?case using 1 d [of n] d [of "n mod 10"] by (subst nat_digits.simps) auto
qed

lemma split_last_separator:
  "c \<notin> set u \<Longrightarrow> c \<notin> set v \<Longrightarrow> s @ c # u = t @ c # v \<Longrightarrow> s = t \<and> u = v"
proof (induction s arbitrary: t)
  case Nil
  then show ?case by (cases t) auto
next
  case (Cons x s)
  then show ?case by (cases t) auto
qed

lemma idempotency_key_injective:
  "buildInvoiceCheckoutIdempotencyKey i a = buildInvoiceCheckoutIdempotencyKey j b \<longleftrightarrow> i = j \<and> a = b"
proof
  assume "buildInvoiceCheckoutIdempotencyKey i a = buildInvoiceCheckoutIdempotencyKey j b"
  then have eq: "i @ CHR ''_'' # js_int_string a = j @ CHR ''_'' # js_int_string b"
    by (simp add: buildInvoiceCheckoutIdempotencyKey_def)
  have no: "CHR ''_'' \<notin> set (js_int_string k)" for k
    using nat_digits_no_underscore by (simp add: js_int_string_def)
  have "i = j" and s: "js_int_string a = js_int_string b" using split_last_separator [OF no no eq] by auto
  have first: "hd (nat_digits n) \<noteq> CHR ''-'' \<and> nat_digits n \<noteq> []" for n
  proof (induction n rule: nat_digits.induct)
    case (1 n)
    have d: "(char_of (48 + k) :: char) \<noteq> CHR ''-''" if "k < 10" for k :: nat
    proof
      assume "(char_of (48 + k) :: char) = CHR ''-''"
      then have "(of_char (char_of (48 + k) :: char) :: nat) = of_char (CHR ''-'')" by simp
      with that show False by (simp add: of_char_of)
    qed
    show ?case using 1 d [of n] by (subst (1 2) nat_digits.simps) auto
  qed
  have "a = b"
  proof (cases "a < 0 \<longleftrightarrow> b < 0")
    case True
    then have "nat_digits (nat \<bar>a\<bar>) = nat_digits (nat \<bar>b\<bar>)" using s by (auto simp: js_int_string_def split: if_splits)
    then have "nat \<bar>a\<bar> = nat \<bar>b\<bar>" by (metis digits_value_nat)
    with True show ?thesis by auto
  next
    case False
    then show ?thesis using s first by (auto simp: js_int_string_def split: if_splits) (metis list.sel(1))+
  qed
  with \<open>i = j\<close> show "i = j \<and> a = b" by simp
qed simp

subsection \<open>What an action adds to the audit\<close>

lemma write_audit_logs [simp]:
  "audit_log (snd (updatePaymentWrite k v d)) = audit_log d"
  "audit_log (snd (restorePaymentWrite k now d)) = audit_log d"
  "audit_log (snd (softDeletePaymentWrite k now d)) = audit_log d"
  by (simp_all add: updatePaymentWrite_def restorePaymentWrite_def softDeletePaymentWrite_def Let_def
      applyInvoiceAggregate_def split: option.splits prod.splits)

lemma audit_of_actions:
  assumes "d' \<in> {snd (recordPayment req f newId d), snd (updatePayment req f d),
              snd (softDeletePayment req k now d), snd (restorePayment req k now d)}"
  shows "audit_log d' = audit_log d \<or> (\<exists>a u r. audit_log d' = audit_log d @ [a] \<and> signed_in_as req u r \<and> aud_actor a = Some u)"
proof -
  note logs = recordPaymentWrite_logs(3) write_audit_logs
  have wr: "requirePaymentWrite req = Inr a \<Longrightarrow> signed_in_as req (actor_userId a) (actor_role a)" for a
    by (rule payment_write.pass_actor)
  have del: "requirePaymentDelete req = Inr a \<Longrightarrow> signed_in_as req (actor_userId a) (actor_role a)" for a
    by (rule payment_delete.pass_actor)
  consider "d' = snd (recordPayment req f newId d)" | "d' = snd (updatePayment req f d)"
    | "d' = snd (softDeletePayment req k now d)" | "d' = snd (restorePayment req k now d)" using assms by blast
  then show ?thesis
  proof cases
    case 1
    have *: "recordPaymentWrite n i v d = (x, e) \<Longrightarrow> audit_log e = audit_log d" for n i v x e
      using logs(1) [of n i v d] by simp
    show ?thesis unfolding 1
      by (auto simp: recordPayment_def Let_def writeAudit_def emit_def enqueueJob_def announce_settled_def dest: * wr
          split: sum.splits prod.splits write_result.splits)
  next
    case 2
    have *: "updatePaymentWrite i v d = (x, e) \<Longrightarrow> audit_log e = audit_log d" for i v x e
      using logs(2) [of i v d] by simp
    show ?thesis unfolding 2
      by (auto simp: updatePayment_def Let_def writeAudit_def emit_def announce_settled_def dest: * wr
          split: sum.splits prod.splits write_result.splits)
  next
    case 3
    have *: "softDeletePaymentWrite i now d = (x, e) \<Longrightarrow> audit_log e = audit_log d" for i x e
      using logs(4) [of i now d] by simp
    show ?thesis unfolding 3
      by (auto simp: softDeletePayment_def writeAudit_def dest: * del split: sum.splits prod.splits write_result.splits)
  next
    case 4
    have *: "restorePaymentWrite i now d = (x, e) \<Longrightarrow> audit_log e = audit_log d" for i x e
      using logs(3) [of i now d] by simp
    show ?thesis unfolding 4
      by (auto simp: restorePayment_def writeAudit_def dest: * del split: sum.splits prod.splits write_result.splits)
  qed
qed

subsection \<open>What a delivery writes\<close>

lemma stripe_write_added:
  assumes "recordStripePaymentWrite newId i amount cur t intent d = (Written (Applied a), d1)"
  shows "creditNotes d1 = creditNotes d \<and> settings d1 = settings d \<and> ap_paymentId a = newId \<and> ap_invoiceId a = i
    \<and> (\<exists>p. payments d1 = payments d @ [p] \<and> pay_id p = newId \<and> pay_invoiceId p = i \<and> pay_method p = Stripe
         \<and> pay_amountCents p = amount \<and> pay_currency p = cur \<and> pay_stripePaymentIntentId p = Some intent)"
  using assms
  by (auto simp: recordStripePaymentWrite_def apfst_def map_prod_def addPayment_def decideSettlement_def Let_def
      add_row_def toAppliedPayment_def applyInvoiceAggregate_def dest: lockInvoice_id
      split: option.splits if_splits prod.splits)

lemma stripe_write_unchanged:
  "recordStripePaymentWrite newId i amount cur t intent d = (Written (Rejected_write r), d1) \<Longrightarrow> d1 = d"
  "recordStripePaymentWrite newId i amount cur t intent d = (Duplicate k, d1) \<Longrightarrow> d1 = d"
  by (auto simp: recordStripePaymentWrite_def apfst_def map_prod_def addPayment_def Let_def
      split: option.splits if_splits prod.splits)

lemma recorded_delivery:
  assumes "handleStripeWebhook verify isUuid req newId d = (Inr (Recorded k invId s), d1)"
  shows "\<exists>signature key secret event i p d0.
    wr_signature req = Some signature \<and> signature \<noteq> [] \<and> getStripeConfiguration d = Some (key, secret)
    \<and> verify (wr_payload req) signature secret = Some event \<and> se_type event = ''payment_intent.succeeded''
    \<and> stripePaymentIntentSchema isUuid (se_object event) = Some (i, invId)
    \<and> recordStripePaymentWrite newId invId (si_amount_received i) (js_upper (si_currency i)) (si_created i * 1000) (si_id i) d
        = (Written (Applied p), d0)
    \<and> invoices d1 = invoices d0 \<and> payments d1 = payments d0 \<and> creditNotes d1 = creditNotes d0
    \<and> settings d1 = settings d0 \<and> k = newId"
  by (insert assms)
    (auto simp: handleStripeWebhook_def Let_def
      split: option.splits prod.splits stripe_write_result.splits write_result.splits if_splits;
      frule stripe_write_added; auto)

section \<open>Properties\<close>

text \<open>
  A payment action runs only for a role that may: without a session, or under a role the gate does
  not allow (owner and accountant to record or edit, owner alone to delete or restore), every action
  answers an error and changes nothing at all; and whatever it writes, each audit entry it adds names a
  user signed in under the request.
\<close>

theorem payment_actions_need_a_role:
  "(\<not> (\<exists>u. \<exists>r\<in>{Owner, Accountant}. signed_in_as req u r) \<longrightarrow>
      (\<exists>e. recordPayment req f newId d = (Inl e, d)) \<and> (\<exists>e. updatePayment req f d = (Inl e, d)))
   \<and> (\<not> (\<exists>u. \<exists>r\<in>{Owner}. signed_in_as req u r) \<longrightarrow>
      (\<exists>e. softDeletePayment req k now d = (Inl e, d)) \<and> (\<exists>e. restorePayment req k now d = (Inl e, d)))
   \<and> (\<forall>d'\<in>{snd (recordPayment req f newId d), snd (updatePayment req f d),
           snd (softDeletePayment req k now d), snd (restorePayment req k now d)}.
        \<forall>a\<in>set (audit_log d'). a \<in> set (audit_log d) \<or> (\<exists>u r. signed_in_as req u r \<and> aud_actor a = Some u))"
proof (intro conjI impI ballI)
  assume "\<not> (\<exists>u. \<exists>r\<in>{Owner, Accountant}. signed_in_as req u r)"
  then obtain e where "requirePaymentWrite req = Inl e" using payment_write.refused by blast
  then show "\<exists>e. recordPayment req f newId d = (Inl e, d)" "\<exists>e. updatePayment req f d = (Inl e, d)"
    by (simp_all add: recordPayment_def updatePayment_def)
next
  assume "\<not> (\<exists>u. \<exists>r\<in>{Owner}. signed_in_as req u r)"
  then obtain e where "requirePaymentDelete req = Inl e" using payment_delete.refused by blast
  then show "\<exists>e. softDeletePayment req k now d = (Inl e, d)" "\<exists>e. restorePayment req k now d = (Inl e, d)"
    by (simp_all add: softDeletePayment_def restorePayment_def)
next
  fix d' a
  assume d': "d' \<in> {snd (recordPayment req f newId d), snd (updatePayment req f d),
      snd (softDeletePayment req k now d), snd (restorePayment req k now d)}" and a: "a \<in> set (audit_log d')"
  show "a \<in> set (audit_log d) \<or> (\<exists>u r. signed_in_as req u r \<and> aud_actor a = Some u)"
    using audit_of_actions [OF d'] a by auto
qed

definition owner_request :: request where
  "owner_request = \<lparr>req_session = Some ''u1'', req_currentRole = Some ''owner'', req_ipAddress = None,
     req_userAgent = None\<rparr>"

definition sample_form :: payment_form where
  "sample_form = \<lparr>pf_subject = ''i1'', pf_amount = 700, pf_paidAt = 1700179200000, pf_method = Bank_transfer,
     pf_reference = [], pf_notes = []\<rparr>"

lemma payment_actions_need_a_role_witness:
  "recordPayment (owner_request\<lparr>req_currentRole := Some ''assistant''\<rparr>) (Inr sample_form) ''pay2'' sample_db
     = (Inl ''errors.forbidden'', sample_db)
   \<and> (\<exists>e. recordPayment (owner_request\<lparr>req_currentRole := Some ''assistant''\<rparr>) (Inr sample_form) ''pay2'' sample_db
           = (Inl e, sample_db))"
proof
  show "recordPayment (owner_request\<lparr>req_currentRole := Some ''assistant''\<rparr>) (Inr sample_form) ''pay2'' sample_db
     = (Inl ''errors.forbidden'', sample_db)"
    by (simp add: recordPayment_def owner_request_def requirePaymentWrite_def require_role_def getActionContext_def)
  have "\<not> (\<exists>u. \<exists>r\<in>{Owner, Accountant}. signed_in_as (owner_request\<lparr>req_currentRole := Some ''assistant''\<rparr>) u r)"
    by (simp add: signed_in_as_def owner_request_def)
  then show "\<exists>e. recordPayment (owner_request\<lparr>req_currentRole := Some ''assistant''\<rparr>) (Inr sample_form) ''pay2'' sample_db
      = (Inl e, sample_db)"
    using payment_actions_need_a_role by blast
qed

text \<open>
  Recording a payment announces what happened: a recorded payment is announced once as received,
  and \<open>invoice.paid\<close> is announced and a receipt queued exactly when the invoice it paid is \<open>paid\<close>
  afterwards; a refused recording announces and queues nothing.
\<close>

theorem recorded_payment_announces_settlement:
  assumes "books_ok d" "newId \<notin> pay_id ` set (payments d)"
    and "recordPayment req (Inr f) newId d = (r, d1)"
  shows "case r of
      Inl e \<Rightarrow> events d1 = events d \<and> jobs d1 = jobs d
    | Inr k \<Rightarrow> k = newId
        \<and> (\<exists>row user. find_id inv_id (pf_subject f) (invoices d1) = Some row
            \<and> events d1 = events d
                @ [\<lparr>evt_name = ''payment.received'', evt_subject = newId, evt_user = Some user\<rparr>]
                @ (if inv_status row = Paid
                   then [\<lparr>evt_name = ''invoice.paid'', evt_subject = inv_id row, evt_user = Some user\<rparr>] else [])
            \<and> jobs d1 = jobs d
                @ (if inv_status row = Paid
                   then [\<lparr>job_name = ''invoice.pdf.render'', job_subject = inv_id row,
                          job_detail = Some ''receipt''\<rparr>] else []))"
proof (cases r)
  case (Inl e)
  have *: "recordPaymentWrite n i v d = (x, e') \<Longrightarrow> events e' = events d \<and> jobs e' = jobs d" for n i v x e'
    using recordPaymentWrite_logs(1,2) [of n i v d] by simp
  show ?thesis using assms(3) Inl
    by (auto simp: recordPayment_def Let_def dest: * split: sum.splits prod.splits write_result.splits)
next
  case (Inr k)
  then obtain a p d0 where a: "requirePaymentWrite req = Inr a"
    and w: "recordPaymentWrite newId (pf_subject f) (form_values f) d = (Applied p, d0)"
    using assms(3) by (auto simp: recordPayment_def Let_def split: sum.splits prod.splits write_result.splits)
  obtain old where lock: "lockInvoice (pf_subject f) d = Some old" and issued: "inv_status old \<noteq> Draft"
    and add: "addPayment newId old (form_values f) d = (Applied p, d0)"
    using w by (auto simp: recordPaymentWrite_def form_values_def split: option.splits if_splits)
  have ap: "fst (addPayment newId old (form_values f) d) = Applied p" "snd (addPayment newId old (form_values f) d) = d0"
    using add by simp_all
  note facts = addPayment_Applied [OF lock ap(1)]
  obtain row where row: "find_id inv_id (pf_subject f) (invoices d0) = Some row"
    and st: "inv_status row = Paid \<longleftrightarrow> ap_settled p" and rid: "inv_id row = pf_subject f"
    using facts(1,5) ap(2) resolved_status(2) [OF issued] lockInvoice_id [OF lock]
    by (auto simp: lockInvoice_Some settled_row_def)
  have p: "ap_paymentId p = newId" "ap_invoiceId p = pf_subject f"
    using add facts(2) by (auto simp: addPayment_def decideSettlement_def Let_def toAppliedPayment_def split: if_splits)
  have logs: "events d0 = events d" "jobs d0 = jobs d"
    using recordPaymentWrite_logs(1,2) [of newId "pf_subject f" "form_values f" d] w by simp_all
  have d1: "k = newId" "invoices d1 = invoices d0"
    "events d1 = events d @ [\<lparr>evt_name = ''payment.received'', evt_subject = newId, evt_user = Some (actor_userId a)\<rparr>]
       @ (if ap_settled p then [\<lparr>evt_name = ''invoice.paid'', evt_subject = pf_subject f, evt_user = Some (actor_userId a)\<rparr>] else [])"
    "jobs d1 = jobs d @ (if ap_settled p then [\<lparr>job_name = ''invoice.pdf.render'', job_subject = pf_subject f,
                          job_detail = Some ''receipt''\<rparr>] else [])"
    using assms(3) Inr a w p logs
    by (auto simp: recordPayment_def Let_def announce_settled_def writeAudit_def emit_def enqueueJob_def split: if_splits)
  have "find_id inv_id (pf_subject f) (invoices d1) = Some row" using row d1(2) by simp
  with d1 st rid Inr show ?thesis by (auto intro!: exI [of _ row] exI [of _ "actor_userId a"])
qed

lemma recorded_payment_announces_settlement_witness:
  "fst (recordPayment owner_request (Inr sample_form) ''pay2'' sample_db) = Inr ''pay2''
   \<and> (\<exists>(row :: invoice_row) user. events (snd (recordPayment owner_request (Inr sample_form) ''pay2'' sample_db))
       = [\<lparr>evt_name = ''payment.received'', evt_subject = ''pay2'', evt_user = Some user\<rparr>]
         @ (if inv_status row = Paid
            then [\<lparr>evt_name = ''invoice.paid'', evt_subject = inv_id row, evt_user = Some user\<rparr>] else []))"
proof -
  have r: "fst (recordPayment owner_request (Inr sample_form) ''pay2'' sample_db) = Inr ''pay2''" by code_simp
  have fresh: "''pay2'' \<notin> pay_id ` set (payments sample_db)" and ev: "events sample_db = []"
    by (simp_all add: sample_defs)
  have "recordPayment owner_request (Inr sample_form) ''pay2'' sample_db
      = (Inr ''pay2'', snd (recordPayment owner_request (Inr sample_form) ''pay2'' sample_db))"
    using r by (metis prod.collapse)
  from recorded_payment_announces_settlement [OF sample_books fresh this, unfolded sum.case]
  obtain row :: invoice_row and user where "events (snd (recordPayment owner_request (Inr sample_form) ''pay2'' sample_db))
      = events sample_db @ [\<lparr>evt_name = ''payment.received'', evt_subject = ''pay2'', evt_user = Some user\<rparr>]
         @ (if inv_status row = Paid
            then [\<lparr>evt_name = ''invoice.paid'', evt_subject = inv_id row, evt_user = Some user\<rparr>] else [])"
    by blast
  with r ev show ?thesis by (intro conjI exI [of _ row] exI [of _ user]) simp_all
qed

text \<open>
  C16. Only a signed delivery moves money: handling a webhook leaves invoices, payments, credit notes
  and settings as they are unless the payload's signature verified under the configured secret, the
  event is a succeeded payment intent that names an invoice and the write was recorded; then exactly one
  Stripe payment of the received amount was added, under that intent's id, to that invoice.
\<close>

theorem webhook_trusts_only_signatures:
  "case handleStripeWebhook verify isUuid req newId d of (r, d1) \<Rightarrow>
    (invoices d1 = invoices d \<and> payments d1 = payments d \<and> creditNotes d1 = creditNotes d \<and> settings d1 = settings d)
    \<or> (\<exists>signature key secret event i invId settled p.
        wr_signature req = Some signature \<and> getStripeConfiguration d = Some (key, secret)
        \<and> verify (wr_payload req) signature secret = Some event
        \<and> se_type event = ''payment_intent.succeeded''
        \<and> stripePaymentIntentSchema isUuid (se_object event) = Some (i, invId)
        \<and> r = Inr (Recorded newId invId settled)
        \<and> payments d1 = payments d @ [p] \<and> creditNotes d1 = creditNotes d \<and> settings d1 = settings d
        \<and> pay_id p = newId \<and> pay_invoiceId p = invId \<and> pay_method p = Stripe
        \<and> pay_amountCents p = si_amount_received i \<and> pay_currency p = js_upper (si_currency i)
        \<and> pay_stripePaymentIntentId p = Some (si_id i))"
proof (cases "\<exists>k invId s. fst (handleStripeWebhook verify isUuid req newId d) = Inr (Recorded k invId s)")
  case True
  then obtain k invId s d1 where h: "handleStripeWebhook verify isUuid req newId d = (Inr (Recorded k invId s), d1)"
    by (metis prod.collapse)
  obtain signature key secret event i p d0 where w:
    "wr_signature req = Some signature" "getStripeConfiguration d = Some (key, secret)"
    "verify (wr_payload req) signature secret = Some event" "se_type event = ''payment_intent.succeeded''"
    "stripePaymentIntentSchema isUuid (se_object event) = Some (i, invId)"
    "recordStripePaymentWrite newId invId (si_amount_received i) (js_upper (si_currency i)) (si_created i * 1000) (si_id i) d
       = (Written (Applied p), d0)"
    "payments d1 = payments d0" "creditNotes d1 = creditNotes d0" "settings d1 = settings d0" "k = newId"
    using recorded_delivery [OF h] by metis
  from stripe_write_added [OF w(6)] w h show ?thesis by auto
next
  case False
  then show ?thesis
    by (auto simp: handleStripeWebhook_def Let_def dest: stripe_write_unchanged
        split: option.splits prod.splits stripe_write_result.splits write_result.splits)
qed

text \<open>
  A replayed delivery is harmless: handling the very request that recorded a payment once more
  answers that it is a duplicate of that payment and changes nothing, not even a log.
\<close>

theorem webhook_replay_is_harmless:
  assumes "handleStripeWebhook verify isUuid req newId d = (Inr (Recorded k invId s), d1)"
  shows "handleStripeWebhook verify isUuid req newId' d1 = (Inr (Duplicate_delivery k), d1)"
proof -
  obtain signature key secret event i p d0 where w:
    "wr_signature req = Some signature" "signature \<noteq> []" "getStripeConfiguration d = Some (key, secret)"
    "verify (wr_payload req) signature secret = Some event" "se_type event = ''payment_intent.succeeded''"
    "stripePaymentIntentSchema isUuid (se_object event) = Some (i, invId)"
    and rec: "recordStripePaymentWrite newId invId (si_amount_received i) (js_upper (si_currency i)) (si_created i * 1000) (si_id i) d
       = (Written (Applied p), d0)"
    and t: "invoices d1 = invoices d0" "payments d1 = payments d0" "creditNotes d1 = creditNotes d0"
      "settings d1 = settings d0" and k: "k = newId"
    using recorded_delivery [OF assms] by metis
  have "recordStripePaymentWrite newId' invId (si_amount_received i) (js_upper (si_currency i)) (si_created i * 1000) (si_id i) d1
      = (Duplicate newId, d1)"
    by (rule stripe_write_cong [OF t(1,2,3)]) (use stripe_redelivery [OF rec] in blast)
  moreover have "getStripeConfiguration d1 = Some (key, secret)"
    using getStripeConfiguration_cong [of d1 d] t(4) stripe_write_added [OF rec] w(3) by simp
  ultimately show ?thesis using w k by (simp add: handleStripeWebhook_def)
qed

definition sample_event :: stripe_event where
  "sample_event = \<lparr>se_type = ''payment_intent.succeeded'',
     se_object = \<lparr>si_id = ''pi_1'', si_amount_received = 500, si_currency = ''eur'', si_created = 1700179,
       si_remit_invoice_id = Some ''i1''\<rparr>\<rparr>"

definition sample_verify :: "string \<Rightarrow> string \<Rightarrow> string \<Rightarrow> stripe_event option" where
  "sample_verify payload signature secret =
     (if payload = ''payload'' \<and> signature = ''sig'' \<and> secret = ''wh'' then Some sample_event else None)"

definition sample_delivery :: webhook_request where
  "sample_delivery = \<lparr>wr_payload = ''payload'', wr_signature = Some ''sig''\<rparr>"

lemma webhook_replay_is_harmless_witness:
  "fst (handleStripeWebhook sample_verify (\<lambda>s. s = ''i1'') sample_delivery ''pay3''
      (snd (handleStripeWebhook sample_verify (\<lambda>s. s = ''i1'') sample_delivery ''pay2'' sample_db)))
    = Inr (Duplicate_delivery ''pay2'')"
proof -
  have "fst (handleStripeWebhook sample_verify (\<lambda>s. s = ''i1'') sample_delivery ''pay2'' sample_db)
      = Inr (Recorded ''pay2'' ''i1'' False)" by code_simp
  then have "handleStripeWebhook sample_verify (\<lambda>s. s = ''i1'') sample_delivery ''pay2'' sample_db
      = (Inr (Recorded ''pay2'' ''i1'' False),
         snd (handleStripeWebhook sample_verify (\<lambda>s. s = ''i1'') sample_delivery ''pay2'' sample_db))"
    by (metis prod.collapse)
  from webhook_replay_is_harmless [OF this] show ?thesis by simp
qed

text \<open>
  A checkout charges exactly what is owed: a checkout page is handed out only for an issued invoice
  with something outstanding while Stripe is configured, for a session asked for at the outstanding
  amount and linked to the invoice; starting one moves no money; and two sessions share an idempotency
  key only when they are for the same invoice and the same amount.
\<close>

theorem checkout_charges_the_outstanding:
  assumes "startInvoiceCheckout stripe invoice token d = (Inr url, d1)"
  shows "(ct_status invoice \<noteq> Draft \<and> 0 < getInvoiceOutstandingCents (ct_amounts invoice))
    \<and> (\<exists>input sid. stripe input = Some (sid, Some url)
         \<and> cs_unit_amount input = getInvoiceOutstandingCents (ct_amounts invoice)
         \<and> cs_remit_invoice_id input = ct_id invoice
         \<and> Some (cs_secretKey input) = map_option fst (getStripeConfiguration d)
         \<and> (\<forall>i a. buildInvoiceCheckoutIdempotencyKey i a = cs_idempotencyKey input
               \<longleftrightarrow> i = ct_id invoice \<and> a = cs_unit_amount input))
    \<and> invoices d1 = invoices d \<and> payments d1 = payments d \<and> creditNotes d1 = creditNotes d"
proof -
  obtain key secret amount where c: "getStripeConfiguration d = Some (key, secret)"
    and dec: "decideInvoiceCheckout (ct_status invoice) (ct_amounts invoice) True = Payable amount"
    and s: "\<exists>sid. createCheckoutSession stripe key token invoice amount = Some (sid, url)"
    and d1: "invoices d1 = invoices d \<and> payments d1 = payments d \<and> creditNotes d1 = creditNotes d"
    using assms by (auto simp: startInvoiceCheckout_def Let_def split: checkout_decision.splits option.splits prod.splits)
  have amount: "ct_status invoice \<noteq> Draft" "0 < amount" "amount = getInvoiceOutstandingCents (ct_amounts invoice)"
    using dec outstanding_nonneg [of "ct_amounts invoice"]
    by (auto simp: decideInvoiceCheckout_def Let_def split: if_splits)
  let ?input = "\<lparr>cs_secretKey = key, cs_token = token, cs_currency = js_lower (ct_currency invoice),
      cs_itemNumber = ct_number invoice, cs_unit_amount = amount, cs_remit_invoice_id = ct_id invoice,
      cs_idempotencyKey = buildInvoiceCheckoutIdempotencyKey (ct_id invoice) amount\<rparr>"
  obtain sid where "stripe ?input = Some (sid, Some url)"
    using s by (auto simp: createCheckoutSession_def split: option.splits if_splits)
  then show ?thesis using amount c d1
    by (intro conjI exI [of _ ?input] exI [of _ sid]) (simp_all add: idempotency_key_injective)
qed

definition sample_target :: checkout_target where
  "sample_target = \<lparr>ct_id = ''i1'', ct_number = ''INV-0001'', ct_status = Sent, ct_currency = ''EUR'',
     ct_amounts = \<lparr>oi_totalCents = 1000, oi_amountPaidCents = 300, oi_creditedCents = 0\<rparr>\<rparr>"

definition sample_stripe :: "checkout_session_input \<Rightarrow> (string \<times> string option) option" where
  "sample_stripe input = (if cs_unit_amount input = 700 then Some (''cs_1'', Some ''https://pay'') else None)"

lemma checkout_charges_the_outstanding_witness:
  "fst (startInvoiceCheckout sample_stripe sample_target ''tok'' sample_db) = Inr ''https://pay''
   \<and> invoices (snd (startInvoiceCheckout sample_stripe sample_target ''tok'' sample_db)) = invoices sample_db"
proof -
  have r: "fst (startInvoiceCheckout sample_stripe sample_target ''tok'' sample_db) = Inr ''https://pay''" by code_simp
  then have "startInvoiceCheckout sample_stripe sample_target ''tok'' sample_db
      = (Inr ''https://pay'', snd (startInvoiceCheckout sample_stripe sample_target ''tok'' sample_db))"
    by (metis prod.collapse)
  from checkout_charges_the_outstanding [OF this] r show ?thesis by simp
qed

end
