(* ===== verification/InvoiceActions.thy ===== *)
theory InvoiceActions
  imports InvoiceWrites PaymentActions
begin

text \<open>
  The server actions on invoices (\<open>features/invoices/mutations.ts\<close>, \<open>trashMutations.ts\<close>) and the
  nightly late-fee sweep (\<open>lateFees.ts\<close>). As for payments, the result of the zod schema is an argument,
  ids, tokens and the clock are arguments, and each action is one step. The JSON metadata of the audit
  entries, the cache revalidation and the reload of the page data after a write are left out: an action
  answers the id of the invoice it wrote.
\<close>

section \<open>The submitted form\<close>

record line_form =
  lf_description :: string
  lf_unit :: string
  lf_quantity :: jsnum
  lf_unitPrice :: int
  lf_discount :: discount_values
  lf_taxRateId :: "ident option"

record invoice_form =
  if_subject :: ident
  if_currency :: string
  if_templateId :: "ident option"
  if_issueDate :: "jsdate option"
  if_dueDate :: "jsdate option"
  if_notes :: string
  if_discount :: discount_values
  if_lineItems :: "line_form list"

definition wanted_tax_rates :: "line_form list \<Rightarrow> ident list" where
  "wanted_tax_rates items = remdups (List.map_filter lf_taxRateId items)"

definition getTaxPercentages :: "line_form list \<Rightarrow> db \<Rightarrow> (ident \<times> jsnum) list result" where
  "getTaxPercentages items d =
     (let ids = wanted_tax_rates items
      in if ids = [] then Inr []
         else let rows = filter (\<lambda>r. tax_id r \<in> set ids \<and> tax_deletedAt r = None) (taxRates d)
              in if length rows \<noteq> length ids then Inl ''invoices.validation.taxRateInvalid''
                 else Inr (map (\<lambda>r. (tax_id r, tax_percentage r)) rows))"

definition getTaxPercentage :: "ident option \<Rightarrow> (ident \<times> jsnum) list \<Rightarrow> jsnum" where
  "getTaxPercentage taxRateId percentages =
     (case taxRateId of
        None \<Rightarrow> 0
      | Some k \<Rightarrow> (case map_of percentages k of None \<Rightarrow> 0 | Some p \<Rightarrow> p))"

definition toLineItemInputs :: "line_form list \<Rightarrow> (ident \<times> jsnum) list \<Rightarrow> line_item_input list" where
  "toLineItemInputs items percentages =
     map (\<lambda>i. \<lparr>quantity = lf_quantity i, unitPriceCents = lf_unitPrice i,
               line_discount = toInvoiceDiscount (lf_discount i),
               taxPercentage = getTaxPercentage (lf_taxRateId i) percentages\<rparr>) items"

definition toInvoiceLineItemRows :: "line_form list \<Rightarrow> (ident \<times> jsnum) list \<Rightarrow> line_row_input list" where
  "toInvoiceLineItemRows items percentages =
     map (\<lambda>i. \<lparr>lr_taxRateId = lf_taxRateId i, lr_description = lf_description i, lr_unit = emptyToNull (lf_unit i),
               lr_quantity = lf_quantity i, lr_unitPriceCents = lf_unitPrice i,
               lr_discount = toInvoiceDiscountColumns (lf_discount i),
               lr_taxPercentage = getTaxPercentage (lf_taxRateId i) percentages,
               lr_sourceTimeEntryId = None, lr_sourceExpenseId = None\<rparr>) items"

section \<open>Drafting\<close>

definition live_project :: "ident \<Rightarrow> db \<Rightarrow> project_row option" where
  "live_project k d =
     (case find_id prj_id k (projects d) of
        Some p \<Rightarrow> if prj_deletedAt p = None then Some p else None
      | None \<Rightarrow> None)"

text \<open>What creating or editing an invoice writes to its row from the form.\<close>

definition put_form :: "invoice_form \<Rightarrow> invoice_totals \<Rightarrow> invoice_row \<Rightarrow> invoice_row" where
  "put_form f t r =
     r\<lparr>inv_templateId := if_templateId f, inv_currency := if_currency f,
       inv_discount := toInvoiceDiscountColumns (if_discount f), inv_subtotalCents := subtotalCents t,
       inv_discountAmountTotalCents := discountAmountTotalCents t, inv_taxAmountCents := taxAmountCents t,
       inv_totalCents := totalCents t, inv_issueDate := if_issueDate f, inv_dueDate := if_dueDate f,
       inv_notes := emptyToNull (if_notes f)\<rparr>"

definition blank_draft :: "ident \<Rightarrow> project_row \<Rightarrow> string \<Rightarrow> string \<Rightarrow> invoice_row" where
  "blank_draft newId project number token =
     \<lparr>inv_id = newId, inv_projectId = Some (prj_id project), inv_clientId = Some (prj_clientId project), inv_proposalId = None,
      inv_templateId = None, inv_recurringInvoiceId = None, inv_pdfUploadId = None, inv_number = number, inv_status = Draft,
      inv_currency = ''EUR'', inv_discount = no_discount_columns, inv_subtotalCents = 0,
      inv_discountAmountTotalCents = 0, inv_taxAmountCents = 0, inv_totalCents = 0, inv_amountPaidCents = 0,
      inv_issueDate = None, inv_dueDate = None, inv_paidAt = None, inv_lateFeeCents = None, inv_notes = None,
      inv_publicToken = Some token, inv_deletedAt = None\<rparr>"

definition createInvoice ::
  "(jsnum \<Rightarrow> jsnum) \<Rightarrow> request \<Rightarrow> invoice_form result \<Rightarrow> ident \<Rightarrow> (nat \<Rightarrow> ident) \<Rightarrow> string \<Rightarrow> db
    \<Rightarrow> ident result \<times> db" where
  "createInvoice store req parsed newId lineIds token d =
     (case requireInvoiceWrite req of
        Inl e \<Rightarrow> (Inl e, d)
      | Inr actor \<Rightarrow>
     (case parsed of
        Inl m \<Rightarrow> (Inl m, d)
      | Inr f \<Rightarrow>
     (case live_project (if_subject f) d of
        None \<Rightarrow> (Inl ''invoices.errors.projectNotFound'', d)
      | Some project \<Rightarrow>
     (case getTaxPercentages (if_lineItems f) d of
        Inl e \<Rightarrow> (Inl e, d)
      | Inr percentages \<Rightarrow>
     (let totals = calculateInvoiceTotal (toLineItemInputs (if_lineItems f) percentages) (toInvoiceDiscount (if_discount f))
      in case claimInvoiceNumber d of
        Inl e \<Rightarrow> (Inl e, d)
      | Inr (number, d1) \<Rightarrow>
          let d2 = d1\<lparr>invoices := add_row (put_form f totals (blank_draft newId project number token)) (invoices d1)\<rparr>;
              d3 = writeInvoiceLineItems store lineIds newId (toInvoiceLineItemRows (if_lineItems f) percentages)
                     (toInvoiceDiscount (if_discount f)) d2;
              user = Some (actor_userId actor)
          in (Inr newId, emit ''invoice.created'' newId user
                (writeAudit ''invoice.created'' user (Some newId) d3)))))))"

text \<open>\<open>WHERE id = i AND status = 'draft' AND deleted_at IS NULL\<close>\<close>

definition live_draft :: "ident \<Rightarrow> invoice_row \<Rightarrow> bool" where
  "live_draft i r \<longleftrightarrow> inv_id r = i \<and> inv_status r = Draft \<and> inv_deletedAt r = None"

definition updateInvoice ::
  "(jsnum \<Rightarrow> jsnum) \<Rightarrow> request \<Rightarrow> invoice_form result \<Rightarrow> (nat \<Rightarrow> ident) \<Rightarrow> db \<Rightarrow> ident result \<times> db" where
  "updateInvoice store req parsed lineIds d =
     (case requireInvoiceWrite req of
        Inl e \<Rightarrow> (Inl e, d)
      | Inr actor \<Rightarrow>
     (case parsed of
        Inl m \<Rightarrow> (Inl m, d)
      | Inr f \<Rightarrow>
     (case lockInvoice (if_subject f) d of
        None \<Rightarrow> (Inl ''invoices.errors.notFound'', d)
      | Some existing \<Rightarrow>
          if \<not> isInvoiceEditable (inv_status existing) then (Inl ''invoices.errors.notDraft'', d)
          else
     (case getTaxPercentages (if_lineItems f) d of
        Inl e \<Rightarrow> (Inl e, d)
      | Inr percentages \<Rightarrow>
          if \<not> list_ex (live_draft (if_subject f)) (invoices d) then (Inl ''invoices.errors.notDraft'', d)
          else
          let totals = calculateInvoiceTotal (toLineItemInputs (if_lineItems f) percentages) (toInvoiceDiscount (if_discount f));
              d1 = d\<lparr>invoices := update_where (live_draft (if_subject f))
                       (put_form f totals) (invoices d),
                     lineItems := filter (\<lambda>l. li_invoiceId l \<noteq> Some (if_subject f)) (lineItems d)\<rparr>;
              d2 = writeInvoiceLineItems store lineIds (if_subject f)
                     (toInvoiceLineItemRows (if_lineItems f) percentages) (toInvoiceDiscount (if_discount f)) d1;
              user = Some (actor_userId actor)
          in (Inr (inv_id existing), emit ''invoice.updated'' (inv_id existing) user
                (writeAudit ''invoice.updated'' user (Some (inv_id existing)) d2))))))"

section \<open>Issuing and settling\<close>

definition getPaymentTermsDays :: "db \<Rightarrow> int option" where
  "getPaymentTermsDays d = map_option set_paymentTermsDays (settings d)"

definition countInvoiceLineItems :: "ident \<Rightarrow> db \<Rightarrow> nat" where
  "countInvoiceLineItems i d = length (filter (live_line i) (lineItems d))"

definition queueInvoiceClientCopy :: "bool \<Rightarrow> ident \<Rightarrow> db \<Rightarrow> bool \<times> db" where
  "queueInvoiceClientCopy emailConfigured i d = (emailConfigured, enqueueJob ''invoice.pdf.render'' i (Some ''sent'') d)"

definition sendInvoice :: "bool \<Rightarrow> request \<Rightarrow> ident result \<Rightarrow> jsdate \<Rightarrow> db \<Rightarrow> (ident \<times> bool) result \<times> db" where
  "sendInvoice emailConfigured req parsed now d =
     (case requireInvoiceSend req of
        Inl e \<Rightarrow> (Inl e, d)
      | Inr actor \<Rightarrow>
     (case parsed of
        Inl m \<Rightarrow> (Inl m, d)
      | Inr i \<Rightarrow>
     (case lockInvoice i d of
        None \<Rightarrow> (Inl ''invoices.errors.notFound'', d)
      | Some existing \<Rightarrow>
     (case canTransitionInvoiceStatus (inv_status existing) Sent of
        Refused r \<Rightarrow> (Inl ''invoices.errors.invalidTransition'', d)
      | Allowed next \<Rightarrow>
          if countInvoiceLineItems (inv_id existing) d = 0
          then (Inl ''invoices.validation.lineItemsRequired'', d)
          else
            let terms = (case getPaymentTermsDays d of None \<Rightarrow> 0 | Some n \<Rightarrow> n);
                (issue, due) = resolveInvoiceIssueDates now (inv_issueDate existing) (inv_dueDate existing) terms
            in if \<not> list_ex (live_draft i) (invoices d)
               then (Inl ''invoices.errors.invalidTransition'', d)
               else
                 let d1 = d\<lparr>invoices := update_where (live_draft i)
                             (\<lambda>r. r\<lparr>inv_status := next, inv_issueDate := Some issue, inv_dueDate := Some due\<rparr>)
                             (invoices d)\<rparr>;
                     user = Some (actor_userId actor);
                     (emailed, d2) = queueInvoiceClientCopy emailConfigured i
                       (emit ''invoice.sent'' i user (writeAudit ''invoice.sent'' user (Some i) d1))
                 in (Inr (i, emailed), d2)))))"

definition markInvoicePaid :: "request \<Rightarrow> ident result \<Rightarrow> ident \<Rightarrow> jsdate \<Rightarrow> db \<Rightarrow> ident result \<times> db" where
  "markInvoicePaid req parsed newId now d =
     (case requireInvoiceMarkPaid req of
        Inl e \<Rightarrow> (Inl e, d)
      | Inr actor \<Rightarrow>
     (case parsed of
        Inl m \<Rightarrow> (Inl m, d)
      | Inr i \<Rightarrow>
     (case lockInvoice i d of
        None \<Rightarrow> (Inl ''invoices.errors.notFound'', d)
      | Some existing \<Rightarrow>
     (case canTransitionInvoiceStatus (inv_status existing) Paid of
        Refused r \<Rightarrow> (Inl ''invoices.errors.invalidTransition'', d)
      | Allowed next \<Rightarrow>
     (case recordInvoiceSettlement (inv_id existing) actor newId now d of
        (Inl e, d1) \<Rightarrow> (Inl e, d1)
      | (Inr s, d1) \<Rightarrow>
          let user = Some (actor_userId actor)
          in (Inr (inv_id existing), emit ''invoice.paid'' (inv_id existing) user
                (writeAudit ''invoice.paid'' user (Some (inv_id existing)) d1)))))))"

text \<open>The columns an adjusted fee sets, \<open>existing\<close> being the locked row.\<close>

definition set_late_fee :: "invoice_row \<Rightarrow> int \<Rightarrow> int \<Rightarrow> bool \<Rightarrow> jsdate \<Rightarrow> invoice_row \<Rightarrow> invoice_row" where
  "set_late_fee existing feeCents newTotal settled now r =
     r\<lparr>inv_lateFeeCents := Some feeCents, inv_totalCents := newTotal,
       inv_status := (if settled then Paid else if inv_status existing = Paid then Sent else inv_status existing),
       inv_paidAt := (if settled then Some (case inv_paidAt existing of Some t \<Rightarrow> t | None \<Rightarrow> now) else None),
       inv_pdfUploadId := None\<rparr>"

text \<open>The parsed adjustment is the invoice and the amount \<open>parseAmountToCents\<close> reads, \<open>None\<close> for no amount.\<close>

definition adjustInvoiceLateFee ::
  "request \<Rightarrow> (ident \<times> int option) result \<Rightarrow> jsdate \<Rightarrow> db \<Rightarrow> (ident \<times> int) result \<times> db" where
  "adjustInvoiceLateFee req parsed now d =
     (case requireInvoiceLateFee req of
        Inl e \<Rightarrow> (Inl e, d)
      | Inr actor \<Rightarrow>
     (case parsed of
        Inl m \<Rightarrow> (Inl m, d)
      | Inr (i, None) \<Rightarrow> (Inl ''invoices.validation.lateFeeInvalid'', d)
      | Inr (i, Some feeCents) \<Rightarrow>
          if feeCents < 0 then (Inl ''invoices.validation.lateFeeInvalid'', d)
          else
     (case lockInvoice i d of
        None \<Rightarrow> (Inl ''invoices.errors.notFound'', d)
      | Some existing \<Rightarrow>
     (case inv_lateFeeCents existing of
        None \<Rightarrow> (Inl ''invoices.errors.lateFeeNotCharged'', d)
      | Some previous \<Rightarrow>
          let total = inv_totalCents existing - previous + feeCents;
              s = evaluateInvoiceSettlement
                    \<lparr>oi_totalCents = total, oi_amountPaidCents = inv_amountPaidCents existing,
                     oi_creditedCents = readInvoiceCreditedCents (inv_id existing) d\<rparr>
          in if is_overpaid s then (Inl ''invoices.errors.lateFeeBelowPaid'', d)
             else
               let d1 = d\<lparr>invoices := put_id inv_id (inv_id existing)
                          (set_late_fee existing feeCents total (s = Settled) now) (invoices d)\<rparr>
               in (Inr (inv_id existing, feeCents), enqueueJob ''invoice.pdf.render'' (inv_id existing) None
                     (writeAudit ''invoice.late_fee.adjusted'' (Some (actor_userId actor)) (Some (inv_id existing)) d1))))))"

section \<open>The trash\<close>

definition softDeleteInvoice :: "request \<Rightarrow> ident result \<Rightarrow> jsdate \<Rightarrow> db \<Rightarrow> ident result \<times> db" where
  "softDeleteInvoice req parsed now d =
     (case requireInvoiceDelete req of
        Inl e \<Rightarrow> (Inl e, d)
      | Inr actor \<Rightarrow>
     (case parsed of
        Inl m \<Rightarrow> (Inl m, d)
      | Inr i \<Rightarrow>
     (case lockInvoice i d of
        None \<Rightarrow> (Inl ''invoices.errors.notFound'', d)
      | Some row \<Rightarrow>
          let d1 = d\<lparr>invoices := put_id inv_id i (\<lambda>r. r\<lparr>inv_deletedAt := Some now\<rparr>) (invoices d)\<rparr>;
              user = Some (actor_userId actor)
          in (Inr i, emit ''invoice.deleted'' i user (writeAudit ''invoice.deleted'' user (Some i) d1)))))"

definition client_deletedAt :: "ident option \<Rightarrow> db \<Rightarrow> jsdate option" where
  "client_deletedAt k d =
     (case k of None \<Rightarrow> None | Some c \<Rightarrow> (case find_id cli_id c (clients d) of None \<Rightarrow> None | Some r \<Rightarrow> cli_deletedAt r))"

definition project_deletedAt :: "ident option \<Rightarrow> db \<Rightarrow> jsdate option" where
  "project_deletedAt k d =
     (case k of None \<Rightarrow> None | Some p \<Rightarrow> (case find_id prj_id p (projects d) of None \<Rightarrow> None | Some r \<Rightarrow> prj_deletedAt r))"

definition restoreInvoice :: "request \<Rightarrow> ident result \<Rightarrow> db \<Rightarrow> ident result \<times> db" where
  "restoreInvoice req parsed d =
     (case requireInvoiceDelete req of
        Inl e \<Rightarrow> (Inl e, d)
      | Inr actor \<Rightarrow>
     (case parsed of
        Inl m \<Rightarrow> (Inl m, d)
      | Inr i \<Rightarrow>
     (case find_id inv_id i (invoices d) of
        None \<Rightarrow> (Inl ''invoices.errors.notFound'', d)
      | Some existing \<Rightarrow>
          if inv_deletedAt existing = None then (Inl ''invoices.errors.notFound'', d)
          else
     (case resolveRestoreBlocker
             [(''trash.entities.client'', client_deletedAt (inv_clientId existing) d),
              (''trash.entities.project'', project_deletedAt (inv_projectId existing) d)] of
        Some parent \<Rightarrow> (Inl (restore_blocked parent), d)
      | None \<Rightarrow>
          let d1 = d\<lparr>invoices := put_id inv_id i (\<lambda>r. r\<lparr>inv_deletedAt := None\<rparr>) (invoices d)\<rparr>
          in (Inr i, writeAudit ''invoice.restored'' (Some (actor_userId actor)) (Some i) d1)))))"

section \<open>The late-fee sweep\<close>

definition getLateFeePolicy :: "db \<Rightarrow> late_fee_policy" where
  "getLateFeePolicy d = toLateFeePolicy (map_option set_lateFee (settings d))"

text \<open>The aggregate the sweep joins: \<open>coalesce\<close> of the grouped sum of live credit notes.\<close>

definition getInvoiceCreditedTotals :: "ident \<Rightarrow> db \<Rightarrow> int" where
  "getInvoiceCreditedTotals i d =
     (let rows = filter (\<lambda>c. cn_deletedAt c = None \<and> cn_invoiceId c = i) (creditNotes d)
      in if rows = [] then 0 else sum_list (map cn_totalCents rows))"

definition getLateFeeCandidates :: "jsdate \<Rightarrow> db \<Rightarrow> (ident \<times> late_fee_candidate) list" where
  "getLateFeeCandidates now d =
     map (\<lambda>r. (inv_id r,
            \<lparr>lfc_status = inv_status r, lfc_dueDate = inv_dueDate r, lfc_paidAt = inv_paidAt r,
             lfc_totalCents = inv_totalCents r, lfc_amountPaidCents = inv_amountPaidCents r,
             lfc_creditedCents = getInvoiceCreditedTotals (inv_id r) d, lfc_lateFeeCents = inv_lateFeeCents r\<rparr>))
       (filter (\<lambda>r. inv_status r \<noteq> Draft \<and> inv_paidAt r = None \<and> inv_lateFeeCents r = None
                  \<and> (case inv_dueDate r of None \<Rightarrow> False | Some due \<Rightarrow> due < toUtcDay now)
                  \<and> inv_deletedAt r = None) (invoices d))"

definition chargeable :: "ident \<Rightarrow> invoice_row \<Rightarrow> bool" where
  "chargeable i r \<longleftrightarrow> inv_id r = i \<and> inv_lateFeeCents r = None \<and> inv_status r \<noteq> Draft
     \<and> inv_paidAt r = None \<and> inv_deletedAt r = None"

definition chargeLateFee :: "ident \<Rightarrow> int \<Rightarrow> db \<Rightarrow> bool \<times> db" where
  "chargeLateFee i feeCents d =
     (list_ex (chargeable i) (invoices d),
      d\<lparr>invoices := update_where (chargeable i)
          (\<lambda>r. r\<lparr>inv_lateFeeCents := Some feeCents, inv_totalCents := inv_totalCents r + feeCents,
                 inv_pdfUploadId := None\<rparr>) (invoices d)\<rparr>)"

definition apply_candidate :: "late_fee_policy \<Rightarrow> jsdate \<Rightarrow> db \<Rightarrow> ident \<times> late_fee_candidate \<Rightarrow> db" where
  "apply_candidate policy now d candidate =
     (case assessLateFee (snd candidate) policy now of
        No_charge r \<Rightarrow> d
      | Charge feeCents daysLate \<Rightarrow>
          (case chargeLateFee (fst candidate) feeCents d of
             (False, d1) \<Rightarrow> d1
           | (True, d1) \<Rightarrow>
               enqueueJob ''invoice.pdf.render'' (fst candidate) None
                 (emit ''invoice.late_fee_applied'' (fst candidate) None
                   (writeAudit ''invoice.late_fee.applied'' None (Some (fst candidate)) d1))))"

definition applyLateFees :: "jsdate \<Rightarrow> db \<Rightarrow> db" where
  "applyLateFees now d =
     (let policy = getLateFeePolicy d
      in if policy = PolicyOff then d
         else foldl (apply_candidate policy now) d (getLateFeeCandidates now d))"

section \<open>Changing invoice rows keeps the books\<close>

lemma row_checks_cong:
  "payments d' = payments d \<Longrightarrow> creditNotes d' = creditNotes d \<Longrightarrow> aggregate_ok d' r = aggregate_ok d r"
  "creditNotes d' = creditNotes d \<Longrightarrow> status_ok d' r = status_ok d r"
  by (simp_all add: aggregate_ok_def status_ok_def sumRecordedPayments_def sumCreditedCents_def)

lemma books_map_rows:
  assumes ok: "books_ok d" and inv: "invoices d' = map g (invoices d)"
    and same: "payments d' = payments d" "creditNotes d' = creditNotes d"
    and row: "\<And>r. r \<in> set (invoices d) \<Longrightarrow> inv_id (g r) = inv_id r \<and> aggregate_ok d (g r)
      \<and> (inv_deletedAt (g r) = None \<longrightarrow> status_ok d (g r))"
  shows "books_ok d'"
proof -
  have "inv_id (g r) = inv_id r" if "r \<in> set (invoices d)" for r using row [OF that] by blast
  then have keys: "map inv_id (invoices d') = map inv_id (invoices d)" unfolding inv by simp
  have "ids_ok d" using ok by (simp add: books_ok_def)
  then have ids: "ids_ok d'" by (rule ids_ok_cong [OF _ same keys])
  have "aggregate_ok d' x \<and> (inv_deletedAt x = None \<longrightarrow> status_ok d' x)" if x: "x \<in> set (invoices d')" for x
  proof -
    obtain r where r: "r \<in> set (invoices d)" "x = g r" using x unfolding inv by auto
    show ?thesis unfolding row_checks_cong(1) [OF same] row_checks_cong(2) [OF same(2)] r(2)
      using row [OF r(1)] by blast
  qed
  with ids show ?thesis unfolding books_ok_def by blast
qed

lemma books_row:
  "books_ok d \<Longrightarrow> r \<in> set (invoices d) \<Longrightarrow> aggregate_ok d r \<and> (inv_deletedAt r = None \<longrightarrow> status_ok d r)"
  by (simp add: books_ok_def)

lemma draft_carries_nothing:
  assumes "books_ok d" "r \<in> set (invoices d)" "inv_status r = Draft"
  shows "inv_amountPaidCents r = 0" "sumRecordedPayments (inv_id r) None d = 0" "sumCreditedCents (inv_id r) d = 0"
    "inv_paidAt r = None" "inv_lateFeeCents r = None"
proof -
  have ag: "aggregate_ok d r" using assms books_row by blast
  show sums: "sumRecordedPayments (inv_id r) None d = 0" "sumCreditedCents (inv_id r) d = 0"
    using ag assms(3) unfolding sumRecordedPayments_def sumCreditedCents_def
    by (auto intro!: sum_where_none simp: aggregate_ok_def live_payment_def live_credit_def)
  show "inv_amountPaidCents r = 0" "inv_paidAt r = None" "inv_lateFeeCents r = None"
    using ag assms(3) sums(1) by (simp_all add: aggregate_ok_def)
qed

text \<open>A draft may be rewritten as long as its total stays non-negative, and may be issued.\<close>

lemma draft_rewrite_ok:
  assumes ok: "books_ok d" and r: "r \<in> set (invoices d)" "inv_status r = Draft"
    and g: "inv_id (g r) = inv_id r" "inv_status (g r) \<noteq> Paid" "inv_amountPaidCents (g r) = inv_amountPaidCents r"
      "inv_paidAt (g r) = inv_paidAt r" "inv_lateFeeCents (g r) = inv_lateFeeCents r" "0 \<le> inv_totalCents (g r)"
  shows "aggregate_ok d (g r)" "status_ok d (g r)"
proof -
  note none = draft_carries_nothing [OF ok r]
  have ag: "aggregate_ok d r" using ok r(1) books_row by blast
  show "aggregate_ok d (g r)"
    unfolding aggregate_ok_def [of d "g r"] g(1,3,4,5) none(1,2,4,5)
    using g(6) ag r(2) by (simp add: aggregate_ok_def)
  show "status_ok d (g r)"
    using g none by (simp add: status_ok_def settled_amounts_iff)
qed

lemma books_add_draft:
  assumes ok: "books_ok d" and fresh: "inv_id r \<notin> inv_id ` set (invoices d)"
    and same: "invoices d' = add_row r (invoices d)" "payments d' = payments d" "creditNotes d' = creditNotes d"
    and r: "inv_status r = Draft \<or> inv_status r = Sent" "inv_amountPaidCents r = 0" "inv_paidAt r = None"
      "inv_lateFeeCents r = None" "0 \<le> inv_totalCents r"
  shows "books_ok d'"
proof -
  have ids: "ids_ok d" using ok by (simp add: books_ok_def)
  then have "\<forall>p\<in>set (payments d). pay_invoiceId p \<in> inv_id ` set (invoices d)"
    "\<forall>c\<in>set (creditNotes d). cn_invoiceId c \<in> inv_id ` set (invoices d)"
    by (simp_all add: ids_ok_def)
  then have none: "\<forall>p\<in>set (payments d). pay_invoiceId p \<noteq> inv_id r" "\<forall>c\<in>set (creditNotes d). cn_invoiceId c \<noteq> inv_id r"
    using fresh by metis+
  then have "sumRecordedPayments (inv_id r) None d = 0"
    unfolding sumRecordedPayments_def by (intro sum_where_none) (simp add: live_payment_def)
  moreover have "sumCreditedCents (inv_id r) d = 0"
    unfolding sumCreditedCents_def using none by (intro sum_where_none) (simp add: live_credit_def)
  ultimately have "aggregate_ok d r" "status_ok d r"
    using none r by (auto simp: aggregate_ok_def status_ok_def settled_amounts_def evaluateInvoiceSettlement_def
        getInvoiceOutstandingCents_def split: if_splits)
  moreover have "ids_ok d'"
    using ids fresh invoice_table.distinct_add [OF fresh] same
    by (auto simp: ids_ok_def add_row_def)
  moreover have "aggregate_ok d' x = aggregate_ok d x" "status_ok d' x = status_ok d x" for x
    using same row_checks_cong by blast+
  ultimately show ?thesis using ok same(1) by (auto simp: books_ok_def add_row_def)
qed

subsection \<open>Each action\<close>

definition valid_items :: "line_item_input list \<Rightarrow> discount option \<Rightarrow> bool" where
  "valid_items items disc \<longleftrightarrow>
     (\<forall>i\<in>set items. valid_line i) \<and> valid_discount disc \<and> sum_list (map line_grossCents items) \<le> 2 ^ 46
     \<and> sum_list (map line_netCents items) * documentDiscount items disc < 2 ^ 53"

text \<open>What the schema guarantees of a form, once its tax rates are looked up.\<close>

definition valid_invoice_form :: "db \<Rightarrow> invoice_form \<Rightarrow> bool" where
  "valid_invoice_form d f \<longleftrightarrow>
     (case getTaxPercentages (if_lineItems f) d of
        Inl e \<Rightarrow> True
      | Inr ps \<Rightarrow> valid_items (toLineItemInputs (if_lineItems f) ps) (toInvoiceDiscount (if_discount f)))"

lemma valid_total: "valid_items items disc \<Longrightarrow> 0 \<le> totalCents (calculateInvoiceTotal items disc)"
  using totals_nonneg [of items disc] by (simp add: valid_items_def)

lemma createInvoice_result:
  assumes "createInvoice store req parsed newId lineIds token d = (r, d1)"
  shows "(\<exists>e. r = Inl e) \<and> d1 = d
    \<or> (\<exists>actor f project ps number d0. requireInvoiceWrite req = Inr actor \<and> parsed = Inr f
         \<and> live_project (if_subject f) d = Some project \<and> getTaxPercentages (if_lineItems f) d = Inr ps
         \<and> claimInvoiceNumber d = Inr (number, d0) \<and> r = Inr newId
         \<and> invoices d1 = add_row (put_form f (calculateInvoiceTotal (toLineItemInputs (if_lineItems f) ps)
               (toInvoiceDiscount (if_discount f))) (blank_draft newId project number token)) (invoices d)
         \<and> payments d1 = payments d \<and> creditNotes d1 = creditNotes d \<and> settings d1 = settings d0
         \<and> lineItems d1 = lineItems (writeInvoiceLineItems store lineIds newId (toInvoiceLineItemRows (if_lineItems f) ps)
               (toInvoiceDiscount (if_discount f)) d))"
  using assms
  by (auto simp: createInvoice_def Let_def claim_tables writeInvoiceLineItems_def insert_batches_eq
      split: sum.splits option.splits)

lemma createInvoice_books:
  assumes "books_ok d" "newId \<notin> inv_id ` set (invoices d)" "\<And>f. parsed = Inr f \<Longrightarrow> valid_invoice_form d f"
  shows "books_ok (snd (createInvoice store req parsed newId lineIds token d))"
proof -
  obtain r d1 where c: "createInvoice store req parsed newId lineIds token d = (r, d1)" by fastforce
  show ?thesis using createInvoice_result [OF c]
  proof (elim disjE exE conjE)
    assume "d1 = d" then show ?thesis using assms(1) c by simp
  next
    fix actor and f :: invoice_form and project ps number d0
    assume f: "parsed = Inr f" "getTaxPercentages (if_lineItems f) d = Inr ps"
      and t: "invoices d1 = add_row (put_form f (calculateInvoiceTotal (toLineItemInputs (if_lineItems f) ps)
               (toInvoiceDiscount (if_discount f))) (blank_draft newId project number token)) (invoices d)"
        "payments d1 = payments d" "creditNotes d1 = creditNotes d"
    have "0 \<le> totalCents (calculateInvoiceTotal (toLineItemInputs (if_lineItems f) ps) (toInvoiceDiscount (if_discount f)))"
      using assms(3) [OF f(1)] f(2) by (simp add: valid_invoice_form_def valid_total)
    then have "books_ok d1"
      using assms(2) by (intro books_add_draft [OF assms(1) _ t]) (simp_all add: put_form_def blank_draft_def)
    then show ?thesis using c by simp
  qed
qed

lemma updateInvoice_result:
  assumes "updateInvoice store req parsed lineIds d = (r, d1)"
  shows "(\<exists>e. r = Inl e) \<and> d1 = d
    \<or> (\<exists>actor f ps. requireInvoiceWrite req = Inr actor \<and> parsed = Inr f
         \<and> getTaxPercentages (if_lineItems f) d = Inr ps \<and> r = Inr (if_subject f)
         \<and> invoices d1 = update_where (live_draft (if_subject f))
              (put_form f (calculateInvoiceTotal (toLineItemInputs (if_lineItems f) ps) (toInvoiceDiscount (if_discount f))))
              (invoices d)
         \<and> payments d1 = payments d \<and> creditNotes d1 = creditNotes d \<and> settings d1 = settings d
         \<and> lineItems d1 = lineItems (writeInvoiceLineItems store lineIds (if_subject f) (toInvoiceLineItemRows (if_lineItems f) ps)
               (toInvoiceDiscount (if_discount f))
               (d\<lparr>lineItems := filter (\<lambda>l. li_invoiceId l \<noteq> Some (if_subject f)) (lineItems d)\<rparr>)))"
  using assms
  by (auto simp: updateInvoice_def Let_def writeInvoiceLineItems_def insert_batches_eq dest: lockInvoice_id
      split: sum.splits option.splits if_splits)

lemma updateInvoice_books:
  assumes "books_ok d" "\<And>f. parsed = Inr f \<Longrightarrow> valid_invoice_form d f"
  shows "books_ok (snd (updateInvoice store req parsed lineIds d))"
proof -
  obtain r d1 where c: "updateInvoice store req parsed lineIds d = (r, d1)" by fastforce
  show ?thesis using updateInvoice_result [OF c]
  proof (elim disjE exE conjE)
    assume "d1 = d" then show ?thesis using assms(1) c by simp
  next
    fix actor and f :: invoice_form and ps
    let ?t = "calculateInvoiceTotal (toLineItemInputs (if_lineItems f) ps) (toInvoiceDiscount (if_discount f))"
    assume f: "parsed = Inr f" "getTaxPercentages (if_lineItems f) d = Inr ps"
      and t: "invoices d1 = update_where (live_draft (if_subject f)) (put_form f ?t) (invoices d)"
        "payments d1 = payments d" "creditNotes d1 = creditNotes d"
    have pos: "0 \<le> totalCents ?t"
      using assms(2) [OF f(1)] f(2) by (simp add: valid_invoice_form_def valid_total)
    have "books_ok d1"
    proof (rule books_map_rows [OF assms(1) _ t(2,3)])
      show "invoices d1 = map (\<lambda>r. if live_draft (if_subject f) r then put_form f ?t r else r) (invoices d)"
        using t(1) by (simp add: update_where_def)
      fix r assume r: "r \<in> set (invoices d)"
      show "inv_id (if live_draft (if_subject f) r then put_form f ?t r else r) = inv_id r
          \<and> aggregate_ok d (if live_draft (if_subject f) r then put_form f ?t r else r)
          \<and> (inv_deletedAt (if live_draft (if_subject f) r then put_form f ?t r else r) = None \<longrightarrow>
              status_ok d (if live_draft (if_subject f) r then put_form f ?t r else r))"
      proof (cases "live_draft (if_subject f) r")
        case True
        then have "inv_status r = Draft" by (simp add: live_draft_def)
        from draft_rewrite_ok [OF assms(1) r this, of "put_form f ?t"] this pos True
        show ?thesis by (simp add: put_form_def)
      qed (use r books_row [OF assms(1)] in simp)
    qed
    then show ?thesis using c by simp
  qed
qed

lemma canTransition_iff:
  "canTransitionInvoiceStatus s t = Allowed u \<longleftrightarrow> u = t \<and> t \<in> set (invoice_edges s)"
  by (cases s; cases t) (auto simp: status_defs)

lemma sendInvoice_result:
  assumes "sendInvoice mail req parsed now d = (r, d1)"
  shows "(\<exists>e. r = Inl e) \<and> d1 = d
    \<or> (\<exists>actor i row issue due. requireInvoiceSend req = Inr actor \<and> parsed = Inr i \<and> r = Inr (i, mail)
         \<and> lockInvoice i d = Some row \<and> inv_status row = Draft \<and> 0 < countInvoiceLineItems i d
         \<and> (issue, due) = resolveInvoiceIssueDates now (inv_issueDate row) (inv_dueDate row)
              (case getPaymentTermsDays d of None \<Rightarrow> 0 | Some n \<Rightarrow> n)
         \<and> invoices d1 = update_where (live_draft i)
              (\<lambda>r. r\<lparr>inv_status := Sent, inv_issueDate := Some issue, inv_dueDate := Some due\<rparr>) (invoices d)
         \<and> payments d1 = payments d \<and> creditNotes d1 = creditNotes d \<and> settings d1 = settings d
         \<and> lineItems d1 = lineItems d
         \<and> events d1 = events d @ [\<lparr>evt_name = ''invoice.sent'', evt_subject = i, evt_user = Some (actor_userId actor)\<rparr>]
         \<and> jobs d1 = jobs d @ [\<lparr>job_name = ''invoice.pdf.render'', job_subject = i, job_detail = Some ''sent''\<rparr>])"
proof (cases r)
  case (Inl e)
  then show ?thesis using assms
    by (auto simp: sendInvoice_def Let_def queueInvoiceClientCopy_def
        split: sum.splits option.splits if_splits transition.splits prod.splits)
next
  case (Inr x)
  then obtain actor i row st where a: "requireInvoiceSend req = Inr actor" "parsed = Inr i" "lockInvoice i d = Some row"
    "canTransitionInvoiceStatus (inv_status row) Sent = Allowed st"
    using assms by (auto simp: sendInvoice_def split: sum.splits option.splits transition.splits)
  obtain issue due where dates: "resolveInvoiceIssueDates now (inv_issueDate row) (inv_dueDate row)
      (case getPaymentTermsDays d of None \<Rightarrow> 0 | Some n \<Rightarrow> n) = (issue, due)" by fastforce
  have st: "st = Sent" "inv_status row = Draft" using a(4) unfolding canTransition_iff by (cases "inv_status row"; simp)+
  have id: "inv_id row = i" using a(3) by (rule lockInvoice_id)
  show ?thesis
    using assms Inr a st id dates
    by (auto simp: sendInvoice_def Let_def queueInvoiceClientCopy_def writeAudit_def emit_def enqueueJob_def
        split: if_splits)
qed

lemma sendInvoice_books:
  assumes "books_ok d"
  shows "books_ok (snd (sendInvoice mail req parsed now d))"
proof -
  obtain r d1 where c: "sendInvoice mail req parsed now d = (r, d1)" by fastforce
  show ?thesis using sendInvoice_result [OF c]
  proof (elim disjE exE conjE)
    assume "d1 = d" then show ?thesis using assms(1) c by simp
  next
    fix actor i row issue due
    let ?g = "\<lambda>r. r\<lparr>inv_status := Sent, inv_issueDate := Some issue, inv_dueDate := Some due\<rparr>"
    assume t: "invoices d1 = update_where (live_draft i) ?g (invoices d)"
        "payments d1 = payments d" "creditNotes d1 = creditNotes d"
    have "books_ok d1"
    proof (rule books_map_rows [OF assms(1) _ t(2,3)])
      show "invoices d1 = map (\<lambda>r. if live_draft i r then ?g r else r) (invoices d)"
        using t(1) by (simp add: update_where_def)
      fix r assume r: "r \<in> set (invoices d)"
      show "inv_id (if live_draft i r then ?g r else r) = inv_id r
          \<and> aggregate_ok d (if live_draft i r then ?g r else r)
          \<and> (inv_deletedAt (if live_draft i r then ?g r else r) = None \<longrightarrow>
              status_ok d (if live_draft i r then ?g r else r))"
      proof (cases "live_draft i r")
        case True
        then have st: "inv_status r = Draft" by (simp add: live_draft_def)
        have "0 \<le> inv_totalCents (?g r)" using books_row [OF assms(1) r] by (simp add: aggregate_ok_def)
        from draft_rewrite_ok [OF assms(1) r st, of ?g] this True
        show ?thesis by simp
      qed (use r books_row [OF assms(1)] in simp)
    qed
    then show ?thesis using c by simp
  qed
qed

lemma recordSettlement_unfold:
  "recordInvoiceSettlement i actor newId now d = (s, d1) \<Longrightarrow> d1 = snd (recordInvoiceSettlement i actor newId now d)"
  by simp

lemma markInvoicePaid_books:
  assumes "books_ok d" "newId \<notin> pay_id ` set (payments d)"
  shows "books_ok (snd (markInvoicePaid req parsed newId now d))"
proof -
  have s: "books_ok d1" if "recordInvoiceSettlement i a newId now d = (r, d1)" for i a r d1
    using recordInvoiceSettlement_books [OF assms, of i a now] that by simp
  show ?thesis
    using assms(1) by (auto simp: markInvoicePaid_def Let_def dest: s
        split: sum.splits option.splits transition.splits prod.splits)
qed

text \<open>Changing one invoice row.\<close>

lemma books_put_row:
  assumes ok: "books_ok d" and find: "find_id inv_id i (invoices d) = Some row"
    and inv: "invoices d' = put_id inv_id i g (invoices d)"
    and same: "payments d' = payments d" "creditNotes d' = creditNotes d"
    and g: "inv_id (g row) = inv_id row" "aggregate_ok d (g row)" "inv_deletedAt (g row) = None \<Longrightarrow> status_ok d (g row)"
  shows "books_ok d'"
proof (rule books_map_rows [OF ok _ same])
  show "invoices d' = map (\<lambda>r. if inv_id r = i then g r else r) (invoices d)"
    using inv by (simp add: put_id_def update_where_def)
  fix r assume r: "r \<in> set (invoices d)"
  have "r = row" if "inv_id r = i"
    using distinct_lookup [of inv_id "invoices d" r] ok r find that by (auto simp: books_ok_def ids_ok_def)
  then show "inv_id (if inv_id r = i then g r else r) = inv_id r \<and> aggregate_ok d (if inv_id r = i then g r else r)
      \<and> (inv_deletedAt (if inv_id r = i then g r else r) = None \<longrightarrow> status_ok d (if inv_id r = i then g r else r))"
    using g books_row [OF ok r] by auto
qed

lemma adjustInvoiceLateFee_result:
  assumes "adjustInvoiceLateFee req parsed now d = (r, d1)"
  shows "(\<exists>e. r = Inl e) \<and> d1 = d
    \<or> (\<exists>i fee row previous. parsed = Inr (i, Some fee) \<and> 0 \<le> fee \<and> lockInvoice i d = Some row
         \<and> inv_lateFeeCents row = Some previous \<and> r = Inr (i, fee)
         \<and> \<not> (\<exists>x. evaluateInvoiceSettlement \<lparr>oi_totalCents = inv_totalCents row - previous + fee,
                oi_amountPaidCents = inv_amountPaidCents row, oi_creditedCents = sumCreditedCents i d\<rparr> = Overpaid x)
         \<and> invoices d1 = put_id inv_id i (set_late_fee row fee (inv_totalCents row - previous + fee)
              (settled_amounts (inv_totalCents row - previous + fee) (inv_amountPaidCents row) (sumCreditedCents i d)) now)
              (invoices d)
         \<and> payments d1 = payments d \<and> creditNotes d1 = creditNotes d)"
  using assms
  by (auto simp: adjustInvoiceLateFee_def Let_def readInvoiceCreditedCents_eq settled_amounts_def dest: lockInvoice_id
      split: sum.splits option.splits if_splits prod.splits)

lemma adjustInvoiceLateFee_books:
  assumes ok: "books_ok d"
  shows "books_ok (snd (adjustInvoiceLateFee req parsed now d))"
proof -
  obtain r d1 where c: "adjustInvoiceLateFee req parsed now d = (r, d1)" by fastforce
  show ?thesis using adjustInvoiceLateFee_result [OF c]
  proof (elim disjE exE conjE)
    assume "d1 = d" then show ?thesis using ok c by simp
  next
    fix i :: ident and fee previous :: int and row :: invoice_row
    let ?tot = "inv_totalCents row - previous + fee"
    let ?s = "settled_amounts ?tot (inv_amountPaidCents row) (sumCreditedCents i d)"
    let ?g = "set_late_fee row fee ?tot ?s now"
    assume fee: "0 \<le> fee" and lock: "lockInvoice i d = Some row" and prev: "inv_lateFeeCents row = Some previous"
      and nover: "\<not> (\<exists>x. evaluateInvoiceSettlement \<lparr>oi_totalCents = ?tot,
                oi_amountPaidCents = inv_amountPaidCents row, oi_creditedCents = sumCreditedCents i d\<rparr> = Overpaid x)"
      and t: "invoices d1 = put_id inv_id i ?g (invoices d)"
        "payments d1 = payments d" "creditNotes d1 = creditNotes d"
    note row = locked_row [OF ok lock]
    have paid: "inv_amountPaidCents row \<le> ?tot" using nover overpaid_iff by (metis not_less outstanding_input.select_convs(1,2))
    have issued: "inv_status row \<noteq> Draft" using row(4) prev by (auto simp: aggregate_ok_def)
    have "aggregate_ok d (?g row)"
      using row(4) paid fee prev issued by (simp add: aggregate_ok_def set_late_fee_def)
    moreover have "status_ok d (?g row)" using row(2) issued by (simp add: status_ok_def set_late_fee_def)
    moreover have "find_id inv_id i (invoices d) = Some row" using lock by (simp add: lockInvoice_Some)
    moreover have "inv_id (?g row) = inv_id row" by (simp add: set_late_fee_def)
    ultimately have "books_ok d1" using books_put_row [OF ok _ t, of row] by blast
    then show ?thesis using c by simp
  qed
qed

lemma softDeleteInvoice_books:
  assumes ok: "books_ok d"
  shows "books_ok (snd (softDeleteInvoice req parsed now d))"
proof -
  have "books_ok (d\<lparr>invoices := put_id inv_id i (\<lambda>r. r\<lparr>inv_deletedAt := Some now\<rparr>) (invoices d)\<rparr>)"
    if lock: "lockInvoice i d = Some row" for i row
  proof -
    have find: "find_id inv_id i (invoices d) = Some row" using lock by (simp add: lockInvoice_Some)
    have "aggregate_ok d (row\<lparr>inv_deletedAt := Some now\<rparr>)"
      using locked_row(4) [OF ok lock] by (simp add: aggregate_ok_def)
    moreover have "inv_deletedAt (row\<lparr>inv_deletedAt := Some now\<rparr>) = None \<Longrightarrow> status_ok d (row\<lparr>inv_deletedAt := Some now\<rparr>)"
      by simp
    ultimately show ?thesis
      by (intro books_put_row [OF ok find, where g = "\<lambda>r. r\<lparr>inv_deletedAt := Some now\<rparr>"]) simp_all
  qed
  then show ?thesis using ok by (auto simp: softDeleteInvoice_def Let_def split: sum.splits option.splits)
qed

text \<open>Restoring keeps the books when the row's status still agrees with what its credit notes say.\<close>

definition restorable :: "ident \<Rightarrow> db \<Rightarrow> bool" where
  "restorable i d \<longleftrightarrow> (case find_id inv_id i (invoices d) of None \<Rightarrow> True | Some r \<Rightarrow> status_ok d r)"

lemma restoreInvoice_books:
  assumes ok: "books_ok d" and agrees: "\<And>i. parsed = Inr i \<Longrightarrow> restorable i d"
  shows "books_ok (snd (restoreInvoice req parsed d))"
proof -
  have "books_ok (d\<lparr>invoices := put_id inv_id i (\<lambda>r. r\<lparr>inv_deletedAt := None\<rparr>) (invoices d)\<rparr>)"
    if p: "parsed = Inr i" and find: "find_id inv_id i (invoices d) = Some row" for i row
  proof -
    have "row \<in> set (invoices d)" using find by (rule invoice_table.lookup_in)
    then have "aggregate_ok d row" using books_row [OF ok] by blast
    then have "aggregate_ok d (row\<lparr>inv_deletedAt := None\<rparr>)" by (simp add: aggregate_ok_def)
    moreover have "status_ok d (row\<lparr>inv_deletedAt := None\<rparr>)"
      using agrees [OF p] find by (simp add: restorable_def status_ok_def)
    ultimately show ?thesis
      by (intro books_put_row [OF ok find, where g = "\<lambda>r. r\<lparr>inv_deletedAt := None\<rparr>"]) simp_all
  qed
  then show ?thesis using ok
    by (auto simp: restoreInvoice_def Let_def simp del: resolveRestoreBlocker.simps split: sum.splits option.splits if_splits)
qed

subsection \<open>The sweep as a map over rows\<close>

definition charged :: "int \<Rightarrow> invoice_row \<Rightarrow> invoice_row" where
  "charged fee r = r\<lparr>inv_lateFeeCents := Some fee, inv_totalCents := inv_totalCents r + fee, inv_pdfUploadId := None\<rparr>"

definition fee_candidate :: "db \<Rightarrow> invoice_row \<Rightarrow> late_fee_candidate" where
  "fee_candidate d r =
     \<lparr>lfc_status = inv_status r, lfc_dueDate = inv_dueDate r, lfc_paidAt = inv_paidAt r,
      lfc_totalCents = inv_totalCents r, lfc_amountPaidCents = inv_amountPaidCents r,
      lfc_creditedCents = sumCreditedCents (inv_id r) d, lfc_lateFeeCents = inv_lateFeeCents r\<rparr>"

definition is_candidate :: "jsdate \<Rightarrow> invoice_row \<Rightarrow> bool" where
  "is_candidate now r \<longleftrightarrow> inv_status r \<noteq> Draft \<and> inv_paidAt r = None \<and> inv_lateFeeCents r = None
     \<and> (case inv_dueDate r of None \<Rightarrow> False | Some due \<Rightarrow> due < toUtcDay now) \<and> inv_deletedAt r = None"

definition swept :: "jsdate \<Rightarrow> db \<Rightarrow> invoice_row \<Rightarrow> invoice_row" where
  "swept now d r =
     (if is_candidate now r
      then case assessLateFee (fee_candidate d r) (getLateFeePolicy d) now of
             Charge fee days \<Rightarrow> charged fee r
           | No_charge x \<Rightarrow> r
      else r)"

lemma credited_totals_eq: "getInvoiceCreditedTotals i d = sumCreditedCents i d"
proof -
  have "(\<lambda>c. cn_deletedAt c = None \<and> cn_invoiceId c = i) = live_credit i" by (auto simp: live_credit_def)
  then show ?thesis by (simp add: getInvoiceCreditedTotals_def Let_def sumCreditedCents_def sum_where_def)
qed

lemma candidates_eq:
  "getLateFeeCandidates now d = map (\<lambda>r. (inv_id r, fee_candidate d r)) (filter (is_candidate now) (invoices d))"
  by (simp add: getLateFeeCandidates_def fee_candidate_def is_candidate_def [abs_def] credited_totals_eq)

lemma charge_eq: "snd (chargeLateFee i fee d) = d\<lparr>invoices := update_where (chargeable i) (charged fee) (invoices d)\<rparr>"
  by (simp add: chargeLateFee_def charged_def [abs_def])

definition charge_if_due :: "late_fee_policy \<Rightarrow> jsdate \<Rightarrow> late_fee_candidate option \<Rightarrow> invoice_row \<Rightarrow> invoice_row" where
  "charge_if_due policy now c r =
     (case c of None \<Rightarrow> r | Some x \<Rightarrow>
        (case assessLateFee x policy now of
           Charge fee days \<Rightarrow> if chargeable (inv_id r) r then charged fee r else r
         | No_charge y \<Rightarrow> r))"

lemma apply_candidate_tables:
  "invoices (apply_candidate policy now d (i, c))
     = map (\<lambda>r. if inv_id r = i then charge_if_due policy now (Some c) r else r) (invoices d)"
  "payments (apply_candidate policy now d x) = payments d" "creditNotes (apply_candidate policy now d x) = creditNotes d"
  "settings (apply_candidate policy now d x) = settings d" "lineItems (apply_candidate policy now d x) = lineItems d"
proof -
  show "invoices (apply_candidate policy now d (i, c))
      = map (\<lambda>r. if inv_id r = i then charge_if_due policy now (Some c) r else r) (invoices d)"
  proof (cases "assessLateFee c policy now")
    case (Charge fee days)
    have "invoices (apply_candidate policy now d (i, c)) = invoices (snd (chargeLateFee i fee d))"
      using Charge by (simp add: apply_candidate_def split: prod.splits bool.splits)
    also have "\<dots> = map (\<lambda>r. if inv_id r = i then charge_if_due policy now (Some c) r else r) (invoices d)"
      using Charge by (auto simp: charge_eq update_where_def charge_if_due_def chargeable_def)
    finally show ?thesis .
  next
    case (No_charge y)
    then show ?thesis by (simp add: apply_candidate_def charge_if_due_def if_distrib cong: if_cong)
  qed
  show "payments (apply_candidate policy now d x) = payments d" "creditNotes (apply_candidate policy now d x) = creditNotes d"
    "settings (apply_candidate policy now d x) = settings d" "lineItems (apply_candidate policy now d x) = lineItems d"
    by (auto simp: apply_candidate_def chargeLateFee_def split: late_fee_assessment.splits bool.splits)
qed

lemma charge_keeps_id [simp]: "inv_id (charge_if_due policy now c r) = inv_id r"
  by (simp add: charge_if_due_def charged_def split: option.splits late_fee_assessment.splits)

lemma fold_candidates_all:
  "distinct (map fst cs) \<Longrightarrow>
    invoices (foldl (apply_candidate policy now) d cs)
      = map (\<lambda>r. charge_if_due policy now (map_of cs (inv_id r)) r) (invoices d)
    \<and> payments (foldl (apply_candidate policy now) d cs) = payments d
    \<and> creditNotes (foldl (apply_candidate policy now) d cs) = creditNotes d
    \<and> settings (foldl (apply_candidate policy now) d cs) = settings d"
proof (induction cs arbitrary: d)
  case (Cons x cs)
  obtain i c where x: "x = (i, c)" by fastforce
  have rest: "distinct (map fst cs)" and i: "map_of cs i = None" using Cons.prems x by (auto simp: map_of_eq_None_iff)
  from Cons.IH [OF rest, of "apply_candidate policy now d x"] show ?case
    using i unfolding x by (simp add: apply_candidate_tables charge_if_due_def [of _ _ None])
qed (simp add: charge_if_due_def)

lemma fold_candidates:
  assumes "distinct (map fst cs)"
  shows "invoices (foldl (apply_candidate policy now) d cs)
      = map (\<lambda>r. charge_if_due policy now (map_of cs (inv_id r)) r) (invoices d)"
    and "payments (foldl (apply_candidate policy now) d cs) = payments d"
    and "creditNotes (foldl (apply_candidate policy now) d cs) = creditNotes d"
    and "settings (foldl (apply_candidate policy now) d cs) = settings d"
  using fold_candidates_all [OF assms, of policy now d] by simp_all

lemma sweep_is_map:
  assumes "distinct (map inv_id (invoices d))"
  shows "invoices (applyLateFees now d) = map (swept now d) (invoices d)"
    and "payments (applyLateFees now d) = payments d" "creditNotes (applyLateFees now d) = creditNotes d"
    and "settings (applyLateFees now d) = settings d"
proof -
  let ?policy = "getLateFeePolicy d" and ?cs = "getLateFeeCandidates now d"
  have dist: "distinct (map fst ?cs)"
    using distinct_map_filter [OF assms, of "is_candidate now"] by (simp add: candidates_eq comp_def)
  have at: "map_of ?cs (inv_id r) = (if is_candidate now r then Some (fee_candidate d r) else None)"
    if r: "r \<in> set (invoices d)" for r
  proof (cases "is_candidate now r")
    case True
    then have "(inv_id r, fee_candidate d r) \<in> set ?cs" using r by (auto simp: candidates_eq)
    then show ?thesis using dist True by simp
  next
    case False
    have "x = r" if "x \<in> set (invoices d)" "inv_id x = inv_id r" for x
      using that r assms by (metis distinct_lookup option.inject)
    then have "inv_id r \<notin> fst ` set ?cs" using False by (auto simp: candidates_eq)
    then show ?thesis using False by (simp add: map_of_eq_None_iff)
  qed
  have off: "swept now d r = r" if "?policy = PolicyOff" for r using that by (simp add: swept_def assessLateFee_def)
  have one: "charge_if_due ?policy now (map_of ?cs (inv_id r)) r = swept now d r" if r: "r \<in> set (invoices d)" for r
    unfolding at [OF r]
    by (auto simp: charge_if_due_def swept_def is_candidate_def chargeable_def split: late_fee_assessment.splits)
  show "invoices (applyLateFees now d) = map (swept now d) (invoices d)"
    using off one fold_candidates(1) [OF dist, of ?policy now d]
    by (cases "?policy = PolicyOff") (simp_all add: applyLateFees_def map_idI)
  show "payments (applyLateFees now d) = payments d" "creditNotes (applyLateFees now d) = creditNotes d"
    "settings (applyLateFees now d) = settings d"
    using fold_candidates(2-4) [OF dist, of ?policy now d] by (simp_all add: applyLateFees_def Let_def)
qed

lemma swept_cases:
  obtains "swept now d r = r" | fee days where "is_candidate now r" "swept now d r = charged fee r"
    "assessLateFee (fee_candidate d r) (getLateFeePolicy d) now = Charge fee days"
proof (cases "is_candidate now r")
  case True
  then show ?thesis using that
    by (cases "assessLateFee (fee_candidate d r) (getLateFeePolicy d) now") (simp_all add: swept_def)
qed (use that in \<open>simp add: swept_def\<close>)

lemma applyLateFees_books:
  assumes ok: "books_ok d"
  shows "books_ok (applyLateFees now d)"
proof -
  have dist: "distinct (map inv_id (invoices d))" using ok by (simp add: books_ok_def ids_ok_def)
  note sweep = sweep_is_map [OF dist, of now]
  show ?thesis
  proof (rule books_map_rows [OF ok sweep(1-3)])
    fix r assume r: "r \<in> set (invoices d)"
    show "inv_id (swept now d r) = inv_id r \<and> aggregate_ok d (swept now d r)
        \<and> (inv_deletedAt (swept now d r) = None \<longrightarrow> status_ok d (swept now d r))"
    proof (cases rule: swept_cases [of now d r])
      case 1
      then show ?thesis using books_row [OF ok r] by simp
    next
      case (2 fee days)
      have c: "inv_status r \<noteq> Draft" "inv_paidAt r = None" "inv_lateFeeCents r = None" "inv_deletedAt r = None"
        using 2(1) by (simp_all add: is_candidate_def)
      have ag: "aggregate_ok d r" and st: "status_ok d r" using books_row [OF ok r] c(4) by blast+
      have fee: "0 < fee" and out: "inv_amountPaidCents r + sumCreditedCents (inv_id r) d < inv_totalCents r"
        using late_fee_charge [OF 2(3)] by (auto simp: fee_candidate_def getInvoiceOutstandingCents_def)
      have "aggregate_ok d (charged fee r)" using ag fee c by (simp add: aggregate_ok_def charged_def)
      moreover have "inv_status r \<noteq> Paid" using st c unfolding status_ok_def by blast
      then have "status_ok d (charged fee r)" using c out fee by (simp add: status_ok_def charged_def settled_amounts_iff)
      ultimately show ?thesis unfolding 2(2) by (simp add: charged_def)
    qed
  qed
qed

lemma swept_again:
  assumes "creditNotes d1 = creditNotes d" "settings d1 = settings d"
  shows "is_candidate now (swept now d r) \<Longrightarrow>
    \<exists>x. assessLateFee (fee_candidate d1 (swept now d r)) (getLateFeePolicy d1) now = No_charge x"
proof (cases rule: swept_cases [of now d r])
  case 1
  assume c: "is_candidate now (swept now d r)"
  have "fee_candidate d1 r = fee_candidate d r" "getLateFeePolicy d1 = getLateFeePolicy d"
    using assms by (simp_all add: fee_candidate_def sumCreditedCents_def getLateFeePolicy_def)
  moreover have "charged fee r \<noteq> r" if "is_candidate now r" for fee
    using that by (auto simp: is_candidate_def charged_def dest!: arg_cong [where f = inv_lateFeeCents])
  ultimately show ?thesis
    using c 1 by (auto simp: swept_def split: if_splits late_fee_assessment.splits)
next
  case (2 fee days)
  assume "is_candidate now (swept now d r)"
  then show ?thesis unfolding 2(2) by (simp add: is_candidate_def charged_def)
qed

lemma sweep_without_charges:
  "\<forall>c\<in>set cs. \<exists>x. assessLateFee (snd c) policy now = No_charge x \<Longrightarrow> foldl (apply_candidate policy now) d cs = d"
  by (induction cs arbitrary: d) (auto simp: apply_candidate_def)

section \<open>Properties\<close>

text \<open>
  C19. An issued invoice is frozen: editing never changes an invoice that has left draft, nor any of its
  lines, whichever invoice the form names and whoever submits it.
\<close>

theorem issued_invoices_are_frozen:
  assumes "books_ok d" and "updateInvoice store req parsed lineIds d = (x, d1)"
    and "r \<in> set (invoices d)" and "inv_status r \<noteq> Draft"
  shows "r \<in> set (invoices d1)
    \<and> filter (\<lambda>l. li_invoiceId l = Some (inv_id r)) (lineItems d1)
       = filter (\<lambda>l. li_invoiceId l = Some (inv_id r)) (lineItems d)"
proof (cases x)
  case (Inl e)
  then show ?thesis using updateInvoice_result [OF assms(2)] assms(3) by auto
next
  case (Inr k)
  from updateInvoice_result [OF assms(2)] Inr obtain f ps where f: "parsed = Inr f"
    and inv: "invoices d1 = update_where (live_draft (if_subject f))
        (put_form f (calculateInvoiceTotal (toLineItemInputs (if_lineItems f) ps) (toInvoiceDiscount (if_discount f)))) (invoices d)"
    and lines: "lineItems d1 = lineItems (writeInvoiceLineItems store lineIds (if_subject f) (toInvoiceLineItemRows (if_lineItems f) ps)
        (toInvoiceDiscount (if_discount f)) (d\<lparr>lineItems := filter (\<lambda>l. li_invoiceId l \<noteq> Some (if_subject f)) (lineItems d)\<rparr>))"
    by auto
  obtain row where row: "lockInvoice (if_subject f) d = Some row" "inv_status row = Draft"
    using assms(2) Inr f by (auto simp: updateInvoice_def isInvoiceEditable_def split: sum.splits option.splits if_splits)
  have other: "inv_id r \<noteq> if_subject f"
    using same_id_same_row [OF assms(1) row(1) assms(3)] row(2) assms(4) by auto
  then have "r \<in> set (invoices d1)" using assms(3) by (force simp: inv update_where_def live_draft_def)
  moreover have "filter (\<lambda>l. li_invoiceId l = Some (inv_id r))
      (map (\<lambda>(i, rr). line_row store (if_subject f) (lineIds i) (int i) rr (nth_totals ts i)) ps') = []" for ts ps'
    using other by (auto simp: filter_empty_conv line_row_def)
  then have "filter (\<lambda>l. li_invoiceId l = Some (inv_id r)) (lineItems d1)
      = filter (\<lambda>l. li_invoiceId l = Some (inv_id r)) (filter (\<lambda>l. li_invoiceId l \<noteq> Some (if_subject f)) (lineItems d))"
    by (simp add: lines writeInvoiceLineItems_def Let_def insert_batches_eq concat_chunks)
  moreover have "\<dots> = filter (\<lambda>l. li_invoiceId l = Some (inv_id r)) (lineItems d)"
    using other by (simp add: filter_filter) (rule filter_cong, auto)
  ultimately show ?thesis by simp
qed

definition sample_invoice_form :: invoice_form where
  "sample_invoice_form =
     \<lparr>if_subject = ''i1'', if_currency = ''EUR'', if_templateId = None, if_issueDate = None, if_dueDate = None,
      if_notes = [], if_discount = \<lparr>dv_kind = KindNone, dv_percentage = None, dv_amount = None\<rparr>,
      if_lineItems = [\<lparr>lf_description = ''Design'', lf_unit = ''h'', lf_quantity = 2, lf_unitPrice = 505,
        lf_discount = \<lparr>dv_kind = KindNone, dv_percentage = None, dv_amount = None\<rparr>, lf_taxRateId = None\<rparr>]\<rparr>"

lemma issued_invoices_are_frozen_witness:
  "sample_invoice \<in> set (invoices (snd (updateInvoice id owner_request (Inr sample_invoice_form) fresh_line_id sample_db)))"
proof -
  have "sample_invoice \<in> set (invoices sample_db)" "inv_status sample_invoice \<noteq> Draft" by (simp_all add: sample_defs)
  from issued_invoices_are_frozen [OF sample_books surjective_pairing this] show ?thesis by blast
qed

text \<open>
  A created invoice is what the form says: it is found under the new id as an unpaid draft of the
  project's client, numbered with the counter the settings held, which moves on by one; its totals are
  the totals of the submitted lines at the current tax rates, and its stored lines add up to them.
\<close>

theorem created_invoice_matches_form:
  assumes "newId \<notin> inv_id ` set (invoices d)" "\<forall>l\<in>set (lineItems d). li_invoiceId l \<noteq> Some newId"
    and "valid_invoice_form d f"
    and "createInvoice store req (Inr f) newId lineIds token d = (Inr k, d1)"
  shows "\<exists>row s ps. k = newId \<and> find_id inv_id newId (invoices d1) = Some row \<and> settings d = Some s
    \<and> getTaxPercentages (if_lineItems f) d = Inr ps
    \<and> inv_status row = Draft \<and> inv_amountPaidCents row = 0 \<and> inv_projectId row = Some (if_subject f)
    \<and> inv_number row = generateInvoiceNumber (set_invoicePrefix s) (set_numberPaddingWidth s) (set_nextInvoiceNumber s)
    \<and> settings d1 = Some (s\<lparr>set_nextInvoiceNumber := set_nextInvoiceNumber s + 1\<rparr>)
    \<and> inv_totalCents row
        = totalCents (calculateInvoiceTotal (toLineItemInputs (if_lineItems f) ps) (toInvoiceDiscount (if_discount f)))
    \<and> sum_list (map li_totalCents (filter (live_line newId) (lineItems d1))) = inv_totalCents row
    \<and> sum_list (map li_taxAmountCents (filter (live_line newId) (lineItems d1))) = inv_taxAmountCents row
    \<and> (\<forall>r\<in>set (invoices d). r \<in> set (invoices d1))"
proof -
  from createInvoice_result [OF assms(4)] obtain project ps number d0 where
    p: "live_project (if_subject f) d = Some project" and ps: "getTaxPercentages (if_lineItems f) d = Inr ps"
    and claim: "claimInvoiceNumber d = Inr (number, d0)" and k: "k = newId"
    and inv: "invoices d1 = add_row (put_form f (calculateInvoiceTotal (toLineItemInputs (if_lineItems f) ps)
               (toInvoiceDiscount (if_discount f))) (blank_draft newId project number token)) (invoices d)"
    and set: "settings d1 = settings d0"
    and lines: "lineItems d1 = lineItems (writeInvoiceLineItems store lineIds newId (toInvoiceLineItemRows (if_lineItems f) ps)
               (toInvoiceDiscount (if_discount f)) d)"
    by auto
  let ?items = "toLineItemInputs (if_lineItems f) ps" and ?disc = "toInvoiceDiscount (if_discount f)"
  let ?row = "put_form f (calculateInvoiceTotal ?items ?disc) (blank_draft newId project number token)"
  have inputs: "map row_input (toInvoiceLineItemRows (if_lineItems f) ps) = ?items"
    by (simp add: toInvoiceLineItemRows_def toLineItemInputs_def row_input_def column_discount_round_trip comp_def
        del: toInvoiceDiscount.simps toInvoiceColumnDiscount.simps)
  have "find_id inv_id newId (invoices d1) = Some ?row"
    using invoice_table.lookup_add_fresh [of ?row "invoices d"] assms(1)
    by (simp add: inv put_form_def blank_draft_def)
  moreover obtain s where s: "settings d = Some s" "settings d1 = Some (s\<lparr>set_nextInvoiceNumber := set_nextInvoiceNumber s + 1\<rparr>)"
    "number = generateInvoiceNumber (set_invoicePrefix s) (set_numberPaddingWidth s) (set_nextInvoiceNumber s)"
    using claim set by (auto simp: claimInvoiceNumber_def Let_def split: option.splits)
  moreover have "prj_id project = if_subject f"
    using p by (auto simp: live_project_def split: option.splits if_splits dest: find_id_Some)
  moreover have amounts: "map (\<lambda>l. (li_subtotalCents l, li_taxAmountCents l, li_totalCents l)) (filter (live_line newId) (lineItems d1))
      = map (\<lambda>t. (lt_subtotalCents t, lt_taxAmountCents t, lt_totalCents t)) (calculateInvoiceLineTotals ?items ?disc)"
    unfolding lines written_lines(2) [OF assms(2)] inputs ..
  have "sum_list (map li_totalCents (filter (live_line newId) (lineItems d1))) = totalCents (calculateInvoiceTotal ?items ?disc)"
    "sum_list (map li_taxAmountCents (filter (live_line newId) (lineItems d1))) = taxAmountCents (calculateInvoiceTotal ?items ?disc)"
    using arg_cong [OF amounts, of "\<lambda>xs. sum_list (map (snd \<circ> snd) xs)"]
      arg_cong [OF amounts, of "\<lambda>xs. sum_list (map (fst \<circ> snd) xs)"] assms(3) ps line_totals_sum [of ?items ?disc]
    by (simp_all add: comp_def valid_invoice_form_def valid_items_def)
  ultimately show ?thesis
    using k ps by (intro exI [of _ ?row] exI [of _ s] exI [of _ ps])
      (simp add: inv put_form_def blank_draft_def invoice_table.rows_add)
qed

definition sample_project_form :: invoice_form where
  "sample_project_form = sample_invoice_form\<lparr>if_subject := ''p1''\<rparr>"

lemma created_invoice_matches_form_witness:
  "\<exists>row. find_id inv_id ''i2'' (invoices (snd (createInvoice id owner_request (Inr sample_project_form) ''i2'' fresh_line_id ''tok2'' sample_db)))
      = Some row \<and> inv_number row = ''INV-0002''"
proof -
  let ?c = "createInvoice id owner_request (Inr sample_project_form) ''i2'' fresh_line_id ''tok2'' sample_db"
  have items: "toLineItemInputs (if_lineItems sample_project_form) []
      = [\<lparr>quantity = 2, unitPriceCents = 505, line_discount = None, taxPercentage = 0\<rparr>]"
    by (simp add: sample_project_form_def sample_invoice_form_def toLineItemInputs_def getTaxPercentage_def)
  have ps: "getTaxPercentages (if_lineItems sample_project_form) sample_db = Inr []"
    by (simp add: sample_project_form_def sample_invoice_form_def getTaxPercentages_def wanted_tax_rates_def
        List.map_filter_simps)
  have "valid_items [\<lparr>quantity = 2, unitPriceCents = 505, line_discount = None, taxPercentage = 0\<rparr>] None" by code_simp
  then have valid: "valid_invoice_form sample_db sample_project_form"
    unfolding valid_invoice_form_def ps sum.case items
    by (simp add: sample_project_form_def sample_invoice_form_def)
  have fresh: "''i2'' \<notin> inv_id ` set (invoices sample_db)" "\<forall>l\<in>set (lineItems sample_db). li_invoiceId l \<noteq> Some ''i2''"
    by (simp_all add: sample_defs)
  have "\<exists>k. fst ?c = Inr k"
    using ps by (simp add: createInvoice_def owner_request_def requireInvoiceWrite_def require_role_def getActionContext_def
        sample_project_form_def sample_invoice_form_def live_project_def sample_defs row_simps Let_def
        claimInvoiceNumber_def)
  then obtain k where "?c = (Inr k, snd ?c)" by (metis prod.collapse)
  from created_invoice_matches_form [OF fresh valid this]
  obtain row s where "find_id inv_id ''i2'' (invoices (snd ?c)) = Some row" "settings sample_db = Some s"
    "inv_number row = generateInvoiceNumber (set_invoicePrefix s) (set_numberPaddingWidth s) (set_nextInvoiceNumber s)"
    by auto
  moreover have "settings sample_db = Some sample_settings" by (simp add: sample_db_def)
  moreover have "generateInvoiceNumber (set_invoicePrefix sample_settings) (set_numberPaddingWidth sample_settings)
      (set_nextInvoiceNumber sample_settings) = ''INV-0002''" by code_simp
  ultimately show ?thesis by auto
qed

text \<open>
  C18. The nightly late-fee sweep is a function of each row and runs once: it charges exactly the fees the
  policy assesses, touches nothing but the fee, the total and the rendered document of the invoices it
  charges, keeps the books, and running it again the same night changes nothing at all.
\<close>

theorem late_fee_sweep_runs_once:
  assumes "books_ok d"
  shows "invoices (applyLateFees now d) = map (swept now d) (invoices d)
    \<and> payments (applyLateFees now d) = payments d
    \<and> books_ok (applyLateFees now d)
    \<and> applyLateFees now (applyLateFees now d) = applyLateFees now d"
proof -
  have dist: "distinct (map inv_id (invoices d))" using assms by (simp add: books_ok_def ids_ok_def)
  note sweep = sweep_is_map [OF dist, of now]
  let ?d = "applyLateFees now d"
  have "\<exists>x. assessLateFee (snd c) (getLateFeePolicy ?d) now = No_charge x" if "c \<in> set (getLateFeeCandidates now ?d)" for c
    using that swept_again [OF sweep(3,4)] by (auto simp: candidates_eq sweep(1))
  then have "foldl (apply_candidate (getLateFeePolicy ?d) now) ?d (getLateFeeCandidates now ?d) = ?d"
    by (intro sweep_without_charges) blast
  then have "applyLateFees now ?d = ?d" unfolding applyLateFees_def [of now ?d] Let_def by simp
  then show ?thesis using sweep(1,2) applyLateFees_books [OF assms] by blast
qed

lemma late_fee_sweep_runs_once_witness:
  "map inv_lateFeeCents (invoices (applyLateFees 1705000000000 sample_db)) = [Some 35]
   \<and> applyLateFees 1705000000000 (applyLateFees 1705000000000 sample_db) = applyLateFees 1705000000000 sample_db"
proof
  show "map inv_lateFeeCents (invoices (applyLateFees 1705000000000 sample_db)) = [Some 35]" by code_simp
  show "applyLateFees 1705000000000 (applyLateFees 1705000000000 sample_db) = applyLateFees 1705000000000 sample_db"
    using late_fee_sweep_runs_once [OF sample_books] by blast
qed

end
