(* ===== verification/Workspace.thy ===== *)
theory Workspace
  imports InvoiceActions
begin

text \<open>
  The working records around the ledger (\<open>database/schema\<close>): tasks, time entries, expenses and recurring
  schedules. A workspace is the ledger tables together with these; the actions on them write their audit
  entries and events to the ledger's logs. Columns no modelled operation touches are left out.
\<close>

section \<open>Rows\<close>

datatype task_priority = Low | Normal | High | Urgent

datatype time_source = Timer | Manual

datatype cadence = Weekly | Monthly | Quarterly | Yearly

record task_row =
  tsk_id :: ident
  tsk_projectId :: ident
  tsk_title :: string
  tsk_description :: "string option"
  tsk_status :: task_status
  tsk_priority :: task_priority
  tsk_dueAt :: "jsdate option"
  tsk_completedAt :: "jsdate option"
  tsk_position :: int
  tsk_hourlyRateCents :: "int option"
  tsk_createdAt :: jsdate
  tsk_deletedAt :: "jsdate option"

record time_entry_row =
  te_id :: ident
  te_projectId :: ident
  te_taskId :: "ident option"
  te_userId :: "ident option"
  te_startedAt :: jsdate
  te_endedAt :: "jsdate option"
  te_durationSeconds :: "int option"
  te_billable :: bool
  te_hourlyRateOverrideCents :: "int option"
  te_hourlyRateSnapshotCents :: int
  te_description :: "string option"
  te_source :: time_source
  te_invoicedInId :: "ident option"
  te_deletedAt :: "jsdate option"

record expense_row =
  ex_id :: ident
  ex_projectId :: "ident option"
  ex_clientId :: "ident option"
  ex_amountCents :: int
  ex_currency :: string
  ex_category :: string
  ex_description :: string
  ex_spentAt :: jsdate
  ex_receiptUploadId :: "ident option"
  ex_rebillable :: bool
  ex_markupPercentage :: "jsnum option"
  ex_invoicedInId :: "ident option"
  ex_deletedAt :: "jsdate option"

text \<open>A line of the blueprint, and the schedule that carries it.\<close>

record blueprint_line =
  bl_description :: string
  bl_unit :: "string option"
  bl_quantity :: jsnum
  bl_unitPriceCents :: int
  bl_taxRateId :: "ident option"
  bl_taxPercentage :: jsnum
  bl_discount :: discount_columns

record schedule_row =
  rec_id :: ident
  rec_clientId :: ident
  rec_projectId :: "ident option"
  rec_templateId :: "ident option"
  rec_name :: string
  rec_status :: recurring_status
  rec_cadence :: cadence
  rec_cadenceDay :: "int option"
  rec_nextRunAt :: jsdate
  rec_lastRunAt :: "jsdate option"
  rec_endAfterCount :: "int option"
  rec_endByDate :: "jsdate option"
  rec_occurrencesGenerated :: int
  rec_autoSend :: bool
  rec_currency :: string
  rec_blueprint :: "blueprint_line list"
  rec_includedHours :: "int option"
  rec_overageRateCents :: "int option"
  rec_notes :: "string option"
  rec_deletedAt :: "jsdate option"

record workspace =
  ledger :: db
  tasks :: "task_row list"
  timeEntries :: "time_entry_row list"
  expenses :: "expense_row list"
  schedules :: "schedule_row list"

interpretation task_table: row_store tsk_id "find_id tsk_id" "put_id tsk_id" add_row
  by (rule row_store_lists)

interpretation time_entry_table: row_store te_id "find_id te_id" "put_id te_id" add_row
  by (rule row_store_lists)

interpretation schedule_table: row_store rec_id "find_id rec_id" "put_id rec_id" add_row
  by (rule row_store_lists)

lemma find_hit: "List.find p xs = Some x \<Longrightarrow> x \<in> set xs \<and> p x"
  by (metis find_Some_iff nth_mem)

section \<open>Logs\<close>

definition audited :: "string \<Rightarrow> actor \<Rightarrow> ident \<Rightarrow> workspace \<Rightarrow> workspace" where
  "audited event who target w =
     w\<lparr>ledger := writeAudit event (Some (actor_userId who)) (Some target) (ledger w)\<rparr>"

definition emitted :: "string \<Rightarrow> ident \<Rightarrow> ident option \<Rightarrow> workspace \<Rightarrow> workspace" where
  "emitted name subject user w = w\<lparr>ledger := emit name subject user (ledger w)\<rparr>"

lemma logged_tables [simp]:
  "tasks (audited e a t w) = tasks w" "timeEntries (audited e a t w) = timeEntries w"
  "expenses (audited e a t w) = expenses w" "schedules (audited e a t w) = schedules w"
  "tasks (emitted n s u w) = tasks w" "timeEntries (emitted n s u w) = timeEntries w"
  "expenses (emitted n s u w) = expenses w" "schedules (emitted n s u w) = schedules w"
  by (simp_all add: audited_def emitted_def)

lemma logged_ledger [simp]:
  "invoices (ledger (audited e a t w)) = invoices (ledger w)" "payments (ledger (audited e a t w)) = payments (ledger w)"
  "creditNotes (ledger (audited e a t w)) = creditNotes (ledger w)" "lineItems (ledger (audited e a t w)) = lineItems (ledger w)"
  "invoices (ledger (emitted n s u w)) = invoices (ledger w)" "payments (ledger (emitted n s u w)) = payments (ledger w)"
  "creditNotes (ledger (emitted n s u w)) = creditNotes (ledger w)" "lineItems (ledger (emitted n s u w)) = lineItems (ledger w)"
  by (simp_all add: audited_def emitted_def)

text \<open>The gates that spell their roles out as comparisons, as those of tasks and time entries do.\<close>

lemma owner_or_assistant:
  "bind_result (getActionContext req)
     (\<lambda>a. if actor_role a \<noteq> Owner \<and> actor_role a \<noteq> Assistant then Inl ''errors.forbidden'' else Inr a)
   = require_role [Owner, Assistant] req"
  unfolding require_role_def by (rule arg_cong [where f = "bind_result (getActionContext req)"]) auto

lemma owner_only:
  "bind_result (getActionContext req)
     (\<lambda>a. if actor_role a \<noteq> Owner then Inl ''errors.forbidden'' else Inr a)
   = require_role [Owner] req"
  unfolding require_role_def by (rule arg_cong [where f = "bind_result (getActionContext req)"]) auto

end
