(* ===== verification/TimeTracking.thy ===== *)
theory TimeTracking
  imports Workspace
begin

text \<open>
  Time tracking (\<open>features/timeTracking\<close>): the rate ladder, durations and amounts, and the six server
  actions on time entries. The zod result is an argument, as in the other actions; the partial unique
  index \<open>time_entries_running_timer_idx\<close> is written out where an action can run into it.
\<close>

section \<open>Rates and durations\<close>

datatype rate_source = Entry_rate | Task_rate | Project_rate | Client_rate | Settings_rate | No_rate

text \<open>A rung is \<open>None\<close> when there is no such record and \<open>Some None\<close> when the record has no rate.\<close>

fun first_rate :: "(rate_source \<times> int option) list \<Rightarrow> int \<times> rate_source" where
  "first_rate [] = (0, No_rate)"
| "first_rate ((source, rateCents) # rungs) = (case rateCents of Some r \<Rightarrow> (r, source) | None \<Rightarrow> first_rate rungs)"

definition resolveHourlyRate ::
  "int option option \<Rightarrow> int option option \<Rightarrow> int option option \<Rightarrow> int option option \<Rightarrow> int option option
    \<Rightarrow> int \<times> rate_source" where
  "resolveHourlyRate entry task project client sttngs =
     first_rate [(Entry_rate, Option.bind entry id), (Task_rate, Option.bind task id), (Project_rate, Option.bind project id),
       (Client_rate, Option.bind client id), (Settings_rate, Option.bind sttngs id)]"

definition computeDurationSeconds :: "jsdate \<Rightarrow> jsdate \<Rightarrow> int option" where
  "computeDurationSeconds startedAt endedAt =
     (let elapsed = endedAt - startedAt
      in if elapsed < 0 then None else Some \<lfloor>js_div (of_int elapsed) 1000\<rfloor>)"

definition calculateEntryAmountCents :: "int option \<Rightarrow> int \<Rightarrow> int" where
  "calculateEntryAmountCents durationSeconds hourlyRateCents =
     math_round (js_mul (js_div (of_int (case durationSeconds of None \<Rightarrow> 0 | Some s \<Rightarrow> s)) 3600) (of_int hourlyRateCents))"

section \<open>The actions\<close>

record timer_form =
  tf_projectId :: ident
  tf_taskId :: "ident option"
  tf_description :: string
  tf_billable :: bool
  tf_hourlyRate :: "int option"

record entry_form = timer_form +
  ef_id :: ident
  ef_startedAt :: jsdate
  ef_endedAt :: jsdate

definition requireTimeEntryWrite :: "request \<Rightarrow> actor result" where
  "requireTimeEntryWrite req =
     bind_result (getActionContext req)
       (\<lambda>a. if actor_role a \<noteq> Owner \<and> actor_role a \<noteq> Assistant then Inl ''errors.forbidden'' else Inr a)"

definition requireTimeEntryDelete :: "request \<Rightarrow> actor result" where
  "requireTimeEntryDelete req =
     bind_result (getActionContext req)
       (\<lambda>a. if actor_role a \<noteq> Owner then Inl ''errors.forbidden'' else Inr a)"

interpretation time_write: role_gate requireTimeEntryWrite "{Owner, Assistant}"
  using role_gate_require_role [of "[Owner, Assistant]"]
  by (simp add: requireTimeEntryWrite_def [abs_def] owner_or_assistant cong: if_cong)

interpretation time_delete: role_gate requireTimeEntryDelete "{Owner}"
  using role_gate_require_role [of "[Owner]"] by (simp add: requireTimeEntryDelete_def [abs_def] owner_only)

record rate_context =
  rc_projectId :: ident
  rc_taskId :: "ident option"
  rc_rateCents :: int
  rc_source :: rate_source

definition live_task :: "ident \<Rightarrow> workspace \<Rightarrow> task_row option" where
  "live_task k w = (case find_id tsk_id k (tasks w) of
     Some t \<Rightarrow> if tsk_deletedAt t = None then Some t else None | None \<Rightarrow> None)"

definition resolveEntryRate :: "'a timer_form_scheme \<Rightarrow> workspace \<Rightarrow> rate_context result" where
  "resolveEntryRate f w =
     (case live_project (tf_projectId f) (ledger w) of
        None \<Rightarrow> Inl ''timeTracking.errors.projectNotFound''
      | Some p \<Rightarrow>
     (case find_id cli_id (prj_clientId p) (clients (ledger w)) of
        None \<Rightarrow> Inl ''timeTracking.errors.projectNotFound''
      | Some c \<Rightarrow>
     (let task = Option.bind (tf_taskId f) (\<lambda>k. live_task k w)
      in if tf_taskId f \<noteq> None \<and> task = None then Inl ''timeTracking.errors.taskNotFound''
         else if (case task of None \<Rightarrow> False | Some t \<Rightarrow> tsk_projectId t \<noteq> prj_id p)
         then Inl ''timeTracking.errors.taskProjectMismatch''
         else let (rate, source) = resolveHourlyRate (Some (tf_hourlyRate f)) (map_option tsk_hourlyRateCents task)
                    (Some (prj_hourlyRateCents p)) (Some (cli_defaultHourlyRateCents c))
                    (map_option set_defaultHourlyRateCents (settings (ledger w)))
              in Inr \<lparr>rc_projectId = prj_id p, rc_taskId = map_option tsk_id task, rc_rateCents = rate,
                      rc_source = source\<rparr>)))"

definition runs_for :: "ident \<Rightarrow> time_entry_row \<Rightarrow> bool" where
  "runs_for u e \<longleftrightarrow> te_userId e = Some u \<and> te_endedAt e = None \<and> te_deletedAt e = None"

definition some_text :: "string \<Rightarrow> string option" where
  "some_text s = (if s = [] then None else Some s)"

text \<open>The rows a started timer and a manual entry are inserted as.\<close>

definition timer_row :: "ident \<Rightarrow> actor \<Rightarrow> timer_form \<Rightarrow> rate_context \<Rightarrow> jsdate \<Rightarrow> time_entry_row" where
  "timer_row newId actor f rate now =
     \<lparr>te_id = newId, te_projectId = rc_projectId rate, te_taskId = rc_taskId rate,
      te_userId = Some (actor_userId actor), te_startedAt = now, te_endedAt = None,
      te_durationSeconds = None, te_billable = tf_billable f, te_hourlyRateOverrideCents = tf_hourlyRate f,
      te_hourlyRateSnapshotCents = rc_rateCents rate, te_description = some_text (tf_description f),
      te_source = Timer, te_invoicedInId = None, te_deletedAt = None\<rparr>"

definition manual_row :: "ident \<Rightarrow> actor \<Rightarrow> entry_form \<Rightarrow> rate_context \<Rightarrow> int \<Rightarrow> time_entry_row" where
  "manual_row newId actor f rate seconds =
     \<lparr>te_id = newId, te_projectId = rc_projectId rate, te_taskId = rc_taskId rate,
      te_userId = Some (actor_userId actor), te_startedAt = ef_startedAt f, te_endedAt = Some (ef_endedAt f),
      te_durationSeconds = Some seconds, te_billable = tf_billable f, te_hourlyRateOverrideCents = tf_hourlyRate f,
      te_hourlyRateSnapshotCents = rc_rateCents rate, te_description = some_text (tf_description f),
      te_source = Manual, te_invoicedInId = None, te_deletedAt = None\<rparr>"

definition startTimer :: "request \<Rightarrow> timer_form result \<Rightarrow> ident \<Rightarrow> jsdate \<Rightarrow> workspace \<Rightarrow> ident result \<times> workspace" where
  "startTimer req parsed newId now w =
     (case requireTimeEntryWrite req of
        Inl e \<Rightarrow> (Inl e, w)
      | Inr actor \<Rightarrow>
     (case parsed of
        Inl m \<Rightarrow> (Inl m, w)
      | Inr f \<Rightarrow>
          if list_ex (runs_for (actor_userId actor)) (timeEntries w)
          then (Inl ''timeTracking.errors.timerAlreadyRunning'', w)
          else
     (case resolveEntryRate f w of
        Inl e \<Rightarrow> (Inl e, w)
      | Inr rate \<Rightarrow>
          (Inr newId, audited ''time_entry.timer_started'' actor newId
             (w\<lparr>timeEntries := add_row (timer_row newId actor f rate now) (timeEntries w)\<rparr>)))))"

definition stopTimer :: "request \<Rightarrow> ident result \<Rightarrow> jsdate \<Rightarrow> workspace \<Rightarrow> ident result \<times> workspace" where
  "stopTimer req parsed now w =
     (case requireTimeEntryWrite req of
        Inl e \<Rightarrow> (Inl e, w)
      | Inr actor \<Rightarrow>
     (case parsed of
        Inl m \<Rightarrow> (Inl m, w)
      | Inr k \<Rightarrow>
     (case List.find (\<lambda>e. te_id e = k \<and> runs_for (actor_userId actor) e) (timeEntries w) of
        None \<Rightarrow> (Inl ''timeTracking.errors.timerNotRunning'', w)
      | Some running \<Rightarrow>
     (case computeDurationSeconds (te_startedAt running) now of
        None \<Rightarrow> (Inl ''timeTracking.errors.endBeforeStart'', w)
      | Some seconds \<Rightarrow>
          (Inr (te_id running),
           emitted ''time.logged'' (te_id running) (Some (actor_userId actor))
            (audited ''time_entry.timer_stopped'' actor (te_id running)
             (w\<lparr>timeEntries := update_where (\<lambda>e. te_id e = te_id running \<and> te_endedAt e = None)
                 (\<lambda>e. e\<lparr>te_endedAt := Some now, te_durationSeconds := Some seconds\<rparr>) (timeEntries w)\<rparr>)))))))"

text \<open>What a written form puts into the row it creates or edits.\<close>

definition put_entry :: "entry_form \<Rightarrow> rate_context \<Rightarrow> int \<Rightarrow> time_entry_row \<Rightarrow> time_entry_row" where
  "put_entry f rate seconds e =
     e\<lparr>te_projectId := rc_projectId rate, te_taskId := rc_taskId rate, te_startedAt := ef_startedAt f,
       te_endedAt := Some (ef_endedAt f), te_durationSeconds := Some seconds, te_billable := tf_billable f,
       te_hourlyRateOverrideCents := tf_hourlyRate f, te_hourlyRateSnapshotCents := rc_rateCents rate,
       te_description := some_text (tf_description f)\<rparr>"

definition createManualTimeEntry ::
  "request \<Rightarrow> entry_form result \<Rightarrow> ident \<Rightarrow> workspace \<Rightarrow> ident result \<times> workspace" where
  "createManualTimeEntry req parsed newId w =
     (case requireTimeEntryWrite req of
        Inl e \<Rightarrow> (Inl e, w)
      | Inr actor \<Rightarrow>
     (case parsed of
        Inl m \<Rightarrow> (Inl m, w)
      | Inr f \<Rightarrow>
     (case computeDurationSeconds (ef_startedAt f) (ef_endedAt f) of
        None \<Rightarrow> (Inl ''timeTracking.errors.endBeforeStart'', w)
      | Some seconds \<Rightarrow>
     (case resolveEntryRate f w of
        Inl e \<Rightarrow> (Inl e, w)
      | Inr rate \<Rightarrow>
          (Inr newId, emitted ''time.logged'' newId (Some (actor_userId actor))
             (audited ''time_entry.created'' actor newId
               (w\<lparr>timeEntries := add_row (manual_row newId actor f rate seconds) (timeEntries w)\<rparr>)))))))"

definition live_entry :: "ident \<Rightarrow> workspace \<Rightarrow> time_entry_row option" where
  "live_entry k w = List.find (\<lambda>e. te_id e = k \<and> te_deletedAt e = None) (timeEntries w)"

definition updateTimeEntry :: "request \<Rightarrow> entry_form result \<Rightarrow> workspace \<Rightarrow> ident result \<times> workspace" where
  "updateTimeEntry req parsed w =
     (case requireTimeEntryWrite req of
        Inl e \<Rightarrow> (Inl e, w)
      | Inr actor \<Rightarrow>
     (case parsed of
        Inl m \<Rightarrow> (Inl m, w)
      | Inr f \<Rightarrow>
     (case live_entry (ef_id f) w of
        None \<Rightarrow> (Inl ''timeTracking.errors.notFound'', w)
      | Some existing \<Rightarrow>
          if te_invoicedInId existing \<noteq> None then (Inl ''timeTracking.errors.alreadyInvoiced'', w)
          else if te_endedAt existing = None then (Inl ''timeTracking.errors.timerRunning'', w)
          else
     (case computeDurationSeconds (ef_startedAt f) (ef_endedAt f) of
        None \<Rightarrow> (Inl ''timeTracking.errors.endBeforeStart'', w)
      | Some seconds \<Rightarrow>
     (case resolveEntryRate f w of
        Inl e \<Rightarrow> (Inl e, w)
      | Inr rate \<Rightarrow>
          (Inr (ef_id f), audited ''time_entry.updated'' actor (ef_id f)
             (w\<lparr>timeEntries := update_where (\<lambda>e. te_id e = ef_id f \<and> te_deletedAt e = None)
                 (put_entry f rate seconds) (timeEntries w)\<rparr>)))))))"

definition task_deletedAt :: "ident option \<Rightarrow> workspace \<Rightarrow> jsdate option" where
  "task_deletedAt k w =
     (case k of None \<Rightarrow> None | Some t \<Rightarrow> (case find_id tsk_id t (tasks w) of None \<Rightarrow> None | Some r \<Rightarrow> tsk_deletedAt r))"

text \<open>Whether \<open>time_entries_running_timer_idx\<close> refuses to have this deleted entry back.\<close>

definition timer_clash :: "time_entry_row \<Rightarrow> time_entry_row list \<Rightarrow> bool" where
  "timer_clash e es \<longleftrightarrow> te_endedAt e = None \<and>
     (case te_userId e of None \<Rightarrow> False | Some u \<Rightarrow> list_ex (runs_for u) es)"

definition restoreTimeEntry :: "request \<Rightarrow> ident result \<Rightarrow> workspace \<Rightarrow> ident result \<times> workspace" where
  "restoreTimeEntry req parsed w =
     (case requireTimeEntryDelete req of
        Inl e \<Rightarrow> (Inl e, w)
      | Inr actor \<Rightarrow>
     (case parsed of
        Inl m \<Rightarrow> (Inl m, w)
      | Inr k \<Rightarrow>
     (case List.find (\<lambda>e. te_id e = k \<and> te_deletedAt e \<noteq> None) (timeEntries w) of
        None \<Rightarrow> (Inl ''timeTracking.errors.notFound'', w)
      | Some existing \<Rightarrow>
     (case resolveRestoreBlocker
             [(''trash.entities.project'', project_deletedAt (Some (te_projectId existing)) (ledger w)),
              (''trash.entities.task'', task_deletedAt (te_taskId existing) w)] of
        Some parent \<Rightarrow> (Inl (restore_blocked parent), w)
      | None \<Rightarrow>
          if timer_clash existing (timeEntries w) then (Inl ''trash.errors.restoreFailed'', w)
          else (Inr k, audited ''time_entry.restored'' actor k
                 (w\<lparr>timeEntries := update_where (\<lambda>e. te_id e = k \<and> te_deletedAt e \<noteq> None)
                     (\<lambda>e. e\<lparr>te_deletedAt := None\<rparr>) (timeEntries w)\<rparr>))))))"

definition softDeleteTimeEntry :: "request \<Rightarrow> ident result \<Rightarrow> jsdate \<Rightarrow> workspace \<Rightarrow> ident result \<times> workspace" where
  "softDeleteTimeEntry req parsed now w =
     (case requireTimeEntryDelete req of
        Inl e \<Rightarrow> (Inl e, w)
      | Inr actor \<Rightarrow>
     (case parsed of
        Inl m \<Rightarrow> (Inl m, w)
      | Inr k \<Rightarrow>
     (case live_entry k w of
        None \<Rightarrow> (Inl ''timeTracking.errors.notFound'', w)
      | Some existing \<Rightarrow>
          if te_invoicedInId existing \<noteq> None then (Inl ''timeTracking.errors.alreadyInvoiced'', w)
          else (Inr k, audited ''time_entry.deleted'' actor k
                 (w\<lparr>timeEntries := update_where (\<lambda>e. te_id e = k \<and> te_deletedAt e = None)
                     (\<lambda>e. e\<lparr>te_deletedAt := Some now\<rparr>) (timeEntries w)\<rparr>)))))"

section \<open>Well-formed entries\<close>

text \<open>\<open>chk_time_entries_duration\<close> and \<open>chk_time_entries_ended\<close>\<close>

definition chk_time_entries :: "time_entry_row \<Rightarrow> bool" where
  "chk_time_entries e \<longleftrightarrow>
     (case (te_endedAt e, te_durationSeconds e) of
        (None, None) \<Rightarrow> True
      | (Some t, Some s) \<Rightarrow> te_startedAt e \<le> t \<and> 0 \<le> s
      | _ \<Rightarrow> False)"

lemma chk_time_entries_deleted [simp]: "chk_time_entries (e\<lparr>te_deletedAt := t\<rparr>) = chk_time_entries e"
  by (simp add: chk_time_entries_def split: option.splits)

definition one_timer :: "time_entry_row list \<Rightarrow> bool" where
  "one_timer es \<longleftrightarrow> (\<forall>u. length (filter (runs_for u) es) \<le> 1)"

definition time_ok :: "workspace \<Rightarrow> bool" where
  "time_ok w \<longleftrightarrow> distinct (map te_id (timeEntries w)) \<and> list_all chk_time_entries (timeEntries w) \<and> one_timer (timeEntries w)"

lemma computeDurationSeconds_Some:
  "computeDurationSeconds s e = Some n \<Longrightarrow> s \<le> e \<and> 0 \<le> n"
  by (auto simp: computeDurationSeconds_def Let_def js_div_nonneg split: if_splits)

lemma logged_time_ok [simp]: "time_ok (audited e a t w) = time_ok w" "time_ok (emitted n x u w) = time_ok w"
  by (simp_all add: time_ok_def)

lemma filter_update_le:
  assumes "\<And>e. e \<in> set es \<Longrightarrow> p e \<Longrightarrow> q (f e) \<Longrightarrow> q e"
  shows "length (filter q (update_where p f es)) \<le> length (filter q es)"
  using assms by (induction es) (auto simp: update_where_def le_SucI)

lemma time_ok_update:
  assumes ok: "time_ok w" and keys: "\<And>e. te_id (f e) = te_id e"
    and chk: "\<And>e. e \<in> set (timeEntries w) \<Longrightarrow> p e \<Longrightarrow> chk_time_entries (f e)"
    and run: "\<And>e u. e \<in> set (timeEntries w) \<Longrightarrow> p e \<Longrightarrow> runs_for u (f e) \<Longrightarrow> runs_for u e"
  shows "time_ok (w\<lparr>timeEntries := update_where p f (timeEntries w)\<rparr>)"
proof -
  have "map te_id (update_where p f (timeEntries w)) = map te_id (timeEntries w)"
    using keys by (simp add: update_where_def)
  moreover have "list_all chk_time_entries (update_where p f (timeEntries w))"
    using ok chk by (auto simp: time_ok_def list_all_iff update_where_def)
  moreover have "length (filter (runs_for u) (update_where p f (timeEntries w))) \<le> 1" for u
    using filter_update_le [of "timeEntries w" p "runs_for u" f] run ok
    by (force simp: time_ok_def one_timer_def intro: order_trans)
  ultimately show ?thesis using ok by (simp add: time_ok_def one_timer_def)
qed

lemma time_ok_add:
  assumes ok: "time_ok w" and new: "te_id e \<notin> te_id ` set (timeEntries w)" and chk: "chk_time_entries e"
    and run: "\<And>u. runs_for u e \<Longrightarrow> \<not> list_ex (runs_for u) (timeEntries w)"
  shows "time_ok (w\<lparr>timeEntries := add_row e (timeEntries w)\<rparr>)"
proof -
  have "length (filter (runs_for u) (timeEntries w @ [e])) \<le> 1" for u
    using run [of u] ok by (auto simp: time_ok_def one_timer_def list_ex_iff filter_empty_conv)
  then show ?thesis using ok new chk by (auto simp: time_ok_def one_timer_def add_row_def)
qed

lemma live_entry_Some: "live_entry k w = Some e \<Longrightarrow> e \<in> set (timeEntries w) \<and> te_id e = k \<and> te_deletedAt e = None"
  by (auto simp: live_entry_def dest: find_hit)

lemma only_row:
  assumes "time_ok w" "e \<in> set (timeEntries w)" "e' \<in> set (timeEntries w)" "te_id e = te_id e'"
  shows "e = e'"
proof -
  have "inj_on te_id (set (timeEntries w))" using assms(1) by (simp add: time_ok_def distinct_map)
  then show ?thesis using assms(2-4) by (auto dest: inj_onD)
qed

section \<open>What each action does\<close>

text \<open>Every action refuses and leaves the workspace alone, or commits its one write and its log entries.\<close>

lemma startTimer_result:
  assumes "startTimer req parsed newId now w = (x, w1)"
  shows "(\<exists>e. x = Inl e \<and> w1 = w) \<or>
    (\<exists>actor f rate. x = Inr newId \<and> parsed = Inr f \<and> requireTimeEntryWrite req = Inr actor
      \<and> \<not> list_ex (runs_for (actor_userId actor)) (timeEntries w) \<and> resolveEntryRate f w = Inr rate
      \<and> w1 = audited ''time_entry.timer_started'' actor newId
           (w\<lparr>timeEntries := add_row (timer_row newId actor f rate now) (timeEntries w)\<rparr>))"
  using assms by (simp add: startTimer_def split: sum.splits if_splits) blast+

lemma stopTimer_result:
  assumes "stopTimer req parsed now w = (x, w1)"
  shows "(\<exists>e. x = Inl e \<and> w1 = w) \<or>
    (\<exists>actor k r n. x = Inr k \<and> parsed = Inr k \<and> requireTimeEntryWrite req = Inr actor
      \<and> r \<in> set (timeEntries w) \<and> te_id r = k \<and> runs_for (actor_userId actor) r
      \<and> computeDurationSeconds (te_startedAt r) now = Some n
      \<and> w1 = emitted ''time.logged'' k (Some (actor_userId actor)) (audited ''time_entry.timer_stopped'' actor k
           (w\<lparr>timeEntries := update_where (\<lambda>e. te_id e = k \<and> te_endedAt e = None)
             (\<lambda>e. e\<lparr>te_endedAt := Some now, te_durationSeconds := Some n\<rparr>) (timeEntries w)\<rparr>)))"
  using assms by (simp add: stopTimer_def split: sum.splits option.splits) (blast dest: find_hit)+

lemma createManualTimeEntry_result:
  assumes "createManualTimeEntry req parsed newId w = (x, w1)"
  shows "(\<exists>e. x = Inl e \<and> w1 = w) \<or>
    (\<exists>actor f n rate. x = Inr newId \<and> parsed = Inr f \<and> requireTimeEntryWrite req = Inr actor
      \<and> computeDurationSeconds (ef_startedAt f) (ef_endedAt f) = Some n \<and> resolveEntryRate f w = Inr rate
      \<and> w1 = emitted ''time.logged'' newId (Some (actor_userId actor)) (audited ''time_entry.created'' actor newId
           (w\<lparr>timeEntries := add_row (manual_row newId actor f rate n) (timeEntries w)\<rparr>)))"
  using assms by (simp add: createManualTimeEntry_def split: sum.splits option.splits) blast+

lemma updateTimeEntry_result:
  assumes "updateTimeEntry req parsed w = (x, w1)"
  shows "(\<exists>e. x = Inl e \<and> w1 = w) \<or>
    (\<exists>actor f r n rate. x = Inr (ef_id f) \<and> parsed = Inr f \<and> requireTimeEntryWrite req = Inr actor
      \<and> live_entry (ef_id f) w = Some r \<and> te_invoicedInId r = None \<and> te_endedAt r \<noteq> None
      \<and> computeDurationSeconds (ef_startedAt f) (ef_endedAt f) = Some n \<and> resolveEntryRate f w = Inr rate
      \<and> w1 = audited ''time_entry.updated'' actor (ef_id f)
           (w\<lparr>timeEntries := update_where (\<lambda>e. te_id e = ef_id f \<and> te_deletedAt e = None)
             (put_entry f rate n) (timeEntries w)\<rparr>))"
  using assms by (simp add: updateTimeEntry_def split: sum.splits option.splits if_splits) blast+

lemma restoreTimeEntry_result:
  assumes "restoreTimeEntry req parsed w = (x, w1)"
  shows "(\<exists>e. x = Inl e \<and> w1 = w) \<or>
    (\<exists>actor k r. x = Inr k \<and> parsed = Inr k \<and> requireTimeEntryDelete req = Inr actor
      \<and> r \<in> set (timeEntries w) \<and> te_id r = k \<and> \<not> timer_clash r (timeEntries w)
      \<and> w1 = audited ''time_entry.restored'' actor k
           (w\<lparr>timeEntries := update_where (\<lambda>e. te_id e = k \<and> te_deletedAt e \<noteq> None)
             (\<lambda>e. e\<lparr>te_deletedAt := None\<rparr>) (timeEntries w)\<rparr>))"
  using assms
  by (simp add: restoreTimeEntry_def del: resolveRestoreBlocker.simps
      split: sum.splits option.splits if_splits) (blast dest: find_hit)+

lemma softDeleteTimeEntry_result:
  assumes "softDeleteTimeEntry req parsed now w = (x, w1)"
  shows "(\<exists>e. x = Inl e \<and> w1 = w) \<or>
    (\<exists>actor k r. x = Inr k \<and> parsed = Inr k \<and> requireTimeEntryDelete req = Inr actor
      \<and> live_entry k w = Some r \<and> te_invoicedInId r = None
      \<and> w1 = audited ''time_entry.deleted'' actor k
           (w\<lparr>timeEntries := update_where (\<lambda>e. te_id e = k \<and> te_deletedAt e = None)
             (\<lambda>e. e\<lparr>te_deletedAt := Some now\<rparr>) (timeEntries w)\<rparr>))"
  using assms by (simp add: softDeleteTimeEntry_def split: sum.splits option.splits if_splits) blast+

lemma filter_update_add:
  "length (filter q (update_where p f es)) \<le> length (filter q es) + length (filter p es)"
  by (induction es) (auto simp: update_where_def)

lemma one_row_with_id: "distinct (map key es) \<Longrightarrow> length (filter (\<lambda>e. key e = k \<and> r e) es) \<le> 1"
proof (induction es)
  case (Cons x es)
  then show ?case by (cases "key x = k") (auto simp: filter_empty_conv image_iff)
qed simp

lemma startTimer_ok:
  assumes "time_ok w" "newId \<notin> te_id ` set (timeEntries w)" "startTimer req parsed newId now w = (x, w1)"
  shows "time_ok w1"
  using startTimer_result [OF assms(3)]
proof (elim disjE exE conjE)
  fix actor f rate
  assume free: "\<not> list_ex (runs_for (actor_userId actor)) (timeEntries w)"
    and w1: "w1 = audited ''time_entry.timer_started'' actor newId
      (w\<lparr>timeEntries := add_row (timer_row newId actor f rate now) (timeEntries w)\<rparr>)"
  have "time_ok (w\<lparr>timeEntries := add_row (timer_row newId actor f rate now) (timeEntries w)\<rparr>)"
    using assms(2) free
    by (intro time_ok_add [OF assms(1)]) (auto simp: timer_row_def chk_time_entries_def runs_for_def)
  then show ?thesis using w1 by simp
qed (use assms(1) in simp)

lemma stopTimer_ok:
  assumes "time_ok w" "stopTimer req parsed now w = (x, w1)"
  shows "time_ok w1"
  using stopTimer_result [OF assms(2)]
proof (elim disjE exE conjE)
  fix actor k r n
  assume r: "r \<in> set (timeEntries w)" "te_id r = k" and n: "computeDurationSeconds (te_startedAt r) now = Some n"
    and w1: "w1 = emitted ''time.logged'' k (Some (actor_userId actor)) (audited ''time_entry.timer_stopped'' actor k
           (w\<lparr>timeEntries := update_where (\<lambda>e. te_id e = k \<and> te_endedAt e = None)
             (\<lambda>e. e\<lparr>te_endedAt := Some now, te_durationSeconds := Some n\<rparr>) (timeEntries w)\<rparr>))"
  have "time_ok (w\<lparr>timeEntries := update_where (\<lambda>e. te_id e = k \<and> te_endedAt e = None)
             (\<lambda>e. e\<lparr>te_endedAt := Some now, te_durationSeconds := Some n\<rparr>) (timeEntries w)\<rparr>)"
  proof (rule time_ok_update [OF assms(1)])
    fix e assume "e \<in> set (timeEntries w)" "te_id e = k \<and> te_endedAt e = None"
    then have "e = r" using only_row [OF assms(1)] r by blast
    then show "chk_time_entries (e\<lparr>te_endedAt := Some now, te_durationSeconds := Some n\<rparr>)"
      using computeDurationSeconds_Some [OF n] by (simp add: chk_time_entries_def)
  qed (auto simp: runs_for_def)
  then show ?thesis using w1 by simp
qed (use assms(1) in simp)

lemma createManualTimeEntry_ok:
  assumes "time_ok w" "newId \<notin> te_id ` set (timeEntries w)" "createManualTimeEntry req parsed newId w = (x, w1)"
  shows "time_ok w1"
  using createManualTimeEntry_result [OF assms(3)]
proof (elim disjE exE conjE)
  fix actor f n rate
  assume n: "computeDurationSeconds (ef_startedAt f) (ef_endedAt f) = Some n"
    and w1: "w1 = emitted ''time.logged'' newId (Some (actor_userId actor)) (audited ''time_entry.created'' actor newId
           (w\<lparr>timeEntries := add_row (manual_row newId actor f rate n) (timeEntries w)\<rparr>))"
  have "time_ok (w\<lparr>timeEntries := add_row (manual_row newId actor f rate n) (timeEntries w)\<rparr>)"
    using assms(2) computeDurationSeconds_Some [OF n]
    by (intro time_ok_add [OF assms(1)]) (auto simp: manual_row_def chk_time_entries_def runs_for_def)
  then show ?thesis using w1 by simp
qed (use assms(1) in simp)

lemma updateTimeEntry_ok:
  assumes "time_ok w" "updateTimeEntry req parsed w = (x, w1)"
  shows "time_ok w1"
  using updateTimeEntry_result [OF assms(2)]
proof (elim disjE exE conjE)
  fix actor f r n rate
  assume n: "computeDurationSeconds (ef_startedAt f) (ef_endedAt f) = Some n"
    and w1: "w1 = audited ''time_entry.updated'' actor (ef_id f)
           (w\<lparr>timeEntries := update_where (\<lambda>e. te_id e = ef_id f \<and> te_deletedAt e = None)
             (put_entry f rate n) (timeEntries w)\<rparr>)"
  have "time_ok (w\<lparr>timeEntries := update_where (\<lambda>e. te_id e = ef_id f \<and> te_deletedAt e = None)
             (put_entry f rate n) (timeEntries w)\<rparr>)"
    using computeDurationSeconds_Some [OF n]
    by (intro time_ok_update [OF assms(1)]) (auto simp: put_entry_def chk_time_entries_def runs_for_def)
  then show ?thesis using w1 by simp
qed (use assms(1) in simp)

lemma softDeleteTimeEntry_ok:
  assumes "time_ok w" "softDeleteTimeEntry req parsed now w = (x, w1)"
  shows "time_ok w1"
  using softDeleteTimeEntry_result [OF assms(2)]
proof (elim disjE exE conjE)
  fix actor k r
  assume w1: "w1 = audited ''time_entry.deleted'' actor k
           (w\<lparr>timeEntries := update_where (\<lambda>e. te_id e = k \<and> te_deletedAt e = None)
             (\<lambda>e. e\<lparr>te_deletedAt := Some now\<rparr>) (timeEntries w)\<rparr>)"
  have "time_ok (w\<lparr>timeEntries := update_where (\<lambda>e. te_id e = k \<and> te_deletedAt e = None)
             (\<lambda>e. e\<lparr>te_deletedAt := Some now\<rparr>) (timeEntries w)\<rparr>)"
    using assms(1) by (intro time_ok_update [OF assms(1)]) (auto simp: time_ok_def list_all_iff runs_for_def)
  then show ?thesis using w1 by simp
qed (use assms(1) in simp)

lemma restoreTimeEntry_ok:
  assumes "time_ok w" "restoreTimeEntry req parsed w = (x, w1)"
  shows "time_ok w1"
  using restoreTimeEntry_result [OF assms(2)]
proof (elim disjE exE conjE)
  fix actor k r
  assume r: "r \<in> set (timeEntries w)" "te_id r = k" and free: "\<not> timer_clash r (timeEntries w)"
    and w1: "w1 = audited ''time_entry.restored'' actor k
           (w\<lparr>timeEntries := update_where (\<lambda>e. te_id e = k \<and> te_deletedAt e \<noteq> None)
             (\<lambda>e. e\<lparr>te_deletedAt := None\<rparr>) (timeEntries w)\<rparr>)"
  let ?p = "\<lambda>e. te_id e = k \<and> te_deletedAt e \<noteq> None" and ?f = "\<lambda>e. e\<lparr>te_deletedAt := None\<rparr>"
  have "length (filter (runs_for u) (update_where ?p ?f (timeEntries w))) \<le> 1" for u
  proof (cases "runs_for u (?f r)")
    case True
    then have "filter (runs_for u) (timeEntries w) = []"
      using free by (auto simp: timer_clash_def runs_for_def list_ex_iff filter_empty_conv)
    then show ?thesis
      using filter_update_add [of "runs_for u" ?p ?f "timeEntries w"]
        one_row_with_id [of te_id "timeEntries w" k "\<lambda>e. te_deletedAt e \<noteq> None"] assms(1)
      by (simp add: time_ok_def)
  next
    case False
    then have "length (filter (runs_for u) (update_where ?p ?f (timeEntries w))) \<le> length (filter (runs_for u) (timeEntries w))"
      using only_row [OF assms(1)] r by (intro filter_update_le) blast
    then show ?thesis using assms(1) by (simp add: time_ok_def one_timer_def) (meson le_trans)
  qed
  moreover have "map te_id (update_where ?p ?f (timeEntries w)) = map te_id (timeEntries w)"
    by (simp add: update_where_def)
  moreover have "list_all chk_time_entries (update_where ?p ?f (timeEntries w))"
    using assms(1) by (auto simp: time_ok_def list_all_iff update_where_def)
  ultimately show ?thesis using w1 assms(1) by (simp add: time_ok_def one_timer_def)
qed (use assms(1) in simp)

lemma find_append_none:
  "(\<And>x. x \<in> set xs \<Longrightarrow> \<not> p x) \<Longrightarrow> List.find p (xs @ ys) = List.find p ys"
  by (induction xs) auto

section \<open>Properties\<close>

lemma duration_exact:
  assumes "s \<le> e" "e - s \<le> 2 ^ 50"
  shows "computeDurationSeconds s e = Some ((e - s) div 1000)"
proof -
  let ?x = "of_int (e - s) / 1000 :: rat"
  have lo: "of_int ((e - s) div 1000) \<le> ?x" and hi: "?x + 1 / 1000 \<le> of_int ((e - s) div 1000 + 1)"
  proof -
    have "1000 * ((e - s) div 1000) \<le> e - s" "e - s + 1 \<le> 1000 * ((e - s) div 1000 + 1)"
      using div_enclose [of 1000 "e - s"] by (simp_all only: distrib_left mult_1_right)
    then have "of_int (1000 * ((e - s) div 1000)) \<le> (of_int (e - s) :: rat)"
      "(of_int (e - s + 1) :: rat) \<le> of_int (1000 * ((e - s) div 1000 + 1))" by (simp_all only: of_int_le_iff)
    then show "of_int ((e - s) div 1000) \<le> ?x" "?x + 1 / 1000 \<le> of_int ((e - s) div 1000 + 1)"
      by (simp_all add: field_simps)
  qed
  have x: "0 \<le> ?x" "?x \<le> 2 ^ 50 / 1000"
  proof -
    have "(of_int (e - s) :: rat) \<le> of_int (2 ^ 50)" using assms(2) by (simp only: of_int_le_iff)
    then show "0 \<le> ?x" "?x \<le> 2 ^ 50 / 1000" using assms(1) by simp_all
  qed
  have small: "\<bar>of_int ((e - s) div 1000)\<bar> \<le> (2 ^ 53 :: rat)" using lo x assms(1) by (simp add: pos_imp_zdiv_nonneg_iff)
  have "fl (of_int ((e - s) div 1000)) \<le> fl ?x" by (rule fl_mono [OF lo])
  moreover have "fl (of_int ((e - s) div 1000)) = of_int ((e - s) div 1000)"
  proof (rule fl_int)
    have "of_int \<bar>(e - s) div 1000\<bar> \<le> (of_int (2 ^ 53) :: rat)" using small by simp
    then show "\<bar>(e - s) div 1000\<bar> \<le> 2 ^ 53" by (simp only: of_int_le_iff)
  qed
  moreover have "fl ?x < of_int ((e - s) div 1000 + 1)"
  proof -
    have "\<bar>?x\<bar> / 2 ^ 53 < 1 / 1000" using x by (simp add: field_simps)
    then show ?thesis using fl_error [of ?x] hi by linarith
  qed
  ultimately have "\<lfloor>fl ?x\<rfloor> = (e - s) div 1000" by (intro floor_unique) simp_all
  then show ?thesis using assms(1) by (simp add: computeDurationSeconds_def js_div_def)
qed

text \<open>
  C21. Time entries stay well formed: every action keeps the table's CHECKs (an entry has an end exactly
  when it has a duration, never negative and never before its start), its ids unique, and at most one
  running timer per user, including when a deleted running timer is restored.
\<close>

theorem time_entries_stay_well_formed:
  assumes "time_ok w" and "newId \<notin> te_id ` set (timeEntries w)"
  shows "time_ok (snd (startTimer req timer newId now w)) \<and> time_ok (snd (stopTimer req k now w))
    \<and> time_ok (snd (createManualTimeEntry req entry newId w)) \<and> time_ok (snd (updateTimeEntry req entry w))
    \<and> time_ok (snd (softDeleteTimeEntry req k now w)) \<and> time_ok (snd (restoreTimeEntry req k w))"
  by (intro conjI startTimer_ok [OF assms prod.collapse [symmetric]] stopTimer_ok [OF assms(1) prod.collapse [symmetric]]
      createManualTimeEntry_ok [OF assms prod.collapse [symmetric]] updateTimeEntry_ok [OF assms(1) prod.collapse [symmetric]]
      softDeleteTimeEntry_ok [OF assms(1) prod.collapse [symmetric]]
      restoreTimeEntry_ok [OF assms(1) prod.collapse [symmetric]])

definition sample_task :: task_row where
  "sample_task = \<lparr>tsk_id = ''t1'', tsk_projectId = ''p1'', tsk_title = ''Layout'', tsk_description = None, tsk_status = Todo,
     tsk_priority = Normal, tsk_dueAt = None, tsk_completedAt = None, tsk_position = 1000, tsk_hourlyRateCents = None,
     tsk_createdAt = 1700000000000, tsk_deletedAt = None\<rparr>"

definition sample_entry :: time_entry_row where
  "sample_entry = \<lparr>te_id = ''e1'', te_projectId = ''p1'', te_taskId = None, te_userId = Some ''u1'',
     te_startedAt = 1700000000000, te_endedAt = Some 1700003600500, te_durationSeconds = Some 3600, te_billable = True,
     te_hourlyRateOverrideCents = None, te_hourlyRateSnapshotCents = 5000, te_description = Some ''Wireframes'',
     te_source = Timer, te_invoicedInId = None, te_deletedAt = None\<rparr>"

definition sample_workspace :: workspace where
  "sample_workspace = \<lparr>ledger = sample_db, tasks = [sample_task], timeEntries = [sample_entry], expenses = [], schedules = []\<rparr>"

lemmas sample_work_defs = sample_workspace_def sample_entry_def sample_task_def

lemma sample_time: "time_ok sample_workspace"
  by (auto simp: sample_work_defs time_ok_def one_timer_def chk_time_entries_def)

definition sample_timer :: timer_form where
  "sample_timer = \<lparr>tf_projectId = ''p1'', tf_taskId = Some ''t1'', tf_description = ''Build'', tf_billable = True,
     tf_hourlyRate = None\<rparr>"

definition sample_edit :: entry_form where
  "sample_edit = \<lparr>tf_projectId = ''p1'', tf_taskId = None, tf_description = ''Wireframes, second pass'', tf_billable = True,
     tf_hourlyRate = None, ef_id = ''e1'', ef_startedAt = 1700000000000, ef_endedAt = 1700003600500\<rparr>"

lemma time_entries_stay_well_formed_witness:
  "time_ok (snd (startTimer owner_request (Inr sample_timer) ''e2'' 1700010000000 sample_workspace))"
proof -
  have "''e2'' \<notin> te_id ` set (timeEntries sample_workspace)" by (simp add: sample_work_defs)
  from time_entries_stay_well_formed [OF sample_time this] show ?thesis by blast
qed

text \<open>
  A timer logs the time it ran: stopping the timer a user has just started succeeds and leaves one entry
  with the whole seconds elapsed in between, priced at the first rate of the ladder that was set, whatever
  happened to the rates meanwhile, and unbilled.
\<close>

theorem timer_logs_elapsed_time:
  assumes "newId \<notin> te_id ` set (timeEntries w)" and "startTimer req (Inr f) newId t0 w = (Inr k, w1)"
    and "timeEntries w2 = timeEntries w1" and "t0 \<le> t1" and "t1 - t0 \<le> 2 ^ 50"
  shows "\<exists>rate w3 e. resolveEntryRate f w = Inr rate \<and> stopTimer req (Inr k) t1 w2 = (Inr newId, w3)
    \<and> timeEntries w3 = timeEntries w @ [e] \<and> te_id e = newId \<and> te_durationSeconds e = Some ((t1 - t0) div 1000)
    \<and> te_endedAt e = Some t1 \<and> te_hourlyRateSnapshotCents e = rc_rateCents rate \<and> te_invoicedInId e = None"
proof -
  from startTimer_result [OF assms(2)] obtain actor rate where k: "k = newId" and gate: "requireTimeEntryWrite req = Inr actor"
    and free: "\<not> list_ex (runs_for (actor_userId actor)) (timeEntries w)" and rate: "resolveEntryRate f w = Inr rate"
    and w1: "timeEntries w1 = timeEntries w @ [timer_row newId actor f rate t0]"
    by (auto simp: add_row_def)
  let ?row = "timer_row newId actor f rate t0"
  have "List.find (\<lambda>e. te_id e = newId \<and> runs_for (actor_userId actor) e) (timeEntries w2) = Some ?row"
    using free assms(1) by (auto simp: assms(3) w1 find_append_none list_ex_iff timer_row_def runs_for_def)
  moreover have "te_startedAt ?row = t0" "te_id ?row = newId" by (simp_all add: timer_row_def)
  ultimately have stop: "stopTimer req (Inr k) t1 w2 = (Inr newId,
      emitted ''time.logged'' newId (Some (actor_userId actor)) (audited ''time_entry.timer_stopped'' actor newId
        (w2\<lparr>timeEntries := update_where (\<lambda>e. te_id e = newId \<and> te_endedAt e = None)
          (\<lambda>e. e\<lparr>te_endedAt := Some t1, te_durationSeconds := Some ((t1 - t0) div 1000)\<rparr>) (timeEntries w2)\<rparr>)))"
    using duration_exact [OF assms(4,5)] by (simp add: stopTimer_def gate k)
  have "update_where (\<lambda>e. te_id e = newId \<and> te_endedAt e = None) g (timeEntries w2) = timeEntries w @ [g ?row]" for g
    using assms(1) by (auto simp: assms(3) w1 update_where_def timer_row_def intro!: map_idI)
  then show ?thesis using stop rate
    by (intro exI [of _ rate] exI [of _ "snd (stopTimer req (Inr k) t1 w2)"]) (simp add: timer_row_def)
qed

lemma timer_logs_elapsed_time_witness:
  "\<exists>w3 e. stopTimer owner_request (Inr ''e2'') 1700010090999
      (snd (startTimer owner_request (Inr sample_timer) ''e2'' 1700010000000 sample_workspace)) = (Inr ''e2'', w3)
    \<and> te_durationSeconds e = Some 90 \<and> te_hourlyRateSnapshotCents e = 6000 \<and> e \<in> set (timeEntries w3)"
proof -
  let ?start = "startTimer owner_request (Inr sample_timer) ''e2'' 1700010000000 sample_workspace"
  have fresh: "''e2'' \<notin> te_id ` set (timeEntries sample_workspace)" by (simp add: sample_work_defs)
  have "fst ?start = Inr ''e2''" by code_simp
  then have start: "?start = (Inr ''e2'', snd ?start)" by (metis prod.collapse)
  have rate: "map_sum id rc_rateCents (resolveEntryRate sample_timer sample_workspace) = Inr 6000" by code_simp
  from timer_logs_elapsed_time [OF fresh start refl, of 1700010090999] obtain rt w3 e where
    "resolveEntryRate sample_timer sample_workspace = Inr rt" "te_hourlyRateSnapshotCents e = rc_rateCents rt"
    "stopTimer owner_request (Inr ''e2'') 1700010090999 (snd ?start) = (Inr ''e2'', w3)" "e \<in> set (timeEntries w3)"
    "te_durationSeconds e = Some 90" by auto
  then show ?thesis using rate by auto
qed


definition billed_workspace :: workspace where
  "billed_workspace = sample_workspace\<lparr>timeEntries := [sample_entry\<lparr>te_invoicedInId := Some ''i1''\<rparr>]\<rparr>"


text \<open>
  Editing re-prices: an edit that succeeds stores the rate today's ladder gives, not the rate snapshotted
  when the work was logged, even where neither the work nor a rate on the entry is edited. The witness
  rewords the description of an hour logged at 50.00 under a client whose rate is now 60.00.
\<close>

theorem edited_time_is_repriced:
  assumes "time_ok w" and "updateTimeEntry req (Inr f) w = (Inr k, w1)"
  shows "\<exists>e rate. resolveEntryRate f w = Inr rate \<and> live_entry k w1 = Some e \<and> k = ef_id f
    \<and> te_hourlyRateSnapshotCents e = rc_rateCents rate \<and> te_invoicedInId e = None"
proof -
  from updateTimeEntry_result [OF assms(2)] obtain r n rate where k: "k = ef_id f" and r: "live_entry k w = Some r"
    "te_invoicedInId r = None" and rate: "resolveEntryRate f w = Inr rate"
    and w1: "timeEntries w1 = update_where (\<lambda>e. te_id e = k \<and> te_deletedAt e = None) (put_entry f rate n) (timeEntries w)"
    by auto
  have mem: "r \<in> set (timeEntries w)" "te_id r = k" "te_deletedAt r = None" using live_entry_Some [OF r(1)] by simp_all
  have "time_ok w1" by (rule updateTimeEntry_ok [OF assms])
  have row: "put_entry f rate n r \<in> set (timeEntries w1)" using mem by (force simp: w1 update_where_def)
  moreover have "te_id (put_entry f rate n r) = k" "te_deletedAt (put_entry f rate n r) = None"
    using mem by (simp_all add: put_entry_def)
  ultimately have "live_entry k w1 \<noteq> None" unfolding live_entry_def find_None_iff by blast
  then obtain e where e: "live_entry k w1 = Some e" by blast
  have "e = put_entry f rate n r"
    using only_row [OF \<open>time_ok w1\<close> _ row] live_entry_Some [OF e] mem by (simp add: put_entry_def)
  then show ?thesis using e rate k r(2) by (intro exI [of _ e] exI [of _ rate]) (simp add: put_entry_def)
qed

lemma edited_time_is_repriced_witness:
  "te_hourlyRateSnapshotCents sample_entry = 5000 \<and>
   (\<exists>e. live_entry ''e1'' (snd (updateTimeEntry owner_request (Inr sample_edit) sample_workspace)) = Some e
      \<and> te_hourlyRateSnapshotCents e = 6000)"
proof
  let ?u = "updateTimeEntry owner_request (Inr sample_edit) sample_workspace"
  have "fst ?u = Inr ''e1''" by code_simp
  then have "?u = (Inr ''e1'', snd ?u)" by (metis prod.collapse)
  from edited_time_is_repriced [OF sample_time this] obtain e rate where
    "resolveEntryRate sample_edit sample_workspace = Inr rate" "live_entry ''e1'' (snd ?u) = Some e"
    "te_hourlyRateSnapshotCents e = rc_rateCents rate" by blast
  moreover have "map_sum id rc_rateCents (resolveEntryRate sample_edit sample_workspace) = Inr 6000" by code_simp
  ultimately show "\<exists>e. live_entry ''e1'' (snd ?u) = Some e \<and> te_hourlyRateSnapshotCents e = 6000" by auto
qed (simp add: sample_entry_def)

end
