(* ===== verification/Tasks.thy ===== *)
theory Tasks
  imports TimeTracking
begin

text \<open>
  The task board (\<open>features/tasks\<close>): sparse integer positions, the plan of a move, and the actions on tasks.
  A board column is the list of a project's live tasks of one status in position order, ties by creation
  date. Each action is one step; the answer carries the task's id in place of the form data that is read back.
\<close>

section \<open>Positions\<close>

definition position_step :: int where "position_step = 1000"

definition getInitialTaskPosition :: "int list \<Rightarrow> int" where
  "getInitialTaskPosition existingPositions =
     (if length existingPositions = 0 then position_step
      else foldl max (hd existingPositions) (tl existingPositions) + position_step)"

definition getPositionBetween :: "int option \<Rightarrow> int option \<Rightarrow> int option" where
  "getPositionBetween before after =
     (case (before, after) of
        (None, None) \<Rightarrow> Some position_step
      | (None, Some a) \<Rightarrow> Some (a - position_step)
      | (Some b, None) \<Rightarrow> Some (b + position_step)
      | (Some b, Some a) \<Rightarrow> (let midpoint = (b + a) div 2 in if b < midpoint \<and> midpoint < a then Some midpoint else None))"

definition repackPositions :: "nat \<Rightarrow> int list" where
  "repackPositions n = map (\<lambda>i. (int i + 1) * position_step) [0..<n]"

definition planTaskReorder :: "(ident \<times> int) list \<Rightarrow> ident \<Rightarrow> int \<Rightarrow> (ident \<times> int) list" where
  "planTaskReorder ordered movedId toIndex =
     (case List.find (\<lambda>item. fst item = movedId) ordered of
        None \<Rightarrow> []
      | Some moved \<Rightarrow>
          let without = filter (\<lambda>item. fst item \<noteq> movedId) ordered;
              clampedIndex = nat (max 0 (min toIndex (int (length without))));
              moved_list = take clampedIndex without @ [moved] @ drop clampedIndex without;
              before = (if clampedIndex > 0 then Some (snd (moved_list ! (clampedIndex - 1))) else None);
              after = (if clampedIndex < length moved_list - 1 then Some (snd (moved_list ! (clampedIndex + 1))) else None)
          in case getPositionBetween before after of
               Some position \<Rightarrow> [(movedId, position)]
             | None \<Rightarrow> zip (map fst moved_list) (repackPositions (length moved_list)))"

section \<open>The actions\<close>

record task_form =
  kf_subject :: ident
  kf_title :: string
  kf_description :: string
  kf_status :: task_status
  kf_priority :: task_priority
  kf_dueDate :: "jsdate option"
  kf_hourlyRate :: "int option"

text \<open>\<open>toTaskWriteValues\<close>, put into the row it is written to.\<close>

definition toTaskWriteValues :: "task_form \<Rightarrow> task_row \<Rightarrow> task_row" where
  "toTaskWriteValues f r =
     r\<lparr>tsk_title := kf_title f, tsk_description := emptyToNull (kf_description f), tsk_status := kf_status f,
       tsk_priority := kf_priority f, tsk_dueAt := kf_dueDate f, tsk_hourlyRateCents := kf_hourlyRate f\<rparr>"

definition in_column :: "ident \<Rightarrow> task_status \<Rightarrow> task_row \<Rightarrow> bool" where
  "in_column projectId status r \<longleftrightarrow> tsk_projectId r = projectId \<and> tsk_status r = status \<and> tsk_deletedAt r = None"

definition getNextColumnPosition :: "ident \<Rightarrow> task_status \<Rightarrow> workspace \<Rightarrow> int" where
  "getNextColumnPosition projectId status w =
     getInitialTaskPosition (map tsk_position (filter (in_column projectId status) (tasks w)))"

definition live_task_row :: "ident \<Rightarrow> task_row \<Rightarrow> bool" where
  "live_task_row k r \<longleftrightarrow> tsk_id r = k \<and> tsk_deletedAt r = None"

definition find_live_task :: "ident \<Rightarrow> workspace \<Rightarrow> task_row option" where
  "find_live_task k w = List.find (live_task_row k) (tasks w)"

definition task_draft :: "ident \<Rightarrow> ident \<Rightarrow> int \<Rightarrow> jsdate \<Rightarrow> task_form \<Rightarrow> task_row" where
  "task_draft newId projectId position now f =
     \<lparr>tsk_id = newId, tsk_projectId = projectId, tsk_title = kf_title f, tsk_description = emptyToNull (kf_description f),
      tsk_status = kf_status f, tsk_priority = kf_priority f, tsk_dueAt = kf_dueDate f,
      tsk_completedAt = (if kf_status f = Done then Some now else None), tsk_position = position,
      tsk_hourlyRateCents = kf_hourlyRate f, tsk_createdAt = now, tsk_deletedAt = None\<rparr>"

definition createTask :: "request \<Rightarrow> task_form result \<Rightarrow> ident \<Rightarrow> jsdate \<Rightarrow> workspace \<Rightarrow> ident result \<times> workspace" where
  "createTask req parsed newId now w =
     (case requireTaskWrite req of
        Inl e \<Rightarrow> (Inl e, w)
      | Inr actor \<Rightarrow>
     (case parsed of
        Inl m \<Rightarrow> (Inl m, w)
      | Inr f \<Rightarrow>
     (case live_project (kf_subject f) (ledger w) of
        None \<Rightarrow> (Inl ''tasks.errors.projectNotFound'', w)
      | Some project \<Rightarrow>
          let position = getNextColumnPosition (prj_id project) (kf_status f) w
          in (Inr newId, emitted ''task.created'' newId (Some (actor_userId actor)) (audited ''task.created'' actor newId
                (w\<lparr>tasks := add_row (task_draft newId (prj_id project) position now f) (tasks w)\<rparr>))))))"

definition updateTask :: "request \<Rightarrow> task_form result \<Rightarrow> jsdate \<Rightarrow> workspace \<Rightarrow> ident result \<times> workspace" where
  "updateTask req parsed now w =
     (case requireTaskWrite req of
        Inl e \<Rightarrow> (Inl e, w)
      | Inr actor \<Rightarrow>
     (case parsed of
        Inl m \<Rightarrow> (Inl m, w)
      | Inr f \<Rightarrow>
     (case find_live_task (kf_subject f) w of
        None \<Rightarrow> (Inl ''tasks.errors.notFound'', w)
      | Some existing \<Rightarrow>
          let completedAt = (if kf_status f = Done
                then Some (case tsk_completedAt existing of Some d \<Rightarrow> d | None \<Rightarrow> now) else None)
          in (Inr (kf_subject f), emitted ''task.updated'' (kf_subject f) (Some (actor_userId actor))
                (audited ''task.updated'' actor (kf_subject f)
                (w\<lparr>tasks := update_where (live_task_row (kf_subject f))
                     (\<lambda>r. (toTaskWriteValues f r)\<lparr>tsk_completedAt := completedAt\<rparr>) (tasks w)\<rparr>))))))"

definition updateTaskStatus :: "request \<Rightarrow> (ident \<times> task_status) result \<Rightarrow> jsdate \<Rightarrow> workspace \<Rightarrow> ident result \<times> workspace" where
  "updateTaskStatus req parsed now w =
     (case requireTaskWrite req of
        Inl e \<Rightarrow> (Inl e, w)
      | Inr actor \<Rightarrow>
     (case parsed of
        Inl m \<Rightarrow> (Inl m, w)
      | Inr (k, status) \<Rightarrow>
     (case find_live_task k w of
        None \<Rightarrow> (Inl ''tasks.errors.notFound'', w)
      | Some existing \<Rightarrow>
     (case canTransitionTaskStatus (tsk_status existing) status of
        Refused r \<Rightarrow> (Inl ''tasks.errors.invalidTransition'', w)
      | Allowed to_status \<Rightarrow>
          let position = getNextColumnPosition (tsk_projectId existing) to_status w
          in (Inr k, emitted ''task.status_changed'' k (Some (actor_userId actor)) (audited ''task.status_changed'' actor k
                (w\<lparr>tasks := update_where (live_task_row k)
                     (\<lambda>r. r\<lparr>tsk_status := to_status, tsk_position := position,
                             tsk_completedAt := (if to_status = Done then Some now else None)\<rparr>) (tasks w)\<rparr>)))))))"

text \<open>\<open>ORDER BY position, created_at\<close>: two stable sorts, the second key first.\<close>

definition board_column :: "ident \<Rightarrow> task_status \<Rightarrow> workspace \<Rightarrow> task_row list" where
  "board_column projectId status w =
     sort_key tsk_position (sort_key tsk_createdAt (filter (in_column projectId status) (tasks w)))"

definition apply_positions :: "(ident \<times> int) list \<Rightarrow> task_row \<Rightarrow> task_row" where
  "apply_positions updates r = (case map_of updates (tsk_id r) of None \<Rightarrow> r | Some p \<Rightarrow> r\<lparr>tsk_position := p\<rparr>)"

definition reorderTask :: "request \<Rightarrow> (ident \<times> int) result \<Rightarrow> workspace \<Rightarrow> ident result \<times> workspace" where
  "reorderTask req parsed w =
     (case requireTaskWrite req of
        Inl e \<Rightarrow> (Inl e, w)
      | Inr actor \<Rightarrow>
     (case parsed of
        Inl m \<Rightarrow> (Inl m, w)
      | Inr (k, toIndex) \<Rightarrow>
     (case find_live_task k w of
        None \<Rightarrow> (Inl ''tasks.errors.notFound'', w)
      | Some existing \<Rightarrow>
          let siblings = map (\<lambda>r. (tsk_id r, tsk_position r)) (board_column (tsk_projectId existing) (tsk_status existing) w);
              updates = planTaskReorder siblings (tsk_id existing) toIndex
          in (Inr k, audited ''task.updated'' actor k
                (if updates = [] then w else w\<lparr>tasks := map (apply_positions updates) (tasks w)\<rparr>)))))"

definition restoreTask :: "request \<Rightarrow> ident result \<Rightarrow> workspace \<Rightarrow> ident result \<times> workspace" where
  "restoreTask req parsed w =
     (case requireTaskDelete req of
        Inl e \<Rightarrow> (Inl e, w)
      | Inr actor \<Rightarrow>
     (case parsed of
        Inl m \<Rightarrow> (Inl m, w)
      | Inr k \<Rightarrow>
     (case List.find (\<lambda>r. tsk_id r = k \<and> tsk_deletedAt r \<noteq> None) (tasks w) of
        None \<Rightarrow> (Inl ''tasks.errors.notFound'', w)
      | Some existing \<Rightarrow>
     (case resolveRestoreBlocker [(''trash.entities.project'', project_deletedAt (Some (tsk_projectId existing)) (ledger w))] of
        Some parent \<Rightarrow> (Inl (restore_blocked parent), w)
      | None \<Rightarrow>
          (Inr k, audited ''task.restored'' actor k
             (w\<lparr>tasks := update_where (\<lambda>r. tsk_id r = k \<and> tsk_deletedAt r \<noteq> None)
                 (\<lambda>r. r\<lparr>tsk_deletedAt := None\<rparr>) (tasks w)\<rparr>))))))"

definition softDeleteTask :: "request \<Rightarrow> ident result \<Rightarrow> jsdate \<Rightarrow> workspace \<Rightarrow> ident result \<times> workspace" where
  "softDeleteTask req parsed now w =
     (case requireTaskDelete req of
        Inl e \<Rightarrow> (Inl e, w)
      | Inr actor \<Rightarrow>
     (case parsed of
        Inl m \<Rightarrow> (Inl m, w)
      | Inr k \<Rightarrow>
     (case find_live_task k w of
        None \<Rightarrow> (Inl ''tasks.errors.notFound'', w)
      | Some existing \<Rightarrow>
          (Inr k, emitted ''task.deleted'' k (Some (actor_userId actor)) (audited ''task.deleted'' actor k
             (w\<lparr>tasks := update_where (live_task_row k) (\<lambda>r. r\<lparr>tsk_deletedAt := Some now\<rparr>) (tasks w)\<rparr>))))))"

section \<open>Where a new position falls\<close>

lemma foldl_max_ge:
  fixes x :: int
  shows "x \<le> foldl max x xs" and "y \<in> set xs \<Longrightarrow> y \<le> foldl max x xs"
proof -
  have start: "x \<le> foldl max x xs" for x :: int and xs by (induction xs arbitrary: x) (auto intro: order_trans max.cobounded1)
  show "x \<le> foldl max x xs" by (rule start)
  show "y \<in> set xs \<Longrightarrow> y \<le> foldl max x xs"
    by (induction xs arbitrary: x) (auto intro: order_trans [OF max.cobounded2 start])
qed

lemma initial_position_last:
  assumes "p \<in> set ps"
  shows "p < getInitialTaskPosition ps"
proof (cases ps)
  case (Cons q qs)
  with assms have "p \<le> foldl max q qs" using foldl_max_ge(1) [of q qs] foldl_max_ge(2) [of p qs q] by auto
  then show ?thesis by (simp add: getInitialTaskPosition_def position_step_def Cons)
qed (use assms in simp)

lemma position_between:
  assumes "getPositionBetween before after = Some p"
  shows "(\<forall>b. before = Some b \<longrightarrow> b < p) \<and> (\<forall>a. after = Some a \<longrightarrow> p < a)"
  using assms by (auto simp: getPositionBetween_def position_step_def Let_def split: option.splits if_splits)

lemma repack_increasing: "sorted_wrt (<) (repackPositions n)" "length (repackPositions n) = n"
  by (auto simp: repackPositions_def sorted_wrt_iff_nth_less position_step_def)

text \<open>
  A list sorted by a key is determined by the order of its other elements and a strict place for one: where
  the element's key lies strictly between those of its neighbours-to-be, it is exactly there.
\<close>

lemma sorted_place:
  fixes key :: "'a \<Rightarrow> int"
  assumes sorted: "sorted (map key xs)" and x: "x \<in> set xs" "distinct xs" and n: "n \<le> length rest"
    and rest: "filter (\<lambda>y. y \<noteq> x) xs = rest"
    and left: "n > 0 \<Longrightarrow> key (rest ! (n - 1)) < key x" and right: "n < length rest \<Longrightarrow> key x < key (rest ! n)"
  shows "xs = take n rest @ [x] @ drop n rest"
proof -
  obtain as bs where xs: "xs = as @ x # bs" using x(1) by (meson split_list)
  then have "x \<notin> set as" "x \<notin> set bs" using x(2) by auto
  then have "filter (\<lambda>y. y \<noteq> x) as = as" "filter (\<lambda>y. y \<noteq> x) bs = bs" by (auto simp: filter_id_conv)
  then have r: "rest = as @ bs" using rest xs by simp
  have le: "\<forall>y\<in>set as. key y \<le> key x" "\<forall>y\<in>set bs. key x \<le> key y"
    using sorted by (auto simp: xs sorted_append)
  have "\<not> length as < n"
  proof
    assume "length as < n"
    then have "rest ! (n - 1) \<in> set bs" using n by (auto simp: r nth_append)
    with le(2) left \<open>length as < n\<close> show False by force
  qed
  moreover have "\<not> n < length as"
  proof
    assume "n < length as"
    then have "rest ! n \<in> set as" "n < length rest" by (auto simp: r nth_append)
    with le(1) right show False by force
  qed
  ultimately have "n = length as" by simp
  then show ?thesis by (simp add: xs r)
qed

text \<open>The list the board is to show: the other tasks in order, with the moved one at the clamped index.\<close>

definition placed :: "('a \<Rightarrow> bool) \<Rightarrow> 'a \<Rightarrow> int \<Rightarrow> 'a list \<Rightarrow> 'a list" where
  "placed moved x toIndex xs =
     (let without = filter (\<lambda>y. \<not> moved y) xs; n = nat (max 0 (min toIndex (int (length without))))
      in take n without @ [x] @ drop n without)"

lemma planTaskReorder_cases:
  assumes find: "List.find (\<lambda>item. fst item = k) ordered = Some (k, q)"
    and without: "without = filter (\<lambda>item. fst item \<noteq> k) ordered"
    and n: "n = nat (max 0 (min toIndex (int (length without))))"
  obtains (midpoint) p where "planTaskReorder ordered k toIndex = [(k, p)]"
      "n > 0 \<Longrightarrow> snd (without ! (n - 1)) < p" "n < length without \<Longrightarrow> p < snd (without ! n)"
  | (repack) "planTaskReorder ordered k toIndex =
      zip (map fst (take n without @ [(k, q)] @ drop n without)) (repackPositions (Suc (length without)))"
proof -
  define ml where "ml = take n without @ [(k, q)] @ drop n without"
  have len: "length ml = Suc (length without)" "n \<le> length without" by (auto simp: ml_def n)
  have left: "n > 0 \<Longrightarrow> ml ! (n - 1) = without ! (n - 1)" using len(2) by (simp add: ml_def nth_append)
  have right: "n < length without \<Longrightarrow> ml ! (n + 1) = without ! n" using len(2) by (simp add: ml_def nth_append)
  define before where "before = (if n > 0 then Some (snd (ml ! (n - 1))) else None)"
  define after where "after = (if n < length without then Some (snd (ml ! (n + 1))) else None)"
  have plan: "planTaskReorder ordered k toIndex = (case getPositionBetween before after of
      Some p \<Rightarrow> [(k, p)] | None \<Rightarrow> zip (map fst ml) (repackPositions (length ml)))"
    by (simp only: planTaskReorder_def find option.case Let_def before_def after_def diff_Suc_1 len(1)
        without [symmetric] n [symmetric] ml_def [symmetric])
  show ?thesis
  proof (cases "getPositionBetween before after")
    case None
    show ?thesis by (rule repack) (use plan None len(1) in \<open>simp add: ml_def\<close>)
  next
    case (Some p)
    from position_between [OF Some] show ?thesis
      by (intro midpoint [of p]) (use plan Some left right in \<open>auto simp: before_def after_def\<close>)
  qed
qed

lemma planned_ids: "fst ` set (planTaskReorder ordered k toIndex) \<subseteq> fst ` set ordered"
proof (cases "List.find (\<lambda>item. fst item = k) ordered")
  case (Some it)
  then have it: "it \<in> set ordered" "fst it = k" by (auto dest: find_hit)
  then have find: "List.find (\<lambda>item. fst item = k) ordered = Some (k, snd it)" using Some by (metis prod.collapse)
  show ?thesis
  proof (cases rule: planTaskReorder_cases [OF find refl refl, of toIndex])
    case (1 p)
    then show ?thesis using it by force
  next
    case 2
    let ?w = "filter (\<lambda>item. fst item \<noteq> k) ordered" and ?n = "nat (max 0 (min toIndex (int (length (filter (\<lambda>item. fst item \<noteq> k) ordered)))))"
    have "set (take ?n ?w @ [(k, snd it)] @ drop ?n ?w) \<subseteq> set ordered"
      using it set_take_subset [of ?n ?w] set_drop_subset [of ?n ?w] by auto
    then have "set (map fst (take ?n ?w @ [(k, snd it)] @ drop ?n ?w)) \<subseteq> fst ` set ordered"
      unfolding set_map by (rule image_mono)
    moreover have "fst ` set (zip ks ps) \<subseteq> set ks" for ks :: "ident list" and ps :: "int list" by (auto dest: set_zip_leftD)
    ultimately show ?thesis unfolding 2 by (meson subset_trans)
  qed
qed (simp add: planTaskReorder_def)

text \<open>Renumbering the rows of a column by a plan, read back in board order.\<close>

lemma apply_positions_keeps [simp]:
  "tsk_id (apply_positions u r) = tsk_id r" "tsk_projectId (apply_positions u r) = tsk_projectId r"
  "tsk_status (apply_positions u r) = tsk_status r" "tsk_deletedAt (apply_positions u r) = tsk_deletedAt r"
  "tsk_createdAt (apply_positions u r) = tsk_createdAt r"
  "(apply_positions u r)\<lparr>tsk_position := p\<rparr> = r\<lparr>tsk_position := p\<rparr>"
  by (simp_all add: apply_positions_def split: option.splits)

lemma find_pair:
  "r \<in> set rs \<Longrightarrow> distinct (map tsk_id rs) \<Longrightarrow>
    List.find (\<lambda>item. fst item = tsk_id r) (map (\<lambda>r. (tsk_id r, tsk_position r)) rs) = Some (tsk_id r, tsk_position r)"
  by (induction rs) force+

lemma sorted_by_position_repacked:
  assumes rows: "mset rows = mset R" and ids: "distinct (map tsk_id R)"
    and u: "u = zip (map tsk_id rows) (repackPositions (length rows))"
  shows "sort_key tsk_position (sort_key tsk_createdAt (map (apply_positions u) R)) = map (apply_positions u) rows"
proof -
  have "mset (map tsk_id rows) = mset (map tsk_id R)" using rows by simp
  then have dist: "distinct (map tsk_id rows)" using ids by (metis mset_eq_imp_distinct_iff)
  have pos: "map tsk_position (map (apply_positions u) rows) = repackPositions (length rows)"
  proof (rule nth_equalityI)
    fix j assume "j < length (map tsk_position (map (apply_positions u) rows))"
    then have j: "j < length rows" by simp
    then have "u ! j = (tsk_id (rows ! j), repackPositions (length rows) ! j)" by (simp add: u repack_increasing(2))
    then have "(tsk_id (rows ! j), repackPositions (length rows) ! j) \<in> set u"
      using j by (metis u length_map length_zip min.idem nth_mem repack_increasing(2))
    then have "map_of u (tsk_id (rows ! j)) = Some (repackPositions (length rows) ! j)"
      using dist by (intro map_of_is_SomeI) (simp_all add: u repack_increasing(2))
    then show "map tsk_position (map (apply_positions u) rows) ! j = repackPositions (length rows) ! j"
      using j by (simp add: apply_positions_def)
  qed (simp add: repack_increasing(2))
  have strict: "sorted_wrt (<) (map tsk_position (map (apply_positions u) rows))" by (simp only: pos repack_increasing(1))
  then have inj: "inj_on tsk_position (set (map (apply_positions u) rows))"
    by (metis distinct_map strict_sorted_iff)
  have same: "mset (map (apply_positions u) rows) = mset (sort_key tsk_createdAt (map (apply_positions u) R))"
    using rows by simp
  then have "set (sort_key tsk_createdAt (map (apply_positions u) R)) = set (map (apply_positions u) rows)"
    by (metis set_mset_mset)
  with inj have "inj_on tsk_position (set (sort_key tsk_createdAt (map (apply_positions u) R)))" by (simp only:)
  then show ?thesis using same strict by (intro sort_key_inj_key_eq) (simp_all add: strict_sorted_iff)
qed

lemma sorted_by_position_moved:
  assumes ids: "distinct (map tsk_id R)" and r: "r \<in> set R" "tsk_id r = k"
    and rest: "rest = filter (\<lambda>x. tsk_id x \<noteq> k) (sort_key tsk_position (sort_key tsk_createdAt R))" and n: "n \<le> length rest"
    and left: "n > 0 \<Longrightarrow> tsk_position (rest ! (n - 1)) < p" and right: "n < length rest \<Longrightarrow> p < tsk_position (rest ! n)"
  shows "sort_key tsk_position (sort_key tsk_createdAt (map (apply_positions [(k, p)]) R))
    = take n rest @ [apply_positions [(k, p)] r] @ drop n rest"
proof (rule sorted_place [where key = tsk_position, OF _ _ _ n])
  let ?ap = "apply_positions [(k, p)]" and ?x = "apply_positions [(k, p)] r"
  let ?sorted = "sort_key tsk_position (sort_key tsk_createdAt (map (apply_positions [(k, p)]) R))"
  have unique: "y = ?x" if "y \<in> set (map ?ap R)" "tsk_id y = k" for y
  proof -
    obtain z where z: "y = ?ap z" "z \<in> set R" using \<open>y \<in> set (map ?ap R)\<close> by auto
    then have "z = r" using ids r \<open>tsk_id y = k\<close> unfolding distinct_map by (auto dest: inj_onD)
    then show "y = ?x" using z by simp
  qed
  have others: "map ?ap (filter (\<lambda>y. tsk_id y \<noteq> k) R) = filter (\<lambda>y. tsk_id y \<noteq> k) R"
    by (rule map_idI) (simp add: apply_positions_def)
  have "filter (\<lambda>y. y \<noteq> ?x) ?sorted = filter (\<lambda>y. tsk_id y \<noteq> k) ?sorted"
    using unique r(2) by (intro filter_cong) auto
  also have "\<dots> = rest" by (simp add: rest filter_sort filter_map comp_def others)
  finally show "filter (\<lambda>y. y \<noteq> ?x) ?sorted = rest" .
  have "distinct (map tsk_id (map ?ap R))" using ids by (simp add: comp_def)
  then show "distinct ?sorted" by (metis distinct_map distinct_sort)
  have xp: "tsk_position ?x = p" by (simp add: apply_positions_def r(2))
  show "tsk_position (rest ! (n - 1)) < tsk_position ?x" if "n > 0" using left [OF that] by (simp add: xp)
  show "tsk_position ?x < tsk_position (rest ! n)" if "n < length rest" using right [OF that] by (simp add: xp)
qed (use r in auto)

lemma mset_without:
  assumes "r \<in> set xs" and "distinct (map key xs)"
  shows "mset xs = mset (filter (\<lambda>x. key x \<noteq> key r) xs) + {#r#}"
proof -
  obtain as bs where xs: "xs = as @ r # bs" using assms(1) by (meson split_list)
  then have "key r \<notin> key ` set as" "key r \<notin> key ` set bs" using assms(2) by auto
  then have "filter (\<lambda>x. key x \<noteq> key r) as = as" "filter (\<lambda>x. key x \<noteq> key r) bs = bs"
    unfolding filter_id_conv by (metis imageI)+
  then show ?thesis by (simp add: xs)
qed

lemma replanned_column:
  assumes ids: "distinct (map tsk_id R)" and r: "r \<in> set R" "tsk_id r = k"
    and col: "col = sort_key tsk_position (sort_key tsk_createdAt R)"
    and u: "u = planTaskReorder (map (\<lambda>r. (tsk_id r, tsk_position r)) col) k toIndex"
  shows "map tsk_id (sort_key tsk_position (sort_key tsk_createdAt (map (apply_positions u) R)))
    = placed (\<lambda>i. i = k) k toIndex (map tsk_id col)"
proof -
  define rest where "rest = filter (\<lambda>x. tsk_id x \<noteq> k) col"
  define n where "n = nat (max 0 (min toIndex (int (length rest))))"
  define rows where "rows = take n rest @ [r] @ drop n rest"
  have perm: "mset col = mset R" by (simp add: col)
  then have "mset (map tsk_id col) = mset (map tsk_id R)" by simp
  then have dcol: "distinct (map tsk_id col)" using ids by (metis mset_eq_imp_distinct_iff)
  have rcol: "r \<in> set col" using r(1) by (simp add: col)
  have target: "placed (\<lambda>i. i = k) k toIndex (map tsk_id col) = map tsk_id rows"
    by (simp add: placed_def Let_def filter_map comp_def rows_def rest_def n_def r(2) take_map drop_map)
  have pairs: "filter (\<lambda>item. fst item \<noteq> k) (map (\<lambda>r. (tsk_id r, tsk_position r)) col) = map (\<lambda>r. (tsk_id r, tsk_position r)) rest"
    by (simp add: filter_map comp_def rest_def)
  have len: "n = nat (max 0 (min toIndex (int (length (map (\<lambda>r. (tsk_id r, tsk_position r)) rest)))))" "n \<le> length rest"
    by (auto simp: n_def)
  show ?thesis
  proof (cases rule: planTaskReorder_cases [OF find_pair [OF rcol dcol, unfolded r(2)] pairs [symmetric] len(1)])
    case (1 p)
    have "u = [(k, p)]" using 1(1) by (simp add: u)
    moreover have "tsk_position (rest ! (n - 1)) < p" if "n > 0" using 1(2) [OF that] len(2) that by simp
    moreover have "p < tsk_position (rest ! n)" if "n < length rest" using 1(3) that by simp
    ultimately show ?thesis
      using sorted_by_position_moved [OF ids r rest_def [unfolded col] len(2)] by (simp add: target rows_def)
  next
    case 2
    have "mset rest + {#r#} = mset col" using mset_without [OF rcol dcol] by (simp add: rest_def r(2))
    moreover have "mset rows = mset (take n rest @ drop n rest) + {#r#}" by (simp only: rows_def mset_append) simp
    ultimately have "mset rows = mset R" by (simp add: perm)
    moreover have "u = zip (map tsk_id rows) (repackPositions (length rows))"
      using 2 len(2) by (simp add: u rows_def r(2) comp_def take_map drop_map)
    ultimately show ?thesis using sorted_by_position_repacked [OF _ ids] by (simp add: target comp_def)
  qed
qed

lemma sorted_by_position_last:
  assumes "distinct R'" and "x \<in> set R'" and R: "filter (\<lambda>y. y \<noteq> x) R' = R"
    and "\<forall>y\<in>set R. tsk_position y < tsk_position x"
  shows "sort_key tsk_position (sort_key tsk_createdAt R') = sort_key tsk_position (sort_key tsk_createdAt R) @ [x]"
proof -
  let ?rest = "sort_key tsk_position (sort_key tsk_createdAt R)"
  have "sort_key tsk_position (sort_key tsk_createdAt R') = take (length ?rest) ?rest @ [x] @ drop (length ?rest) ?rest"
  proof (rule sorted_place [where key = tsk_position])
    show "filter (\<lambda>y. y \<noteq> x) (sort_key tsk_position (sort_key tsk_createdAt R')) = ?rest"
      by (simp add: filter_sort R)
    assume "length ?rest > 0"
    then have "?rest ! (length ?rest - 1) \<in> set ?rest" by (intro nth_mem) simp
    then show "tsk_position (?rest ! (length ?rest - 1)) < tsk_position x" using assms(4) by simp
  qed (use assms(1,2) in auto)
  then show ?thesis by simp
qed

section \<open>The state of the board\<close>

text \<open>Ids are unique, and a task carries a completion date exactly while it is done.\<close>

definition tasks_ok :: "workspace \<Rightarrow> bool" where
  "tasks_ok w \<longleftrightarrow> distinct (map tsk_id (tasks w)) \<and> (\<forall>r\<in>set (tasks w). (tsk_completedAt r \<noteq> None) = (tsk_status r = Done))"

text \<open>What an action that succeeded did to the table, and that one that was refused did nothing.\<close>

lemma createTask_result:
  assumes "createTask req parsed newId now w = (res, w1)"
  shows "(\<exists>f pid. parsed = Inr f \<and> res = Inr newId \<and> pid = kf_subject f
      \<and> tasks w1 = tasks w @ [task_draft newId pid (getNextColumnPosition pid (kf_status f) w) now f])
    \<or> (\<exists>m. res = Inl m) \<and> w1 = w"
proof -
  have id: "prj_id p = k" if "live_project k d = Some p" for p k d
    using that by (auto simp: live_project_def dest: find_id_Some split: option.splits if_splits)
  show ?thesis using assms unfolding createTask_def
    by (auto simp: Let_def add_row_def id split: sum.splits option.splits)
qed

lemma updateTask_result:
  assumes "updateTask req parsed now w = (res, w1)"
  shows "(\<exists>f r. parsed = Inr f \<and> res = Inr (kf_subject f) \<and> find_live_task (kf_subject f) w = Some r
      \<and> tasks w1 = update_where (live_task_row (kf_subject f))
          (\<lambda>x. (toTaskWriteValues f x)\<lparr>tsk_completedAt := if kf_status f = Done
              then Some (case tsk_completedAt r of Some d \<Rightarrow> d | None \<Rightarrow> now) else None\<rparr>) (tasks w))
    \<or> (\<exists>m. res = Inl m) \<and> w1 = w"
  using assms unfolding updateTask_def
  by (auto simp: Let_def split: sum.splits option.splits)

lemma updateTaskStatus_result:
  assumes "updateTaskStatus req parsed now w = (res, w1)"
  shows "(\<exists>k s r. parsed = Inr (k, s) \<and> res = Inr k \<and> find_live_task k w = Some r \<and> canTransitionTaskStatus (tsk_status r) s = Allowed s
      \<and> tasks w1 = update_where (live_task_row k)
          (\<lambda>x. x\<lparr>tsk_status := s, tsk_position := getNextColumnPosition (tsk_projectId r) s w,
                 tsk_completedAt := (if s = Done then Some now else None)\<rparr>) (tasks w))
    \<or> (\<exists>m. res = Inl m) \<and> w1 = w"
  using assms unfolding updateTaskStatus_def
  by (auto simp: Let_def task_machine.can_iff split: sum.splits option.splits transition.splits split del: if_split)

lemma reorderTask_result:
  assumes "reorderTask req parsed w = (res, w1)"
  shows "(\<exists>k toIndex r. parsed = Inr (k, toIndex) \<and> res = Inr k \<and> find_live_task k w = Some r
      \<and> tasks w1 = map (apply_positions (planTaskReorder
          (map (\<lambda>r. (tsk_id r, tsk_position r)) (board_column (tsk_projectId r) (tsk_status r) w)) k toIndex)) (tasks w))
    \<or> (\<exists>m. res = Inl m) \<and> w1 = w"
proof -
  have none: "map (apply_positions []) xs = xs" for xs by (simp add: apply_positions_def map_idI)
  have id: "tsk_id r = k" if "find_live_task k w = Some r" for k r
    using that by (auto simp: find_live_task_def live_task_row_def dest: find_hit)
  show ?thesis using assms unfolding reorderTask_def
    by (auto simp: Let_def none id split: sum.splits option.splits if_splits)
qed

lemma deletion_results:
  "softDeleteTask req p now w = (res, w1) \<Longrightarrow>
     (\<exists>k. p = Inr k \<and> res = Inr k \<and> tasks w1 = update_where (live_task_row k) (\<lambda>r. r\<lparr>tsk_deletedAt := Some now\<rparr>) (tasks w))
     \<or> (\<exists>m. res = Inl m) \<and> w1 = w"
  "restoreTask req p w = (res, w1) \<Longrightarrow>
     (\<exists>k. p = Inr k \<and> res = Inr k \<and> tasks w1 = update_where (\<lambda>r. tsk_id r = k \<and> tsk_deletedAt r \<noteq> None)
         (\<lambda>r. r\<lparr>tsk_deletedAt := None\<rparr>) (tasks w))
     \<or> (\<exists>m. res = Inl m) \<and> w1 = w"
  unfolding softDeleteTask_def restoreTask_def by (auto split: sum.splits option.splits)

definition sample_task :: "ident \<Rightarrow> int \<Rightarrow> task_status \<Rightarrow> task_row" where
  "sample_task k position status =
     \<lparr>tsk_id = k, tsk_projectId = ''p1'', tsk_title = ''Sketch'', tsk_description = None, tsk_status = status, tsk_priority = Normal,
       tsk_dueAt = None, tsk_completedAt = (if status = Done then Some 1700000000000 else None), tsk_position = position,
       tsk_hourlyRateCents = None, tsk_createdAt = 1700000000000, tsk_deletedAt = None\<rparr>"

definition sample_board :: workspace where
  "sample_board = sample_workspace\<lparr>tasks := [sample_task ''a'' 1000 Todo, sample_task ''b'' 1001 Todo, sample_task ''c'' 1002 Todo,
     sample_task ''d'' 1000 Done]\<rparr>"

lemmas sample_board_defs = sample_board_def sample_task_def

lemma done_iff_dated_update:
  assumes "\<And>x. x \<in> set t \<Longrightarrow> p x \<Longrightarrow> tsk_id (g x) = tsk_id x \<and> (tsk_completedAt (g x) \<noteq> None) = (tsk_status (g x) = Done)"
    and "distinct (map tsk_id t) \<and> (\<forall>r\<in>set t. (tsk_completedAt r \<noteq> None) = (tsk_status r = Done))"
  shows "distinct (map tsk_id (update_where p g t))
    \<and> (\<forall>r\<in>set (update_where p g t). (tsk_completedAt r \<noteq> None) = (tsk_status r = Done))"
proof
  have "map tsk_id (update_where p g t) = map tsk_id t" using assms(1) by (simp add: update_where_def)
  then show "distinct (map tsk_id (update_where p g t))" using assms(2) by simp
qed (use assms in \<open>auto simp: update_where_def\<close>)

text \<open>
  The board stays consistent: whatever the actions on tasks are asked to do, ids stay unique and a task
  carries a completion date exactly while it is done, whichever action made it so or undid it.
\<close>

theorem tasks_stay_consistent:
  assumes "tasks_ok w" and "newId \<notin> tsk_id ` set (tasks w)"
  shows "tasks_ok (snd (createTask req form newId now w))
    \<and> tasks_ok (snd (updateTask req form now w))
    \<and> tasks_ok (snd (updateTaskStatus req status now w))
    \<and> tasks_ok (snd (reorderTask req move w))
    \<and> tasks_ok (snd (softDeleteTask req k now w))
    \<and> tasks_ok (snd (restoreTask req k w))"
proof (intro conjI)
  note ok = assms(1) [unfolded tasks_ok_def]
  have keep: "tasks_ok w1" if "tasks w1 = update_where p g (tasks w)"
    "\<And>x. x \<in> set (tasks w) \<Longrightarrow> p x \<Longrightarrow> tsk_id (g x) = tsk_id x \<and> (tsk_completedAt (g x) \<noteq> None) = (tsk_status (g x) = Done)"
    for w1 p g unfolding tasks_ok_def that(1) by (rule done_iff_dated_update [OF that(2) ok])
  show "tasks_ok (snd (createTask req form newId now w))"
    using createTask_result [of req form newId now w, OF prod.collapse [symmetric]] assms
    by (force simp: tasks_ok_def task_draft_def)
  show "tasks_ok (snd (updateTask req form now w))"
    using updateTask_result [of req form now w, OF prod.collapse [symmetric]]
    by (elim disjE exE conjE) (erule keep, auto simp: toTaskWriteValues_def live_task_row_def assms(1))
  show "tasks_ok (snd (updateTaskStatus req status now w))"
    using updateTaskStatus_result [of req status now w, OF prod.collapse [symmetric]]
    by (elim disjE exE conjE) (erule keep, auto simp: assms(1))
  show "tasks_ok (snd (softDeleteTask req k now w))"
    using deletion_results(1) [of req k now w, OF prod.collapse [symmetric]]
    by (elim disjE exE conjE) (erule keep, use ok in \<open>auto simp: assms(1)\<close>)
  show "tasks_ok (snd (restoreTask req k w))"
    using deletion_results(2) [of req k w, OF prod.collapse [symmetric]]
    by (elim disjE exE conjE) (erule keep, use ok in \<open>auto simp: assms(1)\<close>)
  show "tasks_ok (snd (reorderTask req move w))"
    using reorderTask_result [of req move w, OF prod.collapse [symmetric]] assms(1)
    by (auto simp: tasks_ok_def comp_def) (auto simp: apply_positions_def split: option.splits)
qed

lemma tasks_stay_consistent_witness:
  "tasks_ok (snd (updateTaskStatus owner_request (Inr (''a'', Done)) 1700000000000 sample_board))
    \<and> map_option tsk_completedAt (find_live_task ''a'' (snd (updateTaskStatus owner_request (Inr (''a'', Done)) 1700000000000 sample_board)))
      = Some (Some 1700000000000)"
proof
  have "tasks_ok sample_board" by (simp add: tasks_ok_def sample_board_defs)
  moreover have "''e'' \<notin> tsk_id ` set (tasks sample_board)" by (simp add: sample_board_defs)
  ultimately show "tasks_ok (snd (updateTaskStatus owner_request (Inr (''a'', Done)) 1700000000000 sample_board))"
    using tasks_stay_consistent by blast
qed code_simp

text \<open>
  C29. A moved task lands where it was dropped: after a reorder that was accepted its column reads, in board
  order, as the other tasks in their old order with the moved one at the wanted index, clamped to the column;
  whether one row was written or the column was renumbered. No other column changes, and no row changes but
  in its position. The witness drops the last of three tasks between two that leave no room.
\<close>

theorem reorder_puts_task_at_index:
  assumes "tasks_ok w" and "reorderTask req (Inr (k, toIndex)) w = (Inr k', w1)"
  shows "\<exists>r. find_live_task k w = Some r \<and> k' = k
    \<and> map tsk_id (board_column (tsk_projectId r) (tsk_status r) w1)
        = placed (\<lambda>i. i = k) k toIndex (map tsk_id (board_column (tsk_projectId r) (tsk_status r) w))
    \<and> map (\<lambda>x. x\<lparr>tsk_position := 0\<rparr>) (tasks w1) = map (\<lambda>x. x\<lparr>tsk_position := 0\<rparr>) (tasks w)
    \<and> (\<forall>x\<in>set (tasks w). in_column (tsk_projectId r) (tsk_status r) x \<or> x \<in> set (tasks w1))"
proof -
  from reorderTask_result [OF assms(2)] obtain r u where r: "find_live_task k w = Some r" "k' = k"
    and u: "u = planTaskReorder (map (\<lambda>r. (tsk_id r, tsk_position r)) (board_column (tsk_projectId r) (tsk_status r) w)) k toIndex"
    and w1: "tasks w1 = map (apply_positions u) (tasks w)" by auto
  let ?in = "in_column (tsk_projectId r) (tsk_status r)"
  let ?R = "filter ?in (tasks w)"
  have row: "r \<in> set ?R" "tsk_id r = k"
    using r(1) by (auto simp: find_live_task_def live_task_row_def in_column_def dest: find_hit)
  have ids: "distinct (map tsk_id (tasks w))" using assms(1) by (simp add: tasks_ok_def)
  then have "distinct (map tsk_id ?R)" by (rule distinct_map_filter)
  from replanned_column [OF this row refl, of u toIndex] u
  have "map tsk_id (sort_key tsk_position (sort_key tsk_createdAt (map (apply_positions u) ?R)))
    = placed (\<lambda>i. i = k) k toIndex (map tsk_id (board_column (tsk_projectId r) (tsk_status r) w))"
    by (simp add: board_column_def)
  moreover have "filter ?in (tasks w1) = map (apply_positions u) ?R"
    by (simp add: w1 filter_map comp_def in_column_def [abs_def])
  moreover have "apply_positions u x = x" if "x \<in> set (tasks w)" "\<not> ?in x" for x
  proof -
    have "tsk_id x \<notin> tsk_id ` set ?R" using that ids by (auto simp: distinct_map dest: inj_onD)
    then have "map_of u (tsk_id x) = None" using planned_ids [of _ k toIndex] by (force simp: u map_of_eq_None_iff board_column_def)
    then show ?thesis by (simp add: apply_positions_def)
  qed
  ultimately show ?thesis using r by (intro exI [of _ r]) (force simp: board_column_def w1 comp_def)
qed

lemma reorder_puts_task_at_index_witness:
  "map tsk_id (board_column ''p1'' Todo (snd (reorderTask owner_request (Inr (''c'', 1)) sample_board))) = [''a'', ''c'', ''b'']
    \<and> map tsk_position (tasks (snd (reorderTask owner_request (Inr (''c'', 1)) sample_board))) = [1000, 3000, 2000, 1000]"
proof
  let ?m = "reorderTask owner_request (Inr (''c'', 1)) sample_board"
  have ok: "tasks_ok sample_board" by (simp add: tasks_ok_def sample_board_defs)
  have "fst ?m = Inr ''c''" by code_simp
  then have m: "?m = (Inr ''c'', snd ?m)" by (metis prod.collapse)
  have c: "find_live_task ''c'' sample_board = Some (sample_task ''c'' 1002 Todo)" by code_simp
  have old: "map tsk_id (board_column ''p1'' Todo sample_board) = [''a'', ''b'', ''c'']" by code_simp
  from reorder_puts_task_at_index [OF ok m] c old
  show "map tsk_id (board_column ''p1'' Todo (snd ?m)) = [''a'', ''c'', ''b'']" by (auto simp: sample_task_def placed_def)
qed code_simp

lemma created_task_goes_last:
  assumes "tasks_ok w" and new: "newId \<notin> tsk_id ` set (tasks w)"
    and "createTask req (Inr f) newId now w = (Inr k, w1)"
  shows "map tsk_id (board_column (kf_subject f) (kf_status f) w1) = map tsk_id (board_column (kf_subject f) (kf_status f) w) @ [newId]"
proof -
  let ?in = "in_column (kf_subject f) (kf_status f)"
  let ?x = "task_draft newId (kf_subject f) (getNextColumnPosition (kf_subject f) (kf_status f) w) now f"
  have ids: "distinct (tasks w)" using assms(1) by (simp add: tasks_ok_def distinct_map)
  have x: "tsk_id ?x = newId" "?in ?x" "tsk_position ?x = getNextColumnPosition (kf_subject f) (kf_status f) w"
    by (simp_all add: task_draft_def in_column_def)
  have "tasks w1 = tasks w @ [?x]" using createTask_result [OF assms(3)] by auto
  then have R': "filter ?in (tasks w1) = filter ?in (tasks w) @ [?x]" using x(2) by simp
  have "?x \<notin> set (tasks w)" using new x(1) by (metis imageI)
  then have "filter (\<lambda>y. y \<noteq> ?x) (filter ?in (tasks w1)) = filter ?in (tasks w)" unfolding R'
    by (auto simp del: filter_filter simp: filter_id_conv)
  moreover have "distinct (filter ?in (tasks w1))" "?x \<in> set (filter ?in (tasks w1))"
    using ids \<open>?x \<notin> set (tasks w)\<close> unfolding R' by auto
  moreover have "\<forall>y\<in>set (filter ?in (tasks w)). tsk_position y < tsk_position ?x"
    unfolding x(3) by (auto simp: getNextColumnPosition_def intro!: initial_position_last)
  ultimately have "board_column (kf_subject f) (kf_status f) w1 = board_column (kf_subject f) (kf_status f) w @ [?x]"
    unfolding board_column_def by (intro sorted_by_position_last)
  then show ?thesis using x(1) by simp
qed

text \<open>
  A task that changes its status goes to the end of its new column: a change that was accepted was asked for
  a live task of another status; its new column then reads as before with the task appended, and its old
  column as before without it.
\<close>

theorem moved_task_goes_last:
  assumes "tasks_ok w" and "updateTaskStatus req (Inr (k, s)) now w = (Inr k', w1)"
  shows "\<exists>r. find_live_task k w = Some r \<and> tsk_status r \<noteq> s
    \<and> map tsk_id (board_column (tsk_projectId r) s w1) = map tsk_id (board_column (tsk_projectId r) s w) @ [k]
    \<and> map tsk_id (board_column (tsk_projectId r) (tsk_status r) w1)
        = filter (\<lambda>i. i \<noteq> k) (map tsk_id (board_column (tsk_projectId r) (tsk_status r) w))"
proof -
  from updateTaskStatus_result [OF assms(2)] obtain r where r: "find_live_task k w = Some r"
    and to: "canTransitionTaskStatus (tsk_status r) s = Allowed s"
    and w1: "tasks w1 = update_where (live_task_row k) (\<lambda>x. x\<lparr>tsk_status := s,
        tsk_position := getNextColumnPosition (tsk_projectId r) s w, tsk_completedAt := (if s = Done then Some now else None)\<rparr>) (tasks w)"
    by auto
  define x where "x = r\<lparr>tsk_status := s, tsk_position := getNextColumnPosition (tsk_projectId r) s w,
      tsk_completedAt := (if s = Done then Some now else None)\<rparr>"
  have row: "r \<in> set (tasks w)" "tsk_id r = k" "live_task_row k r"
    using r by (auto simp: find_live_task_def live_task_row_def dest: find_hit)
  have other: "tsk_status r \<noteq> s" using to by (auto simp: canTransitionTaskStatus_def)
  obtain as bs where w: "tasks w = as @ r # bs" using row(1) by (meson split_list)
  have out: "k \<notin> tsk_id ` set as" "k \<notin> tsk_id ` set bs" and dist: "distinct (as @ r # bs)"
    using assms(1) row(2) by (auto simp: tasks_ok_def w distinct_map)
  then have "update_where (live_task_row k) g as = as" "update_where (live_task_row k) g bs = bs" for g
    by (auto simp: update_where_def live_task_row_def intro!: map_idI)
  then have w1': "tasks w1 = as @ x # bs" using row(3) by (simp add: w1 w x_def update_where_def)
  have xs: "tsk_id x = k" "in_column (tsk_projectId r) s x" "\<not> in_column (tsk_projectId r) (tsk_status r) x"
    "\<not> in_column (tsk_projectId r) s r"
    using other row(2,3) by (auto simp: x_def in_column_def live_task_row_def)
  have new: "sort_key tsk_position (sort_key tsk_createdAt (filter (in_column (tsk_projectId r) s) (tasks w1)))
    = board_column (tsk_projectId r) s w @ [x]"
    unfolding board_column_def
  proof (rule sorted_by_position_last)
    have "x \<notin> set as" "x \<notin> set bs" using out xs(1) by blast+
    then have "filter (\<lambda>y. y \<noteq> x) (filter p as) = filter p as" "filter (\<lambda>y. y \<noteq> x) (filter p bs) = filter p bs" for p
      by (auto simp: filter_id_conv simp del: filter_filter)
    with \<open>x \<notin> set as\<close> \<open>x \<notin> set bs\<close> show "filter (\<lambda>y. y \<noteq> x) (filter (in_column (tsk_projectId r) s) (tasks w1)) = filter (in_column (tsk_projectId r) s) (tasks w)"
      "distinct (filter (in_column (tsk_projectId r) s) (tasks w1))"
      using xs dist by (auto simp: w w1' simp del: filter_filter)
    show "\<forall>y\<in>set (filter (in_column (tsk_projectId r) s) (tasks w)). tsk_position y < tsk_position x"
      by (auto simp: x_def getNextColumnPosition_def intro!: initial_position_last)
  qed (use xs(2) in \<open>simp add: w1'\<close>)
  have "filter (\<lambda>r. tsk_id r \<noteq> k) (filter p as) = filter p as" "filter (\<lambda>r. tsk_id r \<noteq> k) (filter p bs) = filter p bs" for p
    using out by (auto simp: filter_id_conv simp del: filter_filter)
  then have "board_column (tsk_projectId r) (tsk_status r) w1
      = filter (\<lambda>r. tsk_id r \<noteq> k) (board_column (tsk_projectId r) (tsk_status r) w)"
    using xs(3) row(2) by (simp add: board_column_def w1' w filter_sort del: filter_filter)
  then show ?thesis using r other new xs(1)
    by (intro exI [of _ r]) (simp add: board_column_def filter_map comp_def)
qed

lemma moved_task_goes_last_witness:
  "map tsk_id (board_column ''p1'' Done (snd (updateTaskStatus owner_request (Inr (''b'', Done)) 1700000000000 sample_board))) = [''d'', ''b'']"
proof -
  let ?m = "updateTaskStatus owner_request (Inr (''b'', Done)) 1700000000000 sample_board"
  have ok: "tasks_ok sample_board" by (simp add: tasks_ok_def sample_board_defs)
  have "fst ?m = Inr ''b''" by code_simp
  then have m: "?m = (Inr ''b'', snd ?m)" by (metis prod.collapse)
  have b: "find_live_task ''b'' sample_board = Some (sample_task ''b'' 1001 Todo)" by code_simp
  have "map tsk_id (board_column ''p1'' Done sample_board) = [''d'']" by code_simp
  with moved_task_goes_last [OF ok m] b show ?thesis by (auto simp: sample_task_def)
qed

end
