(* ===== verification/Expression.thy ===== *)
theory Expression
  imports JsNumber Numbering Session
begin

text \<open>
  The arithmetic of the template editor's number fields (\<open>features/templates/services/expression.ts\<close>): the
  tokenizer, the recursive-descent parser and the evaluation against a field's current value. Numbers are doubles with
  their overflow to the infinities, since the code asks whether its result is finite; strings are lists of
  characters of one byte, and both zeros are 0.
\<close>

section \<open>Doubles\<close>

datatype jsfloat = Fin jsnum | PosInf | NegInf | NaN

definition double :: "rat \<Rightarrow> jsfloat" where
  "double q = (let v = fl q in if v \<ge> 2 ^ 1024 then PosInf else if v \<le> - (2 ^ 1024) then NegInf else Fin v)"

fun neg_float :: "jsfloat \<Rightarrow> jsfloat" where
  "neg_float (Fin v) = Fin (- v)"
| "neg_float PosInf = NegInf"
| "neg_float NegInf = PosInf"
| "neg_float NaN = NaN"

fun add_float :: "jsfloat \<Rightarrow> jsfloat \<Rightarrow> jsfloat" where
  "add_float (Fin a) (Fin b) = double (a + b)"
| "add_float NaN _ = NaN"
| "add_float _ NaN = NaN"
| "add_float PosInf NegInf = NaN"
| "add_float NegInf PosInf = NaN"
| "add_float PosInf _ = PosInf"
| "add_float _ PosInf = PosInf"
| "add_float NegInf _ = NegInf"
| "add_float _ NegInf = NegInf"

definition sub_float :: "jsfloat \<Rightarrow> jsfloat \<Rightarrow> jsfloat" where
  "sub_float a b = add_float a (neg_float b)"

definition infinity_of :: "rat \<Rightarrow> jsfloat" where
  "infinity_of s = (if s = 0 then NaN else if s > 0 then PosInf else NegInf)"

fun sign_of :: "jsfloat \<Rightarrow> rat" where
  "sign_of (Fin v) = sgn v"
| "sign_of PosInf = 1"
| "sign_of NegInf = -1"
| "sign_of NaN = 0"

fun mul_float :: "jsfloat \<Rightarrow> jsfloat \<Rightarrow> jsfloat" where
  "mul_float (Fin a) (Fin b) = double (a * b)"
| "mul_float a b = infinity_of (sign_of a * sign_of b)"

text \<open>Division by a zero is never reached: the code refuses it first.\<close>

fun div_float :: "jsfloat \<Rightarrow> jsfloat \<Rightarrow> jsfloat" where
  "div_float (Fin a) (Fin b) = double (a / b)"
| "div_float (Fin a) NaN = NaN"
| "div_float (Fin a) _ = Fin 0"
| "div_float a (Fin b) = infinity_of (sign_of a * (if b = 0 then 1 else sgn b))"
| "div_float _ _ = NaN"

section \<open>The tokenizer\<close>

datatype operator = Plus | Minus | Times | Divide

datatype token = Number jsfloat | Operator operator

definition is_digit :: "char \<Rightarrow> bool" where
  "is_digit c \<longleftrightarrow> 48 \<le> (of_char c :: nat) \<and> (of_char c :: nat) \<le> 57"

fun operator_of :: "char \<Rightarrow> operator option" where
  "operator_of c = (if c = CHR ''+'' then Some Plus else if c = CHR ''-'' then Some Minus
     else if c = CHR ''*'' then Some Times else if c = CHR ''/'' then Some Divide else None)"

text \<open>
  One match of \<open>TOKEN_PATTERN\<close> at the start of the text, with the text that follows the match. The fraction is
  taken only where a digit follows the point.
\<close>

definition match_number :: "string \<Rightarrow> jsfloat \<times> string" where
  "match_number s =
     (let whole = takeWhile is_digit s; rest = dropWhile is_digit s;
          fraction = (if rest \<noteq> [] \<and> hd rest = CHR ''.'' then takeWhile is_digit (tl rest) else [])
      in if fraction = [] then (double (of_nat (digits_value whole)), rest)
         else (double (of_nat (digits_value (whole @ fraction)) / 10 ^ length fraction), dropWhile is_digit (tl rest)))"

definition match_token :: "string \<Rightarrow> (token \<times> string) option" where
  "match_token s =
     (case dropWhile js_space s of
        [] \<Rightarrow> None
      | c # cs \<Rightarrow>
          if is_digit c then (case match_number (c # cs) of (v, rest) \<Rightarrow> Some (Number v, dropWhile js_space rest))
          else map_option (\<lambda>p. (Operator p, dropWhile js_space cs)) (operator_of c))"

lemma match_number_shorter:
  assumes "is_digit c"
  shows "length (snd (match_number (c # cs))) < length (c # cs)"
proof -
  have drop: "length (dropWhile p xs) \<le> length xs" for p and xs :: string by (rule length_dropWhile_le)
  have "length (dropWhile is_digit (c # cs)) \<le> length cs" using assms drop [of is_digit cs] by simp
  moreover have "length (snd (match_number (c # cs))) \<le> length (dropWhile is_digit (c # cs))"
    using drop [of is_digit "tl (dropWhile is_digit (c # cs))"]
    by (auto simp: match_number_def Let_def)
  ultimately show ?thesis by simp
qed

lemma match_token_shorter: "match_token s = Some (t, rest) \<Longrightarrow> length rest < length s"
proof -
  assume m: "match_token s = Some (t, rest)"
  have drop: "length (dropWhile p xs) \<le> length xs" for p and xs :: string by (rule length_dropWhile_le)
  obtain c cs where s: "dropWhile js_space s = c # cs"
    using m by (cases "dropWhile js_space s") (auto simp: match_token_def)
  have le: "length (c # cs) \<le> length s" using drop [of js_space s] by (simp add: s)
  have "length rest < length (c # cs)"
  proof (cases "is_digit c")
    case True
    then have "rest = dropWhile js_space (snd (match_number (c # cs)))"
      using m by (simp add: match_token_def s split: prod.splits)
    then show ?thesis using match_number_shorter [OF True, of cs] drop [of js_space "snd (match_number (c # cs))"] by simp
  next
    case False
    then have "rest = dropWhile js_space cs" using m by (auto simp: match_token_def s split: if_splits)
    then show ?thesis using drop [of js_space cs] by simp
  qed
  then show ?thesis using le by simp
qed

function tokenize :: "string \<Rightarrow> token list option" where
  "tokenize s =
     (if s = [] then Some []
      else case match_token s of
        None \<Rightarrow> None
      | Some (t, rest) \<Rightarrow> map_option (\<lambda>ts. t # ts) (tokenize rest))"
  by pat_completeness auto
termination
  by (relation "measure length") (auto dest: match_token_shorter)

declare tokenize.simps [simp del]

lemma tokenize_step: "match_token s = Some (t, rest) \<Longrightarrow> tokenize s = map_option (\<lambda>ts. t # ts) (tokenize rest)"
  by (subst tokenize.simps) (auto simp: match_token_def)

section \<open>The parser\<close>

text \<open>
  The code keeps an index into the tokens; here each function gets the tokens from the index on and answers its
  value with those it left. A loop that accumulates a value is a function of the value so far.
\<close>

fun parseFactor :: "token list \<Rightarrow> (jsfloat \<times> token list) option" where
  "parseFactor [] = None"
| "parseFactor (Number v # ts) = Some (v, ts)"
| "parseFactor (Operator q # ts) =
     (if q = Plus \<or> q = Minus then map_option (\<lambda>(v, rest). (if q = Minus then neg_float v else v, rest)) (parseFactor ts)
      else None)"

lemma parseFactor_shorter: "parseFactor ts = Some (v, rest) \<Longrightarrow> length rest < length ts"
  by (induction ts arbitrary: v rest rule: parseFactor.induct) (fastforce split: if_splits)+

function term_loop :: "jsfloat \<Rightarrow> token list \<Rightarrow> (jsfloat \<times> token list) option" where
  "term_loop u ts =
     (if ts \<noteq> [] \<and> (hd ts = Operator Times \<or> hd ts = Operator Divide) then
        case parseFactor (tl ts) of
          None \<Rightarrow> None
        | Some (rhs, rest) \<Rightarrow>
            if hd ts = Operator Divide \<and> rhs = Fin 0 then None
            else term_loop (if hd ts = Operator Times then mul_float u rhs else div_float u rhs) rest
      else Some (u, ts))"
  by pat_completeness auto
termination
proof (relation "measure (\<lambda>(u, ts). length ts)")
  fix u and ts rest :: "token list" and r :: "jsfloat \<times> token list" and v
  assume "ts \<noteq> [] \<and> (hd ts = Operator Times \<or> hd ts = Operator Divide)" "parseFactor (tl ts) = Some r" "(v, rest) = r"
  then have "length rest < length (tl ts)" by (auto dest: parseFactor_shorter)
  then show "((if hd ts = Operator Times then mul_float u v else div_float u v, rest), (u, ts)) \<in> measure (\<lambda>(u, ts). length ts)"
    by simp
qed simp

declare term_loop.simps [simp del]

definition parseTerm :: "token list \<Rightarrow> (jsfloat \<times> token list) option" where
  "parseTerm ts = (case parseFactor ts of None \<Rightarrow> None | Some (v, rest) \<Rightarrow> term_loop v rest)"

lemma term_loop_step:
  assumes "term_loop u ts = Some (v, rest)" and "ts \<noteq> [] \<and> (hd ts = Operator Times \<or> hd ts = Operator Divide)"
  obtains x r where "parseFactor (tl ts) = Some (x, r)" "\<not> (hd ts = Operator Divide \<and> x = Fin 0)"
    "term_loop (if hd ts = Operator Times then mul_float u x else div_float u x) r = Some (v, rest)"
  using assms by (auto simp: term_loop.simps [of u ts] split: option.splits if_splits)

lemma term_loop_shorter: "term_loop u ts = Some (v, rest) \<Longrightarrow> length rest \<le> length ts"
proof (induction u ts arbitrary: v rest rule: term_loop.induct)
  case (1 u ts)
  show ?case
  proof (cases "ts \<noteq> [] \<and> (hd ts = Operator Times \<or> hd ts = Operator Divide)")
    case True
    from term_loop_step [OF 1(2) True] obtain x r where f: "parseFactor (tl ts) = Some (x, r)"
      "\<not> (hd ts = Operator Divide \<and> x = Fin 0)"
      "term_loop (if hd ts = Operator Times then mul_float u x else div_float u x) r = Some (v, rest)" .
    have "length rest \<le> length r" by (rule 1(1) [OF True f(1) refl f(2,3)])
    then show ?thesis using parseFactor_shorter [OF f(1)] by simp
  qed (use 1(2) in \<open>auto simp: term_loop.simps [of u ts]\<close>)
qed

lemma parseTerm_shorter: "parseTerm ts = Some (v, rest) \<Longrightarrow> length rest < length ts"
  by (fastforce simp: parseTerm_def split: option.splits dest: parseFactor_shorter term_loop_shorter)

function sum_loop :: "jsfloat \<Rightarrow> token list \<Rightarrow> (jsfloat \<times> token list) option" where
  "sum_loop u ts =
     (if ts \<noteq> [] \<and> (hd ts = Operator Plus \<or> hd ts = Operator Minus) then
        case parseTerm (tl ts) of
          None \<Rightarrow> None
        | Some (rhs, rest) \<Rightarrow> sum_loop (if hd ts = Operator Plus then add_float u rhs else sub_float u rhs) rest
      else Some (u, ts))"
  by pat_completeness auto
termination
proof (relation "measure (\<lambda>(u, ts). length ts)")
  fix u and ts rest :: "token list" and r :: "jsfloat \<times> token list" and v
  assume "ts \<noteq> [] \<and> (hd ts = Operator Plus \<or> hd ts = Operator Minus)" "parseTerm (tl ts) = Some r" "(v, rest) = r"
  then have "length rest < length (tl ts)" by (auto dest: parseTerm_shorter)
  then show "((if hd ts = Operator Plus then add_float u v else sub_float u v, rest), (u, ts)) \<in> measure (\<lambda>(u, ts). length ts)"
    by simp
qed simp

declare sum_loop.simps [simp del]

definition parseSum :: "token list \<Rightarrow> (jsfloat \<times> token list) option" where
  "parseSum ts = (case parseTerm ts of None \<Rightarrow> None | Some (v, rest) \<Rightarrow> sum_loop v rest)"

definition parseTokens :: "token list \<Rightarrow> jsfloat option" where
  "parseTokens ts = (case parseSum ts of Some (v, []) \<Rightarrow> Some v | _ \<Rightarrow> None)"

definition evaluateExpression :: "string \<Rightarrow> jsnum option" where
  "evaluateExpression source =
     (case tokenize source of
        None \<Rightarrow> None
      | Some ts \<Rightarrow> if ts = [] then None else (case parseTokens ts of Some (Fin v) \<Rightarrow> Some v | _ \<Rightarrow> None))"

section \<open>The grammar\<close>

text \<open>
  The language the parser is to accept, with the value of each sentence, stated over token sequences and with no
  order of reading: products and quotients associate to the left, as do sums and differences, and a factor
  may carry signs. A quotient by zero is no sentence.
\<close>

inductive factor_means :: "token list \<Rightarrow> jsfloat \<Rightarrow> bool" where
  number: "factor_means [Number v] v"
| plus: "factor_means ts v \<Longrightarrow> factor_means (Operator Plus # ts) v"
| minus: "factor_means ts v \<Longrightarrow> factor_means (Operator Minus # ts) (neg_float v)"

inductive term_means :: "token list \<Rightarrow> jsfloat \<Rightarrow> bool" where
  factor: "factor_means ts v \<Longrightarrow> term_means ts v"
| times: "term_means ts u \<Longrightarrow> factor_means ts' v \<Longrightarrow> term_means (ts @ Operator Times # ts') (mul_float u v)"
| divide: "term_means ts u \<Longrightarrow> factor_means ts' v \<Longrightarrow> v \<noteq> Fin 0 \<Longrightarrow>
    term_means (ts @ Operator Divide # ts') (div_float u v)"

inductive sum_means :: "token list \<Rightarrow> jsfloat \<Rightarrow> bool" where
  single: "term_means ts v \<Longrightarrow> sum_means ts v"
| add: "sum_means ts u \<Longrightarrow> term_means ts' v \<Longrightarrow> sum_means (ts @ Operator Plus # ts') (add_float u v)"
| sub: "sum_means ts u \<Longrightarrow> term_means ts' v \<Longrightarrow> sum_means (ts @ Operator Minus # ts') (sub_float u v)"

lemma parseFactor_complete: "factor_means ts v \<Longrightarrow> parseFactor (ts @ rest) = Some (v, rest)"
  by (induction rule: factor_means.induct) simp_all

lemma parseTerm_complete: "term_means ts v \<Longrightarrow> parseTerm (ts @ rest) = term_loop v rest"
proof (induction arbitrary: rest rule: term_means.induct)
  case (factor ts v)
  then show ?case by (simp add: parseTerm_def parseFactor_complete)
next
  case (times ts u ts' v)
  then show ?case by (simp add: term_loop.simps [of u] parseFactor_complete)
next
  case (divide ts u ts' v)
  then show ?case by (simp add: term_loop.simps [of u] parseFactor_complete)
qed

lemma term_loop_stops: "rest = [] \<or> hd rest \<in> {Operator Plus, Operator Minus} \<Longrightarrow> term_loop u rest = Some (u, rest)"
  by (auto simp: term_loop.simps [of u])

lemma parseSum_complete:
  "sum_means ts v \<Longrightarrow> rest = [] \<or> hd rest \<in> {Operator Plus, Operator Minus} \<Longrightarrow> parseSum (ts @ rest) = sum_loop v rest"
proof (induction arbitrary: rest rule: sum_means.induct)
  case (single ts v)
  then show ?case by (simp add: parseSum_def parseTerm_complete term_loop_stops)
next
  case (add ts u ts' v)
  then show ?case by (simp add: sum_loop.simps [of u] parseTerm_complete term_loop_stops)
next
  case (sub ts u ts' v)
  then show ?case by (simp add: sum_loop.simps [of u] parseTerm_complete term_loop_stops)
qed

lemma parseFactor_sound: "parseFactor ts = Some (v, rest) \<Longrightarrow> \<exists>pre. ts = pre @ rest \<and> factor_means pre v"
proof (induction ts arbitrary: v rest rule: parseFactor.induct)
  case (3 q ts)
  then obtain u where u: "parseFactor ts = Some (u, rest)" "q = Plus \<or> q = Minus" "v = (if q = Minus then neg_float u else u)"
    by (auto split: if_splits)
  then obtain pre where "ts = pre @ rest" "factor_means pre u" using 3 by blast
  then show ?case using u by (intro exI [of _ "Operator q # pre"]) (auto intro: factor_means.intros)
qed (auto intro: factor_means.intros)

lemma term_loop_sound:
  "term_means done_ts u \<Longrightarrow> term_loop u ts = Some (v, rest) \<Longrightarrow> \<exists>pre. done_ts @ ts = pre @ rest \<and> term_means pre v"
proof (induction u ts arbitrary: done_ts rule: term_loop.induct)
  case (1 u ts)
  show ?case
  proof (cases "ts \<noteq> [] \<and> (hd ts = Operator Times \<or> hd ts = Operator Divide)")
    case True
    let ?w = "\<lambda>x. if hd ts = Operator Times then mul_float u x else div_float u x"
    from term_loop_step [OF 1(3) True] obtain x r where f: "parseFactor (tl ts) = Some (x, r)"
      "\<not> (hd ts = Operator Divide \<and> x = Fin 0)" "term_loop (?w x) r = Some (v, rest)" .
    from parseFactor_sound [OF f(1)] obtain pre where pre: "tl ts = pre @ r" "factor_means pre x" by blast
    then have ts: "ts = hd ts # pre @ r" using True by (metis list.collapse)
    have "term_means (done_ts @ hd ts # pre) (?w x)"
      using True f(2) pre(2) 1(2) by (auto intro: term_means.intros)
    then have "\<exists>pre'. (done_ts @ hd ts # pre) @ r = pre' @ rest \<and> term_means pre' v"
      using 1(1) [OF True f(1) refl f(2) _ f(3)] by blast
    then show ?thesis using ts by (metis append.assoc append_Cons)
  qed (use 1(2,3) in \<open>auto simp: term_loop.simps [of u ts]\<close>)
qed

lemma parseTerm_sound: "parseTerm ts = Some (v, rest) \<Longrightarrow> \<exists>pre. ts = pre @ rest \<and> term_means pre v"
  unfolding parseTerm_def
  by (auto split: option.splits dest!: parseFactor_sound dest: term_loop_sound [OF term_means.factor])

lemma sum_loop_sound:
  "sum_means done_ts u \<Longrightarrow> sum_loop u ts = Some (v, rest) \<Longrightarrow> \<exists>pre. done_ts @ ts = pre @ rest \<and> sum_means pre v"
proof (induction u ts arbitrary: done_ts rule: sum_loop.induct)
  case (1 u ts)
  show ?case
  proof (cases "ts \<noteq> [] \<and> (hd ts = Operator Plus \<or> hd ts = Operator Minus)")
    case True
    let ?w = "\<lambda>x. if hd ts = Operator Plus then add_float u x else sub_float u x"
    obtain x r where f: "parseTerm (tl ts) = Some (x, r)" "sum_loop (?w x) r = Some (v, rest)"
      using 1(3) True by (auto simp: sum_loop.simps [of u ts] split: option.splits if_splits)
    from parseTerm_sound [OF f(1)] obtain pre where pre: "tl ts = pre @ r" "term_means pre x" by blast
    then have ts: "ts = hd ts # pre @ r" using True by (metis list.collapse)
    have "sum_means (done_ts @ hd ts # pre) (?w x)" using True pre(2) 1(2) by (auto intro: sum_means.intros)
    then have "\<exists>pre'. (done_ts @ hd ts # pre) @ r = pre' @ rest \<and> sum_means pre' v"
      using 1(1) [OF True f(1) refl _ f(2)] by blast
    then show ?thesis using ts by (metis append.assoc append_Cons)
  qed (use 1(2,3) in \<open>auto simp: sum_loop.simps [of u ts]\<close>)
qed

text \<open>
  The parser decides the grammar: it answers a value exactly where the whole sequence is a sum, and the value
  is the one the grammar gives it; a trailing operator, two numbers in a row, a quotient by zero are refused.
\<close>

lemma parseTokens_iff: "parseTokens ts = Some v \<longleftrightarrow> sum_means ts v"
proof
  assume "parseTokens ts = Some v"
  then have "parseSum ts = Some (v, [])" by (auto simp: parseTokens_def split: option.splits list.splits)
  then obtain u rest where "parseTerm ts = Some (u, rest)" "sum_loop u rest = Some (v, [])"
    by (auto simp: parseSum_def split: option.splits)
  moreover from parseTerm_sound [OF this(1)] obtain pre where "ts = pre @ rest" "term_means pre u" by blast
  ultimately show "sum_means ts v" using sum_loop_sound [OF sum_means.single, of pre u rest v "[]"] by simp
next
  assume "sum_means ts v"
  from parseSum_complete [OF this, of "[]"] show "parseTokens ts = Some v"
    by (simp add: parseTokens_def sum_loop.simps)
qed

section \<open>Numbers as text\<close>

text \<open>
  \<open>Number.prototype.toString\<close> for a finite number, as the template literal uses it: the fewest significant
  digits \<open>s\<close> that read back as the number, placed by the decimal exponent \<open>n\<close>, with an exponent part outside
  \<open>10 powi -6 .. 10 ^ 21\<close>.
\<close>

definition decimal_exponent :: "rat \<Rightarrow> int" where
  "decimal_exponent v =
     (if v \<ge> 1 then int (length (nat_digits (nat \<lfloor>v\<rfloor>))) else 1 - int (length (nat_digits (nat (\<lceil>1 / v\<rceil> - 1)))))"

definition rounded_digits :: "rat \<Rightarrow> nat \<Rightarrow> nat" where
  "rounded_digits v k = nat \<lfloor>v * 10 powi (int k - decimal_exponent v) + 1 / 2\<rfloor>"

definition reads_back :: "rat \<Rightarrow> nat \<Rightarrow> bool" where
  "reads_back v k \<longleftrightarrow> fl (of_nat (rounded_digits v k) * 10 powi (decimal_exponent v - int k)) = v"

definition shortest_digits :: "rat \<Rightarrow> nat \<times> nat \<times> int" where
  "shortest_digits v =
     (let n = decimal_exponent v; k = (case List.find (reads_back v) [1..<18] of Some k \<Rightarrow> k | None \<Rightarrow> 17); s = rounded_digits v k
      in if s = 10 ^ k then (1, 1, n + 1) else (k, s, n))"

definition positive_text :: "rat \<Rightarrow> string" where
  "positive_text v =
     (case shortest_digits v of (k, s, n) \<Rightarrow>
        let ds = nat_digits s; e = n - 1; exponent = ''e'' @ (if e < 0 then ''-'' else ''+'') @ nat_digits (nat \<bar>e\<bar>)
        in if int k \<le> n \<and> n \<le> 21 then ds @ replicate (nat n - k) CHR ''0''
           else if 0 < n \<and> n \<le> 21 then take (nat n) ds @ ''.'' @ drop (nat n) ds
           else if -6 < n \<and> n \<le> 0 then ''0.'' @ replicate (nat (- n)) CHR ''0'' @ ds
           else if k = 1 then ds @ exponent
           else take 1 ds @ ''.'' @ drop 1 ds @ exponent)"

definition number_text :: "jsnum \<Rightarrow> string" where
  "number_text v = (if v = 0 then ''0'' else if v < 0 then CHR ''-'' # positive_text (- v) else positive_text v)"

definition evaluateFieldExpression :: "string \<Rightarrow> jsnum option \<Rightarrow> jsnum option" where
  "evaluateFieldExpression raw current =
     (let trimmed = js_trim raw in
      if trimmed = [] then None
      else if hd trimmed = CHR ''+'' \<or> hd trimmed = CHR ''-'' then
        (case current of None \<Rightarrow> None | Some c \<Rightarrow> evaluateExpression (number_text c @ trimmed))
      else evaluateExpression trimmed)"

subsection \<open>Integers print as their digits\<close>

lemma nat_digits_bounds: "n < 10 ^ length (nat_digits n)" "n > 0 \<Longrightarrow> 10 ^ (length (nat_digits n) - 1) \<le> n"
proof -
  have "n < 10 ^ length (nat_digits n) \<and> length (nat_digits n) > 0 \<and> (n > 0 \<longrightarrow> 10 ^ (length (nat_digits n) - 1) \<le> n)"
  proof (induction n rule: nat_digits.induct)
    case (1 n)
    show ?case
    proof (cases "n < 10")
      case False
      let ?l = "length (nat_digits (n div 10))"
      have IH: "n div 10 < 10 ^ ?l" "?l > 0" "10 ^ (?l - 1) \<le> n div 10" using 1 False by auto
      have "(10::nat) ^ ?l = 10 * 10 ^ (?l - 1)" using IH(2) by (cases ?l) simp_all
      then have "n < 10 * 10 ^ ?l" "10 ^ ?l \<le> n" using IH(1,3) by linarith+
      then show ?thesis using False by (simp add: nat_digits.simps [of n])
    qed (simp add: nat_digits.simps [of n])
  qed
  then show "n < 10 ^ length (nat_digits n)" "n > 0 \<Longrightarrow> 10 ^ (length (nat_digits n) - 1) \<le> n" by auto
qed

lemma nat_digits_are_digits: "c \<in> set (nat_digits n) \<Longrightarrow> is_digit c"
proof (induction n rule: nat_digits.induct)
  case (1 n)
  have "is_digit (char_of (48 + d))" if "d < 10" for d :: nat using that by (simp add: is_digit_def of_char_of)
  then show ?case using 1 by (auto simp: nat_digits.simps [of n] split: if_splits)
qed

lemma digits_value_shift: "digits_value (ds @ replicate j CHR ''0'') = digits_value ds * 10 ^ j"
proof -
  have "foldl (\<lambda>v c. 10 * v + (of_char c - 48)) x (replicate j CHR ''0'') = x * 10 ^ j" for x :: nat
    by (induction j arbitrary: x) auto
  then show ?thesis by (simp add: digits_value_def)
qed

lemma find_first_upto:
  "a \<le> n \<Longrightarrow> n < b \<Longrightarrow> P n \<Longrightarrow> \<exists>k. List.find P [a..<b] = Some k \<and> a \<le> k \<and> k \<le> n \<and> P k"
proof (induction "n - a" arbitrary: a)
  case 0
  then show ?case by (simp add: upt_conv_Cons)
next
  case (Suc d)
  then have "\<exists>k. List.find P [Suc a..<b] = Some k \<and> Suc a \<le> k \<and> k \<le> n \<and> P k" by simp
  then show ?case using Suc.prems Suc.hyps(2) by (auto simp: upt_conv_Cons)
qed

lemma shortest_digits_int:
  assumes "0 < c" "c < 10 ^ 15"
  obtains k s n where "shortest_digits (of_nat c) = (k, s, int n)" "k \<le> n" "n \<le> 15" "s * 10 ^ (n - k) = c"
proof -
  define n where "n = length (nat_digits c)"
  have n: "c < 10 ^ n" "10 ^ (n - 1) \<le> c" using nat_digits_bounds [of c] assms(1) by (simp_all add: n_def)
  have "n - 1 < 15" using n(2) assms(2) by (metis le_less_trans nat_power_less_imp_less zero_less_numeral)
  then have n15: "1 \<le> n" "n \<le> 15" using n(1) assms(1) by (cases "n = 0", auto)
  have e: "decimal_exponent (of_nat c) = int n" using assms(1) by (simp add: decimal_exponent_def n_def)
  have fl_nat: "fl (of_nat m) = of_nat m" if "m \<le> 2 ^ 53" for m
    using fl_int [of "int m"] that by simp
  have scaled: "of_nat (rounded_digits (of_nat c) k) * 10 powi (int n - int k) = (of_nat (rounded_digits (of_nat c) k * 10 ^ (n - k)) :: rat)"
    if "k \<le> n" for k using that by (simp add: power_int_def nat_diff_distrib)
  have at_n: "reads_back (of_nat c) n"
  proof -
    have "rounded_digits (of_nat c) n = c" by (simp add: rounded_digits_def e) linarith
    then show ?thesis using fl_nat [of c] assms(2) by (simp add: reads_back_def e)
  qed
  obtain k where k: "List.find (reads_back (of_nat c)) [1..<18] = Some k" "1 \<le> k" "k \<le> n" "reads_back (of_nat c) k"
    using find_first_upto [of 1 n 18 "reads_back (of_nat c)", OF n15(1) _ at_n] n15(2) by auto
  let ?s = "rounded_digits (of_nat c) k" and ?p = "(10::nat) ^ (n - k)"
  have np: "(10::nat) ^ n = 10 ^ k * ?p" using k(3) by (simp flip: power_add)
  have p15: "?p \<le> 10 ^ 15" using n15(2) by (intro power_increasing) simp_all
  have "of_nat (?s * ?p) \<le> of_nat c + (of_nat ?p / 2 :: rat)"
  proof -
    have "of_nat ?s \<le> of_nat c * 10 powi (int k - int n) + (1 / 2 :: rat)"
      unfolding rounded_digits_def e by (intro of_nat_floor) simp
    also have "10 powi (int k - int n) = (1 / of_nat ?p :: rat)" using k(3)
      by (simp add: power_int_def nat_diff_distrib field_simps)
    finally show ?thesis by (simp add: field_simps)
  qed
  then have "of_nat (2 * (?s * ?p)) \<le> (of_nat (2 * c + ?p) :: rat)" by simp
  then have "2 * (?s * ?p) \<le> 2 * c + ?p" unfolding of_nat_le_iff .
  then have "?s * ?p \<le> 2 ^ 53" using p15 assms(2) by simp
  from fl_nat [OF this] have "(of_nat (?s * ?p) :: rat) = of_nat c"
    using k(4) unfolding reads_back_def e scaled [OF k(3)] by (simp only:)
  then have sp: "?s * ?p = c" unfolding of_nat_eq_iff .
  then have "?s \<noteq> 10 ^ k" using n(1) np by auto
  then have "shortest_digits (of_nat c) = (k, ?s, int n)" unfolding shortest_digits_def e k(1) by (simp add: Let_def)
  then show thesis using that k(3) n15(2) sp by blast
qed

lemma positive_text_int:
  assumes "0 < c" "c < 10 ^ 15"
  shows "positive_text (of_nat c) \<noteq> [] \<and> (\<forall>d\<in>set (positive_text (of_nat c)). is_digit d) \<and> digits_value (positive_text (of_nat c)) = c"
proof -
  from shortest_digits_int [OF assms] obtain k s n where
    sh: "shortest_digits (of_nat c) = (k, s, int n)" "k \<le> n" "n \<le> 15" "s * 10 ^ (n - k) = c" .
  have text_eq: "positive_text (of_nat c) = nat_digits s @ replicate (n - k) CHR ''0''"
    using sh(2,3) by (simp add: positive_text_def sh(1) Let_def)
  moreover have "nat_digits s \<noteq> []" by (simp add: nat_digits.simps [of s])
  moreover have "is_digit CHR ''0''" by (simp add: is_digit_def)
  ultimately show ?thesis using sh(4) by (auto simp: digits_value_shift digits_value_nat dest: nat_digits_are_digits)
qed

text \<open>What the printed value of a field reads back as.\<close>

definition number_tokens :: "int \<Rightarrow> token list" where
  "number_tokens c = (if c < 0 then [Operator Minus, Number (Fin (of_int (- c)))] else [Number (Fin (of_int c))])"

lemma takeWhile_digits_append:
  assumes "\<forall>d\<in>set ds. is_digit d" and "rest = [] \<or> \<not> is_digit (hd rest)"
  shows "takeWhile is_digit (ds @ rest) = ds" "dropWhile is_digit (ds @ rest) = rest"
proof -
  have "takeWhile is_digit rest = []" "dropWhile is_digit rest = rest" using assms(2) by (cases rest; simp)+
  then show "takeWhile is_digit (ds @ rest) = ds" "dropWhile is_digit (ds @ rest) = rest"
    using assms(1) by (simp_all add: takeWhile_append2 dropWhile_append2)
qed

lemma double_int: "\<bar>c\<bar> \<le> 2 ^ 53 \<Longrightarrow> double (of_int c) = Fin (of_int c)"
proof -
  assume c: "\<bar>c\<bar> \<le> 2 ^ 53"
  then have "\<bar>c\<bar> < 2 ^ 1024" by (rule order_le_less_trans) simp
  then have "\<bar>of_int c :: rat\<bar> < of_int (2 ^ 1024)" unfolding of_int_abs [symmetric] of_int_less_iff .
  then show ?thesis using c by (auto simp: double_def Let_def)
qed

text \<open>Evaluation compares nothing with the overflow threshold where the value is a representable integer.\<close>

lemma double_code [code]:
  "double q = (case quotient_of q of (n, d) \<Rightarrow> if d = 1 \<and> \<bar>n\<bar> \<le> 9007199254740992 then Fin q
     else (let v = fl q in if v \<ge> 2 ^ 1024 then PosInf else if v \<le> - (2 ^ 1024) then NegInf else Fin v))"
proof -
  obtain n d where nd: "quotient_of q = (n, d)" by fastforce
  then have "q = of_int n / of_int d" by (rule quotient_of_div)
  then show ?thesis using nd double_int [of n] by (auto simp: double_def)
qed

lemma tokenize_digits:
  assumes ds: "ds \<noteq> []" "\<forall>d\<in>set ds. is_digit d" "digits_value ds \<le> 2 ^ 53"
    and rest: "hd rest = CHR ''+'' \<or> hd rest = CHR ''-''" "rest \<noteq> []"
  shows "tokenize (ds @ rest) = map_option (\<lambda>ts. Number (Fin (of_nat (digits_value ds))) # ts) (tokenize rest)"
proof -
  have hd_rest: "\<not> is_digit (hd rest)" "\<not> js_space (hd rest)" "hd rest \<noteq> CHR ''.''" using rest(1)
    by (auto simp: is_digit_def js_space_def)
  have space: "dropWhile js_space rest = rest" using hd_rest(2) rest(2) by (cases rest) auto
  obtain d ds' where d: "ds = d # ds'" "is_digit d" using ds(1,2) by (cases ds) auto
  then have "\<not> js_space d" by (auto simp: is_digit_def js_space_def Let_def)
  moreover have "double (of_nat (digits_value ds)) = Fin (of_nat (digits_value ds))"
    using double_int [of "int (digits_value ds)"] ds(3) by simp
  then have "match_number (ds @ rest) = (Fin (of_nat (digits_value ds)), rest)"
    using takeWhile_digits_append [OF ds(2), of rest] hd_rest by (simp add: match_number_def)
  ultimately have "match_token (ds @ rest) = Some (Number (Fin (of_nat (digits_value ds))), rest)"
    using d space by (simp add: match_token_def)
  then show ?thesis by (rule tokenize_step)
qed

lemma tokenize_current:
  assumes "\<bar>c\<bar> < 10 ^ 15" and rest: "hd rest = CHR ''+'' \<or> hd rest = CHR ''-''" "rest \<noteq> []"
  shows "tokenize (number_text (of_int c) @ rest) = map_option (\<lambda>ts. number_tokens c @ ts) (tokenize rest)"
proof -
  have pos: "tokenize (positive_text (of_nat n) @ rest) = map_option (\<lambda>ts. Number (Fin (of_nat n)) # ts) (tokenize rest)"
    "positive_text (of_nat n) \<noteq> []" "is_digit (hd (positive_text (of_nat n)))"
    if "0 < n" "n < 10 ^ 15" for n
  proof -
    note p = positive_text_int [OF that]
    have "n \<le> 2 ^ 53" using that(2) by simp
    then show "tokenize (positive_text (of_nat n) @ rest) = map_option (\<lambda>ts. Number (Fin (of_nat n)) # ts) (tokenize rest)"
      using tokenize_digits [of "positive_text (of_nat n)", OF _ _ _ rest] p by auto
    show "positive_text (of_nat n) \<noteq> []" "is_digit (hd (positive_text (of_nat n)))" using p by auto
  qed
  consider "c = 0" | "c > 0" | "c < 0" by linarith
  then show ?thesis
  proof cases
    case 1
    have "digits_value ''0'' = 0" by (simp add: digits_value_def)
    then show ?thesis using tokenize_digits [of "''0''", OF _ _ _ rest] 1 by (simp add: number_text_def number_tokens_def is_digit_def)
  next
    case 2
    then show ?thesis using pos(1) [of "nat c"] assms(1) by (simp add: number_text_def number_tokens_def)
  next
    case 3
    let ?p = "positive_text (of_nat (nat (- c)))"
    have n: "0 < nat (- c)" "nat (- c) < 10 ^ 15" using 3 assms(1) by auto
    have "dropWhile js_space (?p @ rest) = ?p @ rest"
      using pos(2,3) [OF n] by (cases ?p) (auto simp: is_digit_def js_space_def Let_def)
    then have "match_token (CHR ''-'' # ?p @ rest) = Some (Operator Minus, ?p @ rest)"
      by (simp add: match_token_def js_space_def is_digit_def)
    from tokenize_step [OF this] pos(1) [OF n] show ?thesis using 3
      by (simp add: number_text_def number_tokens_def option.map_comp comp_def)
  qed
qed

lemma evaluateExpression_iff:
  "evaluateExpression s = Some v \<longleftrightarrow> (\<exists>ts. tokenize s = Some ts \<and> sum_means ts (Fin v))"
proof -
  have "parseTokens [] = None" by (simp add: parseTokens_def parseSum_def parseTerm_def)
  then show ?thesis
    by (auto simp: evaluateExpression_def simp flip: parseTokens_iff split: option.splits jsfloat.splits)
qed



end
