(* ===== verification/SourceMapCodec.thy ===== *)
theory SourceMapCodec
  imports Main "HOL-Library.Word"
begin

text \<open>
  The source map codec (\<open>lib/errorTracking/sourceMapCodec.ts\<close>): base64 VLQ numbers and the mappings text. Sums are
  numbers of the language, exact integers here; the bit operators work on their 32-bit patterns, with a shift
  count taken modulo 32.
\<close>

unbundle bit_operations_syntax

section \<open>The 32-bit operators\<close>

definition to_int32 :: "int \<Rightarrow> 32 word" where "to_int32 x = word_of_int x"

definition js_and :: "int \<Rightarrow> int \<Rightarrow> int" where "js_and a b = sint (to_int32 a AND to_int32 b)"
definition js_or :: "int \<Rightarrow> int \<Rightarrow> int" where "js_or a b = sint (to_int32 a OR to_int32 b)"
definition js_shl :: "int \<Rightarrow> nat \<Rightarrow> int" where "js_shl a n = sint (push_bit (n mod 32) (to_int32 a))"
definition js_ushr :: "int \<Rightarrow> nat \<Rightarrow> int" where "js_ushr a n = uint (drop_bit (n mod 32) (to_int32 a))"

section \<open>The codec\<close>

definition base64_digits :: string where
  "base64_digits = ''ABCDEFGHIJKLMNOPQRSTUVWXYZabcdefghijklmnopqrstuvwxyz0123456789+/''"

text \<open>\<open>String.prototype.indexOf\<close> of one character: -1 where it does not occur.\<close>

definition indexOf :: "string \<Rightarrow> char \<Rightarrow> int" where
  "indexOf s c = (let n = length (takeWhile (\<lambda>x. x \<noteq> c) s) in if n = length s then -1 else int n)"

fun decode_loop :: "string \<Rightarrow> int \<Rightarrow> nat \<Rightarrow> int list" where
  "decode_loop [] value shift = []"
| "decode_loop (character # text) value shift =
     (let digit = indexOf base64_digits character;
          value' = value + js_shl (js_and digit 31) shift
      in if js_and digit 32 \<noteq> 0 then decode_loop text value' (shift + 5)
         else (if js_and value' 1 \<noteq> 0 then - js_ushr value' 1 else js_ushr value' 1) # decode_loop text 0 0)"

definition decodeVlq :: "string \<Rightarrow> int list" where
  "decodeVlq text = decode_loop text 0 0"

text \<open>
  The loop of \<open>encodeVlq\<close>. After its first step what remains is the unsigned result of a shift, so that it ends.
\<close>

lemma js_ushr_eq: "n < 32 \<Longrightarrow> js_ushr a n = (a mod 2 ^ 32) div 2 ^ n"
proof -
  assume "n < 32"
  then have "js_ushr a n = uint (drop_bit n (word_of_int a :: 32 word))" by (simp add: js_ushr_def to_int32_def)
  also have "\<dots> = drop_bit n (take_bit 32 (uint (word_of_int a :: 32 word)))" by (simp only: unsigned_drop_bit_eq) simp
  also have "\<dots> = (a mod 2 ^ 32) div 2 ^ n" by (simp add: uint_word_of_int drop_bit_eq_div take_bit_eq_mod)
  finally show ?thesis .
qed

lemma js_ushr_less: "js_ushr a 5 > 0 \<Longrightarrow> js_ushr (js_ushr a 5) 5 < js_ushr a 5"
proof -
  assume "js_ushr a 5 > 0"
  moreover define b where "b = a mod 2 ^ 32"
  moreover have "0 \<le> b" "b < 2 ^ 32" by (simp_all add: b_def)
  moreover from this have "(b div 32) mod 2 ^ 32 = b div 32" by (intro mod_pos_pos_trivial) auto
  ultimately show ?thesis by (simp add: js_ushr_eq)
qed

function encode_loop :: "int \<Rightarrow> string" where
  "encode_loop remaining =
     (let digit = js_and remaining 31; remaining' = js_ushr remaining 5
      in if remaining' > 0 then base64_digits ! nat (js_or digit 32) # encode_loop remaining'
         else [base64_digits ! nat digit])"
  by pat_completeness auto
termination
proof (relation "measure (\<lambda>r. nat (js_ushr r 5))")
  fix remaining digit remaining' :: int
  assume "digit = js_and remaining 31" "remaining' = js_ushr remaining 5" "0 < remaining'"
  then show "(remaining', remaining) \<in> measure (\<lambda>r. nat (js_ushr r 5))"
    using js_ushr_less [of remaining] by simp
qed simp

declare encode_loop.simps [simp del]

definition encodeVlq :: "int \<Rightarrow> string" where
  "encodeVlq value = encode_loop (if value < 0 then js_or (js_shl (- value) 1) 1 else js_shl value 1)"

section \<open>Digits in ordinary arithmetic\<close>

lemma js_and_small:
  assumes "0 \<le> m" "m < 2 ^ 31"
  shows "js_and a m = a AND m"
proof -
  let ?w = "to_int32 a AND to_int32 m"
  have m: "take_bit 32 m = m" using assms by (simp add: take_bit_int_eq_self)
  have am: "0 \<le> a AND m" "a AND m \<le> m" using assms(1) by (simp_all add: AND_upper2)
  have "uint ?w = take_bit 32 a AND take_bit 32 m" by (simp add: to_int32_def unsigned_and_eq uint_word_of_int take_bit_eq_mod)
  also have "\<dots> = take_bit 32 (a AND m)" by simp
  also have "\<dots> = a AND m" using am assms(2) by (intro take_bit_int_eq_self) auto
  finally have u: "uint ?w = a AND m" .
  have "js_and a m = signed_take_bit 31 (a AND m)" by (simp add: js_and_def sint_uint u)
  also have "\<dots> = a AND m" by (rule signed_take_bit_int_eq_self) (use am assms(2) in linarith)+
  finally show ?thesis .
qed

lemma js_and_31: "js_and a 31 = a mod 32"
proof -
  have "js_and a 31 = a AND mask 5" by (simp add: js_and_small mask_eq_exp_minus_1)
  then show ?thesis by (simp add: flip: take_bit_eq_mask) (simp add: take_bit_eq_mod)
qed

lemma js_and_32: "js_and a 32 \<noteq> 0 \<longleftrightarrow> odd (a div 32)"
  using bit_iff_and_push_bit_not_eq_0 [of a 5] by (simp add: js_and_small bit_iff_odd push_bit_eq_mult)

lemma js_and_1: "js_and a 1 \<noteq> 0 \<longleftrightarrow> odd a"
  by (simp add: js_and_small and_one_eq odd_iff_mod_2_eq_one)

lemma to_int32_cong: "to_int32 a = to_int32 b \<longleftrightarrow> a mod 2 ^ 32 = b mod 2 ^ 32"
  by (simp add: to_int32_def word_of_int_eq_iff take_bit_eq_mod)

lemma js_shl_mod: "n < 32 \<Longrightarrow> js_shl a n mod 2 ^ 32 = (a * 2 ^ n) mod 2 ^ 32"
proof -
  assume "n < 32"
  then have "to_int32 (js_shl a n) = to_int32 (a * 2 ^ n)"
    by (simp add: js_shl_def to_int32_def push_bit_eq_mult word_of_int_2p)
  then show ?thesis by (simp only: to_int32_cong)
qed

section \<open>Digits and characters\<close>

lemma base64_digits_distinct: "distinct base64_digits" "length base64_digits = 64"
  by (simp_all add: base64_digits_def)

lemma indexOf_nth: "distinct s \<Longrightarrow> i < length s \<Longrightarrow> indexOf s (s ! i) = int i"
proof -
  assume d: "distinct s" "i < length s"
  then have "takeWhile (\<lambda>x. x \<noteq> s ! i) s = take i s"
    by (intro takeWhile_eq_take_P_nth) (auto simp: nth_eq_iff_index_eq)
  then show ?thesis using d(2) by (simp add: indexOf_def)
qed

lemma indexOf_digit: "0 \<le> d \<Longrightarrow> d < 64 \<Longrightarrow> indexOf base64_digits (base64_digits ! nat d) = d"
  using indexOf_nth [of base64_digits "nat d"] by (simp add: base64_digits_distinct)

text \<open>Both loops on the 32-bit pattern of what they work on.\<close>

lemma encode_loop_step:
  assumes "r mod 2 ^ 32 = R"
  shows "encode_loop r = (if R \<ge> 32 then base64_digits ! nat (R mod 32 + 32) # encode_loop (R div 32) else [base64_digits ! nat R])"
proof -
  have R: "0 \<le> R" "R mod 32 = r mod 32" by (auto simp: assms [symmetric] mod_mod_cancel)
  have "js_or (r mod 32) 32 = r mod 32 + 32"
  proof -
    have m: "0 \<le> r mod 32" "r mod 32 < 32" "0 \<le> r mod 32 + 32" "r mod 32 + 32 < 64" by simp_all
    have bounds: "r mod 32 + 32 < 2 ^ 31" "r mod 32 + 32 < 2 ^ 32" by (rule order_less_le_trans [OF m(4)], simp)+
    have "(r mod 32) AND 32 = 0"
      using bit_iff_and_push_bit_not_eq_0 [of "r mod 32" 5] by (simp add: bit_iff_odd push_bit_eq_mult)
    then have e: "(r mod 32) OR 32 = r mod 32 + 32" using plus_and_or [of "r mod 32" 32] by simp
    have "uint (to_int32 (r mod 32) OR to_int32 32) = take_bit 32 ((r mod 32) OR 32)"
    proof -
      have "r mod 32 < 2 ^ 32" by (rule order_less_le_trans [OF m(2)]) simp
      then have "take_bit 32 (r mod 32) = r mod 32" using m(1) by (intro take_bit_int_eq_self)
      then show ?thesis by (simp add: to_int32_def unsigned_or_eq uint_word_of_int take_bit_eq_mod [symmetric])
    qed
    also have "\<dots> = r mod 32 + 32" unfolding e by (rule take_bit_int_eq_self [OF m(3) bounds(2)])
    finally have "js_or (r mod 32) 32 = signed_take_bit 31 (r mod 32 + 32)" by (simp add: js_or_def sint_uint)
    also have "\<dots> = r mod 32 + 32"
      by (rule signed_take_bit_int_eq_self [OF order_trans [OF _ m(3)] bounds(1)]) simp
    finally show ?thesis .
  qed
  moreover have "js_ushr r 5 = R div 32" using js_ushr_eq [of 5 r] assms by simp
  moreover have "0 < R div 32 \<longleftrightarrow> R \<ge> 32" using R(1) by (simp add: pos_imp_zdiv_pos_iff)
  moreover have "R mod 32 = R" if "\<not> R \<ge> 32" using R(1) that by simp
  ultimately show ?thesis
    by (simp only: encode_loop.simps [of r] Let_def js_and_31 R(2) [symmetric] split: if_split) simp
qed

definition vlq_value :: "int \<Rightarrow> int" where
  "vlq_value V = (if odd V then - (V div 2) else V div 2)"

lemma decode_loop_step:
  assumes "0 \<le> d" "d < 64" "shift < 32"
  shows "decode_loop ((base64_digits ! nat d) # text) value shift =
    (if d \<ge> 32 then decode_loop text (value + js_shl (d mod 32) shift) (shift + 5)
     else vlq_value ((value + d * 2 ^ shift) mod 2 ^ 32) # decode_loop text 0 0)"
proof (cases "d \<ge> 32")
  case True
  then have "d div 32 = 1" using assms(2) by linarith
  then show ?thesis using True assms(1,2) by (simp add: Let_def indexOf_digit js_and_31 js_and_32)
next
  case False
  have last: "(if js_and v 1 \<noteq> 0 then - js_ushr v 1 else js_ushr v 1) = vlq_value (v mod 2 ^ 32)" for v
    using dvd_mod_iff [of 2 "2 ^ 32" v] by (simp add: vlq_value_def js_and_1 js_ushr_eq)
  have d: "d mod 32 = d" "d div 32 = 0" using False assms(1) by simp_all
  have "(value + js_shl d shift) mod 2 ^ 32 = (value + d * 2 ^ shift) mod 2 ^ 32"
    using js_shl_mod [OF assms(3), of d] by (metis mod_add_right_eq)
  then show ?thesis using False assms(1,2)
    by (simp only: decode_loop.simps Let_def indexOf_digit js_and_31 js_and_32 d last) simp
qed

text \<open>A number is its sign in the lowest bit and its magnitude above.\<close>

lemma decode_encode_loop:
  assumes "r mod 2 ^ 32 = R" and "R * 2 ^ shift < 2 ^ 32" and "shift < 32"
  shows "decode_loop (encode_loop r @ text) acc shift = vlq_value ((acc + R * 2 ^ shift) mod 2 ^ 32) # decode_loop text 0 0"
  using assms
proof (induction "nat R" arbitrary: r R shift acc rule: less_induct)
  case less
  have R: "0 \<le> R" using less.prems(1) by auto
  show ?case
  proof (cases "R \<ge> 32")
    case False
    then show ?thesis using R less.prems
      by (simp only: encode_loop_step [OF less.prems(1)] append_Cons append_Nil if_False decode_loop_step)
  next
    case True
    let ?q = "R div 32"
    have small: "?q mod 2 ^ 32 = ?q" using R less.prems(1) by (intro mod_pos_pos_trivial) auto
    have "32 * 2 ^ shift \<le> R * 2 ^ shift" using True by simp
    from order_le_less_trans [OF this less.prems(2)] have "(2::int) ^ (shift + 5) < 2 ^ 32"
      by (simp only: power_add) (simp add: mult.commute)
    then have s5: "shift + 5 < 32" by (rule power_less_imp_less_exp [rotated]) simp
    have "?q * 2 ^ (shift + 5) \<le> R * 2 ^ shift"
      using R by (simp add: power_add)
    then have q: "?q * 2 ^ (shift + 5) < 2 ^ 32" using less.prems(2) by simp
    have d: "(R mod 32 + 32) mod 32 = R mod 32" "0 \<le> R mod 32 + 32" "R mod 32 + 32 < 64" "R mod 32 + 32 \<ge> 32" by auto
    let ?v = "acc + js_shl (R mod 32) shift"
    have "decode_loop (encode_loop r @ text) acc shift = decode_loop (encode_loop ?q @ text) ?v (shift + 5)"
      using True by (simp only: encode_loop_step [OF less.prems(1)] append_Cons if_True decode_loop_step [OF d(2,3) less.prems(3)] d)
    also have "\<dots> = vlq_value ((?v + ?q * 2 ^ (shift + 5)) mod 2 ^ 32) # decode_loop text 0 0"
      using True R by (intro less.hyps small q s5) auto
    also have "(?v + ?q * 2 ^ (shift + 5)) mod 2 ^ 32 = (acc + R * 2 ^ shift) mod 2 ^ 32"
    proof -
      have "(?v + ?q * 2 ^ (shift + 5)) mod 2 ^ 32 = (acc + ?q * 2 ^ (shift + 5) + js_shl (R mod 32) shift mod 2 ^ 32) mod 2 ^ 32"
        by (simp only: mod_add_right_eq) (simp add: algebra_simps)
      also have "\<dots> = (acc + ?q * 2 ^ (shift + 5) + (R mod 32) * 2 ^ shift) mod 2 ^ 32"
        unfolding js_shl_mod [OF less.prems(3)] mod_add_right_eq ..
      also have "acc + ?q * 2 ^ (shift + 5) + (R mod 32) * 2 ^ shift = acc + (?q * 32 + R mod 32) * 2 ^ shift"
        by (simp only: power_add distrib_right) simp
      also have "?q * 32 + R mod 32 = R" by simp
      finally show ?thesis .
    qed
    finally show ?thesis .
  qed
qed

lemma decodeVlq_encodeVlq:
  assumes "\<bar>v\<bar> < 2 ^ 31"
  shows "decodeVlq (encodeVlq v @ text) = v # decodeVlq text"
proof -
  define r where "r = (if v < 0 then js_or (js_shl (- v) 1) 1 else js_shl v 1)"
  define R where "R = 2 * \<bar>v\<bar> + (if v < 0 then 1 else 0)"
  have R: "R < 2 ^ 32" "0 \<le> R" using assms by (auto simp: R_def)
  have "r mod 2 ^ 32 = R"
  proof (cases "v < 0")
    case False
    then have "r mod 2 ^ 32 = (v * 2 ^ 1) mod 2 ^ 32" by (simp only: r_def if_False) (rule js_shl_mod, simp)
    then show ?thesis using False R by (simp add: R_def mult.commute)
  next
    case True
    let ?s = "js_shl (- v) 1"
    have shl: "?s mod 2 ^ 32 = - v * 2" using js_shl_mod [of 1 "- v"] True R by (simp add: R_def mult.commute)
    then have even_s: "even ?s" using dvd_mod_iff [of 2 "2 ^ 32" ?s] by simp
    then have "?s OR 1 = ?s + 1" by (simp add: or_one_eq)
    moreover have "to_int32 (js_or ?s 1) = to_int32 (?s OR 1)"
      unfolding js_or_def to_int32_def by (simp, transfer, simp)
    ultimately have "js_or ?s 1 mod 2 ^ 32 = (?s + 1) mod 2 ^ 32" by (simp only: to_int32_cong)
    also have "\<dots> = (?s mod 2 ^ 32 + 1) mod 2 ^ 32" by (simp only: mod_add_left_eq)
    also have "\<dots> = R" unfolding shl using True R by (simp add: R_def)
    finally show ?thesis using True by (simp add: r_def)
  qed
  from decode_encode_loop [OF this, of 0 "text" 0] R
  have "decodeVlq (encodeVlq v @ text) = vlq_value R # decodeVlq text"
    by (simp add: decodeVlq_def encodeVlq_def r_def)
  then show ?thesis by (simp add: vlq_value_def R_def)
qed

section \<open>The mappings\<close>

text \<open>\<open>split\<close> and \<open>join\<close> with a separator of one character.\<close>

fun split_on :: "char \<Rightarrow> string \<Rightarrow> string list" where
  "split_on c [] = [[]]"
| "split_on c (x # xs) = (if x = c then [] # split_on c xs else (x # hd (split_on c xs)) # tl (split_on c xs))"

fun join_with :: "char \<Rightarrow> string list \<Rightarrow> string" where
  "join_with c [] = []"
| "join_with c [x] = x"
| "join_with c (x # y # ys) = x @ c # join_with c (y # ys)"

text \<open>\<open>previous[field] ?? 0\<close>, and the assignment to \<open>previous[field]\<close>, which extends the array.\<close>

definition previous_at :: "int list \<Rightarrow> nat \<Rightarrow> int" where
  "previous_at previous field = (if field < length previous then previous ! field else 0)"

definition put_previous :: "int list \<Rightarrow> nat \<Rightarrow> int \<Rightarrow> int list" where
  "put_previous previous field v =
     (if field < length previous then previous[field := v] else previous @ replicate (field - length previous) 0 @ [v])"

fun decode_fields :: "int list \<Rightarrow> nat \<Rightarrow> int list \<Rightarrow> int list \<times> int list" where
  "decode_fields previous field [] = ([], previous)"
| "decode_fields previous field (delta # deltas) =
     (let v = previous_at previous field + delta;
          (vs, previous') = decode_fields (put_previous previous field v) (field + 1) deltas
      in (v # vs, previous'))"

fun decode_segments :: "int list \<Rightarrow> string list \<Rightarrow> int list list \<times> int list" where
  "decode_segments previous [] = ([], previous)"
| "decode_segments previous (text # texts) =
     (let (segment, previous') = decode_fields previous 0 (decodeVlq text);
          (segments, previous'') = decode_segments previous' texts
      in (segment # segments, previous''))"

fun decode_lines :: "int list \<Rightarrow> string list \<Rightarrow> int list list list" where
  "decode_lines previous [] = []"
| "decode_lines previous (line # lines) =
     (let previous0 = put_previous previous 0 0 in
      if line = [] then [] # decode_lines previous0 lines
      else (let (segments, previous') = decode_segments previous0 (split_on CHR '','' line)
            in segments # decode_lines previous' lines))"

definition decodeMappings :: "string \<Rightarrow> int list list list" where
  "decodeMappings mappings = decode_lines [0, 0, 0, 0, 0] (split_on CHR '';'' mappings)"

fun encode_fields :: "int list \<Rightarrow> nat \<Rightarrow> int list \<Rightarrow> string \<times> int list" where
  "encode_fields previous field [] = ([], previous)"
| "encode_fields previous field (v # vs) =
     (let delta = v - previous_at previous field;
          (text, previous') = encode_fields (put_previous previous field v) (field + 1) vs
      in (encodeVlq delta @ text, previous'))"

fun encode_segments :: "int list \<Rightarrow> int list list \<Rightarrow> string list \<times> int list" where
  "encode_segments previous [] = ([], previous)"
| "encode_segments previous (segment # segments) =
     (let (text, previous') = encode_fields previous 0 segment;
          (texts, previous'') = encode_segments previous' segments
      in (text # texts, previous''))"

fun encode_lines :: "int list \<Rightarrow> int list list list \<Rightarrow> string list" where
  "encode_lines previous [] = []"
| "encode_lines previous (segments # lines) =
     (let (texts, previous') = encode_segments (put_previous previous 0 0) segments
      in join_with CHR '','' texts # encode_lines previous' lines)"

definition encodeMappings :: "int list list list \<Rightarrow> string" where
  "encodeMappings lines = join_with CHR '';'' (encode_lines [0, 0, 0, 0, 0] lines)"

section \<open>Round trips\<close>

lemma split_on_nonempty [simp]: "split_on c xs \<noteq> []"
  by (cases xs) auto

lemma split_on_append: "c \<notin> set x \<Longrightarrow> split_on c (x @ c # ys) = x # split_on c ys"
  by (induction x) auto

lemma split_on_plain: "c \<notin> set x \<Longrightarrow> split_on c x = [x]"
  by (induction x) auto

lemma split_join: "xs \<noteq> [] \<Longrightarrow> \<forall>x\<in>set xs. c \<notin> set x \<Longrightarrow> split_on c (join_with c xs) = xs"
  by (induction c xs rule: join_with.induct) (simp_all add: split_on_append split_on_plain)

lemma encode_loop_chars: "set (encode_loop r) \<subseteq> set base64_digits \<and> encode_loop r \<noteq> []"
proof (induction r rule: encode_loop.induct)
  case (1 r)
  have "nat (r mod 2 ^ 32 mod 32 + 32) < 64" by (simp add: nat_less_iff)
  moreover have "nat (r mod 2 ^ 32) < 64" if "\<not> r mod 2 ^ 32 \<ge> 32" using that by simp
  ultimately show ?case
    using 1 by (auto simp: encode_loop_step [OF refl] js_ushr_eq base64_digits_distinct Let_def simp del: One_nat_def)
qed

lemma encodeVlq_chars: "set (encodeVlq v) \<subseteq> set base64_digits" "encodeVlq v \<noteq> []"
  using encode_loop_chars by (simp_all add: encodeVlq_def)

text \<open>Fields as a source map has them: offsets that are no negative numbers and fit 31 bits.\<close>

definition offsets :: "int list \<Rightarrow> bool" where
  "offsets xs \<longleftrightarrow> (\<forall>x\<in>set xs. 0 \<le> x \<and> x < 2 ^ 31)"

lemma offsets_previous: "offsets p \<Longrightarrow> 0 \<le> previous_at p f \<and> previous_at p f < 2 ^ 31"
  by (simp add: offsets_def previous_at_def)

lemma offsets_put: "offsets p \<Longrightarrow> 0 \<le> v \<Longrightarrow> v < 2 ^ 31 \<Longrightarrow> offsets (put_previous p f v)"
  by (auto simp: offsets_def put_previous_def dest!: set_update_subset_insert [THEN subsetD])

lemma fields_round_trip:
  assumes "offsets p" "offsets vs" "encode_fields p f vs = (text, p')"
  shows "decode_fields p f (decodeVlq text) = (vs, p') \<and> offsets p' \<and> set text \<subseteq> set base64_digits \<and> (vs \<noteq> [] \<longrightarrow> text \<noteq> [])"
  using assms
proof (induction p f vs arbitrary: "text" p' rule: encode_fields.induct)
  case (1 p f)
  then show ?case by (simp add: decodeVlq_def)
next
  case (2 p f v vs)
  let ?d = "v - previous_at p f" and ?p = "put_previous p f v"
  obtain rest where rest: "encode_fields ?p (f + 1) vs = (rest, p')" "text = encodeVlq ?d @ rest"
    using 2(4) by (auto simp: Let_def split: prod.splits)
  have v: "0 \<le> v" "v < 2 ^ 31" "offsets vs" using 2(3) by (auto simp: offsets_def)
  have IH: "decode_fields ?p (f + 1) (decodeVlq rest) = (vs, p') \<and> offsets p' \<and> set rest \<subseteq> set base64_digits"
    using 2(1) [OF refl offsets_put [OF 2(2) v(1,2)] v(3) rest(1)] by simp
  have "\<bar>?d\<bar> < 2 ^ 31" using offsets_previous [OF 2(2), of f] v by linarith
  from decodeVlq_encodeVlq [OF this] show ?case
    using IH encodeVlq_chars by (simp add: rest(2) Let_def)
qed

lemma segments_round_trip:
  assumes "offsets p" "\<forall>x\<in>set segments. offsets x \<and> x \<noteq> []" "encode_segments p segments = (texts, p')"
  shows "decode_segments p texts = (segments, p') \<and> offsets p' \<and> (\<forall>t\<in>set texts. set t \<subseteq> set base64_digits \<and> t \<noteq> [])
    \<and> length texts = length segments"
  using assms
proof (induction p segments arbitrary: texts p' rule: encode_segments.induct)
  case (2 p segment segments)
  obtain t p1 ts where s: "encode_fields p 0 segment = (t, p1)" "encode_segments p1 segments = (ts, p')" "texts = t # ts"
    using 2(4) by (auto split: prod.splits)
  have one: "decode_fields p 0 (decodeVlq t) = (segment, p1) \<and> offsets p1 \<and> set t \<subseteq> set base64_digits \<and> t \<noteq> []"
    using fields_round_trip [OF 2(2) _ s(1)] 2(3) by simp
  with 2(1) [OF s(1) [symmetric] refl _ _ s(2)] 2(3) show ?case by (simp add: s(3))
qed simp

lemma join_chars: "set (join_with c xs) \<subseteq> insert c (\<Union> (set ` set xs))"
  by (induction c xs rule: join_with.induct) auto

lemma join_empty: "xs \<noteq> [] \<Longrightarrow> \<forall>x\<in>set xs. x \<noteq> [] \<Longrightarrow> join_with c xs \<noteq> []"
  by (cases "(c, xs)" rule: join_with.cases) auto

lemma separators: "CHR '','' \<notin> set base64_digits" "CHR '';'' \<notin> set base64_digits"
  by (simp_all add: base64_digits_def)

lemma lines_round_trip:
  assumes "offsets p" "\<forall>l\<in>set lines. \<forall>x\<in>set l. offsets x \<and> x \<noteq> []"
  shows "decode_lines p (encode_lines p lines) = lines
    \<and> (\<forall>t\<in>set (encode_lines p lines). CHR '';'' \<notin> set t) \<and> length (encode_lines p lines) = length lines"
  using assms
proof (induction p lines rule: encode_lines.induct)
  case (2 p segments lines)
  let ?p = "put_previous p 0 0"
  have p0: "offsets ?p" using 2(2) by (rule offsets_put) simp_all
  obtain texts p' where e: "encode_segments ?p segments = (texts, p')" by fastforce
  have segs: "decode_segments ?p texts = (segments, p')" "offsets p'" "\<forall>t\<in>set texts. set t \<subseteq> set base64_digits \<and> t \<noteq> []"
    "length texts = length segments" using segments_round_trip [OF p0 _ e] 2(3) by auto
  have IH: "decode_lines p' (encode_lines p' lines) = lines \<and> (\<forall>t\<in>set (encode_lines p' lines). CHR '';'' \<notin> set t)
      \<and> length (encode_lines p' lines) = length lines"
    using 2(1) [OF e [symmetric] refl segs(2)] 2(3) by simp
  have no_comma: "\<forall>t\<in>set texts. CHR '','' \<notin> set t" and no_semicolon: "CHR '';'' \<notin> set (join_with CHR '','' texts)"
    using segs(3) separators join_chars [of "CHR '',''" texts] by auto
  show ?case
  proof (cases "texts = []")
    case True
    then have "segments = []" "p' = ?p" using segs(1,4) e by auto
    then show ?thesis using IH True e by simp
  next
    case False
    then have "split_on CHR '','' (join_with CHR '','' texts) = texts" "join_with CHR '','' texts \<noteq> []"
      using no_comma segs(3) by (simp_all add: split_join join_empty)
    then show ?thesis using IH e segs(1) no_semicolon by (simp add: Let_def)
  qed
qed simp

text \<open>
  C31. Mappings survive the codec: decoding what \<open>encodeMappings\<close> wrote gives the lines back, for any lines whose
  segments are not empty and hold offsets of 31 bits, although every field is written as a difference to the
  segment before it, across lines, in base64 digits through 32-bit shifts.
\<close>

theorem mappings_round_trip:
  assumes "lines \<noteq> []" and "\<forall>l\<in>set lines. \<forall>x\<in>set l. offsets x \<and> x \<noteq> []"
  shows "decodeMappings (encodeMappings lines) = lines"
proof -
  have "offsets [0, 0, 0, 0, 0]" by (simp add: offsets_def)
  note r = lines_round_trip [OF this assms(2)]
  have "encode_lines [0, 0, 0, 0, 0] lines \<noteq> []" using r assms(1) by auto
  then have "split_on CHR '';'' (encodeMappings lines) = encode_lines [0, 0, 0, 0, 0] lines"
    unfolding encodeMappings_def using r by (intro split_join) simp_all
  then show ?thesis using r by (simp add: decodeMappings_def)
qed

lemma mappings_round_trip_witness:
  "decodeMappings (encodeMappings [[[0, 0, 16, 3, 1], [12, 0, 2000000000, 0]], [], [[4]]])
     = [[[0, 0, 16, 3, 1], [12, 0, 2000000000, 0]], [], [[4]]]"
  by (rule mappings_round_trip) (simp_all add: offsets_def)

end
