(* ===== verification/Sales.thy ===== *)
theory Sales
  imports Workspace
begin

text \<open>
  The records of the sales side (\<open>database/schema\<close>): proposals, the one-time codes a client answers them with,
  the contacts of a client, contracts, their signatures and the document templates. The sales state is the workspace together with these
  tables and the codes handed to the mail transport. The lines of a proposal are rows of the ledger's line table.
  Columns no modelled operation touches are left out.
\<close>

section \<open>Rows\<close>

datatype proposal_action = Accept | Reject

record proposal_row =
  pp_id :: ident
  pp_projectId :: "ident option"
  pp_clientId :: "ident option"
  pp_templateId :: "ident option"
  pp_number :: string
  pp_status :: proposal_status
  pp_currency :: string
  pp_discount :: discount_columns
  pp_subtotalCents :: int
  pp_discountAmountTotalCents :: int
  pp_taxAmountCents :: int
  pp_totalCents :: int
  pp_validUntil :: "jsdate option"
  pp_notes :: "string option"
  pp_publicToken :: "string option"
  pp_issuedAt :: "jsdate option"
  pp_lockedAt :: "jsdate option"
  pp_respondedAt :: "jsdate option"
  pp_respondedIp :: "string option"
  pp_rejectionReason :: "string option"
  pp_deletedAt :: "jsdate option"

record otp_row =
  otp_id :: ident
  otp_proposalId :: ident
  otp_action :: proposal_action
  otp_codeHash :: string
  otp_email :: string
  otp_expiresAt :: jsdate
  otp_attempts :: int
  otp_usedAt :: "jsdate option"
  otp_invalidatedAt :: "jsdate option"
  otp_createdAt :: jsdate

record contact_row =
  cc_id :: ident
  cc_clientId :: ident
  cc_name :: string
  cc_email :: string
  cc_isPrimary :: bool
  cc_deletedAt :: "jsdate option"

text \<open>
  A block of a document, as far as the actions look at it: whether it is hidden, and the rest. A stored \<open>blocks\<close>
  column is \<open>None\<close> when \<open>blocksSchema\<close> refuses it.
\<close>

record document_block =
  blk_hidden :: bool
  blk_content :: string

record contract_row =
  con_id :: ident
  con_projectId :: "ident option"
  con_clientId :: "ident option"
  con_proposalId :: "ident option"
  con_templateId :: "ident option"
  con_number :: string
  con_title :: string
  con_status :: contract_status
  con_blocks :: "document_block list option"
  con_publicToken :: "string option"
  con_issuedAt :: "jsdate option"
  con_effectiveFrom :: "jsdate option"
  con_effectiveUntil :: "jsdate option"
  con_terminatedAt :: "jsdate option"
  con_terminationReason :: "string option"
  con_deletedAt :: "jsdate option"

record signature_row =
  sig_id :: ident
  sig_contractId :: ident
  sig_signerName :: string
  sig_signerEmail :: string
  sig_consentText :: string
  sig_ipAddress :: string
  sig_userAgent :: string
  sig_signedAt :: jsdate

datatype template_type = InvoiceTemplate | ProposalTemplate | ContractTemplate | CreditNoteTemplate | EmailTemplate string

record template_row =
  tpl_id :: ident
  tpl_type :: template_type
  tpl_blocks :: "document_block list option"
  tpl_isDefault :: bool
  tpl_deletedAt :: "jsdate option"

record sales =
  work :: workspace
  proposals :: "proposal_row list"
  proposalOtps :: "otp_row list"
  clientContacts :: "contact_row list"
  contracts :: "contract_row list"
  signatures :: "signature_row list"
  templates :: "template_row list"
  mailedCodes :: "(string \<times> string) list"

interpretation proposal_table: row_store pp_id "find_id pp_id" "put_id pp_id" add_row
  by (rule row_store_lists)

interpretation contract_table: row_store con_id "find_id con_id" "put_id con_id" add_row
  by (rule row_store_lists)

section \<open>The ledger behind the sales tables\<close>

definition books :: "sales \<Rightarrow> db" where "books s = ledger (work s)"

definition with_books :: "db \<Rightarrow> sales \<Rightarrow> sales" where
  "with_books d s = s\<lparr>work := (work s)\<lparr>ledger := d\<rparr>\<rparr>"

lemma with_books [simp]:
  "books (with_books d s) = d" "proposals (with_books d s) = proposals s" "proposalOtps (with_books d s) = proposalOtps s"
  "clientContacts (with_books d s) = clientContacts s" "contracts (with_books d s) = contracts s"
  "signatures (with_books d s) = signatures s" "templates (with_books d s) = templates s" "mailedCodes (with_books d s) = mailedCodes s"
  "with_books d (with_books d' s) = with_books d s" "with_books (books s) s = s"
  "timeEntries (work (with_books d s)) = timeEntries (work s)" "tasks (work (with_books d s)) = tasks (work s)"
  "expenses (work (with_books d s)) = expenses (work s)" "schedules (work (with_books d s)) = schedules (work s)"
  by (simp_all add: with_books_def books_def)

lemma with_books_id: "with_books (books s) s = s"
  by simp

lemma with_books_proposals: "proposals (with_books d s) = proposals s"
  by simp

lemma books_update [simp]:
  "books (s\<lparr>proposals := a\<rparr>) = books s" "books (s\<lparr>proposalOtps := b\<rparr>) = books s"
  "books (s\<lparr>clientContacts := c\<rparr>) = books s" "books (s\<lparr>contracts := e\<rparr>) = books s"
  "books (s\<lparr>signatures := f\<rparr>) = books s" "books (s\<lparr>templates := h\<rparr>) = books s" "books (s\<lparr>mailedCodes := g\<rparr>) = books s"
  by (simp_all add: books_def)

text \<open>The logs of the ledger, written by the sales actions.\<close>

definition log_audit :: "string \<Rightarrow> ident option \<Rightarrow> ident \<Rightarrow> sales \<Rightarrow> sales" where
  "log_audit event user target s = with_books (writeAudit event user (Some target) (books s)) s"

definition log_event :: "string \<Rightarrow> ident \<Rightarrow> ident option \<Rightarrow> sales \<Rightarrow> sales" where
  "log_event name subject user s = with_books (emit name subject user (books s)) s"

definition log_job :: "string \<Rightarrow> ident \<Rightarrow> string option \<Rightarrow> sales \<Rightarrow> sales" where
  "log_job name subject detail s = with_books (enqueueJob name subject detail (books s)) s"

lemmas log_defs = log_audit_def log_event_def log_job_def

lemma logged_sales [simp]:
  "proposals (log_audit e u t s) = proposals s" "proposalOtps (log_audit e u t s) = proposalOtps s"
  "clientContacts (log_audit e u t s) = clientContacts s" "contracts (log_audit e u t s) = contracts s"
  "signatures (log_audit e u t s) = signatures s" "templates (log_audit e u t s) = templates s" "mailedCodes (log_audit e u t s) = mailedCodes s"
  "proposals (log_event n j u s) = proposals s" "proposalOtps (log_event n j u s) = proposalOtps s"
  "clientContacts (log_event n j u s) = clientContacts s" "contracts (log_event n j u s) = contracts s"
  "signatures (log_event n j u s) = signatures s" "templates (log_event n j u s) = templates s" "mailedCodes (log_event n j u s) = mailedCodes s"
  "proposals (log_job n j m s) = proposals s" "proposalOtps (log_job n j m s) = proposalOtps s"
  "clientContacts (log_job n j m s) = clientContacts s" "contracts (log_job n j m s) = contracts s"
  "signatures (log_job n j m s) = signatures s" "templates (log_job n j m s) = templates s" "mailedCodes (log_job n j m s) = mailedCodes s"
  by (simp_all add: log_defs)

lemma logged_books [simp]:
  "lineItems (books (log_audit e u t s)) = lineItems (books s)" "lineItems (books (log_event n j u s)) = lineItems (books s)"
  "lineItems (books (log_job n j m s)) = lineItems (books s)"
  "invoices (books (log_audit e u t s)) = invoices (books s)" "invoices (books (log_event n j u s)) = invoices (books s)"
  "invoices (books (log_job n j m s)) = invoices (books s)"
  "books_ok (books (log_audit e u t s)) = books_ok (books s)" "books_ok (books (log_event n j u s)) = books_ok (books s)"
  "books_ok (books (log_job n j m s)) = books_ok (books s)"
  by (simp_all add: log_defs)

section \<open>Parents and public links\<close>

definition live_client :: "ident \<Rightarrow> db \<Rightarrow> client_row option" where
  "live_client k d =
     (case find_id cli_id k (clients d) of
        Some c \<Rightarrow> if cli_deletedAt c = None then Some c else None
      | None \<Rightarrow> None)"

text \<open>\<open>lib/publicToken.ts\<close>: equal length, then a comparison of the bytes.\<close>

definition matchesPublicToken :: "string \<Rightarrow> string \<Rightarrow> bool" where
  "matchesPublicToken candidate stored \<longleftrightarrow> (if length candidate \<noteq> length stored then False else candidate = stored)"

definition public_token_miss_decoy :: string where
  "public_token_miss_decoy = replicate 43 CHR ''0''"

end
