(* ===== verification/Proposals.thy ===== *)
theory Proposals
  imports Sales ProposalTotals
begin

text \<open>
  The server actions on proposals (\<open>features/proposals/mutations.ts\<close>, \<open>publicLink.ts\<close>, \<open>trashMutations.ts\<close>): drafting
  with priced lines, editing a draft, sending, rotating and revoking the link, the trash. As in the other features the schema's result is an argument, ids,
  tokens and the clock are arguments, and each action is one step; an action answers the id of the proposal.
\<close>

section \<open>The gates\<close>

definition requireProposalWrite :: "request \<Rightarrow> actor result" where
  "requireProposalWrite = require_role [Owner, Assistant]"

definition requireProposalSend :: "request \<Rightarrow> actor result" where
  "requireProposalSend = require_role [Owner]"

definition requireProposalDelete :: "request \<Rightarrow> actor result" where
  "requireProposalDelete = require_role [Owner]"

definition requireProposalPublicLink :: "request \<Rightarrow> actor result" where
  "requireProposalPublicLink = require_role [Owner]"

interpretation proposal_write: role_gate requireProposalWrite "{Owner, Assistant}"
  using role_gate_require_role [of "[Owner, Assistant]"] by (simp add: requireProposalWrite_def)

interpretation proposal_send: role_gate requireProposalSend "{Owner}"
  using role_gate_require_role [of "[Owner]"] by (simp add: requireProposalSend_def)

interpretation proposal_delete: role_gate requireProposalDelete "{Owner}"
  using role_gate_require_role [of "[Owner]"] by (simp add: requireProposalDelete_def)

interpretation proposal_link: role_gate requireProposalPublicLink "{Owner}"
  using role_gate_require_role [of "[Owner]"] by (simp add: requireProposalPublicLink_def)

section \<open>The submitted form\<close>

record proposal_form =
  prf_subject :: ident
  prf_projectId :: "ident option"
  prf_clientId :: "ident option"
  prf_currency :: string
  prf_templateId :: "ident option"
  prf_validUntil :: "jsdate option"
  prf_notes :: string
  prf_discountValues :: discount_values
  prf_lineItems :: "line_form list"

definition proposal_toDiscount :: "discount_values \<Rightarrow> discount option" where
  "proposal_toDiscount v =
     (case (dv_kind v, dv_percentage v, dv_amount v) of
        (KindPercentage, Some p, _) \<Rightarrow> Some (Percentage p)
      | (KindFixed, _, Some a) \<Rightarrow> Some (Fixed a)
      | _ \<Rightarrow> None)"

definition proposal_toDiscountColumns :: "discount_values \<Rightarrow> discount_columns" where
  "proposal_toDiscountColumns v =
     (case proposal_toDiscount v of
        None \<Rightarrow> no_discount_columns
      | Some (Percentage p) \<Rightarrow> \<lparr>dc_type = Some TypePercentage, dc_percentage = Some p, dc_amount_cents = None\<rparr>
      | Some (Fixed a) \<Rightarrow> \<lparr>dc_type = Some TypeFixed, dc_percentage = None, dc_amount_cents = Some a\<rparr>)"

definition proposal_getTaxPercentages :: "line_form list \<Rightarrow> db \<Rightarrow> (ident \<times> jsnum) list result" where
  "proposal_getTaxPercentages items d =
     (let ids = remdups (List.map_filter lf_taxRateId items)
      in if ids = [] then Inr []
         else let rows = filter (\<lambda>r. tax_id r \<in> set ids \<and> tax_deletedAt r = None) (taxRates d)
              in if length rows \<noteq> length ids then Inl ''proposals.validation.taxRateInvalid''
                 else Inr (map (\<lambda>r. (tax_id r, tax_percentage r)) rows))"

definition proposal_getTaxPercentage :: "ident option \<Rightarrow> (ident \<times> jsnum) list \<Rightarrow> jsnum" where
  "proposal_getTaxPercentage taxRateId percentages =
     (case taxRateId of
        None \<Rightarrow> 0
      | Some k \<Rightarrow> (case map_of percentages k of None \<Rightarrow> 0 | Some p \<Rightarrow> p))"

definition proposal_toLineItemInputs :: "line_form list \<Rightarrow> (ident \<times> jsnum) list \<Rightarrow> proposal_line_item_input list" where
  "proposal_toLineItemInputs items percentages =
     map (\<lambda>i. \<lparr>quantity = lf_quantity i, unitPriceCents = lf_unitPrice i,
               line_discount = proposal_toDiscount (lf_discount i),
               taxPercentage = proposal_getTaxPercentage (lf_taxRateId i) percentages\<rparr>) items"

definition resolveProposalScope :: "ident option \<Rightarrow> ident option \<Rightarrow> db \<Rightarrow> (ident option \<times> ident option) result" where
  "resolveProposalScope projectId clientId d =
     (let project = Option.bind projectId (\<lambda>k. live_project k d) in
      if projectId \<noteq> None \<and> project = None then Inl ''proposals.errors.projectNotFound''
      else
     (let client = Option.bind clientId (\<lambda>k. live_client k d) in
      if clientId \<noteq> None \<and> client = None then Inl ''proposals.errors.clientNotFound''
      else
     (case (project, client) of
        (Some p, Some c) \<Rightarrow>
          if prj_clientId p \<noteq> cli_id c then Inl ''proposals.errors.clientProjectMismatch''
          else Inr (Some (prj_id p), Some (prj_clientId p))
      | (Some p, None) \<Rightarrow> Inr (Some (prj_id p), Some (prj_clientId p))
      | (None, Some c) \<Rightarrow> Inr (None, Some (cli_id c))
      | (None, None) \<Rightarrow> Inr (None, None))))"

section \<open>The writes\<close>

definition claimProposalNumber :: "db \<Rightarrow> (string \<times> db) result" where
  "claimProposalNumber d =
     (case settings d of
        None \<Rightarrow> Inl ''proposals.errors.updateFailed''
      | Some c \<Rightarrow>
          let c' = c\<lparr>set_nextProposalNumber := set_nextProposalNumber c + 1\<rparr>
          in Inr (formatProposalNumber (set_proposalPrefix c') (set_nextProposalNumber c' - 1) (set_numberPaddingWidth c'),
                  d\<lparr>settings := Some c'\<rparr>))"

definition proposal_line_row ::
  "(jsnum \<Rightarrow> jsnum) \<Rightarrow> ident \<Rightarrow> ident \<Rightarrow> nat \<Rightarrow> line_form \<Rightarrow> (ident \<times> jsnum) list \<Rightarrow> line_totals \<Rightarrow> line_item_row" where
  "proposal_line_row store proposalId lineId index item percentages t =
     \<lparr>li_id = lineId, li_proposalId = Some proposalId, li_invoiceId = None, li_creditNoteId = None,
      li_taxRateId = lf_taxRateId item, li_position = int index, li_description = lf_description item,
      li_unit = emptyToNull (lf_unit item), li_quantity = store (lf_quantity item), li_unitPriceCents = lf_unitPrice item,
      li_discount = proposal_toDiscountColumns (lf_discount item),
      li_taxPercentageSnapshot = proposal_getTaxPercentage (lf_taxRateId item) percentages,
      li_subtotalCents = lt_subtotalCents t, li_taxAmountCents = lt_taxAmountCents t, li_totalCents = lt_totalCents t,
      li_sourceTimeEntryId = None, li_sourceExpenseId = None, li_deletedAt = None\<rparr>"

definition writeProposalLineItems ::
  "(jsnum \<Rightarrow> jsnum) \<Rightarrow> (nat \<Rightarrow> ident) \<Rightarrow> ident \<Rightarrow> proposal_form \<Rightarrow> (ident \<times> jsnum) list \<Rightarrow> db \<Rightarrow> db" where
  "writeProposalLineItems store lineIds proposalId f percentages d =
     (let lineTotals = calculateProposalLineTotals (proposal_toLineItemInputs (prf_lineItems f) percentages)
                         (proposal_toDiscount (prf_discountValues f))
      in d\<lparr>lineItems := lineItems d @
           map (\<lambda>(index, item). proposal_line_row store proposalId (lineIds index) index item percentages (nth_totals lineTotals index))
             (zip [0..<length (prf_lineItems f)] (prf_lineItems f))\<rparr>)"

text \<open>What creating or editing a proposal writes to its row from the form, its scope and its totals.\<close>

definition put_proposal :: "proposal_form \<Rightarrow> ident option \<times> ident option \<Rightarrow> invoice_totals \<Rightarrow> proposal_row \<Rightarrow> proposal_row" where
  "put_proposal f scope t r =
     r\<lparr>pp_projectId := fst scope, pp_clientId := snd scope, pp_templateId := prf_templateId f, pp_currency := prf_currency f,
       pp_discount := proposal_toDiscountColumns (prf_discountValues f), pp_subtotalCents := subtotalCents t,
       pp_discountAmountTotalCents := discountAmountTotalCents t, pp_taxAmountCents := taxAmountCents t,
       pp_totalCents := totalCents t, pp_validUntil := prf_validUntil f, pp_notes := emptyToNull (prf_notes f)\<rparr>"

definition blank_proposal :: "ident \<Rightarrow> string \<Rightarrow> string \<Rightarrow> proposal_row" where
  "blank_proposal newId number token =
     \<lparr>pp_id = newId, pp_projectId = None, pp_clientId = None, pp_templateId = None, pp_number = number,
      pp_status = ProposalDraft, pp_currency = ''EUR'', pp_discount = no_discount_columns, pp_subtotalCents = 0,
      pp_discountAmountTotalCents = 0, pp_taxAmountCents = 0, pp_totalCents = 0, pp_validUntil = None, pp_notes = None,
      pp_publicToken = Some token, pp_issuedAt = None, pp_lockedAt = None, pp_respondedAt = None, pp_respondedIp = None,
      pp_rejectionReason = None, pp_deletedAt = None\<rparr>"

definition createProposal ::
  "(jsnum \<Rightarrow> jsnum) \<Rightarrow> request \<Rightarrow> proposal_form result \<Rightarrow> ident \<Rightarrow> (nat \<Rightarrow> ident) \<Rightarrow> string \<Rightarrow> sales
    \<Rightarrow> ident result \<times> sales" where
  "createProposal store req parsed newId lineIds token s =
     (case requireProposalWrite req of
        Inl e \<Rightarrow> (Inl e, s)
      | Inr actor \<Rightarrow>
     (case parsed of
        Inl m \<Rightarrow> (Inl m, s)
      | Inr f \<Rightarrow>
     (case resolveProposalScope (prf_projectId f) (prf_clientId f) (books s) of
        Inl e \<Rightarrow> (Inl e, s)
      | Inr scope \<Rightarrow>
     (case proposal_getTaxPercentages (prf_lineItems f) (books s) of
        Inl e \<Rightarrow> (Inl e, s)
      | Inr percentages \<Rightarrow>
     (let totals = calculateProposalTotal (proposal_toLineItemInputs (prf_lineItems f) percentages)
                     (proposal_toDiscount (prf_discountValues f))
      in case claimProposalNumber (books s) of
        Inl e \<Rightarrow> (Inl e, s)
      | Inr (number, d1) \<Rightarrow>
          let s1 = (with_books (writeProposalLineItems store lineIds newId f percentages d1) s)
                     \<lparr>proposals := add_row (put_proposal f scope totals (blank_proposal newId number token)) (proposals s)\<rparr>;
              user = Some (actor_userId actor)
          in (Inr newId, log_event ''proposal.created'' newId user (log_audit ''proposal.created'' user newId s1)))))))"

definition live_proposal_row :: "ident \<Rightarrow> proposal_row \<Rightarrow> bool" where
  "live_proposal_row k r \<longleftrightarrow> pp_id r = k \<and> pp_deletedAt r = None"

definition find_live_proposal :: "ident \<Rightarrow> sales \<Rightarrow> proposal_row option" where
  "find_live_proposal k s = List.find (live_proposal_row k) (proposals s)"

text \<open>\<open>WHERE id = k AND status = 'draft' AND deleted_at IS NULL\<close>\<close>

definition proposal_draft_row :: "ident \<Rightarrow> proposal_row \<Rightarrow> bool" where
  "proposal_draft_row k r \<longleftrightarrow> pp_id r = k \<and> pp_status r = ProposalDraft \<and> pp_deletedAt r = None"

definition updateProposal ::
  "(jsnum \<Rightarrow> jsnum) \<Rightarrow> request \<Rightarrow> proposal_form result \<Rightarrow> (nat \<Rightarrow> ident) \<Rightarrow> sales \<Rightarrow> ident result \<times> sales" where
  "updateProposal store req parsed lineIds s =
     (case requireProposalWrite req of
        Inl e \<Rightarrow> (Inl e, s)
      | Inr actor \<Rightarrow>
     (case parsed of
        Inl m \<Rightarrow> (Inl m, s)
      | Inr f \<Rightarrow>
     (case find_live_proposal (prf_subject f) s of
        None \<Rightarrow> (Inl ''proposals.errors.notFound'', s)
      | Some existing \<Rightarrow>
     (if \<not> isProposalEditable (pp_status existing) then (Inl ''proposals.errors.notDraft'', s)
      else
     (case resolveProposalScope (prf_projectId f) (prf_clientId f) (books s) of
        Inl e \<Rightarrow> (Inl e, s)
      | Inr scope \<Rightarrow>
     (case proposal_getTaxPercentages (prf_lineItems f) (books s) of
        Inl e \<Rightarrow> (Inl e, s)
      | Inr percentages \<Rightarrow>
     (let totals = calculateProposalTotal (proposal_toLineItemInputs (prf_lineItems f) percentages)
                     (proposal_toDiscount (prf_discountValues f))
      in if \<not> list_ex (proposal_draft_row (prf_subject f)) (proposals s) then (Inl ''proposals.errors.notDraft'', s)
      else
          let cleared = (books s)\<lparr>lineItems := filter (\<lambda>l. li_proposalId l \<noteq> Some (prf_subject f)) (lineItems (books s))\<rparr>;
              s1 = (with_books (writeProposalLineItems store lineIds (prf_subject f) f percentages cleared) s)
                     \<lparr>proposals := update_where (proposal_draft_row (prf_subject f)) (put_proposal f scope totals) (proposals s)\<rparr>;
              user = Some (actor_userId actor)
          in (Inr (pp_id existing),
              log_event ''proposal.updated'' (pp_id existing) user (log_audit ''proposal.updated'' user (pp_id existing) s1)))))))))"

definition live_proposal_line :: "ident \<Rightarrow> line_item_row \<Rightarrow> bool" where
  "live_proposal_line k l \<longleftrightarrow> li_proposalId l = Some k \<and> li_deletedAt l = None"

definition countProposalLineItems :: "ident \<Rightarrow> sales \<Rightarrow> nat" where
  "countProposalLineItems k s = length (filter (live_proposal_line k) (lineItems (books s)))"

definition calculateProposalValidUntil :: "jsdate \<Rightarrow> int \<Rightarrow> jsdate option" where
  "calculateProposalValidUntil issuedAt validityDays =
     (if validityDays \<le> 0 then None
      else let validUntil = date_UTC (utc_year issuedAt) (utc_month issuedAt) (utc_date issuedAt)
           in Some (setUTCDate validUntil (utc_date validUntil + validityDays)))"

text \<open>The answer of a send carries whether document mail is configured, a fact of the environment.\<close>

definition sendProposal ::
  "bool \<Rightarrow> request \<Rightarrow> ident result \<Rightarrow> jsdate \<Rightarrow> sales \<Rightarrow> (ident \<times> bool) result \<times> sales" where
  "sendProposal emailed req parsed now s =
     (case requireProposalSend req of
        Inl e \<Rightarrow> (Inl e, s)
      | Inr actor \<Rightarrow>
     (case parsed of
        Inl m \<Rightarrow> (Inl m, s)
      | Inr k \<Rightarrow>
     (case find_live_proposal k s of
        None \<Rightarrow> (Inl ''proposals.errors.notFound'', s)
      | Some existing \<Rightarrow>
     (case canTransitionProposalStatus (pp_status existing) ProposalSent of
        Refused r \<Rightarrow> (Inl ''proposals.errors.invalidTransition'', s)
      | Allowed to_status \<Rightarrow>
     (if countProposalLineItems (pp_id existing) s = 0 then (Inl ''proposals.validation.lineItemsRequired'', s)
      else
     (let validityDays = (case settings (books s) of None \<Rightarrow> 0 | Some c \<Rightarrow> set_proposalValidityDays c);
          validUntil = (case pp_validUntil existing of Some d \<Rightarrow> Some d | None \<Rightarrow> calculateProposalValidUntil now validityDays)
      in if \<not> list_ex (proposal_draft_row k) (proposals s) then (Inl ''proposals.errors.invalidTransition'', s)
      else
          let s1 = s\<lparr>proposals := update_where (proposal_draft_row k)
                (\<lambda>r. r\<lparr>pp_status := to_status, pp_issuedAt := Some now, pp_validUntil := validUntil\<rparr>) (proposals s)\<rparr>;
              user = Some (actor_userId actor)
          in (Inr (k, emailed), log_job ''proposal.pdf.render'' k (Some ''true'')
                (log_event ''proposal.sent'' k user (log_audit ''proposal.sent'' user k s1)))))))))"

section \<open>The public link\<close>

definition loadIssuedProposalForPublicLink :: "ident \<Rightarrow> sales \<Rightarrow> proposal_row result" where
  "loadIssuedProposalForPublicLink k s =
     (case find_live_proposal k s of
        None \<Rightarrow> Inl ''proposals.errors.notFound''
      | Some r \<Rightarrow> if pp_issuedAt r = None then Inl ''proposals.errors.publicLinkNotIssued'' else Inr r)"

definition rotateProposalPublicLink :: "request \<Rightarrow> ident result \<Rightarrow> string \<Rightarrow> sales \<Rightarrow> ident result \<times> sales" where
  "rotateProposalPublicLink req parsed token s =
     (case requireProposalPublicLink req of
        Inl e \<Rightarrow> (Inl e, s)
      | Inr actor \<Rightarrow>
     (case parsed of
        Inl m \<Rightarrow> (Inl m, s)
      | Inr k \<Rightarrow>
     (case loadIssuedProposalForPublicLink k s of
        Inl e \<Rightarrow> (Inl e, s)
      | Inr existing \<Rightarrow>
          if \<not> list_ex (live_proposal_row (pp_id existing)) (proposals s) then (Inl ''proposals.errors.notFound'', s)
          else
            let s1 = s\<lparr>proposals := update_where (live_proposal_row (pp_id existing)) (\<lambda>r. r\<lparr>pp_publicToken := Some token\<rparr>) (proposals s)\<rparr>
            in (Inr (pp_id existing), log_audit ''proposal.public_link.rotated'' (Some (actor_userId actor)) (pp_id existing) s1))))"

definition revokeProposalPublicLink :: "request \<Rightarrow> ident result \<Rightarrow> sales \<Rightarrow> ident result \<times> sales" where
  "revokeProposalPublicLink req parsed s =
     (case requireProposalPublicLink req of
        Inl e \<Rightarrow> (Inl e, s)
      | Inr actor \<Rightarrow>
     (case parsed of
        Inl m \<Rightarrow> (Inl m, s)
      | Inr k \<Rightarrow>
     (case loadIssuedProposalForPublicLink k s of
        Inl e \<Rightarrow> (Inl e, s)
      | Inr existing \<Rightarrow>
          if pp_publicToken existing = None then (Inl ''proposals.errors.publicLinkAlreadyRevoked'', s)
          else if \<not> list_ex (live_proposal_row (pp_id existing)) (proposals s) then (Inl ''proposals.errors.notFound'', s)
          else
            let s1 = s\<lparr>proposals := update_where (live_proposal_row (pp_id existing)) (\<lambda>r. r\<lparr>pp_publicToken := None\<rparr>) (proposals s)\<rparr>
            in (Inr (pp_id existing), log_audit ''proposal.public_link.revoked'' (Some (actor_userId actor)) (pp_id existing) s1))))"

section \<open>The trash\<close>

definition softDeleteProposal :: "request \<Rightarrow> ident result \<Rightarrow> jsdate \<Rightarrow> sales \<Rightarrow> ident result \<times> sales" where
  "softDeleteProposal req parsed now s =
     (case requireProposalDelete req of
        Inl e \<Rightarrow> (Inl e, s)
      | Inr actor \<Rightarrow>
     (case parsed of
        Inl m \<Rightarrow> (Inl m, s)
      | Inr k \<Rightarrow>
     (if \<not> list_ex (live_proposal_row k) (proposals s) then (Inl ''proposals.errors.notFound'', s)
      else
        let s1 = s\<lparr>proposals := update_where (live_proposal_row k) (\<lambda>r. r\<lparr>pp_deletedAt := Some now\<rparr>) (proposals s)\<rparr>;
            user = Some (actor_userId actor)
        in (Inr k, log_event ''proposal.deleted'' k user (log_audit ''proposal.deleted'' user k s1)))))"

definition restoreProposal :: "request \<Rightarrow> ident result \<Rightarrow> sales \<Rightarrow> ident result \<times> sales" where
  "restoreProposal req parsed s =
     (case requireProposalDelete req of
        Inl e \<Rightarrow> (Inl e, s)
      | Inr actor \<Rightarrow>
     (case parsed of
        Inl m \<Rightarrow> (Inl m, s)
      | Inr k \<Rightarrow>
     (case List.find (\<lambda>r. pp_id r = k \<and> pp_deletedAt r \<noteq> None) (proposals s) of
        None \<Rightarrow> (Inl ''proposals.errors.notFound'', s)
      | Some existing \<Rightarrow>
     (case resolveRestoreBlocker [(''trash.entities.client'', client_deletedAt (pp_clientId existing) (books s)),
                                  (''trash.entities.project'', project_deletedAt (pp_projectId existing) (books s))] of
        Some parent \<Rightarrow> (Inl (restore_blocked parent), s)
      | None \<Rightarrow>
          let s1 = s\<lparr>proposals := update_where (\<lambda>r. pp_id r = k \<and> pp_deletedAt r \<noteq> None) (\<lambda>r. r\<lparr>pp_deletedAt := None\<rparr>) (proposals s)\<rparr>
          in (Inr k, log_audit ''proposal.restored'' (Some (actor_userId actor)) k s1)))))"

end
