(* ===== verification/Contracts.thy ===== *)
theory Contracts
  imports Proposals
begin

text \<open>
  The server actions on contracts (\<open>features/contracts/mutations.ts\<close>, \<open>publicLink.ts\<close>, \<open>trashMutations.ts\<close>) and the
  public signature (\<open>publicQueries.ts\<close>, \<open>publicSigning.ts\<close>). The unique index of one live contract per proposal is
  part of the writes it can refuse. The wording of the consent, a translation with the issuer's name, is an argument.
\<close>

section \<open>The gates\<close>

definition requireContractWrite :: "request \<Rightarrow> actor result" where
  "requireContractWrite = require_role [Owner, Assistant]"

definition requireContractSend :: "request \<Rightarrow> actor result" where
  "requireContractSend = require_role [Owner]"

definition requireContractTerminate :: "request \<Rightarrow> actor result" where
  "requireContractTerminate = require_role [Owner]"

definition requireContractDelete :: "request \<Rightarrow> actor result" where
  "requireContractDelete = require_role [Owner]"

definition requireContractPublicLink :: "request \<Rightarrow> actor result" where
  "requireContractPublicLink = require_role [Owner]"

interpretation contract_write: role_gate requireContractWrite "{Owner, Assistant}"
  using role_gate_require_role [of "[Owner, Assistant]"] by (simp add: requireContractWrite_def)

interpretation contract_send: role_gate requireContractSend "{Owner}"
  using role_gate_require_role [of "[Owner]"] by (simp add: requireContractSend_def)

interpretation contract_terminate: role_gate requireContractTerminate "{Owner}"
  using role_gate_require_role [of "[Owner]"] by (simp add: requireContractTerminate_def)

interpretation contract_delete: role_gate requireContractDelete "{Owner}"
  using role_gate_require_role [of "[Owner]"] by (simp add: requireContractDelete_def)

interpretation contract_link: role_gate requireContractPublicLink "{Owner}"
  using role_gate_require_role [of "[Owner]"] by (simp add: requireContractPublicLink_def)

section \<open>Forms and blocks\<close>

record contract_form =
  ktf_subject :: ident
  ktf_title :: string
  ktf_projectId :: "ident option"
  ktf_clientId :: "ident option"
  ktf_templateId :: "ident option"
  ktf_blocks :: "document_block list"
  ktf_effectiveFrom :: "jsdate option"
  ktf_effectiveUntil :: "jsdate option"

definition hasContractContent :: "document_block list \<Rightarrow> bool" where
  "hasContractContent blocks \<longleftrightarrow> list_ex (\<lambda>b. \<not> blk_hidden b) blocks"

definition buildContractBlocksFromProposal :: "document_block list option \<Rightarrow> document_block list \<Rightarrow> document_block list" where
  "buildContractBlocksFromProposal templateBlocks proposalBlocks =
     (case templateBlocks of
        Some bs \<Rightarrow> if hasContractContent bs then bs else proposalBlocks
      | None \<Rightarrow> proposalBlocks)"

definition isContractExpired :: "jsdate option \<Rightarrow> jsdate \<Rightarrow> bool" where
  "isContractExpired effectiveUntil now =
     (case effectiveUntil of
        None \<Rightarrow> False
      | Some d \<Rightarrow> date_UTC (utc_year now) (utc_month now) (utc_date now) > date_UTC (utc_year d) (utc_month d) (utc_date d))"

definition resolveContractDisplayStatus :: "contract_status \<Rightarrow> jsdate option \<Rightarrow> jsdate \<Rightarrow> contract_status" where
  "resolveContractDisplayStatus st effectiveUntil now =
     (if st \<noteq> ContractSent then st else if isContractExpired effectiveUntil now then Expired else st)"

definition resolveContractParents :: "ident option \<Rightarrow> ident option \<Rightarrow> db \<Rightarrow> (ident option \<times> ident option) result" where
  "resolveContractParents projectId clientId d =
     (let project = Option.bind projectId (\<lambda>k. live_project k d);
          client = Option.bind clientId (\<lambda>k. live_client k d)
      in if projectId \<noteq> None \<and> project = None then Inl ''contracts.errors.parentNotFound''
         else if clientId \<noteq> None \<and> client = None then Inl ''contracts.errors.parentNotFound''
         else (case (project, client) of
           (Some p, Some c) \<Rightarrow>
             if prj_clientId p \<noteq> cli_id c then Inl ''contracts.errors.clientProjectMismatch''
             else Inr (Some (prj_id p), Some (prj_clientId p))
         | (Some p, None) \<Rightarrow> Inr (Some (prj_id p), Some (prj_clientId p))
         | (None, Some c) \<Rightarrow> Inr (None, Some (cli_id c))
         | (None, None) \<Rightarrow> Inr (None, None)))"

definition claimContractNumber :: "db \<Rightarrow> (string \<times> db) result" where
  "claimContractNumber d =
     (case settings d of
        None \<Rightarrow> Inl ''contracts.errors.updateFailed''
      | Some c \<Rightarrow>
          let c' = c\<lparr>set_nextContractNumber := set_nextContractNumber c + 1\<rparr>
          in Inr (formatContractNumber (set_contractPrefix c') (set_nextContractNumber c' - 1) (set_numberPaddingWidth c'),
                  d\<lparr>settings := Some c'\<rparr>))"

section \<open>Drafting\<close>

definition put_contract :: "contract_form \<Rightarrow> ident option \<times> ident option \<Rightarrow> contract_row \<Rightarrow> contract_row" where
  "put_contract f parents r =
     r\<lparr>con_projectId := fst parents, con_clientId := snd parents, con_templateId := ktf_templateId f, con_title := ktf_title f,
       con_blocks := Some (ktf_blocks f), con_effectiveFrom := ktf_effectiveFrom f, con_effectiveUntil := ktf_effectiveUntil f\<rparr>"

definition blank_contract :: "ident \<Rightarrow> string \<Rightarrow> string \<Rightarrow> contract_row" where
  "blank_contract newId number token =
     \<lparr>con_id = newId, con_projectId = None, con_clientId = None, con_proposalId = None, con_templateId = None, con_number = number,
      con_title = [], con_status = ContractDraft, con_blocks = Some [], con_publicToken = Some token, con_issuedAt = None,
      con_effectiveFrom = None, con_effectiveUntil = None, con_terminatedAt = None, con_terminationReason = None, con_deletedAt = None\<rparr>"

definition createContract ::
  "request \<Rightarrow> contract_form result \<Rightarrow> ident \<Rightarrow> string \<Rightarrow> sales \<Rightarrow> ident result \<times> sales" where
  "createContract req parsed newId token s =
     (case requireContractWrite req of
        Inl e \<Rightarrow> (Inl e, s)
      | Inr actor \<Rightarrow>
     (case parsed of
        Inl m \<Rightarrow> (Inl m, s)
      | Inr f \<Rightarrow>
     (case resolveContractParents (ktf_projectId f) (ktf_clientId f) (books s) of
        Inl e \<Rightarrow> (Inl e, s)
      | Inr parents \<Rightarrow>
     (case claimContractNumber (books s) of
        Inl e \<Rightarrow> (Inl e, s)
      | Inr (number, d1) \<Rightarrow>
          let s1 = (with_books d1 s)\<lparr>contracts := add_row (put_contract f parents (blank_contract newId number token)) (contracts s)\<rparr>;
              user = Some (actor_userId actor)
          in (Inr newId, log_event ''contract.created'' newId user (log_audit ''contract.created'' user newId s1))))))"

section \<open>From an accepted proposal\<close>

record accepted_proposal =
  cap_id :: ident
  cap_projectId :: "ident option"
  cap_clientId :: "ident option"
  cap_templateId :: "ident option"
  cap_blocks :: "document_block list"
  cap_title :: string

definition contract_of :: "ident \<Rightarrow> contract_row \<Rightarrow> bool" where
  "contract_of k r \<longleftrightarrow> con_proposalId r = Some k \<and> con_deletedAt r = None"

definition findProposalParent :: "ident option \<Rightarrow> ident option \<Rightarrow> db \<Rightarrow> string option \<times> ident option \<times> string option" where
  "findProposalParent projectId clientId d =
     (let client_parent =
        (case clientId of
           None \<Rightarrow> (None, None, None)
         | Some c \<Rightarrow> (let client = find_id cli_id c (clients d) in (None, map_option cli_id client, map_option cli_name client)))
      in case Option.bind projectId (\<lambda>k. find_id prj_id k (projects d)) of
           Some p \<Rightarrow> (let client = find_id cli_id (prj_clientId p) (clients d)
                    in (Some (prj_name p), map_option cli_id client, map_option cli_name client))
         | None \<Rightarrow> client_parent)"

definition getAcceptedProposalForContract :: "ident \<Rightarrow> sales \<Rightarrow> accepted_proposal option" where
  "getAcceptedProposalForContract k s =
     (case List.find (\<lambda>r. pp_id r = k \<and> pp_status r = Accepted \<and> pp_deletedAt r = None) (proposals s) of
        None \<Rightarrow> None
      | Some p \<Rightarrow>
          let (projectName, parentClientId, clientName) = findProposalParent (pp_projectId p) (pp_clientId p) (books s);
              template = Option.bind (pp_templateId p) (\<lambda>t. find_id tpl_id t (templates s))
          in if list_ex (contract_of (pp_id p)) (contracts s) then None
             else
               let blocks = (case template of None \<Rightarrow> Some [] | Some t \<Rightarrow> tpl_blocks t);
                   parentName = (case projectName of Some n \<Rightarrow> Some n | None \<Rightarrow> clientName)
               in Some \<lparr>cap_id = pp_id p, cap_projectId = pp_projectId p,
                        cap_clientId = (case pp_clientId p of Some c \<Rightarrow> Some c | None \<Rightarrow> parentClientId),
                        cap_templateId = pp_templateId p, cap_blocks = (case blocks of Some bs \<Rightarrow> bs | None \<Rightarrow> []),
                        cap_title = (case parentName of
                          Some n \<Rightarrow> if n = [] then pp_number p else pp_number p @ '' - '' @ n
                        | None \<Rightarrow> pp_number p)\<rparr>)"

definition getConversionRejection :: "ident \<Rightarrow> sales \<Rightarrow> message" where
  "getConversionRejection k s =
     (if list_ex (contract_of k) (contracts s) then ''contracts.errors.proposalAlreadyConverted''
      else ''contracts.errors.proposalNotConvertible'')"

definition default_contract_template :: "template_row \<Rightarrow> bool" where
  "default_contract_template t \<longleftrightarrow> tpl_type t = ContractTemplate \<and> tpl_isDefault t \<and> tpl_deletedAt t = None"

definition createContractFromProposal ::
  "request \<Rightarrow> (ident \<times> string) result \<Rightarrow> ident \<Rightarrow> string \<Rightarrow> sales \<Rightarrow> ident result \<times> sales" where
  "createContractFromProposal req parsed newId token s =
     (case requireContractWrite req of
        Inl e \<Rightarrow> (Inl e, s)
      | Inr actor \<Rightarrow>
     (case parsed of
        Inl m \<Rightarrow> (Inl m, s)
      | Inr (proposalId, title) \<Rightarrow>
     (case getAcceptedProposalForContract proposalId s of
        None \<Rightarrow> (Inl (getConversionRejection proposalId s), s)
      | Some proposal \<Rightarrow>
          let template = List.find default_contract_template (templates s);
              templateBlocks = (case template of None \<Rightarrow> Some [] | Some t \<Rightarrow> tpl_blocks t);
              blocks = buildContractBlocksFromProposal templateBlocks (cap_blocks proposal)
          in case claimContractNumber (books s) of
               Inl e \<Rightarrow> (Inl e, s)
             | Inr (number, d1) \<Rightarrow>
                 let row = (blank_contract newId number token)\<lparr>con_projectId := cap_projectId proposal,
                       con_clientId := cap_clientId proposal, con_proposalId := Some (cap_id proposal),
                       con_templateId := map_option tpl_id template, con_title := title, con_blocks := Some blocks\<rparr>;
                     s1 = (with_books d1 s)\<lparr>contracts := add_row row (contracts s)\<rparr>;
                     user = Some (actor_userId actor)
                 in (Inr newId, log_event ''contract.created'' newId user (log_audit ''contract.created'' user newId s1)))))"

section \<open>Editing, sending, ending\<close>

definition live_contract_row :: "ident \<Rightarrow> contract_row \<Rightarrow> bool" where
  "live_contract_row k r \<longleftrightarrow> con_id r = k \<and> con_deletedAt r = None"

definition find_live_contract :: "ident \<Rightarrow> sales \<Rightarrow> contract_row option" where
  "find_live_contract k s = List.find (live_contract_row k) (contracts s)"

definition contract_draft_row :: "ident \<Rightarrow> contract_row \<Rightarrow> bool" where
  "contract_draft_row k r \<longleftrightarrow> con_id r = k \<and> con_status r = ContractDraft \<and> con_deletedAt r = None"

definition updateContract :: "request \<Rightarrow> contract_form result \<Rightarrow> sales \<Rightarrow> ident result \<times> sales" where
  "updateContract req parsed s =
     (case requireContractWrite req of
        Inl e \<Rightarrow> (Inl e, s)
      | Inr actor \<Rightarrow>
     (case parsed of
        Inl m \<Rightarrow> (Inl m, s)
      | Inr f \<Rightarrow>
     (case find_live_contract (ktf_subject f) s of
        None \<Rightarrow> (Inl ''contracts.errors.notFound'', s)
      | Some existing \<Rightarrow>
     (if \<not> isContractEditable (con_status existing) then (Inl ''contracts.errors.notDraft'', s)
      else
     (case resolveContractParents (ktf_projectId f) (ktf_clientId f) (books s) of
        Inl e \<Rightarrow> (Inl e, s)
      | Inr parents \<Rightarrow>
          if \<not> list_ex (contract_draft_row (ktf_subject f)) (contracts s) then (Inl ''contracts.errors.notDraft'', s)
          else
            let s1 = s\<lparr>contracts := update_where (contract_draft_row (ktf_subject f)) (put_contract f parents) (contracts s)\<rparr>;
                user = Some (actor_userId actor)
            in (Inr (con_id existing),
                log_event ''contract.updated'' (con_id existing) user (log_audit ''contract.updated'' user (con_id existing) s1)))))))"

definition sendContract :: "bool \<Rightarrow> request \<Rightarrow> ident result \<Rightarrow> jsdate \<Rightarrow> sales \<Rightarrow> (ident \<times> bool) result \<times> sales" where
  "sendContract emailed req parsed now s =
     (case requireContractSend req of
        Inl e \<Rightarrow> (Inl e, s)
      | Inr actor \<Rightarrow>
     (case parsed of
        Inl m \<Rightarrow> (Inl m, s)
      | Inr k \<Rightarrow>
     (case find_live_contract k s of
        None \<Rightarrow> (Inl ''contracts.errors.notFound'', s)
      | Some existing \<Rightarrow>
     (case canTransitionContractStatus (con_status existing) ContractSent of
        Refused r \<Rightarrow> (Inl ''contracts.errors.invalidTransition'', s)
      | Allowed to_status \<Rightarrow>
     (if (case con_blocks existing of None \<Rightarrow> True | Some blocks \<Rightarrow> \<not> hasContractContent blocks)
      then (Inl ''contracts.validation.blocksRequired'', s)
      else if \<not> list_ex (contract_draft_row k) (contracts s) then (Inl ''contracts.errors.invalidTransition'', s)
      else
        let s1 = s\<lparr>contracts := update_where (contract_draft_row k)
                    (\<lambda>r. r\<lparr>con_status := to_status, con_issuedAt := Some now\<rparr>) (contracts s)\<rparr>;
            user = Some (actor_userId actor)
        in (Inr (k, emailed), log_job ''contract.pdf.render'' k (Some ''true'')
              (log_event ''contract.sent'' k user (log_audit ''contract.sent'' user k s1))))))))"

definition terminable_row :: "ident \<Rightarrow> contract_row \<Rightarrow> bool" where
  "terminable_row k r \<longleftrightarrow> con_id r = k \<and> con_status r \<in> {ContractSent, Signed} \<and> con_deletedAt r = None"

definition terminateContract :: "request \<Rightarrow> (ident \<times> string) result \<Rightarrow> jsdate \<Rightarrow> sales \<Rightarrow> ident result \<times> sales" where
  "terminateContract req parsed now s =
     (case requireContractTerminate req of
        Inl e \<Rightarrow> (Inl e, s)
      | Inr actor \<Rightarrow>
     (case parsed of
        Inl m \<Rightarrow> (Inl m, s)
      | Inr (k, terminationReason) \<Rightarrow>
     (case find_live_contract k s of
        None \<Rightarrow> (Inl ''contracts.errors.notFound'', s)
      | Some existing \<Rightarrow>
     (case canTransitionContractStatus (con_status existing) Terminated of
        Refused r \<Rightarrow> (Inl ''contracts.errors.invalidTransition'', s)
      | Allowed to_status \<Rightarrow>
          if \<not> list_ex (terminable_row k) (contracts s) then (Inl ''contracts.errors.invalidTransition'', s)
          else
            let s1 = s\<lparr>contracts := update_where (terminable_row k) (\<lambda>r. r\<lparr>con_status := to_status, con_terminatedAt := Some now,
                        con_terminationReason := Some terminationReason\<rparr>) (contracts s)\<rparr>;
                user = Some (actor_userId actor)
            in (Inr k, log_event ''contract.terminated'' k user (log_audit ''contract.terminated'' user k s1))))))"

section \<open>The public link\<close>

definition loadIssuedContractForPublicLink :: "ident \<Rightarrow> sales \<Rightarrow> contract_row result" where
  "loadIssuedContractForPublicLink k s =
     (case find_live_contract k s of
        None \<Rightarrow> Inl ''contracts.errors.notFound''
      | Some r \<Rightarrow> if con_issuedAt r = None then Inl ''contracts.errors.publicLinkNotIssued'' else Inr r)"

definition rotateContractPublicLink :: "request \<Rightarrow> ident result \<Rightarrow> string \<Rightarrow> sales \<Rightarrow> ident result \<times> sales" where
  "rotateContractPublicLink req parsed token s =
     (case requireContractPublicLink req of
        Inl e \<Rightarrow> (Inl e, s)
      | Inr actor \<Rightarrow>
     (case parsed of
        Inl m \<Rightarrow> (Inl m, s)
      | Inr k \<Rightarrow>
     (case loadIssuedContractForPublicLink k s of
        Inl e \<Rightarrow> (Inl e, s)
      | Inr existing \<Rightarrow>
          if \<not> list_ex (live_contract_row (con_id existing)) (contracts s) then (Inl ''contracts.errors.notFound'', s)
          else
            let s1 = s\<lparr>contracts := update_where (live_contract_row (con_id existing)) (\<lambda>r. r\<lparr>con_publicToken := Some token\<rparr>) (contracts s)\<rparr>
            in (Inr (con_id existing), log_audit ''contract.public_link.rotated'' (Some (actor_userId actor)) (con_id existing) s1))))"

definition revokeContractPublicLink :: "request \<Rightarrow> ident result \<Rightarrow> sales \<Rightarrow> ident result \<times> sales" where
  "revokeContractPublicLink req parsed s =
     (case requireContractPublicLink req of
        Inl e \<Rightarrow> (Inl e, s)
      | Inr actor \<Rightarrow>
     (case parsed of
        Inl m \<Rightarrow> (Inl m, s)
      | Inr k \<Rightarrow>
     (case loadIssuedContractForPublicLink k s of
        Inl e \<Rightarrow> (Inl e, s)
      | Inr existing \<Rightarrow>
          if con_publicToken existing = None then (Inl ''contracts.errors.publicLinkAlreadyRevoked'', s)
          else if \<not> list_ex (live_contract_row (con_id existing)) (contracts s) then (Inl ''contracts.errors.notFound'', s)
          else
            let s1 = s\<lparr>contracts := update_where (live_contract_row (con_id existing)) (\<lambda>r. r\<lparr>con_publicToken := None\<rparr>) (contracts s)\<rparr>
            in (Inr (con_id existing), log_audit ''contract.public_link.revoked'' (Some (actor_userId actor)) (con_id existing) s1))))"

section \<open>The trash\<close>

definition softDeleteContract :: "request \<Rightarrow> ident result \<Rightarrow> jsdate \<Rightarrow> sales \<Rightarrow> ident result \<times> sales" where
  "softDeleteContract req parsed now s =
     (case requireContractDelete req of
        Inl e \<Rightarrow> (Inl e, s)
      | Inr actor \<Rightarrow>
     (case parsed of
        Inl m \<Rightarrow> (Inl m, s)
      | Inr k \<Rightarrow>
     (if \<not> list_ex (live_contract_row k) (contracts s) then (Inl ''contracts.errors.notFound'', s)
      else
        let s1 = s\<lparr>contracts := update_where (live_contract_row k) (\<lambda>r. r\<lparr>con_deletedAt := Some now\<rparr>) (contracts s)\<rparr>;
            user = Some (actor_userId actor)
        in (Inr k, log_event ''contract.deleted'' k user (log_audit ''contract.deleted'' user k s1)))))"

text \<open>
  Restoring a contract whose proposal has another live contract violates \<open>contracts_proposal_id_unique_idx\<close>; the
  driver's error is answered with the fallback message.
\<close>

definition deleted_contract_row :: "ident \<Rightarrow> contract_row \<Rightarrow> bool" where
  "deleted_contract_row k r \<longleftrightarrow> con_id r = k \<and> con_deletedAt r \<noteq> None"

definition proposal_has_contract :: "ident option \<Rightarrow> sales \<Rightarrow> bool" where
  "proposal_has_contract proposalId s = (case proposalId of None \<Rightarrow> False | Some k \<Rightarrow> list_ex (contract_of k) (contracts s))"

definition restoreContract :: "request \<Rightarrow> ident result \<Rightarrow> sales \<Rightarrow> ident result \<times> sales" where
  "restoreContract req parsed s =
     (case requireContractDelete req of
        Inl e \<Rightarrow> (Inl e, s)
      | Inr actor \<Rightarrow>
     (case parsed of
        Inl m \<Rightarrow> (Inl m, s)
      | Inr k \<Rightarrow>
     (case List.find (deleted_contract_row k) (contracts s) of
        None \<Rightarrow> (Inl ''contracts.errors.notFound'', s)
      | Some existing \<Rightarrow>
     (case resolveRestoreBlocker [(''trash.entities.client'', client_deletedAt (con_clientId existing) (books s)),
                                  (''trash.entities.project'', project_deletedAt (con_projectId existing) (books s))] of
        Some parent \<Rightarrow> (Inl (restore_blocked parent), s)
      | None \<Rightarrow>
          if proposal_has_contract (con_proposalId existing) s then (Inl ''trash.errors.restoreFailed'', s)
          else
            let s1 = s\<lparr>contracts := update_where (deleted_contract_row k) (\<lambda>r. r\<lparr>con_deletedAt := None\<rparr>) (contracts s)\<rparr>
            in (Inr k, log_audit ''contract.restored'' (Some (actor_userId actor)) k s1)))))"

section \<open>Signing\<close>

record signing_target =
  st_id :: ident
  st_projectId :: "ident option"
  st_clientId :: "ident option"
  st_number :: string
  st_status :: contract_status
  st_consentText :: string

definition publicContractTokenSchema :: "string \<Rightarrow> string option" where
  "publicContractTokenSchema token =
     (let t = js_trim token in if length t \<ge> 1 \<and> length t \<le> 128 then Some t else None)"

definition findSignableContractByToken :: "string \<Rightarrow> jsdate \<Rightarrow> sales \<Rightarrow> contract_row option" where
  "findSignableContractByToken token now s =
     (let contract = List.find (\<lambda>r. con_publicToken r = Some token \<and> con_deletedAt r = None) (contracts s);
          tokenMatches = matchesPublicToken token
            (case Option.bind contract con_publicToken of Some t \<Rightarrow> t | None \<Rightarrow> public_token_miss_decoy)
      in case contract of
           None \<Rightarrow> None
         | Some r \<Rightarrow>
             if \<not> tokenMatches then None
             else if resolveContractDisplayStatus (con_status r) (con_effectiveUntil r) now = ContractSent then Some r else None)"

definition getContractSigningTarget :: "(string \<Rightarrow> string) \<Rightarrow> string \<Rightarrow> jsdate \<Rightarrow> sales \<Rightarrow> signing_target option" where
  "getContractSigningTarget consent token now s =
     (case publicContractTokenSchema token of
        None \<Rightarrow> None
      | Some t \<Rightarrow>
     (case findSignableContractByToken t now s of
        None \<Rightarrow> None
      | Some r \<Rightarrow>
          if con_issuedAt r = None then None
          else Some \<lparr>st_id = con_id r, st_projectId = con_projectId r, st_clientId = con_clientId r, st_number = con_number r,
                     st_status = con_status r, st_consentText = consent (con_number r)\<rparr>))"

definition sent_contract_row :: "ident \<Rightarrow> contract_row \<Rightarrow> bool" where
  "sent_contract_row k r \<longleftrightarrow> con_id r = k \<and> con_status r = ContractSent \<and> con_deletedAt r = None"

definition recordContractSignature ::
  "signing_target \<Rightarrow> string \<Rightarrow> string \<Rightarrow> string \<Rightarrow> string \<Rightarrow> jsdate \<Rightarrow> ident \<Rightarrow> sales \<Rightarrow> (message + sales)" where
  "recordContractSignature target signerName signerEmail ipAddress userAgent signedAt newId s =
     (if \<not> list_ex (sent_contract_row (st_id target)) (contracts s) then Inl ''contracts.public.errors.alreadySigned''
      else Inr (s\<lparr>contracts := update_where (sent_contract_row (st_id target)) (\<lambda>r. r\<lparr>con_status := Signed\<rparr>) (contracts s),
                  signatures := add_row \<lparr>sig_id = newId, sig_contractId = st_id target, sig_signerName = signerName,
                    sig_signerEmail = signerEmail, sig_consentText = st_consentText target, sig_ipAddress = ipAddress,
                    sig_userAgent = userAgent, sig_signedAt = signedAt\<rparr> (signatures s)\<rparr>))"

definition or_unknown :: "string option \<Rightarrow> string" where
  "or_unknown v = (case v of Some x \<Rightarrow> x | None \<Rightarrow> ''unknown'')"

definition signPublicContract ::
  "(string \<Rightarrow> string) \<Rightarrow> (string \<times> string) result \<Rightarrow> string \<Rightarrow> string option \<Rightarrow> string option \<Rightarrow> jsdate \<Rightarrow> ident \<Rightarrow> sales
    \<Rightarrow> (contract_status \<times> jsdate) result \<times> sales" where
  "signPublicContract consent parsed token ip userAgent now newId s =
     (case parsed of
        Inl m \<Rightarrow> (Inl m, s)
      | Inr (signerName, signerEmail) \<Rightarrow>
     (case getContractSigningTarget consent token now s of
        None \<Rightarrow> (Inl ''contracts.public.errors.unavailable'', s)
      | Some target \<Rightarrow>
     (case canTransitionContractStatus (st_status target) Signed of
        Refused r \<Rightarrow> (Inl ''contracts.public.errors.alreadySigned'', s)
      | Allowed to_status \<Rightarrow>
     (case recordContractSignature target signerName signerEmail (or_unknown ip) (or_unknown userAgent) now newId s of
        Inl m \<Rightarrow> (Inl m, s)
      | Inr s1 \<Rightarrow> (Inr (to_status, now), log_job ''contract.signed_pdf.render'' (st_id target) (Some newId)
            (log_event ''contract.signed'' (st_id target) None (log_audit ''contract.signed'' None (st_id target) s1)))))))"

section \<open>Overview\<close>

record contracts_summary =
  sum_total :: nat
  sum_draft :: nat
  sum_sent :: nat
  sum_signed :: nat
  sum_expired :: nat
  sum_terminated :: nat

fun count_status :: "contract_status \<Rightarrow> contracts_summary \<Rightarrow> contracts_summary" where
  "count_status ContractDraft s = s\<lparr>sum_draft := sum_draft s + 1\<rparr>"
| "count_status ContractSent s = s\<lparr>sum_sent := sum_sent s + 1\<rparr>"
| "count_status Signed s = s\<lparr>sum_signed := sum_signed s + 1\<rparr>"
| "count_status Expired s = s\<lparr>sum_expired := sum_expired s + 1\<rparr>"
| "count_status Terminated s = s\<lparr>sum_terminated := sum_terminated s + 1\<rparr>"

definition summarizeContracts :: "(contract_status \<times> jsdate option) list \<Rightarrow> jsdate \<Rightarrow> contracts_summary" where
  "summarizeContracts rows now =
     foldl (\<lambda>summary (st, effectiveUntil). count_status (resolveContractDisplayStatus st effectiveUntil now) summary)
       \<lparr>sum_total = length rows, sum_draft = 0, sum_sent = 0, sum_signed = 0, sum_expired = 0, sum_terminated = 0\<rparr> rows"

end
