(* ===== verification/ProposalAnswers.thy ===== *)
theory ProposalAnswers
  imports Proposals
begin

text \<open>
  The client's answer to a proposal (\<open>features/proposals/publicResponse.ts\<close>, \<open>publicQueries.ts\<close>,
  \<open>services/proposalOtp.ts\<close>): a visitor who holds the link asks for a one-time code, which is mailed to an address
  of the client, and answers with it. Randomness and the outside world are arguments: the drawn code, its hash, the
  comparison of a code with a hash (\<open>bcryptjs\<close>), and whether the mail provider took the message. The mails that
  carry a code are recorded in the order they are handed to the provider; the email log, a record for the
  screen, is left out.
\<close>

section \<open>Codes\<close>

definition proposal_otp_ttl_minutes :: int where "proposal_otp_ttl_minutes = 10"
definition proposal_otp_max_attempts :: int where "proposal_otp_max_attempts = 5"

datatype otp_rejection = Consumed | CodeExpired | AttemptsExhausted

datatype otp_usability = Usable | Unusable otp_rejection

definition evaluateProposalOtp :: "otp_row \<Rightarrow> jsdate \<Rightarrow> otp_usability" where
  "evaluateProposalOtp otp now =
     (if otp_usedAt otp \<noteq> None \<or> otp_invalidatedAt otp \<noteq> None then Unusable Consumed
      else if otp_expiresAt otp \<le> now then Unusable CodeExpired
      else if otp_attempts otp \<ge> proposal_otp_max_attempts then Unusable AttemptsExhausted
      else Usable)"

definition getProposalOtpExpiry :: "jsdate \<Rightarrow> jsdate" where
  "getProposalOtpExpiry issuedAt = issuedAt + proposal_otp_ttl_minutes * 60 * 1000"

definition hasExhaustedProposalOtpAttempts :: "int \<Rightarrow> bool" where
  "hasExhaustedProposalOtpAttempts n \<longleftrightarrow> n \<ge> proposal_otp_max_attempts"

definition matchesProposalRecipient :: "string \<Rightarrow> string \<Rightarrow> bool" where
  "matchesProposalRecipient candidate recipient \<longleftrightarrow> js_lower (js_trim candidate) = js_lower (js_trim recipient)"

record respondent =
  rp_email :: string
  rp_name :: string

definition matchProposalRespondent :: "string \<Rightarrow> respondent list \<Rightarrow> respondent option" where
  "matchProposalRespondent candidate respondents = List.find (\<lambda>r. matchesProposalRecipient candidate (rp_email r)) respondents"

definition isProposalExpired :: "jsdate option \<Rightarrow> jsdate \<Rightarrow> bool" where
  "isProposalExpired validUntil now =
     (case validUntil of
        None \<Rightarrow> False
      | Some d \<Rightarrow> date_UTC (utc_year now) (utc_month now) (utc_date now) > date_UTC (utc_year d) (utc_month d) (utc_date d))"

fun toNextStatus :: "proposal_action \<Rightarrow> proposal_status" where
  "toNextStatus Accept = Accepted"
| "toNextStatus Reject = Rejected"

fun toOtpRejectionMessage :: "otp_rejection \<Rightarrow> message" where
  "toOtpRejectionMessage Consumed = ''proposals.public.errors.codeConsumed''"
| "toOtpRejectionMessage CodeExpired = ''proposals.public.errors.codeExpired''"
| "toOtpRejectionMessage AttemptsExhausted = ''proposals.public.errors.codeAttemptsExhausted''"

section \<open>Who may answer\<close>

definition listRecipientIdentities :: "client_row \<Rightarrow> contact_row list \<Rightarrow> respondent list" where
  "listRecipientIdentities client contacts =
     \<lparr>rp_email = cli_email client, rp_name = cli_name client\<rparr>
       # map (\<lambda>c. \<lparr>rp_email = cc_email c, rp_name = cc_name c\<rparr>) contacts"

text \<open>The live contacts of a client. Their order, primary first and then by name, decides no outcome modelled here.\<close>

definition listLiveContacts :: "ident \<Rightarrow> sales \<Rightarrow> contact_row list" where
  "listLiveContacts clientId s =
     (let rows = filter (\<lambda>c. cc_clientId c = clientId \<and> cc_deletedAt c = None) (clientContacts s)
      in filter cc_isPrimary rows @ filter (\<lambda>c. \<not> cc_isPrimary c) rows)"

definition listClientRecipientIdentities :: "ident \<Rightarrow> sales \<Rightarrow> respondent list" where
  "listClientRecipientIdentities clientId s =
     (case live_client clientId (books s) of
        None \<Rightarrow> []
      | Some c \<Rightarrow> listRecipientIdentities c (listLiveContacts clientId s))"

definition findProposalByPublicToken :: "string \<Rightarrow> sales \<Rightarrow> proposal_row option" where
  "findProposalByPublicToken token s =
     (let proposal = List.find (\<lambda>r. pp_publicToken r = Some token \<and> pp_deletedAt r = None) (proposals s);
          tokenMatches = matchesPublicToken token
            (case Option.bind proposal pp_publicToken of Some t \<Rightarrow> t | None \<Rightarrow> public_token_miss_decoy)
      in if proposal = None \<or> \<not> tokenMatches then None else proposal)"

definition findLiveRecipient :: "proposal_row \<Rightarrow> sales \<Rightarrow> ident option" where
  "findLiveRecipient p s =
     (case pp_projectId p of
        Some k \<Rightarrow>
          (case live_project k (books s) of
             None \<Rightarrow> None
           | Some project \<Rightarrow> map_option cli_id (live_client (prj_clientId project) (books s)))
      | None \<Rightarrow>
          (case pp_clientId p of
             None \<Rightarrow> None
           | Some k \<Rightarrow> map_option cli_id (live_client k (books s))))"

record response_target =
  rt_id :: ident
  rt_projectId :: "ident option"
  rt_status :: proposal_status
  rt_respondents :: "respondent list"

definition getProposalResponseTarget :: "string \<Rightarrow> jsdate \<Rightarrow> sales \<Rightarrow> response_target option" where
  "getProposalResponseTarget token now s =
     (case findProposalByPublicToken token s of
        None \<Rightarrow> None
      | Some p \<Rightarrow>
          if pp_issuedAt p = None then None
          else if pp_status p = ProposalSent \<and> isProposalExpired (pp_validUntil p) now then None
          else
            (case findLiveRecipient p s of
               None \<Rightarrow> None
             | Some client \<Rightarrow> Some \<lparr>rt_id = pp_id p, rt_projectId = pp_projectId p, rt_status = pp_status p,
                                   rt_respondents = listClientRecipientIdentities client s\<rparr>))"

section \<open>Asking for a code\<close>

definition outstanding_otp :: "ident \<Rightarrow> otp_row \<Rightarrow> bool" where
  "outstanding_otp proposalId o' \<longleftrightarrow> otp_proposalId o' = proposalId \<and> otp_usedAt o' = None \<and> otp_invalidatedAt o' = None"

definition issueProposalOtp ::
  "response_target \<Rightarrow> respondent \<Rightarrow> proposal_action \<Rightarrow> string \<Rightarrow> jsdate \<Rightarrow> ident \<Rightarrow> sales \<Rightarrow> sales" where
  "issueProposalOtp target who action codeHash issuedAt newId s =
     (let superseded = update_where (outstanding_otp (rt_id target)) (\<lambda>o'. o'\<lparr>otp_invalidatedAt := Some issuedAt\<rparr>) (proposalOtps s)
      in s\<lparr>proposalOtps := add_row
            \<lparr>otp_id = newId, otp_proposalId = rt_id target, otp_action = action, otp_codeHash = codeHash, otp_email = rp_email who,
             otp_expiresAt = getProposalOtpExpiry issuedAt, otp_attempts = 0, otp_usedAt = None, otp_invalidatedAt = None,
             otp_createdAt = issuedAt\<rparr> superseded\<rparr>)"

definition invalidateProposalOtp :: "ident \<Rightarrow> jsdate \<Rightarrow> sales \<Rightarrow> sales" where
  "invalidateProposalOtp k now s =
     s\<lparr>proposalOtps := update_where (\<lambda>o'. otp_id o' = k) (\<lambda>o'. o'\<lparr>otp_invalidatedAt := Some now\<rparr>) (proposalOtps s)\<rparr>"

definition requestProposalOtp ::
  "(proposal_action \<times> string) result \<Rightarrow> string \<Rightarrow> jsdate \<Rightarrow> ident \<Rightarrow> string \<Rightarrow> string \<Rightarrow> bool \<Rightarrow> sales \<Rightarrow> int result \<times> sales" where
  "requestProposalOtp parsed token now newId code codeHash delivered s =
     (case parsed of
        Inl m \<Rightarrow> (Inl m, s)
      | Inr (action, email) \<Rightarrow>
     (case getProposalResponseTarget token now s of
        None \<Rightarrow> (Inl ''proposals.public.errors.unavailable'', s)
      | Some target \<Rightarrow>
     (case canTransitionProposalStatus (rt_status target) (toNextStatus action) of
        Refused r \<Rightarrow> (Inl ''proposals.public.errors.alreadyResponded'', s)
      | Allowed to_status \<Rightarrow>
     (case matchProposalRespondent email (rt_respondents target) of
        None \<Rightarrow> (Inr proposal_otp_ttl_minutes, log_audit ''proposal.otp.requested'' None (rt_id target) s)
      | Some who \<Rightarrow>
          let s1 = issueProposalOtp target who action codeHash now newId s;
              s2 = s1\<lparr>mailedCodes := mailedCodes s1 @ [(rp_email who, code)]\<rparr>
          in if \<not> delivered then (Inl ''proposals.public.errors.emailFailed'', invalidateProposalOtp newId now s2)
             else (Inr proposal_otp_ttl_minutes, log_audit ''proposal.otp.requested'' None (rt_id target) s2)))))"

section \<open>Answering with a code\<close>

definition findLatestProposalOtp :: "ident \<Rightarrow> proposal_action \<Rightarrow> sales \<Rightarrow> otp_row option" where
  "findLatestProposalOtp proposalId action s =
     (let rows = sort_key otp_createdAt (filter (\<lambda>o'. otp_proposalId o' = proposalId \<and> otp_action o' = action) (proposalOtps s))
      in if rows = [] then None else Some (last rows))"

text \<open>
  \<open>countFailedProposalOtpAttempt\<close> computes the new row from the row read before the comparison, not from the
  stored one: the count is read here and written there.
\<close>

definition countFailedProposalOtpAttempt :: "otp_row \<Rightarrow> jsdate \<Rightarrow> sales \<Rightarrow> message \<times> sales" where
  "countFailedProposalOtpAttempt otp now s =
     (let attempts = otp_attempts otp + 1; exhausted = hasExhaustedProposalOtpAttempts attempts;
          s1 = s\<lparr>proposalOtps := update_where (\<lambda>o'. otp_id o' = otp_id otp)
                  (\<lambda>o'. o'\<lparr>otp_attempts := attempts, otp_invalidatedAt := (if exhausted then Some now else None)\<rparr>) (proposalOtps s)\<rparr>
      in (if exhausted then ''proposals.public.errors.codeAttemptsExhausted'' else ''proposals.public.errors.codeInvalid'', s1))"

definition usable_otp_row :: "ident \<Rightarrow> otp_row \<Rightarrow> bool" where
  "usable_otp_row k o' \<longleftrightarrow> otp_id o' = k \<and> otp_usedAt o' = None \<and> otp_invalidatedAt o' = None"

definition sent_proposal_row :: "ident \<Rightarrow> proposal_row \<Rightarrow> bool" where
  "sent_proposal_row k r \<longleftrightarrow> pp_id r = k \<and> pp_status r = ProposalSent \<and> pp_deletedAt r = None"

definition recordProposalResponse ::
  "ident \<Rightarrow> ident \<Rightarrow> proposal_action \<Rightarrow> proposal_status \<Rightarrow> string \<Rightarrow> jsdate \<Rightarrow> string \<Rightarrow> sales \<Rightarrow> (message + sales)" where
  "recordProposalResponse proposalId otpId action to_status rejectionReason respondedAt respondedIp s =
     (if \<not> list_ex (usable_otp_row otpId) (proposalOtps s) then Inl ''proposals.public.errors.codeInvalid''
      else
        let s1 = s\<lparr>proposalOtps := update_where (usable_otp_row otpId) (\<lambda>o'. o'\<lparr>otp_usedAt := Some respondedAt\<rparr>) (proposalOtps s)\<rparr>
        in if \<not> list_ex (sent_proposal_row proposalId) (proposals s1) then Inl ''proposals.public.errors.alreadyResponded''
           else Inr (s1\<lparr>proposals := update_where (sent_proposal_row proposalId)
                  (\<lambda>r. r\<lparr>pp_status := to_status, pp_respondedAt := Some respondedAt, pp_respondedIp := Some respondedIp,
                          pp_rejectionReason := (if action = Reject then Some rejectionReason else None),
                          pp_lockedAt := (if action = Accept then Some respondedAt else None)\<rparr>) (proposals s1)\<rparr>))"

record otp_answer =
  oa_action :: proposal_action
  oa_email :: string
  oa_code :: string
  oa_rejectionReason :: string

text \<open>
  What \<open>verifyProposalOtp\<close> does before its first write: refuse, or go on with a proposal, the latest code, and
  whether the submitted code is the right one.
\<close>

datatype otp_decision = Refuse message | WrongCode otp_row | RightCode response_target otp_row proposal_status

definition checkProposalOtp ::
  "(string \<Rightarrow> string \<Rightarrow> bool) \<Rightarrow> otp_answer \<Rightarrow> string \<Rightarrow> jsdate \<Rightarrow> sales \<Rightarrow> otp_decision" where
  "checkProposalOtp compare a token now s =
     (case getProposalResponseTarget token now s of
        None \<Rightarrow> Refuse ''proposals.public.errors.unavailable''
      | Some target \<Rightarrow>
     (case canTransitionProposalStatus (rt_status target) (toNextStatus (oa_action a)) of
        Refused r \<Rightarrow> Refuse ''proposals.public.errors.alreadyResponded''
      | Allowed to_status \<Rightarrow>
     (case findLatestProposalOtp (rt_id target) (oa_action a) s of
        None \<Rightarrow> Refuse ''proposals.public.errors.codeInvalid''
      | Some otp \<Rightarrow>
          if \<not> matchesProposalRecipient (oa_email a) (otp_email otp) then Refuse ''proposals.public.errors.codeInvalid''
          else (case evaluateProposalOtp otp now of
             Unusable why \<Rightarrow> Refuse (toOtpRejectionMessage why)
           | Usable \<Rightarrow> if \<not> compare (oa_code a) (otp_codeHash otp) then WrongCode otp else RightCode target otp to_status))))"

definition answerProposal ::
  "otp_decision \<Rightarrow> otp_answer \<Rightarrow> string option \<Rightarrow> jsdate \<Rightarrow> sales \<Rightarrow> proposal_status result \<times> sales" where
  "answerProposal decision a ip now s =
     (case decision of
        Refuse m \<Rightarrow> (Inl m, s)
      | WrongCode otp \<Rightarrow> (case countFailedProposalOtpAttempt otp now s of (m, s1) \<Rightarrow> (Inl m, s1))
      | RightCode target otp to_status \<Rightarrow>
          (case recordProposalResponse (rt_id target) (otp_id otp) (oa_action a) to_status (oa_rejectionReason a) now
                  (case ip of Some x \<Rightarrow> x | None \<Rightarrow> ''unknown'') s of
             Inl m \<Rightarrow> (Inl m, s)
           | Inr s1 \<Rightarrow>
               let event = (if oa_action a = Accept then ''proposal.accepted'' else ''proposal.rejected'')
               in (Inr to_status, log_event event (rt_id target) None (log_audit event None (rt_id target) s1))))"

definition verifyProposalOtp ::
  "(string \<Rightarrow> string \<Rightarrow> bool) \<Rightarrow> otp_answer result \<Rightarrow> string \<Rightarrow> string option \<Rightarrow> jsdate \<Rightarrow> sales \<Rightarrow> proposal_status result \<times> sales" where
  "verifyProposalOtp compare parsed token ip now s =
     (case parsed of
        Inl m \<Rightarrow> (Inl m, s)
      | Inr a \<Rightarrow> answerProposal (checkProposalOtp compare a token now s) a ip now s)"

section \<open>What the actions do to the tables\<close>

definition form_lines :: "(jsnum \<Rightarrow> jsnum) \<Rightarrow> (nat \<Rightarrow> ident) \<Rightarrow> ident \<Rightarrow> proposal_form \<Rightarrow> (ident \<times> jsnum) list \<Rightarrow> line_item_row list" where
  "form_lines store lineIds k f percentages =
     map (\<lambda>(index, item). proposal_line_row store k (lineIds index) index item percentages
        (nth_totals (calculateProposalLineTotals (proposal_toLineItemInputs (prf_lineItems f) percentages)
           (proposal_toDiscount (prf_discountValues f))) index))
       (zip [0..<length (prf_lineItems f)] (prf_lineItems f))"

definition form_totals :: "proposal_form \<Rightarrow> (ident \<times> jsnum) list \<Rightarrow> invoice_totals" where
  "form_totals f percentages =
     calculateProposalTotal (proposal_toLineItemInputs (prf_lineItems f) percentages) (proposal_toDiscount (prf_discountValues f))"

lemma writeProposalLineItems_eq:
  "writeProposalLineItems store lineIds k f ps d = d\<lparr>lineItems := lineItems d @ form_lines store lineIds k f ps\<rparr>"
  by (simp add: writeProposalLineItems_def form_lines_def Let_def)

lemma claimProposal_lines: "claimProposalNumber d = Inr (n, d1) \<Longrightarrow> lineItems d1 = lineItems d"
  by (auto simp: claimProposalNumber_def Let_def split: option.splits)

lemma createProposal_result:
  assumes "createProposal store req parsed newId lineIds token s = (res, s1)"
  shows "(\<exists>e. res = Inl e) \<and> s1 = s
    \<or> (\<exists>f scope ps number. parsed = Inr f \<and> res = Inr newId \<and> proposal_getTaxPercentages (prf_lineItems f) (books s) = Inr ps
        \<and> proposals s1 = proposals s @ [put_proposal f scope (form_totals f ps) (blank_proposal newId number token)]
        \<and> proposalOtps s1 = proposalOtps s
        \<and> lineItems (books s1) = lineItems (books s) @ form_lines store lineIds newId f ps)"
  using assms unfolding createProposal_def
  by (auto simp: Let_def add_row_def writeProposalLineItems_eq form_totals_def claimProposal_lines
      split: sum.splits prod.splits) blast+

lemma updateProposal_result:
  assumes "updateProposal store req parsed lineIds s = (res, s1)"
  shows "(\<exists>e. res = Inl e) \<and> s1 = s
    \<or> (\<exists>f scope ps. parsed = Inr f \<and> res = Inr (prf_subject f) \<and> proposal_getTaxPercentages (prf_lineItems f) (books s) = Inr ps
        \<and> list_ex (proposal_draft_row (prf_subject f)) (proposals s)
        \<and> proposals s1 = update_where (proposal_draft_row (prf_subject f)) (put_proposal f scope (form_totals f ps)) (proposals s)
        \<and> proposalOtps s1 = proposalOtps s
        \<and> lineItems (books s1) = filter (\<lambda>l. li_proposalId l \<noteq> Some (prf_subject f)) (lineItems (books s))
            @ form_lines store lineIds (prf_subject f) f ps)"
proof -
  have id: "pp_id r = k" if "find_live_proposal k s = Some r" for k r
    using that by (auto simp: find_live_proposal_def live_proposal_row_def dest: find_hit)
  show ?thesis using assms unfolding updateProposal_def
    by (auto simp: Let_def writeProposalLineItems_eq form_totals_def id split: sum.splits option.splits if_splits) blast+
qed

lemma sendProposal_result:
  assumes "sendProposal emailed req parsed now s = (res, s1)"
  shows "(\<exists>e. res = Inl e) \<and> s1 = s
    \<or> (\<exists>k validUntil. parsed = Inr k \<and> res = Inr (k, emailed) \<and> list_ex (proposal_draft_row k) (proposals s)
        \<and> proposals s1 = update_where (proposal_draft_row k)
            (\<lambda>r. r\<lparr>pp_status := ProposalSent, pp_issuedAt := Some now, pp_validUntil := validUntil\<rparr>) (proposals s)
        \<and> proposalOtps s1 = proposalOtps s \<and> lineItems (books s1) = lineItems (books s))"
  using assms unfolding sendProposal_def
  by (auto simp: Let_def proposal_machine.can_iff split: sum.splits option.splits if_splits transition.splits)

lemma proposal_trash_results:
  "softDeleteProposal req p now s = (res, s1) \<Longrightarrow>
     (\<exists>e. res = Inl e) \<and> s1 = s
     \<or> (\<exists>k. p = Inr k \<and> proposals s1 = update_where (live_proposal_row k) (\<lambda>r. r\<lparr>pp_deletedAt := Some now\<rparr>) (proposals s)
          \<and> proposalOtps s1 = proposalOtps s \<and> lineItems (books s1) = lineItems (books s))"
  "restoreProposal req p s = (res, s1) \<Longrightarrow>
     (\<exists>e. res = Inl e) \<and> s1 = s
     \<or> (\<exists>k. p = Inr k \<and> proposals s1 = update_where (\<lambda>r. pp_id r = k \<and> pp_deletedAt r \<noteq> None) (\<lambda>r. r\<lparr>pp_deletedAt := None\<rparr>) (proposals s)
          \<and> proposalOtps s1 = proposalOtps s \<and> lineItems (books s1) = lineItems (books s))"
  unfolding softDeleteProposal_def restoreProposal_def
  by (auto simp: Let_def split: sum.splits option.splits if_splits)

lemma proposal_link_results:
  "rotateProposalPublicLink req p token s = (res, s1) \<Longrightarrow>
     (\<exists>e. res = Inl e) \<and> s1 = s
     \<or> (\<exists>k. p = Inr k \<and> proposals s1 = update_where (live_proposal_row k) (\<lambda>r. r\<lparr>pp_publicToken := Some token\<rparr>) (proposals s)
          \<and> proposalOtps s1 = proposalOtps s \<and> lineItems (books s1) = lineItems (books s))"
  "revokeProposalPublicLink req p s = (res, s1) \<Longrightarrow>
     (\<exists>e. res = Inl e) \<and> s1 = s
     \<or> (\<exists>k. p = Inr k \<and> proposals s1 = update_where (live_proposal_row k) (\<lambda>r. r\<lparr>pp_publicToken := None\<rparr>) (proposals s)
          \<and> proposalOtps s1 = proposalOtps s \<and> lineItems (books s1) = lineItems (books s))"
  unfolding rotateProposalPublicLink_def revokeProposalPublicLink_def loadIssuedProposalForPublicLink_def find_live_proposal_def
  by (auto simp: Let_def live_proposal_row_def dest!: find_hit split: sum.splits option.splits if_splits)

lemma target_Some:
  assumes "getProposalResponseTarget token now s = Some t"
  shows "\<exists>p\<in>set (proposals s). pp_id p = rt_id t \<and> pp_status p = rt_status t \<and> pp_publicToken p = Some token
    \<and> pp_deletedAt p = None \<and> pp_issuedAt p \<noteq> None
    \<and> (pp_status p = ProposalSent \<longrightarrow> \<not> isProposalExpired (pp_validUntil p) now)
    \<and> (\<exists>client. findLiveRecipient p s = Some client \<and> rt_respondents t = listClientRecipientIdentities client s)"
  using assms unfolding getProposalResponseTarget_def findProposalByPublicToken_def
  by (fastforce simp: Let_def dest: find_hit split: option.splits if_splits)

lemma requestProposalOtp_result:
  assumes "requestProposalOtp parsed token now newId code codeHash delivered s = (res, s1)"
  shows "proposals s1 = proposals s \<and> lineItems (books s1) = lineItems (books s)
    \<and> (proposalOtps s1 = proposalOtps s \<and> mailedCodes s1 = mailedCodes s
      \<or> (\<exists>action email t who. parsed = Inr (action, email) \<and> getProposalResponseTarget token now s = Some t
          \<and> rt_status t = ProposalSent \<and> matchProposalRespondent email (rt_respondents t) = Some who
          \<and> mailedCodes s1 = mailedCodes s @ [(rp_email who, code)]
          \<and> proposalOtps s1 = update_where (\<lambda>x. \<not> delivered \<and> otp_id x = newId) (\<lambda>x. x\<lparr>otp_invalidatedAt := Some now\<rparr>)
              (proposalOtps (issueProposalOtp t who action codeHash now newId s))))"
proof -
  have sent: "st = ProposalSent" if "canTransitionProposalStatus st (toNextStatus a) = Allowed u" for st a u
    using that by (cases st; cases a) (auto simp: proposal_machine.can_iff)
  have none: "update_where (\<lambda>x. False) g xs = xs" for g and xs :: "otp_row list" by (simp add: update_where_def)
  show ?thesis using assms unfolding requestProposalOtp_def
    by (auto simp: Let_def issueProposalOtp_def invalidateProposalOtp_def none dest: sent
        split: sum.splits option.splits if_splits transition.splits)
qed

lemma latest_otp:
  "findLatestProposalOtp k action s = Some x \<Longrightarrow> x \<in> set (proposalOtps s) \<and> otp_proposalId x = k \<and> otp_action x = action"
  by (auto simp: findLatestProposalOtp_def Let_def split: if_splits dest!: last_in_set)

lemma answer_transition: "canTransitionProposalStatus st (toNextStatus a) = Allowed u \<longleftrightarrow> st = ProposalSent \<and> u = toNextStatus a"
  by (cases st; cases a) (auto simp: proposal_machine.can_iff)

text \<open>A code that is compared is the latest of a proposal that waits for an answer, and usable.\<close>

definition admitted_code :: "otp_answer \<Rightarrow> string \<Rightarrow> jsdate \<Rightarrow> sales \<Rightarrow> response_target \<Rightarrow> otp_row \<Rightarrow> bool" where
  "admitted_code a token now s t x \<longleftrightarrow>
     getProposalResponseTarget token now s = Some t \<and> rt_status t = ProposalSent
     \<and> findLatestProposalOtp (rt_id t) (oa_action a) s = Some x
     \<and> matchesProposalRecipient (oa_email a) (otp_email x) \<and> evaluateProposalOtp x now = Usable"

lemma checkProposalOtp_cases:
  "checkProposalOtp compare a token now s = WrongCode x \<Longrightarrow>
     (\<exists>t. admitted_code a token now s t x) \<and> \<not> compare (oa_code a) (otp_codeHash x)"
  "checkProposalOtp compare a token now s = RightCode t x st \<Longrightarrow>
     admitted_code a token now s t x \<and> compare (oa_code a) (otp_codeHash x) \<and> st = toNextStatus (oa_action a)"
  unfolding checkProposalOtp_def admitted_code_def
  by (auto simp: answer_transition split: option.splits transition.splits otp_usability.splits if_splits)

lemma verifyProposalOtp_result:
  assumes "verifyProposalOtp compare parsed token ip now s = (res, s1)"
  shows "(\<exists>m. res = Inl m) \<and> s1 = s
    \<or> (\<exists>a m x. parsed = Inr a \<and> res = Inl m \<and> checkProposalOtp compare a token now s = WrongCode x
        \<and> proposals s1 = proposals s \<and> lineItems (books s1) = lineItems (books s)
        \<and> proposalOtps s1 = update_where (\<lambda>y. otp_id y = otp_id x) (\<lambda>y. y\<lparr>otp_attempts := otp_attempts x + 1,
            otp_invalidatedAt := (if hasExhaustedProposalOtpAttempts (otp_attempts x + 1) then Some now else None)\<rparr>) (proposalOtps s))
    \<or> (\<exists>a t x st responded_ip. parsed = Inr a \<and> res = Inr st \<and> checkProposalOtp compare a token now s = RightCode t x st
        \<and> list_ex (sent_proposal_row (rt_id t)) (proposals s) \<and> lineItems (books s1) = lineItems (books s)
        \<and> proposalOtps s1 = update_where (usable_otp_row (otp_id x)) (\<lambda>y. y\<lparr>otp_usedAt := Some now\<rparr>) (proposalOtps s)
        \<and> proposals s1 = update_where (sent_proposal_row (rt_id t))
            (\<lambda>r. r\<lparr>pp_status := st, pp_respondedAt := Some now, pp_respondedIp := Some responded_ip,
               pp_rejectionReason := (if oa_action a = Reject then Some (oa_rejectionReason a) else None),
               pp_lockedAt := (if oa_action a = Accept then Some now else None)\<rparr>) (proposals s))"
proof (cases parsed)
  case (Inl m)
  then show ?thesis using assms by (auto simp: verifyProposalOtp_def)
next
  case (Inr a)
  show ?thesis
  proof (cases "checkProposalOtp compare a token now s")
    case (Refuse m)
    then show ?thesis using assms Inr by (auto simp: verifyProposalOtp_def answerProposal_def)
  next
    case (WrongCode x)
    then show ?thesis using assms Inr
      by (auto simp: verifyProposalOtp_def answerProposal_def countFailedProposalOtpAttempt_def Let_def)
  next
    case (RightCode t x st)
    then show ?thesis using assms Inr
      by (auto simp: verifyProposalOtp_def answerProposal_def recordProposalResponse_def Let_def split: sum.splits if_splits)
  qed
qed

end
