(* ===== verification/ProposalState.thy ===== *)
theory ProposalState
  imports ProposalAnswers
begin

text \<open>
  The tables of the sales side over time: what the actions on proposals and the answers of clients keep of them, in
  every state the application reaches.
\<close>

section \<open>The state of the sales tables\<close>

definition answered :: "proposal_row \<Rightarrow> bool" where
  "answered p \<longleftrightarrow> pp_status p = Accepted \<or> pp_status p = Rejected"

text \<open>\<open>chk_proposals_response\<close>, and what the timestamps of a row say about its status.\<close>

definition proposal_row_ok :: "proposal_row \<Rightarrow> bool" where
  "proposal_row_ok p \<longleftrightarrow>
     (answered p \<longrightarrow> pp_respondedAt p \<noteq> None \<and> pp_respondedIp p \<noteq> None)
     \<and> (pp_lockedAt p \<noteq> None \<longleftrightarrow> pp_status p = Accepted)
     \<and> (pp_issuedAt p \<noteq> None \<longleftrightarrow> pp_status p \<noteq> ProposalDraft)"

definition proposals_ok :: "sales \<Rightarrow> bool" where
  "proposals_ok s \<longleftrightarrow> distinct (map pp_id (proposals s)) \<and> (\<forall>p\<in>set (proposals s). proposal_row_ok p)"

text \<open>
  \<open>chk_proposal_otps_attempts\<close> and \<open>chk_proposal_otps_used_invalidated\<close>; a code that ran out of attempts is
  invalid; codes belong to issued proposals; a used code is the answer its proposal carries.
\<close>

definition otp_row_ok :: "proposal_row list \<Rightarrow> otp_row \<Rightarrow> bool" where
  "otp_row_ok ps x \<longleftrightarrow>
     0 \<le> otp_attempts x \<and> otp_attempts x \<le> proposal_otp_max_attempts
     \<and> \<not> (otp_usedAt x \<noteq> None \<and> otp_invalidatedAt x \<noteq> None)
     \<and> (otp_attempts x = proposal_otp_max_attempts \<longrightarrow> otp_invalidatedAt x \<noteq> None)
     \<and> (\<exists>p\<in>set ps. pp_id p = otp_proposalId x \<and> pp_status p \<noteq> ProposalDraft
          \<and> (otp_usedAt x \<noteq> None \<longrightarrow> pp_status p = toNextStatus (otp_action x)))"

text \<open>Of two codes of one proposal at most one is used and at most one outstanding.\<close>

definition codes_apart :: "otp_row \<Rightarrow> otp_row \<Rightarrow> bool" where
  "codes_apart x y \<longleftrightarrow> (otp_proposalId x = otp_proposalId y \<and> x \<noteq> y \<longrightarrow>
     (otp_usedAt x = None \<or> otp_usedAt y = None)
     \<and> \<not> (outstanding_otp (otp_proposalId x) x \<and> outstanding_otp (otp_proposalId y) y))"

definition otps_ok :: "sales \<Rightarrow> bool" where
  "otps_ok s \<longleftrightarrow>
     distinct (map otp_id (proposalOtps s)) \<and> (\<forall>x\<in>set (proposalOtps s). otp_row_ok (proposals s) x)
     \<and> (\<forall>x\<in>set (proposalOtps s). \<forall>y\<in>set (proposalOtps s). codes_apart x y)
     \<and> (\<forall>p\<in>set (proposals s). answered p \<longrightarrow>
          (\<exists>x\<in>set (proposalOtps s). otp_proposalId x = pp_id p \<and> otp_usedAt x \<noteq> None))"

text \<open>A proposal's totals are those of its stored lines; every line of a proposal belongs to one that exists.\<close>

definition proposal_lines :: "ident \<Rightarrow> db \<Rightarrow> line_item_row list" where
  "proposal_lines k d = sort_key li_position (filter (live_proposal_line k) (lineItems d))"

definition proposal_totals :: "proposal_row \<Rightarrow> invoice_totals" where
  "proposal_totals p = \<lparr>subtotalCents = pp_subtotalCents p, discountAmountTotalCents = pp_discountAmountTotalCents p,
     taxAmountCents = pp_taxAmountCents p, totalCents = pp_totalCents p\<rparr>"

definition priced :: "db \<Rightarrow> proposal_row \<Rightarrow> bool" where
  "priced d p \<longleftrightarrow> proposal_totals p
     = calculateProposalTotal (map stored_input (proposal_lines (pp_id p) d)) (toInvoiceColumnDiscount (pp_discount p))"

definition priced_ok :: "sales \<Rightarrow> bool" where
  "priced_ok s \<longleftrightarrow> (\<forall>p\<in>set (proposals s). priced (books s) p)
     \<and> (\<forall>l\<in>set (lineItems (books s)). \<forall>k. li_proposalId l = Some k \<longrightarrow> k \<in> pp_id ` set (proposals s))"

definition sales_ok :: "sales \<Rightarrow> bool" where
  "sales_ok s \<longleftrightarrow> proposals_ok s \<and> otps_ok s \<and> priced_ok s"

text \<open>
  The steps: every action on proposals, with ids the database has not drawn before and, since the schema admits
  two decimals only, quantities the column can hold; the hash kept of a code is one the comparison accepts for this
  code (what \<open>bcryptjs\<close> documents of \<open>hash\<close> and \<open>compare\<close>); and any step of the rest of the application, which
  changes neither the proposals, their codes and the mails nor the lines of a proposal.
\<close>

definition storable_form :: "(jsnum \<Rightarrow> jsnum) \<Rightarrow> proposal_form result \<Rightarrow> bool" where
  "storable_form store parsed \<longleftrightarrow>
     (case parsed of Inl m \<Rightarrow> True | Inr f \<Rightarrow> \<forall>item\<in>set (prf_lineItems f). store (lf_quantity item) = lf_quantity item)"

definition lines_of_proposals :: "db \<Rightarrow> line_item_row list" where
  "lines_of_proposals d = filter (\<lambda>l. li_proposalId l \<noteq> None) (lineItems d)"

inductive sales_step :: "(jsnum \<Rightarrow> jsnum) \<Rightarrow> (string \<Rightarrow> string \<Rightarrow> bool) \<Rightarrow> sales \<Rightarrow> sales \<Rightarrow> bool"
  for store :: "jsnum \<Rightarrow> jsnum" and compare :: "string \<Rightarrow> string \<Rightarrow> bool" where
  create: "newId \<notin> pp_id ` set (proposals s) \<Longrightarrow> storable_form store parsed \<Longrightarrow>
    sales_step store compare s (snd (createProposal store req parsed newId lineIds token s))"
| update: "storable_form store parsed \<Longrightarrow> sales_step store compare s (snd (updateProposal store req parsed lineIds s))"
| send: "sales_step store compare s (snd (sendProposal emailed req k now s))"
| delete: "sales_step store compare s (snd (softDeleteProposal req k now s))"
| restore: "sales_step store compare s (snd (restoreProposal req k s))"
| rotate: "sales_step store compare s (snd (rotateProposalPublicLink req k token s))"
| revoke: "sales_step store compare s (snd (revokeProposalPublicLink req k s))"
| request: "newId \<notin> otp_id ` set (proposalOtps s) \<Longrightarrow> compare code codeHash \<Longrightarrow>
    sales_step store compare s (snd (requestProposalOtp wish token now newId code codeHash delivered s))"
| verify: "sales_step store compare s (snd (verifyProposalOtp compare answer token ip now s))"
| elsewhere: "proposals s' = proposals s \<Longrightarrow> proposalOtps s' = proposalOtps s \<Longrightarrow>
    mailedCodes s' = mailedCodes s \<Longrightarrow> lines_of_proposals (books s') = lines_of_proposals (books s) \<Longrightarrow>
    sales_step store compare s s'"

inductive sales_reach :: "(jsnum \<Rightarrow> jsnum) \<Rightarrow> (string \<Rightarrow> string \<Rightarrow> bool) \<Rightarrow> sales \<Rightarrow> sales \<Rightarrow> bool"
  for store :: "jsnum \<Rightarrow> jsnum" and compare :: "string \<Rightarrow> string \<Rightarrow> bool" where
  start: "sales_reach store compare s s"
| step: "sales_reach store compare s s' \<Longrightarrow> sales_step store compare s' s'' \<Longrightarrow> sales_reach store compare s s''"

inductive_cases sales_stepE: "sales_step store compare s s'"

section \<open>Every step keeps the tables well-formed\<close>

lemma update_where_ids: "(\<And>r. key (g r) = key r) \<Longrightarrow> map key (update_where p g t) = map key t"
  by (simp add: update_where_def)

lemma update_where_mem: "r' \<in> set (update_where p g t) \<longleftrightarrow> (\<exists>r\<in>set t. r' = (if p r then g r else r))"
  by (auto simp: update_where_def)

lemma update_where_none: "(\<And>r. r \<in> set t \<Longrightarrow> \<not> p r) \<Longrightarrow> update_where p g t = t"
  unfolding update_where_def by (rule map_idI) simp

lemma update_where_append: "update_where p g (t @ u) = update_where p g t @ update_where p g u"
  by (simp add: update_where_def)

lemma proposals_ok_update:
  assumes "proposals_ok s" and "proposals s' = update_where p g (proposals s)" and "\<And>r. pp_id (g r) = pp_id r"
    and "\<And>r. r \<in> set (proposals s) \<Longrightarrow> p r \<Longrightarrow> proposal_row_ok r \<Longrightarrow> proposal_row_ok (g r)"
  shows "proposals_ok s'"
  using assms(1,4) unfolding proposals_ok_def assms(2) update_where_ids [of pp_id, OF assms(3)]
  by (auto simp: update_where_mem)

lemma otps_ok_proposals:
  assumes "otps_ok s" and same: "proposalOtps s' = proposalOtps s"
    and fwd: "\<And>p. p \<in> set (proposals s) \<Longrightarrow> pp_status p \<noteq> ProposalDraft \<Longrightarrow>
      \<exists>p'\<in>set (proposals s'). pp_id p' = pp_id p \<and> pp_status p' = pp_status p"
    and bwd: "\<And>p'. p' \<in> set (proposals s') \<Longrightarrow> answered p' \<Longrightarrow> \<exists>p\<in>set (proposals s). pp_id p = pp_id p' \<and> answered p"
  shows "otps_ok s'"
proof -
  have "otp_row_ok (proposals s') x" if x: "otp_row_ok (proposals s) x" for x
  proof -
    from x obtain p where "p \<in> set (proposals s)" "pp_id p = otp_proposalId x" "pp_status p \<noteq> ProposalDraft"
      "otp_usedAt x \<noteq> None \<longrightarrow> pp_status p = toNextStatus (otp_action x)" unfolding otp_row_ok_def by blast
    moreover from fwd [OF this(1,3)] obtain p' where "p' \<in> set (proposals s')" "pp_id p' = pp_id p" "pp_status p' = pp_status p" by blast
    ultimately show ?thesis using x unfolding otp_row_ok_def by metis
  qed
  moreover have "\<exists>x\<in>set (proposalOtps s'). otp_proposalId x = pp_id p' \<and> otp_usedAt x \<noteq> None"
    if "p' \<in> set (proposals s')" "answered p'" for p'
    using bwd [OF that] assms(1) unfolding otps_ok_def same by metis
  ultimately show ?thesis using assms(1) unfolding otps_ok_def same by blast
qed

lemma otps_ok_same_status:
  assumes "otps_ok s" and "proposalOtps s' = proposalOtps s" and "proposals s' = update_where p g (proposals s)"
    and "\<And>r. p r \<Longrightarrow> pp_id (g r) = pp_id r \<and> (pp_status (g r) = pp_status r \<or> pp_status r = ProposalDraft \<and> \<not> answered (g r))"
  shows "otps_ok s'"
proof (rule otps_ok_proposals [OF assms(1,2)])
  fix r assume "r \<in> set (proposals s)" "pp_status r \<noteq> ProposalDraft"
  then show "\<exists>p'\<in>set (proposals s'). pp_id p' = pp_id r \<and> pp_status p' = pp_status r"
    unfolding assms(3) using assms(4) by (intro bexI [of _ "if p r then g r else r"]) (auto simp: update_where_mem)
next
  fix r' assume "r' \<in> set (proposals s')" "answered r'"
  then obtain r where "r \<in> set (proposals s)" "r' = (if p r then g r else r)" unfolding assms(3) update_where_mem by blast
  then show "\<exists>r\<in>set (proposals s). pp_id r = pp_id r' \<and> answered r"
    using assms(4) [of r] \<open>answered r'\<close> by (intro bexI [of _ r]) (auto simp: answered_def split: if_splits)
qed

subsection \<open>Prices\<close>

lemma column_discount: "toInvoiceColumnDiscount (proposal_toDiscountColumns v) = proposal_toDiscount v"
  by (auto simp: proposal_toDiscountColumns_def no_discount_columns_def split: option.splits discount.splits)

lemma form_lines_props:
  assumes "storable_form store (Inr f)"
  shows "map stored_input (form_lines store lineIds k f ps) = proposal_toLineItemInputs (prf_lineItems f) ps"
    and "filter (live_proposal_line k) (form_lines store lineIds k f ps) = form_lines store lineIds k f ps"
    and "sort_key li_position (form_lines store lineIds k f ps) = form_lines store lineIds k f ps"
    and "j \<noteq> k \<Longrightarrow> filter (live_proposal_line j) (form_lines store lineIds k f ps) = []"
proof -
  have snd_zip: "map snd (zip [0..<length xs] xs) = xs" for xs :: "line_form list" by simp
  have st: "store (lf_quantity i) = lf_quantity i" if "i \<in> set (prf_lineItems f)" for i
    using assms that by (simp add: storable_form_def)
  have "map stored_input (form_lines store lineIds k f ps)
      = map (\<lambda>i. \<lparr>quantity = lf_quantity i, unitPriceCents = lf_unitPrice i, line_discount = proposal_toDiscount (lf_discount i),
          taxPercentage = proposal_getTaxPercentage (lf_taxRateId i) ps\<rparr>) (map snd (zip [0..<length (prf_lineItems f)] (prf_lineItems f)))"
    unfolding form_lines_def map_map
    by (rule map_cong [OF refl]) (auto simp: stored_input_def proposal_line_row_def column_discount st
        simp del: toInvoiceColumnDiscount.simps dest: set_zip_rightD)
  then show "map stored_input (form_lines store lineIds k f ps) = proposal_toLineItemInputs (prf_lineItems f) ps"
    by (simp only: snd_zip proposal_toLineItemInputs_def)
  show "filter (live_proposal_line k) (form_lines store lineIds k f ps) = form_lines store lineIds k f ps"
    by (rule filter_True) (auto simp: form_lines_def live_proposal_line_def proposal_line_row_def)
  have "map li_position (form_lines store lineIds k f ps) = map int [0..<length (prf_lineItems f)]"
    by (rule nth_equalityI) (simp_all add: form_lines_def proposal_line_row_def)
  then have "sorted (map li_position (form_lines store lineIds k f ps))" by (simp add: sorted_iff_nth_mono)
  then show "sort_key li_position (form_lines store lineIds k f ps) = form_lines store lineIds k f ps"
    by (rule sort_key_id_if_sorted)
  show "filter (live_proposal_line j) (form_lines store lineIds k f ps) = []" if "j \<noteq> k"
    using that by (auto simp: filter_empty_conv form_lines_def live_proposal_line_def proposal_line_row_def)
qed

lemma priced_put_proposal:
  assumes "storable_form store (Inr f)" and "filter (live_proposal_line (pp_id r)) old = []"
    and "lineItems d = old @ form_lines store lineIds (pp_id r) f ps"
  shows "priced d (put_proposal f scope (form_totals f ps) r)"
proof -
  have "proposal_lines (pp_id r) d = form_lines store lineIds (pp_id r) f ps"
    using assms(2) form_lines_props(2,3) [OF assms(1)] by (simp add: proposal_lines_def assms(3))
  then show ?thesis
    using form_lines_props(1) [OF assms(1)]
    by (simp add: priced_def proposal_totals_def put_proposal_def form_totals_def column_discount
        del: toInvoiceColumnDiscount.simps)
qed

lemma priced_cong:
  assumes "filter (live_proposal_line (pp_id p)) (lineItems d') = filter (live_proposal_line (pp_id p)) (lineItems d)"
    and "pp_id q = pp_id p" "proposal_totals q = proposal_totals p" "pp_discount q = pp_discount p"
  shows "priced d' q = priced d p"
  using assms by (simp add: priced_def proposal_lines_def)

lemma proposal_totals_cong:
  "pp_subtotalCents q = pp_subtotalCents p \<Longrightarrow> pp_discountAmountTotalCents q = pp_discountAmountTotalCents p \<Longrightarrow>
    pp_taxAmountCents q = pp_taxAmountCents p \<Longrightarrow> pp_totalCents q = pp_totalCents p \<Longrightarrow> proposal_totals q = proposal_totals p"
  by (simp add: proposal_totals_def)

lemma priced_ok_update:
  assumes "priced_ok s" and "lineItems (books s') = lineItems (books s)" and "proposals s' = update_where p g (proposals s)"
    and "\<And>r. pp_id (g r) = pp_id r \<and> proposal_totals (g r) = proposal_totals r \<and> pp_discount (g r) = pp_discount r"
  shows "priced_ok s'"
proof -
  have "map pp_id (proposals s') = map pp_id (proposals s)" unfolding assms(3) by (rule update_where_ids) (simp add: assms(4))
  from arg_cong [OF this, of set] have "pp_id ` set (proposals s') = pp_id ` set (proposals s)" by simp
  moreover have "priced (books s') r'" if "r' \<in> set (proposals s')" for r'
  proof -
    from that obtain r where "r \<in> set (proposals s)" "r' = (if p r then g r else r)" unfolding assms(3) update_where_mem by blast
    then show ?thesis using assms(1,4) priced_cong [of r "books s'" "books s" r'] unfolding priced_ok_def assms(2) by (metis (no_types))
  qed
  ultimately show ?thesis using assms(1) unfolding priced_ok_def assms(2) by simp
qed


subsection \<open>The owner's actions\<close>

lemma put_proposal_row [simp]:
  "pp_id (put_proposal f scope t r) = pp_id r" "pp_status (put_proposal f scope t r) = pp_status r"
  "answered (put_proposal f scope t r) = answered r" "proposal_row_ok (put_proposal f scope t r) = proposal_row_ok r"
  by (simp_all add: put_proposal_def answered_def proposal_row_ok_def)

lemma blank_proposal_row [simp]:
  "pp_id (blank_proposal k n token) = k" "pp_status (blank_proposal k n token) = ProposalDraft"
  "\<not> answered (blank_proposal k n token)" "proposal_row_ok (blank_proposal k n token)"
  by (simp_all add: blank_proposal_def answered_def proposal_row_ok_def)

lemma create_keeps:
  assumes ok: "sales_ok s" and fresh: "newId \<notin> pp_id ` set (proposals s)" and st: "storable_form store parsed"
    and run: "createProposal store req parsed newId lineIds token s = (res, s1)"
  shows "sales_ok s1"
proof (cases "s1 = s")
  case True
  then show ?thesis using ok by simp
next
  case False
  from createProposal_result [OF run] this obtain f scope ps number where f: "parsed = Inr f"
    and pp: "proposals s1 = proposals s @ [put_proposal f scope (form_totals f ps) (blank_proposal newId number token)]"
    and otp: "proposalOtps s1 = proposalOtps s" and ln: "lineItems (books s1) = lineItems (books s) @ form_lines store lineIds newId f ps"
    by blast
  note stf = st [unfolded f]
  have none: "filter (live_proposal_line newId) (lineItems (books s)) = []"
    using ok fresh by (auto simp: sales_ok_def priced_ok_def live_proposal_line_def filter_empty_conv)
  have new: "priced (books s1) (put_proposal f scope (form_totals f ps) (blank_proposal newId number token))"
    using none by (intro priced_put_proposal [OF stf, where lineIds = lineIds and old = "lineItems (books s)"]) (simp_all add: ln)
  have old: "priced (books s1) p" if "p \<in> set (proposals s)" for p
  proof -
    have "pp_id p \<noteq> newId" using fresh that by auto
    then have "filter (live_proposal_line (pp_id p)) (lineItems (books s1)) = filter (live_proposal_line (pp_id p)) (lineItems (books s))"
      using form_lines_props(4) [OF stf] by (simp add: ln)
    from priced_cong [OF this refl refl refl] show ?thesis using ok that by (simp add: sales_ok_def priced_ok_def)
  qed
  have "priced_ok s1" using new old ok
    by (auto simp: priced_ok_def pp sales_ok_def ln form_lines_def proposal_line_row_def)
  moreover have "proposals_ok s1" using ok fresh by (auto simp: proposals_ok_def pp sales_ok_def)
  moreover have "otps_ok s1" by (rule otps_ok_proposals [of s]) (use ok in \<open>auto simp: sales_ok_def pp otp\<close>)
  ultimately show ?thesis by (simp add: sales_ok_def)
qed

lemma update_keeps:
  assumes ok: "sales_ok s" and st: "storable_form store parsed" and run: "updateProposal store req parsed lineIds s = (res, s1)"
  shows "sales_ok s1"
proof (cases "s1 = s")
  case True
  then show ?thesis using ok by simp
next
  case False
  from updateProposal_result [OF run] this obtain f scope ps where f: "parsed = Inr f"
    and draft: "list_ex (proposal_draft_row (prf_subject f)) (proposals s)"
    and pp: "proposals s1 = update_where (proposal_draft_row (prf_subject f)) (put_proposal f scope (form_totals f ps)) (proposals s)"
    and otp: "proposalOtps s1 = proposalOtps s"
    and ln: "lineItems (books s1) = filter (\<lambda>l. li_proposalId l \<noteq> Some (prf_subject f)) (lineItems (books s))
      @ form_lines store lineIds (prf_subject f) f ps" by blast
  note stf = st [unfolded f]
  let ?k = "prf_subject f"
  from draft obtain q where q: "q \<in> set (proposals s)" "proposal_draft_row ?k q" by (auto simp: list_ex_iff)
  have cut: "filter (\<lambda>l. li_proposalId l \<noteq> Some ?k \<and> live_proposal_line j l) xs = filter (live_proposal_line j) xs"
    if "j \<noteq> ?k" for j xs
    using that by (auto simp: live_proposal_line_def intro!: filter_cong)
  have row: "priced (books s1) (if proposal_draft_row ?k r then put_proposal f scope (form_totals f ps) r else r)"
    if r: "r \<in> set (proposals s)" for r
  proof (cases "pp_id r = ?k")
    case True
    then have "r = q" using r q ok by (auto simp: sales_ok_def proposals_ok_def proposal_draft_row_def distinct_map inj_on_def)
    then show ?thesis using q(2) True
      by (auto intro!: priced_put_proposal [OF stf, where lineIds = lineIds] simp: ln filter_empty_conv live_proposal_line_def)
  next
    case False
    then have "filter (live_proposal_line (pp_id r)) (lineItems (books s1)) = filter (live_proposal_line (pp_id r)) (lineItems (books s))"
      using form_lines_props(4) [OF stf] by (simp add: ln cut)
    from priced_cong [OF this refl refl refl] show ?thesis
      using ok r False by (simp add: sales_ok_def priced_ok_def proposal_draft_row_def)
  qed
  have "map pp_id (proposals s1) = map pp_id (proposals s)" unfolding pp by (rule update_where_ids) simp
  from arg_cong [OF this, of set] have ids: "pp_id ` set (proposals s1) = pp_id ` set (proposals s)" by simp
  have "?k \<in> pp_id ` set (proposals s)" using q by (force simp: proposal_draft_row_def)
  moreover have "\<forall>l\<in>set (lineItems (books s1)). li_proposalId l = Some ?k \<or> l \<in> set (lineItems (books s))"
    by (auto simp: ln form_lines_def proposal_line_row_def)
  ultimately have "\<forall>l\<in>set (lineItems (books s1)). \<forall>j. li_proposalId l = Some j \<longrightarrow> j \<in> pp_id ` set (proposals s1)"
    using ok unfolding ids sales_ok_def priced_ok_def by (metis option.inject)
  then have "priced_ok s1" using row by (auto simp: priced_ok_def pp update_where_mem)
  moreover have "proposals_ok s1" using ok by (intro proposals_ok_update [OF _ pp]) (simp_all add: sales_ok_def)
  moreover have "otps_ok s1" using ok by (intro otps_ok_same_status [OF _ otp pp]) (simp_all add: sales_ok_def)
  ultimately show ?thesis by (simp add: sales_ok_def)
qed

text \<open>The remaining actions of the owner touch neither lines nor totals.\<close>

lemma plain_update_keeps:
  assumes ok: "sales_ok s" and otp: "proposalOtps s1 = proposalOtps s" and ln: "lineItems (books s1) = lineItems (books s)"
    and pp: "proposals s1 = update_where p g (proposals s)"
    and g: "\<And>r. pp_id (g r) = pp_id r \<and> proposal_totals (g r) = proposal_totals r \<and> pp_discount (g r) = pp_discount r"
    and row: "\<And>r. p r \<Longrightarrow> proposal_row_ok r \<Longrightarrow> proposal_row_ok (g r)"
    and st: "\<And>r. p r \<Longrightarrow> pp_status (g r) = pp_status r \<or> pp_status r = ProposalDraft \<and> \<not> answered (g r)"
  shows "sales_ok s1"
proof -
  from ok have "proposals_ok s1" "priced_ok s1"
    unfolding sales_ok_def by (auto intro: proposals_ok_update [OF _ pp] priced_ok_update [OF _ ln pp] simp: g row)
  moreover have "otps_ok s1"
    using ok g st unfolding sales_ok_def by (intro otps_ok_same_status [OF _ otp pp]) blast+
  ultimately show ?thesis by (simp add: sales_ok_def)
qed

lemma send_keeps:
  assumes "sales_ok s" and "sendProposal emailed req parsed now s = (res, s1)"
  shows "sales_ok s1"
  using sendProposal_result [OF assms(2)]
proof (elim disjE exE conjE)
  fix k validUntil
  assume pp: "proposals s1 = update_where (proposal_draft_row k)
            (\<lambda>r. r\<lparr>pp_status := ProposalSent, pp_issuedAt := Some now, pp_validUntil := validUntil\<rparr>) (proposals s)"
    and same: "proposalOtps s1 = proposalOtps s" "lineItems (books s1) = lineItems (books s)"
  then show ?thesis
    by (intro plain_update_keeps [OF assms(1) same pp])
      (auto simp: proposal_totals_def proposal_draft_row_def proposal_row_ok_def answered_def)
qed (simp add: assms(1))

lemma trash_update_keeps:
  assumes "sales_ok s" and "proposalOtps s1 = proposalOtps s" "lineItems (books s1) = lineItems (books s)"
    and "proposals s1 = update_where p (\<lambda>r. r\<lparr>pp_deletedAt := v\<rparr>) (proposals s)"
  shows "sales_ok s1"
  by (rule plain_update_keeps [OF assms]) (auto simp: proposal_totals_def proposal_row_ok_def answered_def)

lemma trash_keeps:
  assumes "sales_ok s"
  shows "softDeleteProposal req p now s = (res, s1) \<Longrightarrow> sales_ok s1" and "restoreProposal req p s = (res, s1) \<Longrightarrow> sales_ok s1"
  by (drule proposal_trash_results, elim disjE exE conjE, use assms trash_update_keeps [OF assms] in simp_all)+

lemma link_update_keeps:
  assumes "sales_ok s" and "proposalOtps s1 = proposalOtps s" "lineItems (books s1) = lineItems (books s)"
    and "proposals s1 = update_where p (\<lambda>r. r\<lparr>pp_publicToken := v\<rparr>) (proposals s)"
  shows "sales_ok s1"
  by (rule plain_update_keeps [OF assms]) (auto simp: proposal_totals_def proposal_row_ok_def answered_def)

lemma link_keeps:
  assumes "sales_ok s"
  shows "rotateProposalPublicLink req p token s = (res, s1) \<Longrightarrow> sales_ok s1" and "revokeProposalPublicLink req p s = (res, s1) \<Longrightarrow> sales_ok s1"
  by (drule proposal_link_results, elim disjE exE conjE, use assms link_update_keeps [OF assms] in simp_all)+

subsection \<open>The client's codes\<close>

lemma proposals_same_keeps:
  assumes "sales_ok s" and "proposals s1 = proposals s" "lineItems (books s1) = lineItems (books s)"
  shows "proposals_ok s1" and "priced_ok s1"
  using assms by (simp_all add: sales_ok_def proposals_ok_def priced_ok_def priced_def proposal_lines_def)

lemma request_keeps:
  assumes ok: "sales_ok s" and fresh: "newId \<notin> otp_id ` set (proposalOtps s)"
    and run: "requestProposalOtp parsed token now newId code codeHash delivered s = (res, s1)"
  shows "sales_ok s1"
proof -
  note result = requestProposalOtp_result [OF run]
  then have pp: "proposals s1 = proposals s" and ln: "lineItems (books s1) = lineItems (books s)" by auto
  have "otps_ok s1"
  proof (cases "proposalOtps s1 = proposalOtps s")
    case True
    then show ?thesis using ok by (simp add: sales_ok_def otps_ok_def pp)
  next
    case False
    with result obtain action t who where t: "getProposalResponseTarget token now s = Some t" "rt_status t = ProposalSent"
      and otp: "proposalOtps s1 = update_where (\<lambda>x. \<not> delivered \<and> otp_id x = newId) (\<lambda>x. x\<lparr>otp_invalidatedAt := Some now\<rparr>)
              (proposalOtps (issueProposalOtp t who action codeHash now newId s))" by blast
    let ?k = "rt_id t" and ?old = "update_where (outstanding_otp (rt_id t)) (\<lambda>x. x\<lparr>otp_invalidatedAt := Some now\<rparr>) (proposalOtps s)"
    define new where "new = \<lparr>otp_id = newId, otp_proposalId = ?k, otp_action = action, otp_codeHash = codeHash, otp_email = rp_email who,
       otp_expiresAt = getProposalOtpExpiry now, otp_attempts = 0, otp_usedAt = None,
       otp_invalidatedAt = (if delivered then None else Some now), otp_createdAt = now\<rparr>"
    have ids: "map otp_id ?old = map otp_id (proposalOtps s)" by (rule update_where_ids) simp
    from arg_cong [OF ids, of set] have new_id: "newId \<notin> otp_id ` set ?old" using fresh by simp
    have dist: "distinct (map otp_id ?old)" using ok by (simp add: ids sales_ok_def otps_ok_def)
    from new_id have "otp_id x \<noteq> newId" if "x \<in> set ?old" for x using that by auto
    then have keep: "update_where (\<lambda>x. \<not> delivered \<and> otp_id x = newId) (\<lambda>x. x\<lparr>otp_invalidatedAt := Some now\<rparr>) ?old = ?old"
      by (intro update_where_none) auto
    have eq: "proposalOtps s1 = ?old @ [new]"
      by (simp add: otp issueProposalOtp_def Let_def add_row_def update_where_append keep) (simp add: update_where_def new_def)
    obtain p where p: "p \<in> set (proposals s)" "pp_id p = ?k" "pp_status p = ProposalSent" using target_Some [OF t(1)] t(2) by auto
    have rows: "otp_row_ok (proposals s) x" if "x \<in> set (proposalOtps s1)" for x
    proof -
      have "otp_row_ok (proposals s) new" using p by (auto simp: new_def otp_row_ok_def proposal_otp_max_attempts_def)
      moreover have "otp_row_ok (proposals s) (if outstanding_otp ?k r then r\<lparr>otp_invalidatedAt := Some now\<rparr> else r)"
        if "otp_row_ok (proposals s) r" for r
        using that by (auto simp: otp_row_ok_def outstanding_otp_def)
      ultimately show ?thesis using that ok by (auto simp: eq update_where_mem sales_ok_def otps_ok_def)
    qed
    have "distinct (map otp_id (proposalOtps s1))"
      using dist new_id by (simp add: eq new_def)
    moreover have "codes_apart y z" if yz: "y \<in> set (proposalOtps s1)" "z \<in> set (proposalOtps s1)" for y z
    proof -
      let ?c = "\<lambda>r. if outstanding_otp ?k r then r\<lparr>otp_invalidatedAt := Some now\<rparr> else r"
      have old: "codes_apart (?c r) (?c r')" if "codes_apart r r'" for r r'
        using that by (auto simp: codes_apart_def outstanding_otp_def)
      have new: "codes_apart (?c r) new \<and> codes_apart new (?c r) \<and> codes_apart new new" for r
        by (auto simp: codes_apart_def outstanding_otp_def new_def)
      from yz obtain r r' where "y = new \<or> r \<in> set (proposalOtps s) \<and> y = ?c r" "z = new \<or> r' \<in> set (proposalOtps s) \<and> z = ?c r'"
        unfolding eq by (auto simp: update_where_mem)
      then show ?thesis using ok old [of r r'] new [of r] new [of r'] by (auto simp: sales_ok_def otps_ok_def)
    qed
    moreover have "\<exists>y\<in>set (proposalOtps s1). otp_proposalId y = pp_id p' \<and> otp_usedAt y \<noteq> None"
      if "p' \<in> set (proposals s)" "answered p'" for p'
    proof -
      from ok that obtain x where "x \<in> set (proposalOtps s)" "otp_proposalId x = pp_id p'" "otp_usedAt x \<noteq> None"
        by (auto simp: sales_ok_def otps_ok_def)
      then show ?thesis unfolding eq by (intro bexI [of _ x]) (auto simp: update_where_mem outstanding_otp_def intro!: bexI [of _ x])
    qed
    ultimately show ?thesis using rows by (simp add: otps_ok_def pp)
  qed
  then show ?thesis using proposals_same_keeps [OF ok pp ln] by (simp add: sales_ok_def)
qed


lemma only_used_code:
  assumes ok: "sales_ok s" and p: "p \<in> set (proposals s)" "\<not> answered p" and x: "x \<in> set (proposalOtps s)" "otp_proposalId x = pp_id p"
  shows "otp_usedAt x = None"
proof (rule ccontr)
  assume used: "otp_usedAt x \<noteq> None"
  with ok x obtain q where q: "q \<in> set (proposals s)" "pp_id q = pp_id p" "pp_status q = toNextStatus (otp_action x)"
    by (auto simp: sales_ok_def otps_ok_def otp_row_ok_def)
  then have "q = p" using ok p(1) by (auto simp: sales_ok_def proposals_ok_def distinct_map inj_on_def)
  with q p(2) show False by (cases "otp_action x") (auto simp: answered_def)
qed

text \<open>A guarded update that hits one row by its id replaces this row.\<close>

lemma update_where_one:
  assumes "distinct (map key t)" "x \<in> set t" "p x" "\<And>y. p y \<Longrightarrow> key y = key x"
  shows "set (update_where p g t) = insert (g x) (set t - {x})"
proof -
  have "p y \<longleftrightarrow> y = x" if "y \<in> set t" for y
    using assms(1-3) assms(4) [of y] that inj_onD [of key "set t" y x] by (auto simp: distinct_map)
  then show ?thesis using assms(2) by (auto simp: update_where_def image_iff)
qed

lemma otps_ok_replace:
  assumes "otps_ok s" "x \<in> set (proposalOtps s)" "outstanding_otp (otp_proposalId x) x"
    and "set (proposalOtps s1) = insert x' (set (proposalOtps s) - {x})" "otp_proposalId x' = otp_proposalId x"
    and "distinct (map otp_id (proposalOtps s1))" "\<And>y. y \<in> set (proposalOtps s1) \<Longrightarrow> otp_row_ok (proposals s1) y"
    and "\<And>y. y \<in> set (proposalOtps s) \<Longrightarrow> otp_proposalId y = otp_proposalId x \<Longrightarrow> otp_usedAt y = None"
    and "\<And>p. p \<in> set (proposals s1) \<Longrightarrow> answered p \<Longrightarrow> \<exists>y\<in>set (proposalOtps s1). otp_proposalId y = pp_id p \<and> otp_usedAt y \<noteq> None"
  shows "otps_ok s1"
proof -
  have old: "codes_apart y z" if "y \<in> set (proposalOtps s)" "z \<in> set (proposalOtps s)" for y z
    using assms(1) that by (simp add: otps_ok_def)
  have rest: "codes_apart x' z \<and> codes_apart z x'" if "z \<in> set (proposalOtps s) - {x}" for z
    using old [of x z] assms(2,3,5,8) that by (auto simp: codes_apart_def)
  have "codes_apart x' x'" by (simp add: codes_apart_def)
  then have "codes_apart y z" if "y \<in> set (proposalOtps s1)" "z \<in> set (proposalOtps s1)" for y z
    using that rest [of y] rest [of z] old [of y z] unfolding assms(4) by fastforce
  then show ?thesis using assms(6,7,9) unfolding otps_ok_def by simp
qed

lemma admitted_code_here:
  assumes "sales_ok s" "admitted_code a token now s t x"
  shows "\<exists>p\<in>set (proposals s). pp_id p = rt_id t \<and> sent_proposal_row (rt_id t) p \<and> \<not> answered p"
    and "x \<in> set (proposalOtps s)" "otp_proposalId x = rt_id t" "otp_action x = oa_action a"
    and "outstanding_otp (otp_proposalId x) x" "otp_attempts x < proposal_otp_max_attempts"
    and "\<And>y. y \<in> set (proposalOtps s) \<Longrightarrow> otp_proposalId y = otp_proposalId x \<Longrightarrow> otp_usedAt y = None"
proof -
  from assms(2) have t: "getProposalResponseTarget token now s = Some t" "rt_status t = ProposalSent"
    and x: "findLatestProposalOtp (rt_id t) (oa_action a) s = Some x" "evaluateProposalOtp x now = Usable"
    by (simp_all add: admitted_code_def)
  from target_Some [OF t(1)] t(2) obtain p where p: "p \<in> set (proposals s)" "pp_id p = rt_id t" "sent_proposal_row (rt_id t) p" "\<not> answered p"
    by (auto simp: sent_proposal_row_def answered_def)
  then show "\<exists>p\<in>set (proposals s). pp_id p = rt_id t \<and> sent_proposal_row (rt_id t) p \<and> \<not> answered p" by blast
  from latest_otp [OF x(1)] show x1: "x \<in> set (proposalOtps s)" and x2: "otp_proposalId x = rt_id t" and "otp_action x = oa_action a" by auto
  show "outstanding_otp (otp_proposalId x) x" "otp_attempts x < proposal_otp_max_attempts"
    using x(2) by (auto simp: outstanding_otp_def evaluateProposalOtp_def split: if_splits)
  show "otp_usedAt y = None" if "y \<in> set (proposalOtps s)" "otp_proposalId y = otp_proposalId x" for y
    using only_used_code [OF assms(1) p(1,4) that(1)] that(2) x2 p(2) by simp
qed

lemma wrong_code_keeps:
  assumes ok: "sales_ok s" and adm: "admitted_code a token now s t x" and pp: "proposals s1 = proposals s"
    and otp: "proposalOtps s1 = update_where (\<lambda>y. otp_id y = otp_id x) (\<lambda>y. y\<lparr>otp_attempts := otp_attempts x + 1,
       otp_invalidatedAt := (if hasExhaustedProposalOtpAttempts (otp_attempts x + 1) then Some now else None)\<rparr>) (proposalOtps s)"
  shows "otps_ok s1"
proof -
  note here = admitted_code_here [OF ok adm]
  from ok have ids: "distinct (map otp_id (proposalOtps s))" and o: "otps_ok s" by (simp_all add: sales_ok_def otps_ok_def)
  let ?x = "x\<lparr>otp_attempts := otp_attempts x + 1,
     otp_invalidatedAt := (if hasExhaustedProposalOtpAttempts (otp_attempts x + 1) then Some now else None)\<rparr>"
  have new: "set (proposalOtps s1) = insert ?x (set (proposalOtps s) - {x})"
    unfolding otp by (rule update_where_one [OF ids here(2)]) simp_all
  have "map otp_id (proposalOtps s1) = map otp_id (proposalOtps s)" unfolding otp by (rule update_where_ids) simp
  moreover have "otp_row_ok (proposals s) ?x"
    using o here(2,5,6) by (auto simp: otps_ok_def otp_row_ok_def outstanding_otp_def hasExhaustedProposalOtpAttempts_def)
  moreover have "\<exists>y\<in>set (proposalOtps s1). otp_proposalId y = pp_id p \<and> otp_usedAt y \<noteq> None" if "p \<in> set (proposals s)" "answered p" for p
  proof -
    from o that obtain y where "y \<in> set (proposalOtps s)" "otp_proposalId y = pp_id p" "otp_usedAt y \<noteq> None" by (auto simp: otps_ok_def)
    moreover from this here(5) have "y \<noteq> x" by (auto simp: outstanding_otp_def)
    ultimately show ?thesis unfolding new by blast
  qed
  ultimately show ?thesis
    using ids o unfolding otps_ok_def [of s]
    by (intro otps_ok_replace [OF o here(2,5) new _ _ _ here(7)]) (auto simp: pp new)
qed


definition respond :: "otp_answer \<Rightarrow> jsdate \<Rightarrow> string \<Rightarrow> proposal_row \<Rightarrow> proposal_row" where
  "respond a now ip r = r\<lparr>pp_status := toNextStatus (oa_action a), pp_respondedAt := Some now, pp_respondedIp := Some ip,
     pp_rejectionReason := (if oa_action a = Reject then Some (oa_rejectionReason a) else None),
     pp_lockedAt := (if oa_action a = Accept then Some now else None)\<rparr>"

lemma respond_row [simp]:
  "pp_id (respond a now ip r) = pp_id r" "pp_status (respond a now ip r) = toNextStatus (oa_action a)"
  "proposal_totals (respond a now ip r) = proposal_totals r" "pp_discount (respond a now ip r) = pp_discount r"
  "answered (respond a now ip r)"
  by (cases "oa_action a"; simp add: respond_def proposal_totals_def answered_def)+

lemma respond_row_ok: "sent_proposal_row k r \<Longrightarrow> proposal_row_ok r \<Longrightarrow> proposal_row_ok (respond a now ip r)"
  by (cases "oa_action a") (auto simp: proposal_row_ok_def respond_def sent_proposal_row_def answered_def)

lemma right_code_otps:
  assumes ok: "sales_ok s" and adm: "admitted_code a token now s t x"
    and pp: "proposals s1 = update_where (sent_proposal_row (rt_id t)) (respond a now ip) (proposals s)"
    and otp: "proposalOtps s1 = update_where (usable_otp_row (otp_id x)) (\<lambda>y. y\<lparr>otp_usedAt := Some now\<rparr>) (proposalOtps s)"
  shows "otps_ok s1"
proof -
  note here = admitted_code_here [OF ok adm]
  from ok have ids: "distinct (map otp_id (proposalOtps s))" and o: "otps_ok s" by (simp_all add: sales_ok_def otps_ok_def)
  let ?x = "x\<lparr>otp_usedAt := Some now\<rparr>"
  have new: "set (proposalOtps s1) = insert ?x (set (proposalOtps s) - {x})"
    unfolding otp using here(5) by (intro update_where_one [OF ids here(2)]) (auto simp: usable_otp_row_def outstanding_otp_def)
  have "map otp_id (proposalOtps s1) = map otp_id (proposalOtps s)" unfolding otp by (rule update_where_ids) simp
  from here(1) obtain p where p: "p \<in> set (proposals s)" "pp_id p = rt_id t" "sent_proposal_row (rt_id t) p" by blast
  have moved: "respond a now ip p \<in> set (proposals s1)" using p by (auto simp: pp update_where_mem)
  have "otp_row_ok (proposals s1) ?x"
    using o here(2-6) moved p(2)
    by (cases "oa_action a") (auto simp: otps_ok_def otp_row_ok_def outstanding_otp_def intro!: bexI [of _ "respond a now ip p"])
  moreover have "otp_row_ok (proposals s1) y" if y: "y \<in> set (proposalOtps s)" "y \<noteq> x" for y
  proof (cases "otp_proposalId y = rt_id t")
    case True
    have "otp_row_ok (proposals s) y" "otp_usedAt y = None" using o y here(3) here(7) [of y] True by (auto simp: otps_ok_def)
    then show ?thesis using moved p(2) True
      by (cases "oa_action a") (auto simp: otp_row_ok_def intro!: bexI [of _ "respond a now ip p"])
  next
    case False
    have row: "otp_row_ok (proposals s) y" using o y by (simp add: otps_ok_def)
    then obtain q where q: "q \<in> set (proposals s)" "pp_id q = otp_proposalId y" "pp_status q \<noteq> ProposalDraft"
      "otp_usedAt y \<noteq> None \<longrightarrow> pp_status q = toNextStatus (otp_action y)" by (auto simp: otp_row_ok_def)
    then have "q \<in> set (proposals s1)" using False by (auto simp: pp update_where_mem sent_proposal_row_def intro!: bexI [of _ q])
    then show ?thesis using row q by (auto simp: otp_row_ok_def)
  qed
  moreover have "\<exists>y\<in>set (proposalOtps s1). otp_proposalId y = pp_id r \<and> otp_usedAt y \<noteq> None"
    if r: "r \<in> set (proposals s1)" "answered r" for r
  proof (cases "pp_id r = rt_id t")
    case True
    then show ?thesis using here(3) by (intro bexI [of _ ?x]) (auto simp: new)
  next
    case False
    then have "r \<in> set (proposals s)" using r(1) by (auto simp: pp update_where_mem sent_proposal_row_def split: if_splits)
    with o r(2) obtain y where "y \<in> set (proposalOtps s)" "otp_proposalId y = pp_id r" "otp_usedAt y \<noteq> None" by (auto simp: otps_ok_def)
    moreover from this here(5) have "y \<noteq> x" by (auto simp: outstanding_otp_def)
    ultimately show ?thesis unfolding new by blast
  qed
  ultimately show ?thesis
    using ids \<open>map otp_id (proposalOtps s1) = _\<close>
    by (intro otps_ok_replace [OF o here(2,5) new _ _ _ here(7)]) (auto simp: new)
qed

lemma verify_keeps:
  assumes ok: "sales_ok s" and run: "verifyProposalOtp compare parsed token ip now s = (res, s1)"
  shows "sales_ok s1"
  using verifyProposalOtp_result [OF run]
proof (elim disjE exE conjE)
  fix a m x
  assume chk: "checkProposalOtp compare a token now s = WrongCode x" and same: "proposals s1 = proposals s"
    "lineItems (books s1) = lineItems (books s)"
    and otp: "proposalOtps s1 = update_where (\<lambda>y. otp_id y = otp_id x) (\<lambda>y. y\<lparr>otp_attempts := otp_attempts x + 1,
       otp_invalidatedAt := (if hasExhaustedProposalOtpAttempts (otp_attempts x + 1) then Some now else None)\<rparr>) (proposalOtps s)"
  from checkProposalOtp_cases(1) [OF chk] obtain t where "admitted_code a token now s t x" by blast
  from wrong_code_keeps [OF ok this same(1) otp] show ?thesis
    using proposals_same_keeps [OF ok same] by (simp add: sales_ok_def)
next
  fix a t x st responded_ip
  assume chk: "checkProposalOtp compare a token now s = RightCode t x st"
    and ln: "lineItems (books s1) = lineItems (books s)"
    and otp: "proposalOtps s1 = update_where (usable_otp_row (otp_id x)) (\<lambda>y. y\<lparr>otp_usedAt := Some now\<rparr>) (proposalOtps s)"
    and upd: "proposals s1 = update_where (sent_proposal_row (rt_id t))
            (\<lambda>r. r\<lparr>pp_status := st, pp_respondedAt := Some now, pp_respondedIp := Some responded_ip,
               pp_rejectionReason := (if oa_action a = Reject then Some (oa_rejectionReason a) else None),
               pp_lockedAt := (if oa_action a = Accept then Some now else None)\<rparr>) (proposals s)"
  from checkProposalOtp_cases(2) [OF chk] have adm: "admitted_code a token now s t x" and st: "st = toNextStatus (oa_action a)" by auto
  have pp: "proposals s1 = update_where (sent_proposal_row (rt_id t)) (respond a now responded_ip) (proposals s)"
    unfolding upd st by (simp only: update_where_def respond_def)
  show ?thesis using ok unfolding sales_ok_def
    by (intro conjI proposals_ok_update [OF _ pp] right_code_otps [OF ok adm pp otp] priced_ok_update [OF _ ln pp])
      (simp_all add: respond_row_ok)
qed (simp add: ok)

text \<open>Every reachable state of the sales tables is well-formed.\<close>

lemma elsewhere_keeps:
  assumes ok: "sales_ok s" and same: "proposals s' = proposals s" "proposalOtps s' = proposalOtps s"
    and ln: "lines_of_proposals (books s') = lines_of_proposals (books s)"
  shows "sales_ok s'"
proof -
  have cut: "filter (live_proposal_line k) (lineItems d) = filter (live_proposal_line k) (lines_of_proposals d)" for k d
    by (auto simp: lines_of_proposals_def live_proposal_line_def intro!: filter_cong)
  have "priced (books s') p = priced (books s) p" for p
    by (simp add: priced_def proposal_lines_def cut [of "pp_id p" "books s'"] cut [of "pp_id p" "books s"] ln)
  moreover have "l \<in> set (lineItems (books s')) \<Longrightarrow> li_proposalId l = Some k \<Longrightarrow> l \<in> set (lineItems (books s))" for l k
    using arg_cong [OF ln, of set] by (auto simp: lines_of_proposals_def)
  ultimately show ?thesis using ok
    by (auto simp: sales_ok_def proposals_ok_def otps_ok_def priced_ok_def same)
qed

lemma sales_step_keeps: "sales_step store compare s s' \<Longrightarrow> sales_ok s \<Longrightarrow> sales_ok s'"
  by (erule sales_step.cases)
    (auto intro: create_keeps update_keeps send_keeps trash_keeps link_keeps request_keeps verify_keeps elsewhere_keeps prod.collapse [symmetric])

lemma sales_reach_ok: "sales_reach store compare s s' \<Longrightarrow> sales_ok s \<Longrightarrow> sales_ok s'"
  by (induction rule: sales_reach.induct) (auto intro: sales_step_keeps)

end
