(* ===== verification/ProposalGuarantees.thy ===== *)
theory ProposalGuarantees
  imports ProposalState
begin

text \<open>
  What the actions on proposals and the public answers guarantee: an answered proposal is never touched again, an
  answer was given with the latest code mailed to the client, a stranger learns nothing and receives nothing, and a
  code stands five guesses.
\<close>

section \<open>An answered proposal is frozen\<close>

definition same_record :: "proposal_row \<Rightarrow> proposal_row \<Rightarrow> bool" where
  "same_record p q \<longleftrightarrow> p\<lparr>pp_deletedAt := None, pp_publicToken := None\<rparr> = q\<lparr>pp_deletedAt := None, pp_publicToken := None\<rparr>"

definition kept_in :: "sales \<Rightarrow> sales \<Rightarrow> proposal_row \<Rightarrow> bool" where
  "kept_in s s' p \<longleftrightarrow> (\<exists>q\<in>set (proposals s'). same_record q p)
     \<and> proposal_lines (pp_id p) (books s') = proposal_lines (pp_id p) (books s)"

lemma same_record_simps:
  "same_record q p \<Longrightarrow> pp_id q = pp_id p \<and> answered q = answered p"
  "same_record (q\<lparr>pp_deletedAt := v\<rparr>) p = same_record q p" "same_record (q\<lparr>pp_publicToken := token\<rparr>) p = same_record q p"
  "same_record p p"
  unfolding same_record_def by (auto simp: answered_def dest: arg_cong [of _ _ pp_id] arg_cong [of _ _ pp_status])

lemma kept_inI:
  assumes "q \<in> set (proposals s')" "same_record q p"
    and "filter (live_proposal_line (pp_id p)) (lineItems (books s')) = filter (live_proposal_line (pp_id p)) (lineItems (books s))"
  shows "kept_in s s' p"
  using assms by (auto simp: kept_in_def proposal_lines_def)

lemma kept_in_same: "p \<in> set (proposals s) \<Longrightarrow> proposals s' = proposals s \<Longrightarrow> lineItems (books s') = lineItems (books s) \<Longrightarrow> kept_in s s' p"
  by (rule kept_inI [of p]) (simp_all add: same_record_simps)

lemma kept_in_update:
  assumes "p \<in> set (proposals s)" and "proposals s' = update_where sel g (proposals s)"
    and "sel p \<Longrightarrow> same_record (g p) p"
    and "filter (live_proposal_line (pp_id p)) (lineItems (books s')) = filter (live_proposal_line (pp_id p)) (lineItems (books s))"
  shows "kept_in s s' p"
  using assms by (intro kept_inI [of "if sel p then g p else p"]) (auto simp: update_where_mem same_record_simps)

lemma answered_not_open: "answered p \<Longrightarrow> \<not> proposal_draft_row k p \<and> \<not> sent_proposal_row k p"
  by (auto simp: answered_def proposal_draft_row_def sent_proposal_row_def)

lemma kept_in_refl: "p \<in> set (proposals s) \<Longrightarrow> kept_in s s p"
  by (rule kept_in_same) simp_all

lemma create_freezes:
  assumes p: "p \<in> set (proposals s)" and fresh: "newId \<notin> pp_id ` set (proposals s)" and st: "storable_form store parsed"
    and run: "createProposal store req parsed newId lineIds token s = (res, s')"
  shows "kept_in s s' p"
  using createProposal_result [OF run]
proof (elim disjE exE conjE)
  fix f scope ps number
  assume f: "parsed = Inr f"
    and "proposals s' = proposals s @ [put_proposal f scope (form_totals f ps) (blank_proposal newId number token)]"
    and "lineItems (books s') = lineItems (books s) @ form_lines store lineIds newId f ps"
  moreover have "pp_id p \<noteq> newId" using fresh p by auto
  ultimately show ?thesis using p form_lines_props(4) [OF st [unfolded f]]
    by (intro kept_inI [of p]) (simp_all add: same_record_simps)
qed (simp add: kept_in_refl p)

lemma update_freezes:
  assumes ok: "sales_ok s" and p: "p \<in> set (proposals s)" "answered p" and st: "storable_form store parsed"
    and run: "updateProposal store req parsed lineIds s = (res, s')"
  shows "kept_in s s' p"
  using updateProposal_result [OF run]
proof (elim disjE exE conjE)
  fix f scope ps
  assume f: "parsed = Inr f" and draft: "list_ex (proposal_draft_row (prf_subject f)) (proposals s)"
    and pp: "proposals s' = update_where (proposal_draft_row (prf_subject f)) (put_proposal f scope (form_totals f ps)) (proposals s)"
    and ln: "lineItems (books s') = filter (\<lambda>l. li_proposalId l \<noteq> Some (prf_subject f)) (lineItems (books s))
          @ form_lines store lineIds (prf_subject f) f ps"
  from draft obtain r where r: "r \<in> set (proposals s)" "proposal_draft_row (prf_subject f) r" by (auto simp: list_ex_iff)
  have other: "pp_id p \<noteq> prf_subject f"
  proof
    assume "pp_id p = prf_subject f"
    then have "p = r" using r p(1) ok by (auto simp: sales_ok_def proposals_ok_def distinct_map inj_on_def proposal_draft_row_def)
    with r(2) answered_not_open [OF p(2)] show False by blast
  qed
  have "filter (live_proposal_line (pp_id p)) (filter (\<lambda>l. li_proposalId l \<noteq> Some (prf_subject f)) ls)
      = filter (live_proposal_line (pp_id p)) ls" for ls
    using other by (auto simp: live_proposal_line_def intro!: filter_cong)
  then show ?thesis
    using answered_not_open [OF p(2)] form_lines_props(4) [OF st [unfolded f] other]
    by (intro kept_in_update [OF p(1) pp]) (simp_all add: ln)
qed (simp add: kept_in_refl p)

lemma send_freezes:
  assumes "p \<in> set (proposals s)" "answered p" "sendProposal emailed req parsed now s = (res, s')"
  shows "kept_in s s' p"
  using sendProposal_result [OF assms(3)] answered_not_open [OF assms(2)] kept_in_refl [OF assms(1)]
  by (auto elim!: kept_in_update [OF assms(1)])

lemma trash_freezes:
  assumes "p \<in> set (proposals s)"
  shows "softDeleteProposal req k now s = (res, s') \<Longrightarrow> kept_in s s' p" and "restoreProposal req k s = (res, s') \<Longrightarrow> kept_in s s' p"
  by (drule proposal_trash_results, use kept_in_refl [OF assms] in
      \<open>auto elim!: kept_in_update [OF assms] simp: same_record_simps\<close>)+

lemma link_freezes:
  assumes "p \<in> set (proposals s)"
  shows "rotateProposalPublicLink req k token s = (res, s') \<Longrightarrow> kept_in s s' p" and "revokeProposalPublicLink req k s = (res, s') \<Longrightarrow> kept_in s s' p"
  by (drule proposal_link_results, use kept_in_refl [OF assms] in
      \<open>auto elim!: kept_in_update [OF assms] simp: same_record_simps\<close>)+

lemma request_freezes:
  assumes "p \<in> set (proposals s)" "requestProposalOtp wish token now newId code codeHash delivered s = (res, s')"
  shows "kept_in s s' p"
  using requestProposalOtp_result [OF assms(2)] by (intro kept_in_same [OF assms(1)]) auto

lemma verify_freezes:
  assumes "p \<in> set (proposals s)" "answered p" "verifyProposalOtp compare parsed token ip now s = (res, s')"
  shows "kept_in s s' p"
  using verifyProposalOtp_result [OF assms(3)] answered_not_open [OF assms(2)] kept_in_refl [OF assms(1)]
  by (auto elim!: kept_in_update [OF assms(1)] intro: kept_in_same [OF assms(1)])

lemma elsewhere_freezes:
  assumes "p \<in> set (proposals s)" "proposals s' = proposals s" "lines_of_proposals (books s') = lines_of_proposals (books s)"
  shows "kept_in s s' p"
proof -
  have "filter (live_proposal_line k) (lineItems d) = filter (live_proposal_line k) (lines_of_proposals d)" for k d
    by (auto simp: lines_of_proposals_def live_proposal_line_def intro!: filter_cong)
  then show ?thesis using assms by (intro kept_inI [of p]) (simp_all add: same_record_simps)
qed

lemma step_freezes:
  assumes "sales_step store compare s s'" "sales_ok s" "p \<in> set (proposals s)" "answered p"
  shows "kept_in s s' p"
  using assms
  by cases (auto intro: create_freezes update_freezes send_freezes trash_freezes link_freezes request_freezes verify_freezes
      elsewhere_freezes prod.collapse [symmetric])

lemma reach_freezes:
  assumes "sales_reach store compare s s'" "sales_ok s" "p \<in> set (proposals s)" "answered p"
  shows "kept_in s s' p"
  using assms
proof (induction rule: sales_reach.induct)
  case (start s)
  then show ?case by (simp add: kept_in_refl)
next
  case (step s s' s'')
  then obtain q where q: "q \<in> set (proposals s')" "same_record q p"
    and lines: "proposal_lines (pp_id p) (books s') = proposal_lines (pp_id p) (books s)" by (auto simp: kept_in_def)
  from step_freezes [OF step.hyps(2) sales_reach_ok [OF step.hyps(1) step.prems(1)] q(1)] same_record_simps(1) [OF q(2)] step.prems(3)
  have "kept_in s' s'' q" by simp
  with q(2) lines same_record_simps(1) [OF q(2)] show ?case by (auto simp: kept_in_def same_record_def)
qed


section \<open>A code is mailed before it is used\<close>

definition addressed :: "sales \<Rightarrow> (string \<times> string) set" where
  "addressed s = (\<lambda>x. (otp_email x, otp_codeHash x)) ` set (proposalOtps s)"

definition mailed_ok :: "(string \<Rightarrow> string \<Rightarrow> bool) \<Rightarrow> sales \<Rightarrow> bool" where
  "mailed_ok compare s \<longleftrightarrow> (\<forall>x\<in>addressed s. \<exists>m\<in>set (mailedCodes s). fst m = fst x \<and> compare (snd m) (snd x))"

lemma update_where_image: "(\<And>r. f (g r) = f r) \<Longrightarrow> f ` set (update_where p g t) = f ` set t"
  by (induction t) (auto simp: update_where_def)

lemma mailed_ok_same: "mailed_ok compare s \<Longrightarrow> addressed s' = addressed s \<Longrightarrow> mailedCodes s' = mailedCodes s \<Longrightarrow> mailed_ok compare s'"
  by (simp add: mailed_ok_def)

lemma mails_unchanged:
  "mailedCodes (snd (createProposal store req form newId lineIds token s)) = mailedCodes s"
  "mailedCodes (snd (updateProposal store req form lineIds s)) = mailedCodes s"
  "mailedCodes (snd (sendProposal emailed req k now s)) = mailedCodes s"
  "mailedCodes (snd (softDeleteProposal req k now s)) = mailedCodes s"
  "mailedCodes (snd (restoreProposal req k s)) = mailedCodes s"
  "mailedCodes (snd (rotateProposalPublicLink req k token s)) = mailedCodes s"
  "mailedCodes (snd (revokeProposalPublicLink req k s)) = mailedCodes s"
  "mailedCodes (snd (verifyProposalOtp compare answer token ip now s)) = mailedCodes s"
  unfolding createProposal_def updateProposal_def sendProposal_def softDeleteProposal_def restoreProposal_def
    rotateProposalPublicLink_def revokeProposalPublicLink_def verifyProposalOtp_def answerProposal_def countFailedProposalOtpAttempt_def recordProposalResponse_def
  by (simp_all add: Let_def split: sum.split prod.split option.split transition.split otp_decision.split if_split)

lemma codes_unchanged:
  "proposalOtps (snd (createProposal store req form newId lineIds token s)) = proposalOtps s"
  "proposalOtps (snd (updateProposal store req form lineIds s)) = proposalOtps s"
  "proposalOtps (snd (sendProposal emailed req k now s)) = proposalOtps s"
  "proposalOtps (snd (softDeleteProposal req k now s)) = proposalOtps s"
  "proposalOtps (snd (restoreProposal req k s)) = proposalOtps s"
  "proposalOtps (snd (rotateProposalPublicLink req k token s)) = proposalOtps s"
  "proposalOtps (snd (revokeProposalPublicLink req k s)) = proposalOtps s"
  unfolding createProposal_def updateProposal_def sendProposal_def softDeleteProposal_def restoreProposal_def
    rotateProposalPublicLink_def revokeProposalPublicLink_def
  by (simp_all add: Let_def split: sum.split prod.split option.split transition.split if_split)

lemma verify_addressed: "addressed (snd (verifyProposalOtp compare answer token ip now s)) = addressed s"
proof -
  obtain res s1 where run: "verifyProposalOtp compare answer token ip now s = (res, s1)" by (rule prod.exhaust)
  show ?thesis using verifyProposalOtp_result [OF run] unfolding run
    by (elim disjE exE conjE) (simp_all add: addressed_def update_where_image)
qed

lemma request_mails:
  assumes "mailed_ok compare s" "compare code codeHash"
  shows "mailed_ok compare (snd (requestProposalOtp wish token now newId code codeHash delivered s))"
proof -
  obtain res s1 where run: "requestProposalOtp wish token now newId code codeHash delivered s = (res, s1)" by (rule prod.exhaust)
  have "addressed s1 = addressed s \<and> mailedCodes s1 = mailedCodes s
      \<or> (\<exists>e. addressed s1 = insert (e, codeHash) (addressed s) \<and> mailedCodes s1 = mailedCodes s @ [(e, code)])"
    using requestProposalOtp_result [OF run]
  proof (elim conjE disjE exE)
    fix action email t and who :: respondent
    assume "mailedCodes s1 = mailedCodes s @ [(rp_email who, code)]"
      and "proposalOtps s1 = update_where (\<lambda>x. \<not> delivered \<and> otp_id x = newId) (\<lambda>x. x\<lparr>otp_invalidatedAt := Some now\<rparr>)
              (proposalOtps (issueProposalOtp t who action codeHash now newId s))"
    then show ?thesis
      by (intro disjI2 exI [of _ "rp_email who"] conjI) (simp_all add: addressed_def issueProposalOtp_def Let_def add_row_def update_where_image)
  qed (simp add: addressed_def)
  then have "mailed_ok compare s1"
  proof (elim disjE exE conjE)
    fix e assume "addressed s1 = insert (e, codeHash) (addressed s)" "mailedCodes s1 = mailedCodes s @ [(e, code)]"
    then show ?thesis using assms by (simp add: mailed_ok_def)
  qed (use assms in \<open>simp add: mailed_ok_def\<close>)
  then show ?thesis by (simp add: run)
qed

lemma step_mails:
  assumes "sales_step store compare s s'" "mailed_ok compare s"
  shows "mailed_ok compare s'"
  using assms(1)
proof cases
  case request
  then show ?thesis using request_mails [OF assms(2)] by simp
next
  case verify
  then show ?thesis using mailed_ok_same [OF assms(2)] by (simp add: verify_addressed mails_unchanged)
qed (auto intro: mailed_ok_same [OF assms(2)] simp: addressed_def codes_unchanged mails_unchanged)

lemma reach_mails: "sales_reach store compare s s' \<Longrightarrow> mailed_ok compare s \<Longrightarrow> mailed_ok compare s'"
  by (induction rule: sales_reach.induct) (auto intro: step_mails)

section \<open>Guesses\<close>

text \<open>
  A history that counts the wrong answers compared with one code, among any other steps.
\<close>

inductive guessing :: "(jsnum \<Rightarrow> jsnum) \<Rightarrow> (string \<Rightarrow> string \<Rightarrow> bool) \<Rightarrow> ident \<Rightarrow> sales \<Rightarrow> nat \<Rightarrow> sales \<Rightarrow> bool"
  for store :: "jsnum \<Rightarrow> jsnum" and compare :: "string \<Rightarrow> string \<Rightarrow> bool" and k :: ident and s :: sales where
  begins: "guessing store compare k s 0 s"
| guess: "guessing store compare k s n s' \<Longrightarrow> checkProposalOtp compare a token now s' = WrongCode x \<Longrightarrow> otp_id x = k \<Longrightarrow>
    guessing store compare k s (Suc n) (snd (verifyProposalOtp compare (Inr a) token ip now s'))"
| other: "guessing store compare k s n s' \<Longrightarrow> sales_step store compare s' s'' \<Longrightarrow> guessing store compare k s n s''"

definition attempts_reach :: "sales \<Rightarrow> ident \<Rightarrow> int \<Rightarrow> bool" where
  "attempts_reach s k n \<longleftrightarrow> (\<exists>x\<in>set (proposalOtps s). otp_id x = k \<and> n \<le> otp_attempts x)"

lemma update_where_in: "r \<in> set t \<Longrightarrow> (if p r then g r else r) \<in> set (update_where p g t)"
  by (auto simp: update_where_def)

lemma verify_attempts:
  assumes ok: "sales_ok s" and run: "verifyProposalOtp compare parsed token ip now s = (res, s1)" and "attempts_reach s k n"
  shows "attempts_reach s1 k n"
proof -
  from assms(3) obtain y where y: "y \<in> set (proposalOtps s)" "otp_id y = k" "n \<le> otp_attempts y" by (auto simp: attempts_reach_def)
  show ?thesis using verifyProposalOtp_result [OF run]
  proof (elim disjE exE conjE)
    fix a m x
    assume chk: "checkProposalOtp compare a token now s = WrongCode x"
      and otp: "proposalOtps s1 = update_where (\<lambda>y. otp_id y = otp_id x) (\<lambda>y. y\<lparr>otp_attempts := otp_attempts x + 1,
         otp_invalidatedAt := (if hasExhaustedProposalOtpAttempts (otp_attempts x + 1) then Some now else None)\<rparr>) (proposalOtps s)"
    from checkProposalOtp_cases(1) [OF chk] have x: "x \<in> set (proposalOtps s)" by (auto simp: admitted_code_def dest: latest_otp)
    then have "otp_id y = otp_id x \<Longrightarrow> y = x" using ok y(1) by (auto simp: sales_ok_def otps_ok_def distinct_map inj_on_def)
    then show ?thesis using y unfolding attempts_reach_def otp by (intro bexI [OF _ update_where_in [OF y(1)]]) auto
  next
    fix a t x st responded_ip
    assume "proposalOtps s1 = update_where (usable_otp_row (otp_id x)) (\<lambda>y. y\<lparr>otp_usedAt := Some now\<rparr>) (proposalOtps s)"
    then show ?thesis using y unfolding attempts_reach_def by (auto intro!: bexI [OF _ update_where_in [OF y(1)]])
  qed (use y in \<open>auto simp: attempts_reach_def\<close>)
qed

lemma guess_attempts:
  assumes ok: "sales_ok s" and chk: "checkProposalOtp compare a token now s = WrongCode x" and n: "attempts_reach s (otp_id x) n"
  shows "attempts_reach (snd (verifyProposalOtp compare (Inr a) token ip now s)) (otp_id x) (n + 1)"
proof -
  from checkProposalOtp_cases(1) [OF chk] have x: "x \<in> set (proposalOtps s)" by (auto simp: admitted_code_def dest: latest_otp)
  from n obtain y where "y \<in> set (proposalOtps s)" "otp_id y = otp_id x" "n \<le> otp_attempts y" by (auto simp: attempts_reach_def)
  with x ok have "n \<le> otp_attempts x" by (auto simp: sales_ok_def otps_ok_def distinct_map inj_on_def)
  moreover have "x\<lparr>otp_attempts := otp_attempts x + 1, otp_invalidatedAt :=
      (if hasExhaustedProposalOtpAttempts (otp_attempts x + 1) then Some now else None)\<rparr>
      \<in> set (proposalOtps (snd (verifyProposalOtp compare (Inr a) token ip now s)))"
    using x by (auto simp: verifyProposalOtp_def answerProposal_def chk countFailedProposalOtpAttempt_def Let_def update_where_mem
        intro!: bexI [of _ x])
  ultimately show ?thesis unfolding attempts_reach_def by (intro bexI) auto
qed

lemma request_attempts:
  assumes "attempts_reach s k n"
  shows "attempts_reach (snd (requestProposalOtp wish token now newId code codeHash delivered s)) k n"
proof -
  let ?f = "\<lambda>x. (otp_id x, otp_attempts x)"
  obtain res s1 where run: "requestProposalOtp wish token now newId code codeHash delivered s = (res, s1)" by (rule prod.exhaust)
  have "?f ` set (proposalOtps s) \<subseteq> ?f ` set (proposalOtps s1)"
    using requestProposalOtp_result [OF run]
  proof (elim conjE disjE exE)
    fix action email t and who :: respondent
    assume "proposalOtps s1 = update_where (\<lambda>x. \<not> delivered \<and> otp_id x = newId) (\<lambda>x. x\<lparr>otp_invalidatedAt := Some now\<rparr>)
              (proposalOtps (issueProposalOtp t who action codeHash now newId s))"
    then have "?f ` set (proposalOtps s1) = insert (newId, 0) (?f ` set (proposalOtps s))"
      by (simp add: issueProposalOtp_def Let_def add_row_def update_where_image)
    then show ?thesis by blast
  qed simp
  then show ?thesis using assms unfolding run attempts_reach_def by fastforce
qed

lemma step_attempts:
  assumes "sales_step store compare s s'" "sales_ok s" "attempts_reach s k n"
  shows "attempts_reach s' k n"
  using assms(1)
proof cases
  case request
  then show ?thesis using request_attempts [OF assms(3)] by simp
next
  case verify
  then show ?thesis using verify_attempts [OF assms(2) prod.collapse [symmetric] assms(3)] by simp
qed (use assms(3) in \<open>auto simp: attempts_reach_def codes_unchanged\<close>)

lemma wrong_code_row:
  assumes "sales_ok s" "checkProposalOtp compare a token now s = WrongCode x"
  shows "attempts_reach s (otp_id x) 0"
  using assms checkProposalOtp_cases(1) [OF assms(2)]
  by (auto simp: attempts_reach_def admitted_code_def sales_ok_def otps_ok_def otp_row_ok_def dest!: latest_otp)

lemma guessing_attempts:
  assumes "guessing store compare k s n s'" "sales_ok s"
  shows "sales_ok s' \<and> (n > 0 \<longrightarrow> attempts_reach s' k (int n))"
  using assms
proof induction
  case (guess n s' a token now x ip)
  then have ok: "sales_ok s'" by simp
  have "attempts_reach s' (otp_id x) (int n)"
    using guess wrong_code_row [OF ok guess.hyps(2)] by (cases n) auto
  from guess_attempts [OF ok guess.hyps(2) this, of ip] guess.hyps(3) show ?case
    using verify_keeps [OF ok prod.collapse [symmetric]] by (simp add: add.commute)
next
  case (other n s' s'')
  then show ?case using sales_step_keeps step_attempts by blast
qed simp


section \<open>The guarantees\<close>

text \<open>C6. Once a client has accepted or rejected a proposal, nothing changes it: in every later state the same record is
  there with the same lines, whatever the owner, other visitors or the rest of the application do; only whether it
  lies in the trash and the link it is read under may differ.\<close>

theorem answered_proposals_are_final:
  assumes "sales_ok s" and "sales_reach store compare s s'" and "p \<in> set (proposals s)"
    and "pp_status p = Accepted \<or> pp_status p = Rejected"
  shows "\<exists>q\<in>set (proposals s'). q\<lparr>pp_deletedAt := None, pp_publicToken := None\<rparr> = p\<lparr>pp_deletedAt := None, pp_publicToken := None\<rparr>
    \<and> proposal_lines (pp_id q) (books s') = proposal_lines (pp_id p) (books s)"
proof -
  from reach_freezes [OF assms(2,1,3)] assms(4) obtain q where q: "q \<in> set (proposals s')" "same_record q p"
    "proposal_lines (pp_id p) (books s') = proposal_lines (pp_id p) (books s)" by (auto simp: kept_in_def answered_def)
  then show ?thesis using same_record_simps(1) [OF q(2)] by (auto simp: same_record_def)
qed

text \<open>C5. In every reachable state an answered proposal carries exactly one used code, for the action its status says,
  with the moment and the address of the answer, and is locked exactly when it was accepted; and the totals of every
  proposal are those the pricing computes from its stored lines.\<close>

theorem proposals_carry_their_answer_and_price:
  assumes "sales_ok s" and "sales_reach store compare s s'" and "p \<in> set (proposals s')"
  shows "(answered p \<longrightarrow> (\<exists>!x. x \<in> set (proposalOtps s') \<and> otp_proposalId x = pp_id p \<and> otp_usedAt x \<noteq> None)
      \<and> (\<forall>x\<in>set (proposalOtps s'). otp_proposalId x = pp_id p \<and> otp_usedAt x \<noteq> None \<longrightarrow> pp_status p = toNextStatus (otp_action x))
      \<and> pp_respondedAt p \<noteq> None \<and> pp_respondedIp p \<noteq> None)
    \<and> (pp_lockedAt p \<noteq> None \<longleftrightarrow> pp_status p = Accepted)
    \<and> proposal_totals p = calculateProposalTotal (map stored_input (proposal_lines (pp_id p) (books s'))) (toInvoiceColumnDiscount (pp_discount p))"
proof -
  note ok = sales_reach_ok [OF assms(2,1)]
  then have row: "proposal_row_ok p" and otps: "otps_ok s'" and price: "priced (books s') p"
    using assms(3) by (auto simp: sales_ok_def proposals_ok_def priced_ok_def)
  have "pp_status p = toNextStatus (otp_action x)"
    if x: "x \<in> set (proposalOtps s')" "otp_proposalId x = pp_id p" "otp_usedAt x \<noteq> None" for x
  proof -
    from otps x obtain q where "q \<in> set (proposals s')" "pp_id q = pp_id p" "pp_status q = toNextStatus (otp_action x)"
      by (auto simp: otps_ok_def otp_row_ok_def)
    with ok assms(3) show ?thesis by (auto simp: sales_ok_def proposals_ok_def distinct_map inj_on_def)
  qed
  moreover have "\<exists>!x. x \<in> set (proposalOtps s') \<and> otp_proposalId x = pp_id p \<and> otp_usedAt x \<noteq> None" if "answered p"
  proof -
    from otps that assms(3) obtain x where "x \<in> set (proposalOtps s')" "otp_proposalId x = pp_id p" "otp_usedAt x \<noteq> None"
      by (auto simp: otps_ok_def)
    moreover from otps have "codes_apart x y" if "y \<in> set (proposalOtps s')" for y using calculation(1) that by (simp add: otps_ok_def)
    ultimately show ?thesis unfolding codes_apart_def by metis
  qed
  ultimately show ?thesis using row price by (auto simp: proposal_row_ok_def priced_def)
qed

text \<open>C4. An answer is recorded only for a live, sent, unexpired proposal reached by its link, with the latest code of
  this action, unused, not superseded, not expired and with attempts left; the code was mailed to the address the
  visitor named, and the code submitted matches the hash of the mailed one. The proposal then carries the answer.\<close>

theorem answers_need_the_mailed_code:
  assumes "sales_ok s" and "mailed_ok compare s" and "sales_reach store compare s s'"
    and "verifyProposalOtp compare (Inr a) token ip now s' = (Inr st, s'')"
  shows "\<exists>p x code. p \<in> set (proposals s') \<and> pp_publicToken p = Some token \<and> pp_status p = ProposalSent \<and> pp_deletedAt p = None
    \<and> \<not> isProposalExpired (pp_validUntil p) now
    \<and> findLatestProposalOtp (pp_id p) (oa_action a) s' = Some x \<and> evaluateProposalOtp x now = Usable
    \<and> matchesProposalRecipient (oa_email a) (otp_email x)
    \<and> (otp_email x, code) \<in> set (mailedCodes s') \<and> compare code (otp_codeHash x) \<and> compare (oa_code a) (otp_codeHash x)
    \<and> st = toNextStatus (oa_action a)
    \<and> (\<exists>q\<in>set (proposals s''). pp_id q = pp_id p \<and> pp_status q = st \<and> pp_respondedAt q = Some now)"
proof -
  from verifyProposalOtp_result [OF assms(4)] obtain t x responded_ip where
    chk: "checkProposalOtp compare a token now s' = RightCode t x st"
    and pp: "proposals s'' = update_where (sent_proposal_row (rt_id t)) (\<lambda>r. r\<lparr>pp_status := st, pp_respondedAt := Some now,
       pp_respondedIp := Some responded_ip, pp_rejectionReason := (if oa_action a = Reject then Some (oa_rejectionReason a) else None),
       pp_lockedAt := (if oa_action a = Accept then Some now else None)\<rparr>) (proposals s')" by auto
  from checkProposalOtp_cases(2) [OF chk] have adm: "admitted_code a token now s' t x" and right: "compare (oa_code a) (otp_codeHash x)"
    and st: "st = toNextStatus (oa_action a)" by auto
  from adm have t: "getProposalResponseTarget token now s' = Some t" "rt_status t = ProposalSent"
    and latest: "findLatestProposalOtp (rt_id t) (oa_action a) s' = Some x"
    and use: "matchesProposalRecipient (oa_email a) (otp_email x)" "evaluateProposalOtp x now = Usable" by (simp_all add: admitted_code_def)
  from target_Some [OF t(1)] t(2) obtain p where p: "p \<in> set (proposals s')" "pp_id p = rt_id t" "pp_status p = ProposalSent"
    "pp_publicToken p = Some token" "pp_deletedAt p = None" "\<not> isProposalExpired (pp_validUntil p) now" by auto
  have "(otp_email x, otp_codeHash x) \<in> addressed s'" using latest_otp [OF latest] by (auto simp: addressed_def)
  then obtain code where "(otp_email x, code) \<in> set (mailedCodes s')" "compare code (otp_codeHash x)"
    using reach_mails [OF assms(3,2)] unfolding mailed_ok_def by force
  moreover from update_where_in [OF p(1)] have "\<exists>q\<in>set (proposals s''). pp_id q = pp_id p \<and> pp_status q = st \<and> pp_respondedAt q = Some now"
    unfolding pp by (rule bexI [rotated]) (use p in \<open>auto simp: sent_proposal_row_def\<close>)
  ultimately show ?thesis using p latest use right st by metis
qed

text \<open>C7. However guesses, new requests and the owner's actions follow each other, a code is compared with a wrong
  answer at most five times.\<close>

theorem a_code_stands_five_guesses:
  assumes "sales_ok s" and "guessing store compare k s n s'"
  shows "n \<le> 5"
proof (cases n)
  case (Suc m)
  with guessing_attempts [OF assms(2,1)] show ?thesis
    by (auto simp: sales_ok_def otps_ok_def otp_row_ok_def attempts_reach_def proposal_otp_max_attempts_def)
qed simp

text \<open>C8. Asking for a code tells a visitor nothing about the client: for an open proposal a stranger's request gets the
  answer a client's delivered request gets, and leaves no trace but the audit record; and a mail ever leaves only for
  one of the client's own live addresses, the one that was submitted.\<close>

theorem code_requests_are_no_oracle:
  assumes "getProposalResponseTarget token now s = Some t" and "rt_status t = ProposalSent"
    and "matchProposalRespondent stranger (rt_respondents t) = None"
  shows "requestProposalOtp (Inr (action, stranger)) token now newId code codeHash delivered s
      = (fst (requestProposalOtp (Inr (action, member)) token now newId code codeHash True s),
         log_audit ''proposal.otp.requested'' None (rt_id t) s)
    \<and> (mailedCodes (snd (requestProposalOtp (Inr (action, email)) token now newId code codeHash delivered s)) = mailedCodes s
      \<or> (\<exists>p client who. p \<in> set (proposals s) \<and> findLiveRecipient p s = Some client
          \<and> who \<in> set (listClientRecipientIdentities client s) \<and> matchesProposalRecipient email (rp_email who)
          \<and> mailedCodes (snd (requestProposalOtp (Inr (action, email)) token now newId code codeHash delivered s))
              = mailedCodes s @ [(rp_email who, code)]))"
proof -
  have open_target: "canTransitionProposalStatus (rt_status t) (toNextStatus action) = Allowed (toNextStatus action)"
    using assms(2) answer_transition by simp
  have "requestProposalOtp (Inr (action, stranger)) token now newId code codeHash delivered s
      = (fst (requestProposalOtp (Inr (action, member)) token now newId code codeHash True s),
         log_audit ''proposal.otp.requested'' None (rt_id t) s)"
    by (simp add: requestProposalOtp_def assms(1,3) open_target Let_def split: option.split)
  moreover obtain res s1 where run: "requestProposalOtp (Inr (action, email)) token now newId code codeHash delivered s = (res, s1)"
    by (rule prod.exhaust)
  from target_Some [OF assms(1)] obtain p client where p: "p \<in> set (proposals s)" "findLiveRecipient p s = Some client"
    "rt_respondents t = listClientRecipientIdentities client s" by blast
  have hit: "who \<in> set (rt_respondents t) \<and> matchesProposalRecipient email (rp_email who)"
    if "matchProposalRespondent email (rt_respondents t) = Some who" for who
    using that unfolding matchProposalRespondent_def by (auto dest: find_hit)
  moreover have "mailedCodes (snd (requestProposalOtp (Inr (action, email)) token now newId code codeHash delivered s)) = mailedCodes s
      \<or> (\<exists>p client who. p \<in> set (proposals s) \<and> findLiveRecipient p s = Some client
          \<and> who \<in> set (listClientRecipientIdentities client s) \<and> matchesProposalRecipient email (rp_email who)
          \<and> mailedCodes (snd (requestProposalOtp (Inr (action, email)) token now newId code codeHash delivered s))
              = mailedCodes s @ [(rp_email who, code)])"
    using requestProposalOtp_result [OF run] assms(1) p hit unfolding run by auto
  ultimately show ?thesis by blast
qed


section \<open>A sample\<close>

definition sample_offer :: proposal_row where
  "sample_offer = (blank_proposal ''q1'' ''PROP-0001'' ''link'')\<lparr>pp_clientId := Some ''c1'', pp_status := ProposalSent,
     pp_issuedAt := Some 1700000000000, pp_subtotalCents := 1010, pp_totalCents := 1010\<rparr>"

definition sample_code :: otp_row where
  "sample_code = \<lparr>otp_id = ''o1'', otp_proposalId = ''q1'', otp_action = Accept, otp_codeHash = ''123456'',
     otp_email = ''billing@acme.test'', otp_expiresAt = 1700000600000, otp_attempts = 0, otp_usedAt = None,
     otp_invalidatedAt = None, otp_createdAt = 1700000000000\<rparr>"

definition sample_sales :: sales where
  "sample_sales = \<lparr>work = \<lparr>ledger = sample_db\<lparr>lineItems :=
       [sample_line\<lparr>li_invoiceId := None, li_proposalId := Some ''q1''\<rparr>]\<rparr>, tasks = [], timeEntries = [], expenses = [],
       schedules = []\<rparr>,
     proposals = [sample_offer], proposalOtps = [sample_code], clientContacts = [], contracts = [], signatures = [],
     templates = [], mailedCodes = [(''billing@acme.test'', ''123456'')]\<rparr>"

definition sample_answer :: otp_answer where
  "sample_answer = \<lparr>oa_action = Accept, oa_email = '' Billing@acme.test'', oa_code = ''123456'', oa_rejectionReason = []\<rparr>"

lemmas sample_sales_defs = sample_sales_def sample_offer_def sample_code_def blank_proposal_def sample_answer_def

lemma sample_offer_price: "priced (books sample_sales) sample_offer"
  by code_simp

lemma sample_sales_ok: "sales_ok sample_sales"
proof -
  have "priced_ok sample_sales" using sample_offer_price
    by (simp add: priced_ok_def books_def sample_sales_def sample_offer_def blank_proposal_def)
  then show ?thesis
    by (simp add: sales_ok_def proposals_ok_def otps_ok_def otp_row_ok_def proposal_row_ok_def answered_def codes_apart_def
        sample_sales_def sample_offer_def sample_code_def blank_proposal_def proposal_otp_max_attempts_def)
qed

lemma sample_mailed: "mailed_ok (=) sample_sales"
  by (simp add: mailed_ok_def addressed_def sample_sales_def sample_code_def)

lemma sample_verified:
  "fst (verifyProposalOtp (=) (Inr sample_answer) ''link'' None 1700000300000 sample_sales) = Inr Accepted"
  by code_simp


definition sample_accepted :: sales where
  "sample_accepted = snd (verifyProposalOtp (=) (Inr sample_answer) ''link'' None 1700000300000 sample_sales)"

lemma sample_accepted_run:
  "verifyProposalOtp (=) (Inr sample_answer) ''link'' None 1700000300000 sample_sales = (Inr Accepted, sample_accepted)"
  by (rule prod_eqI) (simp_all only: sample_verified sample_accepted_def fst_conv snd_conv)

lemma sample_accepted_reached: "sales_reach id (=) sample_sales sample_accepted"
  unfolding sample_accepted_def by (rule sales_reach.step [OF sales_reach.start sales_step.verify])

lemma sample_accepted_row: "map (\<lambda>p. (pp_id p, pp_status p)) (proposals sample_accepted) = [(''q1'', Accepted)]"
  by code_simp

lemma answered_proposals_are_final_witness:
  "\<exists>q\<in>set (proposals (snd (softDeleteProposal owner_request (Inr ''q1'') 1700000400000 sample_accepted))).
     q\<lparr>pp_deletedAt := None, pp_publicToken := None\<rparr>
       = (hd (proposals sample_accepted))\<lparr>pp_deletedAt := None, pp_publicToken := None\<rparr>"
proof -
  have row: "hd (proposals sample_accepted) \<in> set (proposals sample_accepted)" "pp_status (hd (proposals sample_accepted)) = Accepted"
    using sample_accepted_row by (auto simp: map_eq_Cons_conv)
  have "sales_reach id (=) sample_accepted (snd (softDeleteProposal owner_request (Inr ''q1'') 1700000400000 sample_accepted))"
    by (rule sales_reach.step [OF sales_reach.start sales_step.delete])
  from answered_proposals_are_final [OF sales_reach_ok [OF sample_accepted_reached sample_sales_ok] this row(1)] row(2)
  show ?thesis by blast
qed

lemma proposals_carry_their_answer_and_price_witness:
  "\<exists>!x. x \<in> set (proposalOtps sample_accepted) \<and> otp_proposalId x = ''q1'' \<and> otp_usedAt x \<noteq> None"
proof -
  from sample_accepted_row obtain p where p: "p \<in> set (proposals sample_accepted)" "pp_id p = ''q1''" "answered p"
    by (auto simp: map_eq_Cons_conv answered_def)
  from proposals_carry_their_answer_and_price [OF sample_sales_ok sample_accepted_reached p(1)] p(2,3) show ?thesis by simp
qed

lemma answers_need_the_mailed_code_witness:
  "\<exists>p\<in>set (proposals sample_sales). \<exists>code. pp_publicToken p = Some ''link'' \<and> (''billing@acme.test'', code) \<in> set (mailedCodes sample_sales)
     \<and> code = oa_code sample_answer"
proof -
  from answers_need_the_mailed_code [OF sample_sales_ok sample_mailed sales_reach.start sample_accepted_run]
  obtain p code and x :: otp_row where "p \<in> set (proposals sample_sales)" "pp_publicToken p = Some ''link''"
    "(otp_email x, code) \<in> set (mailedCodes sample_sales)" "code = otp_codeHash x" "oa_code sample_answer = otp_codeHash x" by blast
  then show ?thesis by (auto simp: sample_sales_def)
qed

definition sample_guess :: otp_answer where
  "sample_guess = sample_answer\<lparr>oa_code := ''000000''\<rparr>"

lemma sample_guess_wrong: "checkProposalOtp (=) sample_guess ''link'' 1700000300000 sample_sales = WrongCode sample_code"
  by code_simp

lemma a_code_stands_five_guesses_witness:
  "guessing id (=) ''o1'' sample_sales (Suc 0) (snd (verifyProposalOtp (=) (Inr sample_guess) ''link'' None 1700000300000 sample_sales))
   \<and> Suc 0 \<le> 5"
proof -
  have g: "guessing id (=) ''o1'' sample_sales (Suc 0)
      (snd (verifyProposalOtp (=) (Inr sample_guess) ''link'' None 1700000300000 sample_sales))"
    by (rule guessing.guess [OF guessing.begins sample_guess_wrong]) (simp add: sample_code_def)
  with a_code_stands_five_guesses [OF sample_sales_ok g] show ?thesis by blast
qed

lemma sample_target:
  "getProposalResponseTarget ''link'' 1700000300000 sample_sales =
     Some \<lparr>rt_id = ''q1'', rt_projectId = None, rt_status = ProposalSent,
       rt_respondents = [\<lparr>rp_email = ''billing@acme.test'', rp_name = ''Acme''\<rparr>]\<rparr>"
  by code_simp

lemma code_requests_are_no_oracle_witness:
  "fst (requestProposalOtp (Inr (Accept, ''eve@else.test'')) ''link'' 1700000300000 ''o2'' ''654321'' ''654321'' False sample_sales) =
   fst (requestProposalOtp (Inr (Accept, ''BILLING@acme.test'')) ''link'' 1700000300000 ''o2'' ''654321'' ''654321'' True sample_sales)"
proof -
  have "matchProposalRespondent ''eve@else.test'' [\<lparr>rp_email = ''billing@acme.test'', rp_name = ''Acme''\<rparr>] = None" by code_simp
  with code_requests_are_no_oracle [OF sample_target, of "''eve@else.test''" Accept "''o2''" "''654321''" "''654321''" False
      "''BILLING@acme.test''"] show ?thesis by (metis fst_conv response_target.select_convs(3,4))
qed

section \<open>Overlapping requests\<close>

text \<open>
  Two wrong answers that are both compared before the first is counted are counted as one: the second writes the
  count it read. And a wrong answer that is counted after a new code was issued writes \<open>invalidated_at\<close> back to
  null, so that the superseded code is outstanding again beside the new one.
\<close>

theorem overlapping_wrong_answers_count_once:
  assumes "checkProposalOtp compare a token now s = WrongCode x" and "checkProposalOtp compare b token now' s = WrongCode x"
  shows "\<exists>y\<in>set (proposalOtps (snd (answerProposal (WrongCode x) b ip' now' (snd (answerProposal (WrongCode x) a ip now s))))).
    otp_id y = otp_id x \<and> otp_attempts y = otp_attempts x + 1"
proof -
  from checkProposalOtp_cases(1) [OF assms(1)] have "x \<in> set (proposalOtps s)" by (auto simp: admitted_code_def dest: latest_otp)
  from update_where_in [OF update_where_in [OF this]] show ?thesis
    by (auto simp: answerProposal_def countFailedProposalOtpAttempt_def Let_def intro!: bexI [rotated])
qed

theorem late_wrong_answer_revives_a_code:
  "map (\<lambda>x. (otp_id x, outstanding_otp ''q1'' x)) (proposalOtps (snd (answerProposal
      (checkProposalOtp (=) sample_guess ''link'' 1700000300000 sample_sales) sample_guess None 1700000300000
      (snd (requestProposalOtp (Inr (Accept, ''billing@acme.test'')) ''link'' 1700000300000 ''o2'' ''654321'' ''654321'' True sample_sales)))))
   = [(''o1'', True), (''o2'', True)]"
  by code_simp

end
