(* ===== verification/ContractState.thy ===== *)
theory ContractState
  imports Contracts ProposalGuarantees
begin

text \<open>
  The contract tables over time: one live contract per proposal, one signature exactly on what is signed, and
  issued contracts whose document never changes.
\<close>

section \<open>What the actions do to the tables\<close>

lemma createContract_result:
  assumes "createContract req parsed newId token s = (res, s1)"
  shows "(\<exists>e. res = Inl e) \<and> s1 = s
    \<or> (\<exists>f parents number. parsed = Inr f \<and> res = Inr newId \<and> signatures s1 = signatures s
        \<and> contracts s1 = contracts s @ [put_contract f parents (blank_contract newId number token)])"
  using assms unfolding createContract_def
  by (auto simp: Let_def add_row_def split: sum.splits) blast+

lemma accepted_for_contract:
  assumes "getAcceptedProposalForContract k s = Some a"
  shows "cap_id a = k \<and> \<not> list_ex (contract_of k) (contracts s)
    \<and> (\<exists>p\<in>set (proposals s). pp_id p = k \<and> pp_status p = Accepted \<and> pp_deletedAt p = None \<and> cap_projectId a = pp_projectId p)"
  using assms unfolding getAcceptedProposalForContract_def
  by (auto simp: Let_def dest!: find_hit split: option.splits prod.splits if_splits)

lemma createContractFromProposal_result:
  assumes "createContractFromProposal req parsed newId token s = (res, s1)"
  shows "(\<exists>e. res = Inl e) \<and> s1 = s
    \<or> (\<exists>k title a t blocks number. parsed = Inr (k, title) \<and> res = Inr newId \<and> signatures s1 = signatures s
        \<and> getAcceptedProposalForContract k s = Some a
        \<and> contracts s1 = contracts s @ [(blank_contract newId number token)\<lparr>con_projectId := cap_projectId a,
             con_clientId := cap_clientId a, con_proposalId := Some (cap_id a), con_templateId := t, con_title := title,
             con_blocks := Some blocks\<rparr>])"
  using assms unfolding createContractFromProposal_def
  by (auto simp: Let_def add_row_def split: sum.splits prod.splits option.splits) blast+

definition moved_row :: "(contract_row \<Rightarrow> bool) \<Rightarrow> (contract_row \<Rightarrow> contract_row) \<Rightarrow> sales \<Rightarrow> sales \<Rightarrow> bool" where
  "moved_row p g s s1 \<longleftrightarrow> contracts s1 = update_where p g (contracts s) \<and> signatures s1 = signatures s"

lemma contract_update_results:
  "updateContract req form s = (res, s1) \<Longrightarrow> s1 = s \<or> (\<exists>k f parents. moved_row (contract_draft_row k) (put_contract f parents) s s1)"
  "sendContract emailed req k' now s = (res2, s1) \<Longrightarrow> s1 = s \<or>
     (\<exists>k. moved_row (contract_draft_row k) (\<lambda>r. r\<lparr>con_status := ContractSent, con_issuedAt := Some now\<rparr>) s s1)"
  "terminateContract req why now s = (res, s1) \<Longrightarrow> s1 = s \<or>
     (\<exists>k w. moved_row (terminable_row k) (\<lambda>r. r\<lparr>con_status := Terminated, con_terminatedAt := Some now, con_terminationReason := Some w\<rparr>) s s1)"
  "softDeleteContract req k' now s = (res, s1) \<Longrightarrow> s1 = s \<or>
     (\<exists>k. moved_row (live_contract_row k) (\<lambda>r. r\<lparr>con_deletedAt := Some now\<rparr>) s s1)"
  "rotateContractPublicLink req k' token s = (res, s1) \<Longrightarrow> s1 = s \<or>
     (\<exists>k. moved_row (live_contract_row k) (\<lambda>r. r\<lparr>con_publicToken := Some token\<rparr>) s s1)"
  "revokeContractPublicLink req k' s = (res, s1) \<Longrightarrow> s1 = s \<or>
     (\<exists>k. moved_row (live_contract_row k) (\<lambda>r. r\<lparr>con_publicToken := None\<rparr>) s s1)"
  unfolding updateContract_def sendContract_def terminateContract_def softDeleteContract_def rotateContractPublicLink_def
    revokeContractPublicLink_def moved_row_def
  by (auto simp: Let_def contract_machine.can_iff split: sum.splits option.splits if_splits transition.splits prod.splits) blast+

lemma restoreContract_result:
  assumes "restoreContract req k' s = (res, s1)"
  shows "s1 = s \<or> (\<exists>k c. c \<in> set (contracts s) \<and> deleted_contract_row k c \<and> \<not> proposal_has_contract (con_proposalId c) s
     \<and> moved_row (deleted_contract_row k) (\<lambda>r. r\<lparr>con_deletedAt := None\<rparr>) s s1)"
  using assms unfolding restoreContract_def moved_row_def
  by (auto simp: Let_def dest!: find_hit split: sum.splits option.splits if_splits) blast

lemma signing_target:
  assumes "getContractSigningTarget consent token now s = Some t"
  shows "\<exists>c\<in>set (contracts s). con_id c = st_id t \<and> con_status c = ContractSent \<and> st_status t = ContractSent \<and> con_deletedAt c = None
    \<and> con_issuedAt c \<noteq> None \<and> \<not> isContractExpired (con_effectiveUntil c) now
    \<and> con_publicToken c = Some (js_trim token) \<and> st_consentText t = consent (con_number c)"
  using assms unfolding getContractSigningTarget_def findSignableContractByToken_def publicContractTokenSchema_def
    resolveContractDisplayStatus_def
  by (fastforce simp: Let_def dest!: find_hit split: option.splits if_splits)

lemma signPublicContract_result:
  assumes "signPublicContract consent parsed token ip userAgent now newId s = (res, s1)"
  shows "(\<exists>e. res = Inl e) \<and> s1 = s
    \<or> (\<exists>name email t. parsed = Inr (name, email) \<and> res = Inr (Signed, now)
        \<and> getContractSigningTarget consent token now s = Some t \<and> list_ex (sent_contract_row (st_id t)) (contracts s)
        \<and> contracts s1 = update_where (sent_contract_row (st_id t)) (\<lambda>r. r\<lparr>con_status := Signed\<rparr>) (contracts s)
        \<and> signatures s1 = signatures s @ [\<lparr>sig_id = newId, sig_contractId = st_id t, sig_signerName = name, sig_signerEmail = email,
            sig_consentText = st_consentText t, sig_ipAddress = or_unknown ip, sig_userAgent = or_unknown userAgent, sig_signedAt = now\<rparr>])"
  using assms unfolding signPublicContract_def recordContractSignature_def
  by (auto simp: Let_def add_row_def contract_machine.can_iff split: sum.splits prod.splits option.splits transition.splits if_splits)

section \<open>The state of the contract tables\<close>

definition contract_row_ok :: "contract_row \<Rightarrow> bool" where
  "contract_row_ok c \<longleftrightarrow>
     (con_issuedAt c \<noteq> None \<longleftrightarrow> con_status c \<noteq> ContractDraft)
     \<and> (con_terminatedAt c \<noteq> None \<longleftrightarrow> con_status c = Terminated)
     \<and> (con_terminationReason c \<noteq> None \<longleftrightarrow> con_status c = Terminated)
     \<and> con_status c \<noteq> Expired"

fun signatures_fit :: "contract_status \<Rightarrow> nat \<Rightarrow> bool" where
  "signatures_fit Signed n \<longleftrightarrow> n = 1"
| "signatures_fit Terminated n \<longleftrightarrow> n \<le> 1"
| "signatures_fit st n \<longleftrightarrow> n = 0"

definition signature_count :: "ident \<Rightarrow> sales \<Rightarrow> nat" where
  "signature_count k s = length (filter (\<lambda>g. sig_contractId g = k) (signatures s))"

text \<open>
  Unique ids, timestamps that agree with the status, \<open>contracts_proposal_id_unique_idx\<close>, one signature exactly on
  what is signed, and no row stored as expired.
\<close>

definition contracts_ok :: "sales \<Rightarrow> bool" where
  "contracts_ok s \<longleftrightarrow>
     distinct (map con_id (contracts s)) \<and> distinct (map sig_id (signatures s))
     \<and> (\<forall>c\<in>set (contracts s). contract_row_ok c \<and> signatures_fit (con_status c) (signature_count (con_id c) s))
     \<and> (\<forall>k. length (filter (contract_of k) (contracts s)) \<le> 1)
     \<and> (\<forall>g\<in>set (signatures s). sig_contractId g \<in> con_id ` set (contracts s))"

inductive contract_step :: "sales \<Rightarrow> sales \<Rightarrow> bool" where
  create: "newId \<notin> con_id ` set (contracts s) \<Longrightarrow> contract_step s (snd (createContract req form newId token s))"
| convert: "newId \<notin> con_id ` set (contracts s) \<Longrightarrow> contract_step s (snd (createContractFromProposal req wish newId token s))"
| update: "contract_step s (snd (updateContract req form s))"
| send: "contract_step s (snd (sendContract emailed req k now s))"
| terminate: "contract_step s (snd (terminateContract req why now s))"
| delete: "contract_step s (snd (softDeleteContract req k now s))"
| restore: "contract_step s (snd (restoreContract req k s))"
| rotate: "contract_step s (snd (rotateContractPublicLink req k token s))"
| revoke: "contract_step s (snd (revokeContractPublicLink req k s))"
| sign: "newId \<notin> sig_id ` set (signatures s) \<Longrightarrow>
    contract_step s (snd (signPublicContract consent signer token ip userAgent now newId s))"
| elsewhere: "contracts s' = contracts s \<Longrightarrow> signatures s' = signatures s \<Longrightarrow> contract_step s s'"

inductive contract_reach :: "sales \<Rightarrow> sales \<Rightarrow> bool" where
  start: "contract_reach s s"
| step: "contract_reach s s' \<Longrightarrow> contract_step s' s'' \<Longrightarrow> contract_reach s s''"

section \<open>Every step keeps the tables well-formed\<close>

lemma filter_map_fewer:
  "(\<And>x. x \<in> set xs \<Longrightarrow> P (f x) \<Longrightarrow> P x) \<Longrightarrow> length (filter P (map f xs)) \<le> length (filter P xs)"
  by (induction xs) (auto simp: le_SucI)

lemma filter_one_id:
  assumes "distinct (map key xs)" "\<And>x. x \<in> set xs \<Longrightarrow> P x \<Longrightarrow> key x = k"
  shows "length (filter P xs) \<le> 1"
  using assms
proof (induction xs)
  case (Cons x xs)
  have "length (filter P xs) \<le> 1" using Cons by simp
  moreover have "filter P xs = []" if "P x"
    using Cons.prems that by (auto simp: filter_empty_conv image_iff)
  ultimately show ?case by simp
qed simp

lemma moved_keeps:
  assumes ok: "contracts_ok s" and m: "moved_row p g s s1"
    and same: "\<And>r. p r \<Longrightarrow> con_id (g r) = con_id r \<and> con_proposalId (g r) = con_proposalId r"
    and row: "\<And>r. p r \<Longrightarrow> contract_row_ok r \<Longrightarrow> contract_row_ok (g r)"
    and st: "\<And>r n. p r \<Longrightarrow> signatures_fit (con_status r) n \<Longrightarrow> signatures_fit (con_status (g r)) n"
    and one: "\<And>k. length (filter (contract_of k) (contracts s1)) \<le> 1"
  shows "contracts_ok s1"
proof -
  have up: "contracts s1 = update_where p g (contracts s)" and sg: "signatures s1 = signatures s" using m by (auto simp: moved_row_def)
  have ids: "map con_id (contracts s1) = map con_id (contracts s)" unfolding up update_where_def using same by simp
  from arg_cong [OF ids, of set] have idset: "con_id ` set (contracts s1) = con_id ` set (contracts s)" by simp
  have "contract_row_ok c \<and> signatures_fit (con_status c) (signature_count (con_id c) s1)" if c: "c \<in> set (contracts s1)" for c
  proof -
    from c obtain r where "r \<in> set (contracts s)" "c = (if p r then g r else r)" unfolding up update_where_mem by blast
    then show ?thesis using ok row st same by (auto simp: contracts_ok_def signature_count_def sg)
  qed
  then show ?thesis using ok one ids by (auto simp: contracts_ok_def sg idset)
qed

lemma moved_keeps_live:
  assumes ok: "contracts_ok s" and m: "moved_row p g s s1"
    and same: "\<And>r. p r \<Longrightarrow> con_id (g r) = con_id r \<and> con_proposalId (g r) = con_proposalId r \<and> (con_deletedAt (g r) = None \<longrightarrow> con_deletedAt r = None)"
    and row: "\<And>r. p r \<Longrightarrow> contract_row_ok r \<Longrightarrow> contract_row_ok (g r)"
    and st: "\<And>r n. p r \<Longrightarrow> signatures_fit (con_status r) n \<Longrightarrow> signatures_fit (con_status (g r)) n"
  shows "contracts_ok s1"
proof (rule moved_keeps [OF ok m _ row st])
  show "length (filter (contract_of k) (contracts s1)) \<le> 1" for k
  proof -
    have "length (filter (contract_of k) (map (\<lambda>r. if p r then g r else r) (contracts s))) \<le> length (filter (contract_of k) (contracts s))"
      by (rule filter_map_fewer) (use same in \<open>auto simp: contract_of_def split: if_splits\<close>)
    then have "length (filter (contract_of k) (contracts s1)) \<le> length (filter (contract_of k) (contracts s))"
      using m by (simp only: moved_row_def update_where_def)
    then show ?thesis using ok unfolding contracts_ok_def by (metis le_trans)
  qed
qed (use same in auto)


lemma added_keeps:
  assumes ok: "contracts_ok s" and fresh: "con_id c \<notin> con_id ` set (contracts s)"
    and tables: "contracts s1 = contracts s @ [c]" "signatures s1 = signatures s"
    and row: "contract_row_ok c" "con_status c = ContractDraft"
    and one: "\<And>k. contract_of k c \<Longrightarrow> \<not> list_ex (contract_of k) (contracts s)"
  shows "contracts_ok s1"
proof -
  have "signature_count (con_id c) s = 0"
    using ok fresh unfolding contracts_ok_def signature_count_def by (metis (mono_tags, lifting) filter_False list.size(3))
  moreover have "length (filter (contract_of k) (contracts s @ [c])) \<le> 1" for k
    using ok one [of k] by (auto simp: contracts_ok_def list_ex_iff filter_empty_conv)
  ultimately show ?thesis using ok fresh row
    by (auto simp: contracts_ok_def tables signature_count_def)
qed

lemma create_contract_keeps:
  assumes "contracts_ok s" "newId \<notin> con_id ` set (contracts s)" "createContract req form newId token s = (res, s1)"
  shows "contracts_ok s1"
  using createContract_result [OF assms(3)]
proof (elim disjE exE conjE)
  fix f parents number
  assume "contracts s1 = contracts s @ [put_contract f parents (blank_contract newId number token)]" "signatures s1 = signatures s"
  then show ?thesis using assms(2)
    by (intro added_keeps [OF assms(1)]) (auto simp: put_contract_def blank_contract_def contract_row_ok_def contract_of_def)
qed (simp add: assms(1))

lemma convert_keeps:
  assumes "contracts_ok s" "newId \<notin> con_id ` set (contracts s)" "createContractFromProposal req wish newId token s = (res, s1)"
  shows "contracts_ok s1"
  using createContractFromProposal_result [OF assms(3)]
proof (elim disjE exE conjE)
  fix k title a t blocks number
  assume a: "getAcceptedProposalForContract k s = Some a"
    and "signatures s1 = signatures s"
    and "contracts s1 = contracts s @ [(blank_contract newId number token)\<lparr>con_projectId := cap_projectId a,
             con_clientId := cap_clientId a, con_proposalId := Some (cap_id a), con_templateId := t, con_title := title,
             con_blocks := Some blocks\<rparr>]"
  then show ?thesis using assms(2) accepted_for_contract [OF a]
    by (intro added_keeps [OF assms(1)]) (auto simp: blank_contract_def contract_row_ok_def contract_of_def)
qed (simp add: assms(1))

lemma contract_update_keeps:
  assumes ok: "contracts_ok s"
  shows "updateContract req form s = (res, s1) \<Longrightarrow> contracts_ok s1"
    and "sendContract emailed req k now s = (res2, s1) \<Longrightarrow> contracts_ok s1"
    and "terminateContract req why now s = (res, s1) \<Longrightarrow> contracts_ok s1"
    and "softDeleteContract req k now s = (res, s1) \<Longrightarrow> contracts_ok s1"
    and "rotateContractPublicLink req k token s = (res, s1) \<Longrightarrow> contracts_ok s1"
    and "revokeContractPublicLink req k s = (res, s1) \<Longrightarrow> contracts_ok s1"
  by (drule contract_update_results, elim disjE exE,
      simp add: ok, erule moved_keeps_live [OF ok];
      auto simp: put_contract_def contract_row_ok_def contract_draft_row_def terminable_row_def)+

lemma restore_contract_keeps:
  assumes ok: "contracts_ok s" and run: "restoreContract req k s = (res, s1)"
  shows "contracts_ok s1"
  using restoreContract_result [OF run]
proof (elim disjE exE conjE)
  fix i c
  assume c: "c \<in> set (contracts s)" "deleted_contract_row i c" "\<not> proposal_has_contract (con_proposalId c) s"
    and m: "moved_row (deleted_contract_row i) (\<lambda>r. r\<lparr>con_deletedAt := None\<rparr>) s s1"
  let ?f = "\<lambda>r. if deleted_contract_row i r then r\<lparr>con_deletedAt := None\<rparr> else r"
  have only: "r = c" if "r \<in> set (contracts s)" "deleted_contract_row i r" for r
    using that c ok by (auto simp: contracts_ok_def distinct_map inj_on_def deleted_contract_row_def)
  have ids: "map con_id (update_where (deleted_contract_row i) (\<lambda>r. r\<lparr>con_deletedAt := None\<rparr>) (contracts s)) = map con_id (contracts s)"
    by (rule update_where_ids) simp
  have "length (filter (contract_of j) (contracts s1)) \<le> 1" for j
  proof (cases "list_ex (contract_of j) (contracts s)")
    case True
    then have "con_proposalId c \<noteq> Some j" using c(3) by (auto simp: proposal_has_contract_def)
    then have "length (filter (contract_of j) (map ?f (contracts s))) \<le> length (filter (contract_of j) (contracts s))"
      by (intro filter_map_fewer) (use only in \<open>auto simp: contract_of_def split: if_splits\<close>)
    then show ?thesis using ok m unfolding contracts_ok_def moved_row_def update_where_def by (metis le_trans)
  next
    case False
    have "length (filter (contract_of j) (contracts s1)) \<le> 1"
    proof (rule filter_one_id)
      show "distinct (map con_id (contracts s1))"
        using ok m unfolding moved_row_def contracts_ok_def by (metis ids)
      show "con_id x = con_id c" if "x \<in> set (contracts s1)" "contract_of j x" for x
        using that False only m by (auto simp: moved_row_def update_where_mem list_ex_iff split: if_splits)
    qed
    then show ?thesis .
  qed
  then show ?thesis by (intro moved_keeps [OF ok m]) (auto simp: contract_row_ok_def)
qed (simp add: ok)

lemma sign_keeps:
  assumes ok: "contracts_ok s" and fresh: "newId \<notin> sig_id ` set (signatures s)"
    and run: "signPublicContract consent signer token ip userAgent now newId s = (res, s1)"
  shows "contracts_ok s1"
  using signPublicContract_result [OF run]
proof (elim disjE exE conjE)
  fix name email t
  assume sent: "list_ex (sent_contract_row (st_id t)) (contracts s)"
    and up: "contracts s1 = update_where (sent_contract_row (st_id t)) (\<lambda>r. r\<lparr>con_status := Signed\<rparr>) (contracts s)"
    and sg: "signatures s1 = signatures s @ [\<lparr>sig_id = newId, sig_contractId = st_id t, sig_signerName = name, sig_signerEmail = email,
            sig_consentText = st_consentText t, sig_ipAddress = or_unknown ip, sig_userAgent = or_unknown userAgent, sig_signedAt = now\<rparr>]"
  from sent obtain c where c: "c \<in> set (contracts s)" "sent_contract_row (st_id t) c" by (auto simp: list_ex_iff)
  have ids: "map con_id (contracts s1) = map con_id (contracts s)" unfolding up by (rule update_where_ids) simp
  from arg_cong [OF ids, of set] have idset: "con_id ` set (contracts s1) = con_id ` set (contracts s)" by simp
  have count: "signature_count j s1 = signature_count j s + (if j = st_id t then 1 else 0)" for j
    by (simp add: signature_count_def sg)
  have "contract_row_ok x \<and> signatures_fit (con_status x) (signature_count (con_id x) s1)" if x: "x \<in> set (contracts s1)" for x
  proof -
    from x obtain r where r: "r \<in> set (contracts s)" "x = (if sent_contract_row (st_id t) r then r\<lparr>con_status := Signed\<rparr> else r)"
      unfolding up update_where_mem by blast
    then have old: "contract_row_ok r" "signatures_fit (con_status r) (signature_count (con_id r) s)" using ok by (auto simp: contracts_ok_def)
    show ?thesis
    proof (cases "sent_contract_row (st_id t) r")
      case True
      then show ?thesis using old r(2) by (auto simp: sent_contract_row_def contract_row_ok_def count)
    next
      case False
      have "con_id r \<noteq> st_id t"
        using False r(1) c ok by (auto simp: contracts_ok_def distinct_map inj_on_def sent_contract_row_def)
      then show ?thesis using False old r(2) by (simp add: count)
    qed
  qed
  moreover have "length (filter (contract_of j) (contracts s1)) \<le> 1" for j
  proof -
    have "length (filter (contract_of j) (map (\<lambda>r. if sent_contract_row (st_id t) r then r\<lparr>con_status := Signed\<rparr> else r) (contracts s)))
        \<le> length (filter (contract_of j) (contracts s))"
      by (rule filter_map_fewer) (auto simp: contract_of_def split: if_splits)
    then show ?thesis using ok unfolding up update_where_def contracts_ok_def by (metis le_trans)
  qed
  moreover have "st_id t \<in> con_id ` set (contracts s)" using c by (force simp: sent_contract_row_def)
  ultimately show ?thesis using ok fresh unfolding contracts_ok_def by (auto simp: ids idset sg)
qed (simp add: ok)

lemma untouched_keeps: "contracts_ok s \<Longrightarrow> contracts s' = contracts s \<Longrightarrow> signatures s' = signatures s \<Longrightarrow> contracts_ok s'"
  by (simp add: contracts_ok_def signature_count_def)

lemma contract_step_keeps: "contract_step s s' \<Longrightarrow> contracts_ok s \<Longrightarrow> contracts_ok s'"
  by (erule contract_step.cases)
    (auto intro: create_contract_keeps convert_keeps contract_update_keeps restore_contract_keeps sign_keeps untouched_keeps
      prod.collapse [symmetric])

lemma contract_reach_ok: "contract_reach s s' \<Longrightarrow> contracts_ok s \<Longrightarrow> contracts_ok s'"
  by (induction rule: contract_reach.induct) (auto intro: contract_step_keeps)


section \<open>Issued contracts\<close>

text \<open>What a contract says, apart from how far it has come, where its link points and whether it lies in the trash.\<close>

definition document_of :: "contract_row \<Rightarrow> contract_row" where
  "document_of c = c\<lparr>con_status := ContractSent, con_terminatedAt := None, con_terminationReason := None, con_publicToken := None,
     con_deletedAt := None\<rparr>"

definition advanced :: "contract_status \<Rightarrow> contract_status \<Rightarrow> bool" where
  "advanced a b \<longleftrightarrow> a = b \<or> contract_rank a < contract_rank b"

definition issued_kept :: "contract_row \<Rightarrow> sales \<Rightarrow> bool" where
  "issued_kept c s \<longleftrightarrow> (\<exists>c'\<in>set (contracts s). document_of c' = document_of c \<and> advanced (con_status c) (con_status c'))"

lemma advanced_trans: "advanced a b \<Longrightarrow> advanced b c \<Longrightarrow> advanced a c"
  by (auto simp: advanced_def)

lemma advanced_issued: "advanced a b \<Longrightarrow> a \<noteq> ContractDraft \<Longrightarrow> b \<noteq> ContractDraft"
  by (cases a; cases b) (auto simp: advanced_def)

text \<open>What a step owes an issued contract, and what it owes the signatures already given.\<close>

definition issued_in :: "contract_row \<Rightarrow> sales \<Rightarrow> sales \<Rightarrow> bool" where
  "issued_in c s s1 \<longleftrightarrow> issued_kept c s1 \<and> set (signatures s) \<subseteq> set (signatures s1)"

lemma kept_here: "c \<in> set (contracts s) \<Longrightarrow> issued_in c s s"
  by (auto simp: issued_in_def issued_kept_def advanced_def)

lemma kept_elsewhere:
  "c \<in> set (contracts s) \<Longrightarrow> contracts s1 = contracts s \<Longrightarrow> signatures s1 = signatures s \<Longrightarrow> issued_in c s s1"
  by (auto simp: issued_in_def issued_kept_def advanced_def)

lemma kept_moved:
  assumes c: "c \<in> set (contracts s)" and m: "moved_row p g s s1"
    and row: "p c \<Longrightarrow> document_of (g c) = document_of c \<and> advanced (con_status c) (con_status (g c))"
  shows "issued_in c s s1"
proof -
  have up: "contracts s1 = update_where p g (contracts s)" and sg: "signatures s1 = signatures s"
    using m by (auto simp: moved_row_def)
  have "issued_kept c s1" unfolding issued_kept_def up
    by (rule bexI [OF _ update_where_in [OF c]]) (use row in \<open>auto simp: advanced_def\<close>)
  then show ?thesis by (simp add: issued_in_def sg)
qed

lemma create_issued:
  assumes "c \<in> set (contracts s)"
  shows "createContract req form newId token s = (res, s1) \<Longrightarrow> issued_in c s s1"
    and "createContractFromProposal req wish newId token s = (res, s1) \<Longrightarrow> issued_in c s s1"
  using createContract_result [of req form newId token s res s1] createContractFromProposal_result [of req wish newId token s res s1]
    assms kept_here [OF assms]
  by (auto simp: issued_in_def issued_kept_def advanced_def)

lemma update_issued:
  assumes c: "c \<in> set (contracts s)" "con_status c \<noteq> ContractDraft"
  shows "updateContract req form s = (res, s1) \<Longrightarrow> issued_in c s s1"
    and "sendContract emailed req k now s = (res2, s1) \<Longrightarrow> issued_in c s s1"
    and "terminateContract req why now s = (res, s1) \<Longrightarrow> issued_in c s s1"
    and "softDeleteContract req k now s = (res, s1) \<Longrightarrow> issued_in c s s1"
    and "rotateContractPublicLink req k token s = (res, s1) \<Longrightarrow> issued_in c s s1"
    and "revokeContractPublicLink req k s = (res, s1) \<Longrightarrow> issued_in c s s1"
  by (drule contract_update_results, elim disjE exE,
      simp add: c kept_here, erule kept_moved [OF c(1)];
      use c in \<open>auto simp: document_of_def advanced_def contract_draft_row_def terminable_row_def\<close>)+

lemma restore_issued:
  assumes c: "c \<in> set (contracts s)" and run: "restoreContract req k s = (res, s1)"
  shows "issued_in c s s1"
  using restoreContract_result [OF run]
proof (elim disjE exE conjE)
  fix i r
  assume "moved_row (deleted_contract_row i) (\<lambda>r. r\<lparr>con_deletedAt := None\<rparr>) s s1"
  then show ?thesis by (rule kept_moved [OF c]) (auto simp: document_of_def advanced_def)
qed (simp add: c kept_here)

lemma sign_issued:
  assumes c: "c \<in> set (contracts s)" and run: "signPublicContract consent signer token ip userAgent now newId s = (res, s1)"
  shows "issued_in c s s1"
  using signPublicContract_result [OF run]
proof (elim disjE exE conjE)
  fix t name email
  assume up: "contracts s1 = update_where (sent_contract_row (st_id t)) (\<lambda>r. r\<lparr>con_status := Signed\<rparr>) (contracts s)"
    and sg: "signatures s1 = signatures s @ [\<lparr>sig_id = newId, sig_contractId = st_id t, sig_signerName = name, sig_signerEmail = email,
            sig_consentText = st_consentText t, sig_ipAddress = or_unknown ip, sig_userAgent = or_unknown userAgent, sig_signedAt = now\<rparr>]"
  have "issued_kept c s1" unfolding issued_kept_def up
    by (rule bexI [OF _ update_where_in [OF c]]) (auto simp: document_of_def advanced_def sent_contract_row_def)
  then show ?thesis by (auto simp: issued_in_def sg)
qed (simp add: c kept_here)

lemma step_issued:
  assumes "contract_step s s'" "c \<in> set (contracts s)" "con_status c \<noteq> ContractDraft"
  shows "issued_in c s s'"
  using assms(1)
  by cases (simp_all only:,
    (rule create_issued update_issued restore_issued sign_issued kept_elsewhere, (rule assms prod.collapse [symmetric] | assumption)+)+)

lemma reach_issued:
  assumes "contract_reach s s'"
  shows "c \<in> set (contracts s) \<Longrightarrow> con_status c \<noteq> ContractDraft \<Longrightarrow> issued_in c s s'"
  using assms
proof (induction rule: contract_reach.induct)
  case (start s)
  then show ?case by (simp add: kept_here)
next
  case (step s s' s'')
  then obtain c' where c': "c' \<in> set (contracts s')" "document_of c' = document_of c" "advanced (con_status c) (con_status c')"
    by (auto simp: issued_in_def issued_kept_def)
  then have "issued_in c' s' s''" using step by (metis advanced_issued step_issued)
  then show ?case using c' step by (auto simp: issued_in_def issued_kept_def) (metis advanced_trans)
qed

end
