(* ===== verification/ContractGuarantees.thy ===== *)
theory ContractGuarantees
  imports ContractState
begin

text \<open>What the contract actions guarantee, over every sequence of them.\<close>

section \<open>Finding a row that an update moved\<close>

lemma find_update_where:
  assumes "\<And>r. P (g r) = P r"
  shows "List.find P (update_where p g xs) = map_option (\<lambda>r. if p r then g r else r) (List.find P xs)"
  by (induction xs) (auto simp: update_where_def assms)

lemma find_row:
  assumes "List.find P xs = Some r"
  shows "r \<in> set xs \<and> P r"
  using assms by (auto dest: find_hit)

section \<open>A signature\<close>

lemma signing_target_row:
  assumes "getContractSigningTarget consent token now s = Some t"
  shows "\<exists>c. List.find (\<lambda>r. con_publicToken r = Some (js_trim token) \<and> con_deletedAt r = None) (contracts s) = Some c
    \<and> sent_contract_row (st_id t) c \<and> con_issuedAt c \<noteq> None \<and> \<not> isContractExpired (con_effectiveUntil c) now
    \<and> st_consentText t = consent (con_number c)"
  using assms unfolding getContractSigningTarget_def findSignableContractByToken_def publicContractTokenSchema_def
    resolveContractDisplayStatus_def sent_contract_row_def
  by (auto simp: Let_def dest: find_row split: option.splits if_splits)

lemma signed_link_is_dead:
  assumes "List.find (\<lambda>r. con_publicToken r = Some (js_trim token) \<and> con_deletedAt r = None) (contracts s) = Some c"
    and "con_status c = Signed"
  shows "getContractSigningTarget consent token now s = None"
  using assms unfolding getContractSigningTarget_def findSignableContractByToken_def publicContractTokenSchema_def
    resolveContractDisplayStatus_def
  by (auto simp: Let_def split: option.splits)

lemma unsignable_link_answers:
  assumes "getContractSigningTarget consent token now s = None"
  shows "signPublicContract consent (Inr signer) token ip userAgent now newId s = (Inl ''contracts.public.errors.unavailable'', s)"
  using assms by (cases signer) (simp add: signPublicContract_def)

text \<open>C10. A contract is signed only through its live link: it is issued, sent, not in the trash and before the end of its
  last effective day. The signature stored is one row with the name and address the visitor gave, the wording the server
  shows for that contract, and the moment; it is the only one of that contract, and the same link then signs nothing more.\<close>

theorem signing_needs_a_live_link:
  assumes run: "signPublicContract consent (Inr (name, email)) token ip userAgent now newId s = (Inr answer, s')"
    and ok: "contracts_ok s"
  shows "answer = (Signed, now)
    \<and> (\<exists>c\<in>set (contracts s). con_status c = ContractSent \<and> con_deletedAt c = None \<and> con_issuedAt c \<noteq> None
        \<and> \<not> isContractExpired (con_effectiveUntil c) now \<and> con_publicToken c = Some (js_trim token)
        \<and> c\<lparr>con_status := Signed\<rparr> \<in> set (contracts s')
        \<and> filter (\<lambda>g. sig_contractId g = con_id c) (signatures s')
            = [\<lparr>sig_id = newId, sig_contractId = con_id c, sig_signerName = name, sig_signerEmail = email,
                sig_consentText = consent (con_number c), sig_ipAddress = or_unknown ip, sig_userAgent = or_unknown userAgent,
                sig_signedAt = now\<rparr>])
    \<and> signPublicContract consent' (Inr signer') token ip' userAgent' now' newId' s'
        = (Inl ''contracts.public.errors.unavailable'', s')"
proof -
  from signPublicContract_result [OF run] obtain t where
    target: "getContractSigningTarget consent token now s = Some t"
    and answer: "answer = (Signed, now)"
    and up: "contracts s' = update_where (sent_contract_row (st_id t)) (\<lambda>r. r\<lparr>con_status := Signed\<rparr>) (contracts s)"
    and sg: "signatures s' = signatures s @ [\<lparr>sig_id = newId, sig_contractId = st_id t, sig_signerName = name, sig_signerEmail = email,
        sig_consentText = st_consentText t, sig_ipAddress = or_unknown ip, sig_userAgent = or_unknown userAgent, sig_signedAt = now\<rparr>]"
    by auto
  from signing_target_row [OF target] obtain c where
    found: "List.find (\<lambda>r. con_publicToken r = Some (js_trim token) \<and> con_deletedAt r = None) (contracts s) = Some c"
    and c: "sent_contract_row (st_id t) c" "con_issuedAt c \<noteq> None" "\<not> isContractExpired (con_effectiveUntil c) now"
      "st_consentText t = consent (con_number c)"
    by blast
  from find_row [OF found] have row: "c \<in> set (contracts s)" "con_publicToken c = Some (js_trim token)" by auto
  have unsigned: "filter (\<lambda>g. sig_contractId g = con_id c) (signatures s) = []"
    using ok row(1) c(1) by (auto simp: contracts_ok_def sent_contract_row_def signature_count_def filter_empty_conv)
  have moved: "c\<lparr>con_status := Signed\<rparr> \<in> set (contracts s')"
    using update_where_in [OF row(1), of "sent_contract_row (st_id t)"] c(1) by (simp add: up)
  have "getContractSigningTarget consent' token now' s' = None"
    by (rule signed_link_is_dead [of _ _ "c\<lparr>con_status := Signed\<rparr>"]) (use found c(1) in \<open>simp_all add: up find_update_where\<close>)
  then show ?thesis using answer row c unsigned moved
    by (intro conjI bexI [of _ c]) (auto simp: sg sent_contract_row_def unsignable_link_answers)
qed

text \<open>C11. From an empty table on, whatever the actions are and in whatever order: a signed contract has exactly one
  signature and a draft or sent one has none, a contract has an issue moment exactly when it has left draft and an end
  with a reason exactly when it was terminated, no row is ever stored as expired, and a proposal has at most one contract
  outside the trash.\<close>

theorem contracts_stay_consistent:
  assumes reach: "contract_reach s s'" and start: "contracts s = []" "signatures s = []"
  shows "(\<forall>c\<in>set (contracts s').
      (con_status c = Signed \<longrightarrow> signature_count (con_id c) s' = 1)
      \<and> (con_status c \<in> {ContractDraft, ContractSent} \<longrightarrow> signature_count (con_id c) s' = 0)
      \<and> (con_issuedAt c \<noteq> None \<longleftrightarrow> con_status c \<noteq> ContractDraft)
      \<and> (con_terminatedAt c \<noteq> None \<longleftrightarrow> con_status c = Terminated)
      \<and> (con_terminationReason c \<noteq> None \<longleftrightarrow> con_status c = Terminated)
      \<and> con_status c \<noteq> Expired)
    \<and> (\<forall>k. length (filter (contract_of k) (contracts s')) \<le> 1)"
proof -
  have "contracts_ok s" using start by (simp add: contracts_ok_def)
  then have "contracts_ok s'" by (rule contract_reach_ok [OF reach])
  then show ?thesis unfolding contracts_ok_def contract_row_ok_def by fastforce
qed

text \<open>C12. Once a contract has been issued its document never changes: in every later state the same row is there with the
  same parties, number, title, blocks, dates and issue moment, at the same status or one further on, and every signature
  given is still there as it was given. Only its link and its place in the trash may change.\<close>

theorem issued_contracts_are_final:
  assumes "contract_reach s s'" "c \<in> set (contracts s)" "con_status c \<noteq> ContractDraft"
  shows "(\<exists>c'\<in>set (contracts s'). document_of c' = document_of c
        \<and> (con_status c' = con_status c \<or> contract_rank (con_status c) < contract_rank (con_status c')))
    \<and> set (signatures s) \<subseteq> set (signatures s')"
  using reach_issued [OF assms] unfolding issued_in_def issued_kept_def advanced_def by auto

section \<open>The guarantees on a contract\<close>

definition sample_terms :: "document_block list" where
  "sample_terms = [\<lparr>blk_hidden = False, blk_content = ''terms''\<rparr>]"

definition sample_contract_form :: contract_form where
  "sample_contract_form = \<lparr>ktf_subject = [], ktf_title = ''Website'', ktf_projectId = None, ktf_clientId = Some ''c1'', ktf_templateId = None,
     ktf_blocks = sample_terms, ktf_effectiveFrom = None, ktf_effectiveUntil = Some 1700500000000\<rparr>"

definition sample_drafted :: sales where
  "sample_drafted = snd (createContract owner_request (Inr sample_contract_form) ''k1'' ''tok'' sample_sales)"

definition sample_sent :: sales where
  "sample_sent = snd (sendContract True owner_request (Inr ''k1'') 1700000000000 sample_drafted)"

definition sample_consent :: "string \<Rightarrow> string" where
  "sample_consent number = ''I agree to '' @ number"

definition sample_signed :: sales where
  "sample_signed = snd (signPublicContract sample_consent (Inr (''Ana'', ''ana@acme.test'')) '' tok '' None None 1700000100000 ''g1'' sample_sent)"

lemma sample_signs:
  "signPublicContract sample_consent (Inr (''Ana'', ''ana@acme.test'')) '' tok '' None None 1700000100000 ''g1'' sample_sent
     = (Inr (Signed, 1700000100000), sample_signed)"
  by (rule prod_eqI) (simp_all only: sample_signed_def snd_conv, code_simp)

lemma sample_sent_reached: "contract_reach sample_sales sample_sent"
  unfolding sample_sent_def sample_drafted_def
  by (intro contract_reach.step [OF contract_reach.step [OF contract_reach.start contract_step.create] contract_step.send]) code_simp

lemma sample_signed_reached: "contract_reach sample_sales sample_signed"
  unfolding sample_signed_def
  by (rule contract_reach.step [OF sample_sent_reached contract_step.sign]) code_simp

lemma sample_sent_ok: "contracts_ok sample_sent"
  by (rule contract_reach_ok [OF sample_sent_reached]) (simp add: contracts_ok_def sample_sales_def)

lemma signing_needs_a_live_link_witness:
  "fst (signPublicContract sample_consent (Inr (''Eve'', ''eve@acme.test'')) ''tok'' None None 1700000200000 ''g2'' sample_signed)
     = Inl ''contracts.public.errors.unavailable''
   \<and> (\<exists>c\<in>set (contracts sample_sent). con_status c = ContractSent \<and> c\<lparr>con_status := Signed\<rparr> \<in> set (contracts sample_signed))"
proof -
  note all = signing_needs_a_live_link [OF sample_signs sample_sent_ok]
  have "getContractSigningTarget sample_consent ''tok'' 1700000200000 sample_signed = None" by code_simp
  then have "signPublicContract sample_consent (Inr (''Eve'', ''eve@acme.test'')) ''tok'' None None 1700000200000 ''g2'' sample_signed
      = (Inl ''contracts.public.errors.unavailable'', sample_signed)" by (rule unsignable_link_answers)
  then show ?thesis using all by (metis fst_conv)
qed

lemma contracts_stay_consistent_witness:
  "map (\<lambda>c. (con_status c, signature_count (con_id c) sample_signed)) (contracts sample_signed) = [(Signed, 1)]
   \<and> list_all (\<lambda>c. con_terminatedAt c \<noteq> None \<longleftrightarrow> con_status c = Terminated) (contracts sample_signed)"
proof -
  have "contracts sample_sales = []" "signatures sample_sales = []" by (simp_all add: sample_sales_def)
  note all = contracts_stay_consistent [OF sample_signed_reached this]
  have "map (\<lambda>c. (con_status c, signature_count (con_id c) sample_signed)) (contracts sample_signed) = [(Signed, 1)]" by code_simp
  then show ?thesis using all by (simp add: list_all_iff)
qed

lemma sample_sent_row: "map con_status (contracts sample_sent) = [ContractSent]"
  by code_simp

lemma issued_contracts_are_final_witness:
  "\<exists>c\<in>set (contracts sample_sent). \<exists>c'\<in>set (contracts sample_signed). document_of c' = document_of c \<and> con_status c = ContractSent"
proof -
  from sample_sent_row obtain c where c: "c \<in> set (contracts sample_sent)" "con_status c = ContractSent" by auto
  have "contract_reach sample_sent sample_signed"
    unfolding sample_signed_def by (rule contract_reach.step [OF contract_reach.start contract_step.sign]) code_simp
  from issued_contracts_are_final [OF this c(1)] c show ?thesis by auto
qed

end
