(* ===== verification/CreditNoteActions.thy ===== *)
theory CreditNoteActions
  imports InvoiceActions
begin

text \<open>
  The server actions on credit notes (\<open>features/creditNotes/mutations.ts\<close>): issuing one against an
  issued invoice, withdrawing it and restoring it. Each re-decides the settlement of the credited invoice
  in the same transaction. The credited lines come in the form's shape of an invoice line; the tax
  lookup is the feature's own copy.
\<close>

section \<open>Definitions\<close>

record credit_note_form =
  cf_invoiceId :: ident
  cf_reason :: string
  cf_lineItems :: "line_form list"

definition claimCreditNoteNumber :: "db \<Rightarrow> (string \<times> db) result" where
  "claimCreditNoteNumber d =
     (case settings d of
        None \<Rightarrow> Inl ''creditNotes.errors.settingsMissing''
      | Some s \<Rightarrow>
          let s' = s\<lparr>set_nextCreditNoteNumber := set_nextCreditNoteNumber s + 1\<rparr>
          in Inr (generateCreditNoteNumber (set_creditNotePrefix s') (set_numberPaddingWidth s')
                    (set_nextCreditNoteNumber s' - 1), d\<lparr>settings := Some s'\<rparr>))"

definition credit_getTaxPercentages :: "line_form list \<Rightarrow> db \<Rightarrow> (ident \<times> jsnum) list result" where
  "credit_getTaxPercentages items d =
     (let ids = wanted_tax_rates items
      in if ids = [] then Inr []
         else let rows = filter (\<lambda>r. tax_id r \<in> set ids \<and> tax_deletedAt r = None) (taxRates d)
              in if length rows \<noteq> length ids then Inl ''creditNotes.validation.taxRateInvalid''
                 else Inr (map (\<lambda>r. (tax_id r, tax_percentage r)) rows))"

definition credit_getTaxPercentage :: "ident option \<Rightarrow> (ident \<times> jsnum) list \<Rightarrow> jsnum" where
  "credit_getTaxPercentage taxRateId percentages =
     (case taxRateId of
        None \<Rightarrow> 0
      | Some k \<Rightarrow> (case map_of percentages k of None \<Rightarrow> 0 | Some p \<Rightarrow> p))"

definition credit_toLineItemInputs :: "line_form list \<Rightarrow> (ident \<times> jsnum) list \<Rightarrow> line_item_input list" where
  "credit_toLineItemInputs items percentages =
     map (\<lambda>i. \<lparr>quantity = lf_quantity i, unitPriceCents = lf_unitPrice i,
               line_discount = toCreditNoteDiscount (lf_discount i),
               taxPercentage = credit_getTaxPercentage (lf_taxRateId i) percentages\<rparr>) items"

definition credit_line_row :: "(jsnum \<Rightarrow> jsnum) \<Rightarrow> ident \<Rightarrow> ident \<Rightarrow> int \<Rightarrow> (ident \<times> jsnum) list \<Rightarrow> line_form \<Rightarrow> line_totals \<Rightarrow> line_item_row" where
  "credit_line_row store creditNoteId lineId position percentages i t =
     \<lparr>li_id = lineId, li_proposalId = None, li_invoiceId = None, li_creditNoteId = Some creditNoteId, li_taxRateId = lf_taxRateId i,
      li_position = position, li_description = lf_description i, li_unit = emptyToNull (lf_unit i),
      li_quantity = store (lf_quantity i), li_unitPriceCents = lf_unitPrice i,
      li_discount = toCreditNoteDiscountColumns (lf_discount i),
      li_taxPercentageSnapshot = credit_getTaxPercentage (lf_taxRateId i) percentages,
      li_subtotalCents = lt_subtotalCents t, li_taxAmountCents = lt_taxAmountCents t, li_totalCents = lt_totalCents t,
      li_sourceTimeEntryId = None, li_sourceExpenseId = None, li_deletedAt = None\<rparr>"

definition writeCreditNoteLineItems ::
  "(jsnum \<Rightarrow> jsnum) \<Rightarrow> (nat \<Rightarrow> ident) \<Rightarrow> ident \<Rightarrow> line_form list \<Rightarrow> (ident \<times> jsnum) list \<Rightarrow> db \<Rightarrow> db" where
  "writeCreditNoteLineItems store lineIds creditNoteId items percentages d =
     (let lineTotals = calculateCreditNoteLineTotals (credit_toLineItemInputs items percentages)
      in d\<lparr>lineItems := lineItems d @
            map (\<lambda>(k, i). credit_line_row store creditNoteId (lineIds k) (int k) percentages i (nth_totals lineTotals k))
              (zip [0..<length items] items)\<rparr>)"

definition createCreditNote ::
  "(jsnum \<Rightarrow> jsnum) \<Rightarrow> request \<Rightarrow> credit_note_form result \<Rightarrow> ident \<Rightarrow> (nat \<Rightarrow> ident) \<Rightarrow> jsdate \<Rightarrow> db \<Rightarrow> ident result \<times> db" where
  "createCreditNote store req parsed newId lineIds now d =
     (case requireCreditNoteWrite req of
        Inl e \<Rightarrow> (Inl e, d)
      | Inr actor \<Rightarrow>
     (case parsed of
        Inl m \<Rightarrow> (Inl m, d)
      | Inr f \<Rightarrow>
     (case lockInvoice (cf_invoiceId f) d of
        None \<Rightarrow> (Inl ''creditNotes.errors.invoiceNotFound'', d)
      | Some invoice \<Rightarrow>
          if inv_status invoice = Draft then (Inl ''creditNotes.errors.invoiceNotIssued'', d)
          else
     (case credit_getTaxPercentages (cf_lineItems f) d of
        Inl e \<Rightarrow> (Inl e, d)
      | Inr percentages \<Rightarrow>
     (let totals = calculateCreditNoteTotal (credit_toLineItemInputs (cf_lineItems f) percentages)
      in if cnt_totalCents totals \<le> 0 then (Inl ''creditNotes.errors.totalNotPositive'', d)
         else
     (case claimCreditNoteNumber d of
        Inl e \<Rightarrow> (Inl e, d)
      | Inr (number, d1) \<Rightarrow>
          let d2 = d1\<lparr>creditNotes := add_row
                   \<lparr>cn_id = newId, cn_invoiceId = inv_id invoice, cn_number = number,
                    cn_reason = emptyToNull (cf_reason f), cn_currency = inv_currency invoice,
                    cn_subtotalCents = cnt_subtotalCents totals, cn_taxAmountCents = cnt_taxAmountCents totals,
                    cn_totalCents = cnt_totalCents totals, cn_deletedAt = None\<rparr> (creditNotes d1)\<rparr>;
              d3 = writeCreditNoteLineItems store lineIds newId (cf_lineItems f) percentages d2;
              d4 = resettleInvoiceWrite (inv_id invoice) now d3;
              user = Some (actor_userId actor)
          in (Inr newId, enqueueJob ''credit_note.pdf.render'' newId None
                (emit ''credit_note.issued'' newId user
                  (writeAudit ''credit_note.created'' user (Some newId) d4)))))))))"

definition restoreCreditNote :: "request \<Rightarrow> ident result \<Rightarrow> jsdate \<Rightarrow> db \<Rightarrow> ident result \<times> db" where
  "restoreCreditNote req parsed now d =
     (case requireCreditNoteDelete req of
        Inl e \<Rightarrow> (Inl e, d)
      | Inr actor \<Rightarrow>
     (case parsed of
        Inl m \<Rightarrow> (Inl m, d)
      | Inr k \<Rightarrow>
     (case find_id cn_id k (creditNotes d) of
        None \<Rightarrow> (Inl ''creditNotes.errors.notFound'', d)
      | Some existing \<Rightarrow>
          if cn_deletedAt existing = None then (Inl ''creditNotes.errors.notFound'', d)
          else
     (case resolveRestoreBlocker
             [(''trash.entities.invoice'',
               case find_id inv_id (cn_invoiceId existing) (invoices d) of None \<Rightarrow> None | Some i \<Rightarrow> inv_deletedAt i)] of
        Some parent \<Rightarrow> (Inl (restore_blocked parent), d)
      | None \<Rightarrow>
          let d1 = d\<lparr>creditNotes := put_id cn_id k (\<lambda>c. c\<lparr>cn_deletedAt := None\<rparr>) (creditNotes d)\<rparr>;
              d2 = resettleInvoiceWrite (cn_invoiceId existing) now d1
          in (Inr k, writeAudit ''credit_note.restored'' (Some (actor_userId actor)) (Some k) d2)))))"

definition softDeleteCreditNote :: "request \<Rightarrow> ident result \<Rightarrow> jsdate \<Rightarrow> db \<Rightarrow> ident result \<times> db" where
  "softDeleteCreditNote req parsed now d =
     (case requireCreditNoteDelete req of
        Inl e \<Rightarrow> (Inl e, d)
      | Inr actor \<Rightarrow>
     (case parsed of
        Inl m \<Rightarrow> (Inl m, d)
      | Inr k \<Rightarrow>
     (case find_id cn_id k (creditNotes d) of
        None \<Rightarrow> (Inl ''creditNotes.errors.notFound'', d)
      | Some existing \<Rightarrow>
          if cn_deletedAt existing \<noteq> None then (Inl ''creditNotes.errors.notFound'', d)
          else
            let d1 = d\<lparr>creditNotes := put_id cn_id k (\<lambda>c. c\<lparr>cn_deletedAt := Some now\<rparr>) (creditNotes d)\<rparr>;
                d2 = resettleInvoiceWrite (cn_invoiceId existing) now d1;
                user = Some (actor_userId actor)
            in (Inr k, emit ''credit_note.deleted'' k user
                  (writeAudit ''credit_note.deleted'' user (Some k) d2)))))"

section \<open>Lemmas\<close>

lemma concerns_add_credit:
  assumes ids: "ids_ok d" and fresh: "cn_id c \<notin> cn_id ` set (creditNotes d)" and pos: "0 \<le> cn_totalCents c"
    and known: "cn_invoiceId c \<in> inv_id ` set (invoices d)"
    and d1: "invoices d1 = invoices d" "payments d1 = payments d" "creditNotes d1 = add_row c (creditNotes d)"
  shows "concerns_only (cn_invoiceId c) d d1"
proof -
  have "distinct (map cn_id (add_row c (creditNotes d)))"
    using ids fresh by (intro credit_note_table.distinct_add) (simp_all add: ids_ok_def)
  then have "ids_ok d1" using ids pos known d1 by (auto simp: ids_ok_def add_row_def)
  then show ?thesis using d1
    by (auto simp: concerns_only_def sumRecordedPayments_def sumCreditedCents_def money_simps live_credit_def
        add_row_def)
qed

lemma concerns_put_credit:
  assumes ids: "ids_ok d" and c: "find_id cn_id k (creditNotes d) = Some c"
    and g: "\<And>x. cn_id (g x) = cn_id x" "\<And>x. cn_invoiceId (g x) = cn_invoiceId x" "\<And>x. cn_totalCents (g x) = cn_totalCents x"
    and d1: "invoices d1 = invoices d" "payments d1 = payments d" "creditNotes d1 = put_id cn_id k g (creditNotes d)"
  shows "concerns_only (cn_invoiceId c) d d1"
proof -
  have dist: "distinct (map cn_id (creditNotes d))" using ids by (simp add: ids_ok_def)
  have cols: "map cn_id (creditNotes d1) = map cn_id (creditNotes d)"
    "map cn_invoiceId (creditNotes d1) = map cn_invoiceId (creditNotes d)"
    "map cn_totalCents (creditNotes d1) = map cn_totalCents (creditNotes d)"
    unfolding d1(3) by (rule map_put_keeps, rule g)+
  have inv: "cn_invoiceId ` set (creditNotes d1) = cn_invoiceId ` set (creditNotes d)"
    using cols(2) by (metis list.set_map)
  have tot: "cn_totalCents ` set (creditNotes d1) = cn_totalCents ` set (creditNotes d)"
    using cols(3) by (metis list.set_map)
  have "\<forall>x\<in>cn_totalCents ` set (creditNotes d). 0 \<le> x" "cn_invoiceId ` set (creditNotes d) \<subseteq> inv_id ` set (invoices d)"
    using ids by (auto simp: ids_ok_def)
  then have "\<forall>x\<in>set (creditNotes d1). 0 \<le> cn_totalCents x \<and> cn_invoiceId x \<in> inv_id ` set (invoices d)"
    unfolding inv [symmetric] tot [symmetric] by (simp add: image_subset_iff)
  then have "ids_ok d1" using ids d1(1,2) cols(1) by (simp add: ids_ok_def)
  moreover have "sumCreditedCents j d1 = sumCreditedCents j d" if "j \<noteq> cn_invoiceId c" for j
    using sum_where_put_id [OF dist c, of "live_credit j" cn_totalCents g] that g(2) [of c]
    by (simp add: sumCreditedCents_def d1(3) live_credit_def)
  ultimately show ?thesis using d1(1,2) inv
    by (simp add: concerns_only_def sumRecordedPayments_def subset_insertI)
qed

text \<open>The re-settlement after a change of the credit notes of one invoice.\<close>

lemma resettle_books:
  assumes ok: "books_ok d" and only: "concerns_only i d d1" and pays: "payments d1 = payments d"
    and drafts: "\<And>r. r \<in> set (invoices d) \<Longrightarrow> inv_id r = i \<Longrightarrow> inv_status r \<noteq> Draft"
  shows "books_ok (resettleInvoiceWrite i now d1)"
proof -
  have inv: "invoices d1 = invoices d" and ids: "ids_ok d1" using only by (simp_all add: concerns_only_def)
  have lock_eq: "lockInvoice i d1 = lockInvoice i d" by (simp add: lockInvoice_def inv)
  show ?thesis
  proof (cases "lockInvoice i d")
    case (Some invoice)
    note row = locked_row [OF ok Some]
    have issued: "inv_status invoice \<noteq> Draft" using drafts row(1,2) by blast
    let ?paid = "sumRecordedPayments i None d1"
    have "?paid \<le> inv_totalCents invoice"
      using locked_paid [OF ok Some] pays by (simp add: sumRecordedPayments_def)
    then have "books_ok (applyInvoiceAggregate invoice ?paid
        (evaluateInvoiceSettlement \<lparr>oi_totalCents = inv_totalCents invoice, oi_amountPaidCents = ?paid,
           oi_creditedCents = sumCreditedCents i d1\<rparr>) now d1)"
      by (intro books_after_settlement [OF ok Some issued only]) simp_all
    then show ?thesis using Some lock_eq issued row(2)
      by (simp add: resettleInvoiceWrite_def decideSettlement_def Let_def)
  next
    case None
    have "books_ok d1"
      unfolding books_ok_def
    proof (intro conjI ballI impI)
      show "ids_ok d1" by (rule ids)
      fix r assume r: "r \<in> set (invoices d1)"
      then have r': "r \<in> set (invoices d)" by (simp add: inv)
      note old = books_row [OF ok r']
      show "aggregate_ok d1 r"
      proof (cases "inv_id r = i")
        case True
        then show ?thesis using old pays drafts [OF r'] by (simp add: aggregate_ok_def sumRecordedPayments_def)
      qed (use old in \<open>simp add: aggregate_ok_other [OF _ only]\<close>)
      assume live: "inv_deletedAt r = None"
      have "inv_id r \<noteq> i"
        using None live r' distinct_lookup [of inv_id "invoices d" r] ok
        by (auto simp: lockInvoice_def books_ok_def ids_ok_def)
      then show "status_ok d1 r" using old live status_ok_other [OF _ only] by blast
    qed
    then show ?thesis using None lock_eq by (simp add: resettleInvoiceWrite_def)
  qed
qed

lemma credited_invoice_issued:
  assumes "books_ok d" "c \<in> set (creditNotes d)" "r \<in> set (invoices d)" "inv_id r = cn_invoiceId c"
  shows "inv_status r \<noteq> Draft"
  using books_row [OF assms(1,3)] assms(2,4) by (auto simp: aggregate_ok_def)

lemma resettle_settings [simp]: "settings (resettleInvoiceWrite i now d) = settings d"
  by (simp add: resettleInvoiceWrite_def applyInvoiceAggregate_def decideSettlement_def Let_def split: option.splits)

lemma resettle_credits [simp]: "creditNotes (resettleInvoiceWrite i now d) = creditNotes d"
  by (simp add: resettleInvoiceWrite_def decideSettlement_def Let_def split: option.splits)

lemma claim_credit_tables:
  "claimCreditNoteNumber d = Inr (n, d1) \<Longrightarrow>
    invoices d1 = invoices d \<and> payments d1 = payments d \<and> creditNotes d1 = creditNotes d"
  by (auto simp: claimCreditNoteNumber_def Let_def split: option.splits)

lemma write_credit_lines_tables [simp]:
  "invoices (writeCreditNoteLineItems s l k items ps d) = invoices d"
  "payments (writeCreditNoteLineItems s l k items ps d) = payments d"
  "creditNotes (writeCreditNoteLineItems s l k items ps d) = creditNotes d"
  "settings (writeCreditNoteLineItems s l k items ps d) = settings d"
  by (simp_all add: writeCreditNoteLineItems_def Let_def)

lemma createCreditNote_books:
  assumes ok: "books_ok d" and fresh: "newId \<notin> cn_id ` set (creditNotes d)"
  shows "books_ok (snd (createCreditNote store req parsed newId lineIds now d))"
proof (cases "fst (createCreditNote store req parsed newId lineIds now d)")
  case (Inl e)
  then show ?thesis using ok
    by (auto simp: createCreditNote_def Let_def split: sum.splits option.splits if_splits)
next
  case (Inr k)
  then obtain actor f invoice ps number d1 where a: "requireCreditNoteWrite req = Inr actor" "parsed = Inr f"
    "lockInvoice (cf_invoiceId f) d = Some invoice" "inv_status invoice \<noteq> Draft"
    "credit_getTaxPercentages (cf_lineItems f) d = Inr ps"
    "0 < cnt_totalCents (calculateCreditNoteTotal (credit_toLineItemInputs (cf_lineItems f) ps))"
    "claimCreditNoteNumber d = Inr (number, d1)"
    by (auto simp: createCreditNote_def Let_def split: sum.splits option.splits if_splits)
  let ?t = "calculateCreditNoteTotal (credit_toLineItemInputs (cf_lineItems f) ps)"
  let ?c = "\<lparr>cn_id = newId, cn_invoiceId = inv_id invoice, cn_number = number,
                    cn_reason = emptyToNull (cf_reason f), cn_currency = inv_currency invoice,
                    cn_subtotalCents = cnt_subtotalCents ?t, cn_taxAmountCents = cnt_taxAmountCents ?t,
                    cn_totalCents = cnt_totalCents ?t, cn_deletedAt = None\<rparr>"
  let ?d = "writeCreditNoteLineItems store lineIds newId (cf_lineItems f) ps (d1\<lparr>creditNotes := add_row ?c (creditNotes d1)\<rparr>)"
  have ids: "ids_ok d" using ok by (simp add: books_ok_def)
  note row = locked_row [OF ok a(3)] and tables = claim_credit_tables [OF a(7)]
  have "concerns_only (cn_invoiceId ?c) d ?d"
    using tables fresh a(6) row(1) by (intro concerns_add_credit [OF ids]) simp_all
  then have only: "concerns_only (inv_id invoice) d ?d" by simp
  have "inv_status r \<noteq> Draft" if "r \<in> set (invoices d)" "inv_id r = inv_id invoice" for r
    using same_id_same_row [OF ok a(3) that(1)] that(2) row(2) a(4) by simp
  then have "books_ok (resettleInvoiceWrite (inv_id invoice) now ?d)"
    using tables by (intro resettle_books [OF ok only]) simp_all
  then show ?thesis using a by (simp add: createCreditNote_def Let_def)
qed

lemma put_credit_books:
  assumes ok: "books_ok d" and find: "find_id cn_id k (creditNotes d) = Some c"
    and g: "\<And>x. cn_id (g x) = cn_id x" "\<And>x. cn_invoiceId (g x) = cn_invoiceId x" "\<And>x. cn_totalCents (g x) = cn_totalCents x"
  shows "books_ok (resettleInvoiceWrite (cn_invoiceId c) now (d\<lparr>creditNotes := put_id cn_id k g (creditNotes d)\<rparr>))"
proof -
  have ids: "ids_ok d" using ok by (simp add: books_ok_def)
  have mem: "c \<in> set (creditNotes d)" using find by (rule credit_note_table.lookup_in)
  have "concerns_only (cn_invoiceId c) d (d\<lparr>creditNotes := put_id cn_id k g (creditNotes d)\<rparr>)"
    by (rule concerns_put_credit [OF ids find]) (simp_all add: g)
  then show ?thesis using credited_invoice_issued [OF ok mem] by (intro resettle_books [OF ok]) simp_all
qed

lemma restoreCreditNote_books:
  "books_ok d \<Longrightarrow> books_ok (snd (restoreCreditNote req parsed now d))"
  using put_credit_books [of d _ _ "\<lambda>c. c\<lparr>cn_deletedAt := None\<rparr>" now]
  by (auto simp: restoreCreditNote_def Let_def simp del: resolveRestoreBlocker.simps split: sum.splits option.splits)

lemma softDeleteCreditNote_books:
  "books_ok d \<Longrightarrow> books_ok (snd (softDeleteCreditNote req parsed now d))"
  using put_credit_books [of d _ _ "\<lambda>c. c\<lparr>cn_deletedAt := Some now\<rparr>" now]
  by (auto simp: softDeleteCreditNote_def Let_def split: sum.splits option.splits)

end
