(* ===== verification/Ledger.thy ===== *)
theory Ledger
  imports CreditNoteActions
begin

text \<open>
  The money core as one transition system: a step is one server action, one Stripe delivery, one run of
  the nightly sweep, or anything another feature does that leaves invoices, their lines, payments and credit notes
  alone. Restoring an invoice from the trash is a step only while the status it was deleted with still
  agrees with its credit notes; the last property shows why the code needs that condition.
  \<open>accounts\<close> is the abstract view of the ledger the writes refine: what each issued invoice asks for,
  what was paid and what was credited.
\<close>

section \<open>Reachable ledgers\<close>

definition lines_of_invoices :: "db \<Rightarrow> line_item_row list" where
  "lines_of_invoices d = filter (\<lambda>l. li_invoiceId l \<noteq> None) (lineItems d)"

definition empty_ledger :: "db \<Rightarrow> bool" where
  "empty_ledger d \<longleftrightarrow> invoices d = [] \<and> payments d = [] \<and> creditNotes d = [] \<and> lines_of_invoices d = []"

definition positive_form :: "payment_form result \<Rightarrow> bool" where
  "positive_form parsed \<longleftrightarrow> (case parsed of Inl m \<Rightarrow> True | Inr f \<Rightarrow> 0 < pf_amount f)"

definition good_invoice_form :: "invoice_form result \<Rightarrow> db \<Rightarrow> bool" where
  "good_invoice_form parsed d \<longleftrightarrow> (case parsed of Inl m \<Rightarrow> True | Inr f \<Rightarrow> valid_invoice_form d f)"

inductive ledger_step :: "db \<Rightarrow> db \<Rightarrow> bool" where
  elsewhere: "invoices d' = invoices d \<Longrightarrow> payments d' = payments d \<Longrightarrow> creditNotes d' = creditNotes d \<Longrightarrow>
    lines_of_invoices d' = lines_of_invoices d \<Longrightarrow> ledger_step d d'"
| record_payment: "positive_form parsed \<Longrightarrow> newId \<notin> pay_id ` set (payments d) \<Longrightarrow>
    ledger_step d (snd (recordPayment req parsed newId d))"
| update_payment: "positive_form parsed \<Longrightarrow> ledger_step d (snd (updatePayment req parsed d))"
| delete_payment: "ledger_step d (snd (softDeletePayment req k now d))"
| restore_payment: "ledger_step d (snd (restorePayment req k now d))"
| webhook: "newId \<notin> pay_id ` set (payments d) \<Longrightarrow> ledger_step d (snd (handleStripeWebhook verify isUuid delivery newId d))"
| checkout: "ledger_step d (snd (startInvoiceCheckout stripe target token d))"
| create_invoice: "good_invoice_form form d \<Longrightarrow> newId \<notin> inv_id ` set (invoices d) \<Longrightarrow>
    ledger_step d (snd (createInvoice store req form newId lineIds token d))"
| update_invoice: "good_invoice_form form d \<Longrightarrow> ledger_step d (snd (updateInvoice store req form lineIds d))"
| send_invoice: "ledger_step d (snd (sendInvoice mail req k now d))"
| mark_paid: "newId \<notin> pay_id ` set (payments d) \<Longrightarrow> ledger_step d (snd (markInvoicePaid req k newId now d))"
| adjust_fee: "ledger_step d (snd (adjustInvoiceLateFee req fee now d))"
| delete_invoice: "ledger_step d (snd (softDeleteInvoice req k now d))"
| restore_invoice: "(\<And>i. k = Inr i \<Longrightarrow> restorable i d) \<Longrightarrow> ledger_step d (snd (restoreInvoice req k d))"
| sweep: "ledger_step d (applyLateFees now d)"
| create_credit: "newId \<notin> cn_id ` set (creditNotes d) \<Longrightarrow>
    ledger_step d (snd (createCreditNote store req credit newId lineIds now d))"
| delete_credit: "ledger_step d (snd (softDeleteCreditNote req k now d))"
| restore_credit: "ledger_step d (snd (restoreCreditNote req k now d))"

inductive reachable :: "db \<Rightarrow> bool" where
  start: "empty_ledger d \<Longrightarrow> reachable d"
| step: "reachable d \<Longrightarrow> ledger_step d d' \<Longrightarrow> reachable d'"

lemma startInvoiceCheckout_tables:
  "invoices (snd (startInvoiceCheckout stripe target token d)) = invoices d"
  "payments (snd (startInvoiceCheckout stripe target token d)) = payments d"
  "creditNotes (snd (startInvoiceCheckout stripe target token d)) = creditNotes d"
  by (simp_all add: startInvoiceCheckout_def Let_def split: checkout_decision.splits option.splits prod.splits)

lemma step_books: "ledger_step d d' \<Longrightarrow> books_ok d \<Longrightarrow> books_ok d'"
proof (induction rule: ledger_step.induct)
  case (elsewhere d' d)
  then show ?case using books_ok_tables [of d' d] by blast
next
  case (checkout d stripe target token)
  then show ?case using books_ok_tables startInvoiceCheckout_tables by blast
next
  case (record_payment parsed newId d req)
  then show ?case by (intro recordPayment_books) (auto simp: positive_form_def)
next
  case (update_payment parsed d req)
  then show ?case by (intro updatePayment_books) (auto simp: positive_form_def)
next
  case (create_invoice form d newId store req lineIds token)
  then show ?case by (intro createInvoice_books) (auto simp: good_invoice_form_def)
next
  case (update_invoice form d store req lineIds)
  then show ?case by (intro updateInvoice_books) (auto simp: good_invoice_form_def)
next
  case (restore_invoice k d req)
  then show ?case by (intro restoreInvoice_books)
qed (intro softDeletePayment_books restorePayment_books handleStripeWebhook_books sendInvoice_books
    markInvoicePaid_books adjustInvoiceLateFee_books softDeleteInvoice_books applyLateFees_books
    createCreditNote_books softDeleteCreditNote_books restoreCreditNote_books; assumption)+

lemma reachable_books: "reachable d \<Longrightarrow> books_ok d"
proof (induction rule: reachable.induct)
  case (start d)
  then show ?case by (simp add: empty_ledger_def books_ok_def ids_ok_def)
next
  case (step d d')
  then show ?case using step_books by blast
qed

section \<open>The abstract accounts\<close>

record account =
  acc_total :: int
  acc_paid :: int
  acc_credited :: int

definition accounts :: "db \<Rightarrow> ident \<Rightarrow> account option" where
  "accounts d i =
     (case lockInvoice i d of
        None \<Rightarrow> None
      | Some r \<Rightarrow>
          if inv_status r = Draft then None
          else Some \<lparr>acc_total = inv_totalCents r, acc_paid = sumRecordedPayments i None d,
                     acc_credited = sumCreditedCents i d\<rparr>)"

text \<open>Paying into an account: accepted exactly when it is open and the amount fits.\<close>

definition acc_pay :: "ident \<Rightarrow> int \<Rightarrow> (ident \<Rightarrow> account option) \<Rightarrow> (ident \<Rightarrow> account option)" where
  "acc_pay i amount m =
     (case m i of
        None \<Rightarrow> m
      | Some a \<Rightarrow> if acc_paid a + amount \<le> acc_total a then m(i \<mapsto> a\<lparr>acc_paid := acc_paid a + amount\<rparr>) else m)"

definition acc_refund :: "ident \<Rightarrow> int \<Rightarrow> (ident \<Rightarrow> account option) \<Rightarrow> (ident \<Rightarrow> account option)" where
  "acc_refund i amount m = (case m i of None \<Rightarrow> m | Some a \<Rightarrow> m(i \<mapsto> a\<lparr>acc_paid := acc_paid a - amount\<rparr>))"

definition acc_settle :: "ident \<Rightarrow> (ident \<Rightarrow> account option) \<Rightarrow> (ident \<Rightarrow> account option)" where
  "acc_settle i m =
     (case m i of
        None \<Rightarrow> m
      | Some a \<Rightarrow> acc_pay i (max (acc_total a - acc_credited a - acc_paid a) 0) m)"

lemma lock_other:
  "lockInvoice i d = Some invoice \<Longrightarrow> j \<noteq> i \<Longrightarrow> invoices d1 = invoices d \<Longrightarrow>
    lockInvoice j (applyInvoiceAggregate invoice a s t d1) = lockInvoice j d"
  using lockInvoice_id [of i d invoice]
  by (simp add: lockInvoice_def applyInvoiceAggregate_def Let_def find_id_put)

lemma accounts_after_settlement:
  assumes lock: "lockInvoice i d = Some invoice" and issued: "inv_status invoice \<noteq> Draft" and only: "concerns_only i d d1"
  shows "accounts (applyInvoiceAggregate invoice a s t d1)
    = (accounts d)(i \<mapsto> \<lparr>acc_total = inv_totalCents invoice, acc_paid = sumRecordedPayments i None d1,
                         acc_credited = sumCreditedCents i d1\<rparr>)"
proof
  fix j
  have inv: "invoices d1 = invoices d" using only by (simp add: concerns_only_def)
  show "accounts (applyInvoiceAggregate invoice a s t d1) j
    = ((accounts d)(i \<mapsto> \<lparr>acc_total = inv_totalCents invoice, acc_paid = sumRecordedPayments i None d1,
                         acc_credited = sumCreditedCents i d1\<rparr>)) j"
  proof (cases "j = i")
    case True
    then show ?thesis using lock_after_aggregate [OF lock inv, of a s t] resolved_status(1) [OF issued]
      by (simp add: accounts_def settled_row_def)
  next
    case False
    moreover have "sumRecordedPayments j None d1 = sumRecordedPayments j None d" "sumCreditedCents j d1 = sumCreditedCents j d"
      using only False by (simp_all add: concerns_only_def)
    ultimately show ?thesis using lock_other [OF lock False inv] by (simp add: accounts_def split: option.splits)
  qed
qed

lemma accounts_open:
  "lockInvoice i d = Some invoice \<Longrightarrow> inv_status invoice \<noteq> Draft \<Longrightarrow>
    accounts d i = Some \<lparr>acc_total = inv_totalCents invoice, acc_paid = sumRecordedPayments i None d,
                         acc_credited = sumCreditedCents i d\<rparr>"
  by (simp add: accounts_def)

lemma addPayment_refines:
  assumes ok: "books_ok d" and lock: "lockInvoice i d = Some invoice" and issued: "inv_status invoice \<noteq> Draft"
    and fresh: "newId \<notin> pay_id ` set (payments d)" and pos: "0 < pv_amountCents v"
    and intent: "pv_stripePaymentIntentId v = None"
  shows "accounts (snd (addPayment newId invoice v d)) = acc_pay i (pv_amountCents v) (accounts d)"
proof -
  note i = locked_row(2) [OF ok lock] and acc = accounts_open [OF lock issued]
  let ?paid = "sumRecordedPayments i None d + pv_amountCents v"
  let ?s = "evaluateInvoiceSettlement \<lparr>oi_totalCents = inv_totalCents invoice, oi_amountPaidCents = ?paid,
      oi_creditedCents = sumCreditedCents i d\<rparr>"
  let ?p = "\<lparr>pay_id = newId, pay_invoiceId = i, pay_method = pv_method v,
      pay_amountCents = pv_amountCents v, pay_currency = inv_currency invoice,
      pay_paidAt = pv_paidAt v, pay_reference = pv_reference v,
      pay_stripePaymentIntentId = pv_stripePaymentIntentId v, pay_notes = pv_notes v, pay_deletedAt = None\<rparr>"
  let ?d = "d\<lparr>payments := add_row ?p (payments d)\<rparr>"
  have over: "(\<exists>x. ?s = Overpaid x) \<longleftrightarrow> \<not> ?paid \<le> inv_totalCents invoice"
    using overpaid_iff by (metis not_less outstanding_input.select_convs(1,2))
  show ?thesis
  proof (cases "?paid \<le> inv_totalCents invoice")
    case True
    have ids: "ids_ok d" using ok by (simp add: books_ok_def)
    have add: "concerns_only i d ?d" "sumRecordedPayments i None ?d = ?paid"
      using concerns_add_payment [OF ids, of ?p i] fresh pos intent invoice_id_known [OF lock] by simp_all
    have credits: "sumCreditedCents i ?d = sumCreditedCents i d" by (rule concerns_credits [OF add(1)]) simp
    have "snd (addPayment newId invoice v d) = applyInvoiceAggregate invoice ?paid ?s (pv_paidAt v) ?d"
      using over True i by (simp add: addPayment_def decideSettlement_def Let_def)
    then have "accounts (snd (addPayment newId invoice v d))
        = (accounts d)(i \<mapsto> \<lparr>acc_total = inv_totalCents invoice, acc_paid = ?paid, acc_credited = sumCreditedCents i d\<rparr>)"
      by (simp only: accounts_after_settlement [OF lock issued add(1)] add(2) credits)
    then show ?thesis using acc True by (simp add: acc_pay_def)
  next
    case False
    then have "snd (addPayment newId invoice v d) = d" using over i by (auto simp: addPayment_def decideSettlement_def Let_def)
    then show ?thesis using acc False by (simp add: acc_pay_def)
  qed
qed

lemma accounts_closed: "accounts d i = None \<longleftrightarrow> (\<forall>r. lockInvoice i d = Some r \<longrightarrow> inv_status r = Draft)"
  by (auto simp: accounts_def split: option.splits)

lemma recordPaymentWrite_refines:
  assumes ok: "books_ok d" and fresh: "newId \<notin> pay_id ` set (payments d)" and pos: "0 < pv_amountCents v"
  shows "accounts (snd (recordPaymentWrite newId i v d)) = acc_pay i (pv_amountCents v) (accounts d)"
proof (cases "accounts d i")
  case None
  then show ?thesis using iffD1 [OF accounts_closed None]
    by (auto simp: recordPaymentWrite_def acc_pay_def split: option.splits)
next
  case (Some a)
  then obtain r where r: "lockInvoice i d = Some r" "inv_status r \<noteq> Draft" using accounts_closed [of d i] by auto
  then show ?thesis
    using addPayment_refines [OF ok r fresh, of "v\<lparr>pv_stripePaymentIntentId := None\<rparr>"] pos
    by (simp add: recordPaymentWrite_def)
qed

lemma settleInvoiceWrite_refines:
  assumes ok: "books_ok d" and fresh: "newId \<notin> pay_id ` set (payments d)"
  shows "accounts (snd (settleInvoiceWrite newId i method t d)) = acc_settle i (accounts d)"
proof (cases "accounts d i")
  case None
  then show ?thesis using iffD1 [OF accounts_closed None]
    by (auto simp: settleInvoiceWrite_def acc_settle_def split: option.splits)
next
  case (Some a)
  then obtain r where r: "lockInvoice i d = Some r" "inv_status r \<noteq> Draft" using accounts_closed [of d i] by auto
  note id = locked_row(2) [OF ok r(1)] and acc = accounts_open [OF r]
  let ?out = "max (inv_totalCents r - sumCreditedCents i d - sumRecordedPayments i None d) 0"
  show ?thesis
  proof (cases "?out \<le> 0")
    case True
    then have z: "?out = 0" by linarith
    have "(accounts d)(i \<mapsto> a) = accounts d" using Some by auto
    then have "acc_settle i (accounts d) = accounts d"
      using acc Some z locked_paid [OF ok r(1)] by (simp add: acc_settle_def acc_pay_def)
    then show ?thesis using r id z by (simp add: settleInvoiceWrite_def getInvoiceOutstandingCents_def)
  next
    case False
    let ?v = "\<lparr>pv_method = method, pv_amountCents = ?out, pv_paidAt = t, pv_reference = None, pv_notes = None,
        pv_stripePaymentIntentId = None\<rparr>"
    have "accounts (snd (addPayment newId r ?v d)) = acc_pay i ?out (accounts d)"
      using addPayment_refines [OF ok r fresh, of ?v] False by simp
    then show ?thesis using r id False acc
      by (simp add: settleInvoiceWrite_def getInvoiceOutstandingCents_def Let_def acc_settle_def)
  qed
qed

lemma softDeletePaymentWrite_refines:
  assumes ok: "books_ok d" and del: "softDeletePaymentWrite k now d = (Applied a, d1)"
  shows "accounts d1 = acc_refund (ap_invoiceId a) (ap_amountCents a) (accounts d)"
proof -
  obtain p invoice where p: "findPaymentInvoiceId k d = Some p"
    and lock: "lockInvoice (pay_invoiceId p) d = Some invoice"
    using del by (auto simp: softDeletePaymentWrite_def Let_def split: option.splits)
  let ?i = "pay_invoiceId p" and ?g = "\<lambda>p. p\<lparr>pay_deletedAt := Some now\<rparr>"
  let ?d = "d\<lparr>payments := put_id pay_id k ?g (payments d)\<rparr>"
  have ids: "ids_ok d" using ok by (simp add: books_ok_def)
  have found: "find_id pay_id k (payments d) = Some p" "pay_deletedAt p = None" using p by (simp_all add: findPayment_Some)
  have mem: "p \<in> set (payments d)" using found(1) by (rule payment_table.lookup_in)
  then have pos: "0 < pay_amountCents p" using ids by (auto simp: ids_ok_def)
  note i = locked_row(2) [OF ok lock]
  have issued: "inv_status invoice \<noteq> Draft" using issued_of_payment [OF ok lock mem] by simp
  have put: "concerns_only ?i d ?d" "sumRecordedPayments ?i None ?d = sumRecordedPayments ?i None d - pay_amountCents p"
    using concerns_put_payment [OF ids found(1) refl, of ?g] pos found(2) by simp_all
  have credits: "sumCreditedCents ?i ?d = sumCreditedCents ?i d" by (rule concerns_credits [OF put(1)]) simp
  obtain s where d1: "d1 = applyInvoiceAggregate invoice (sumRecordedPayments ?i None ?d) s now ?d"
    and a: "ap_invoiceId a = ?i" "ap_amountCents a = pay_amountCents p"
    using del p lock i by (auto simp: softDeletePaymentWrite_def decideSettlement_def Let_def toAppliedPayment_def)
  show ?thesis
    unfolding d1 a accounts_after_settlement [OF lock issued put(1)] put(2) credits
    using accounts_open [OF lock issued] by (simp add: acc_refund_def)
qed

lemma createCreditNote_result:
  assumes "createCreditNote store req parsed newId lineIds now d = (Inr k, d1)"
  shows "\<exists>f invoice ps number d0. parsed = Inr f \<and> k = newId \<and> lockInvoice (cf_invoiceId f) d = Some invoice
    \<and> inv_status invoice \<noteq> Draft \<and> credit_getTaxPercentages (cf_lineItems f) d = Inr ps
    \<and> 0 < cnt_totalCents (calculateCreditNoteTotal (credit_toLineItemInputs (cf_lineItems f) ps))
    \<and> claimCreditNoteNumber d = Inr (number, d0)
    \<and> (let t = calculateCreditNoteTotal (credit_toLineItemInputs (cf_lineItems f) ps);
           c = \<lparr>cn_id = newId, cn_invoiceId = cf_invoiceId f, cn_number = number, cn_reason = emptyToNull (cf_reason f),
                cn_currency = inv_currency invoice, cn_subtotalCents = cnt_subtotalCents t,
                cn_taxAmountCents = cnt_taxAmountCents t, cn_totalCents = cnt_totalCents t, cn_deletedAt = None\<rparr>;
           d' = writeCreditNoteLineItems store lineIds newId (cf_lineItems f) ps (d0\<lparr>creditNotes := add_row c (creditNotes d0)\<rparr>);
           d2 = resettleInvoiceWrite (cf_invoiceId f) now d'
       in invoices d1 = invoices d2 \<and> payments d1 = payments d2 \<and> creditNotes d1 = creditNotes d2
          \<and> lineItems d1 = lineItems d2 \<and> settings d1 = settings d2)"
  using assms
  by (auto simp: createCreditNote_def Let_def dest: lockInvoice_id split: sum.splits option.splits if_splits)

lemma accounts_cong:
  "invoices d' = invoices d \<Longrightarrow> payments d' = payments d \<Longrightarrow> creditNotes d' = creditNotes d \<Longrightarrow> accounts d' = accounts d"
  by (rule ext) (simp add: accounts_def lockInvoice_def sumRecordedPayments_def sumCreditedCents_def
      split: option.splits)

lemma resettle_refines:
  assumes lock: "lockInvoice i d = Some invoice" and issued: "inv_status invoice \<noteq> Draft" and only: "concerns_only i d d1"
  shows "accounts (resettleInvoiceWrite i now d1)
    = (accounts d)(i \<mapsto> \<lparr>acc_total = inv_totalCents invoice, acc_paid = sumRecordedPayments i None d1,
                         acc_credited = sumCreditedCents i d1\<rparr>)"
proof -
  have "lockInvoice i d1 = Some invoice" using lock only by (simp add: lockInvoice_def concerns_only_def)
  then show ?thesis using issued lockInvoice_id [OF lock] accounts_after_settlement [OF lock issued only]
    by (simp add: resettleInvoiceWrite_def decideSettlement_def Let_def)
qed

lemma resettle_lines [simp]:
  "lineItems (resettleInvoiceWrite i now d) = lineItems d" "payments (resettleInvoiceWrite i now d) = payments d"
  by (simp_all add: resettleInvoiceWrite_def applyInvoiceAggregate_def decideSettlement_def Let_def split: option.splits)

lemma claim_credit_lines: "claimCreditNoteNumber d = Inr (n, d0) \<Longrightarrow> lineItems d0 = lineItems d"
  by (auto simp: claimCreditNoteNumber_def Let_def split: option.splits)

lemma credit_lines_written:
  assumes "\<forall>l\<in>set (lineItems d). li_creditNoteId l \<noteq> Some k"
  shows "map li_totalCents (filter (\<lambda>l. li_creditNoteId l = Some k) (lineItems (writeCreditNoteLineItems s ids k items ps d)))
    = map lt_totalCents (calculateCreditNoteLineTotals (credit_toLineItemInputs items ps))"
proof -
  let ?ts = "calculateCreditNoteLineTotals (credit_toLineItemInputs items ps)"
  let ?rows = "map (\<lambda>(j, i). credit_line_row s k (ids j) (int j) ps i (nth_totals ?ts j)) (zip [0..<length items] items)"
  have "filter (\<lambda>l. li_creditNoteId l = Some k) (lineItems d) = []" using assms by (auto simp: filter_empty_conv)
  moreover have "filter (\<lambda>l. li_creditNoteId l = Some k) ?rows = ?rows"
    by (auto simp: filter_id_conv credit_line_row_def)
  ultimately have "filter (\<lambda>l. li_creditNoteId l = Some k) (lineItems (writeCreditNoteLineItems s ids k items ps d)) = ?rows"
    by (simp add: writeCreditNoteLineItems_def Let_def)
  moreover have "length ?ts = length items"
    by (simp add: calculateCreditNoteLineTotals_def credit_allocate_def credit_toLineItemInputs_def)
  ultimately show ?thesis
    by (intro nth_equalityI) (simp_all add: credit_line_row_def nth_totals_def)
qed

section \<open>Properties\<close>


definition base_db :: db where
  "base_db = sample_db\<lparr>invoices := [], payments := [], lineItems := []\<rparr>"

definition first_invoice_db :: db where
  "first_invoice_db = snd (createInvoice id owner_request (Inr sample_project_form) ''i2'' fresh_line_id ''tok2'' base_db)"

lemma base_form: "valid_invoice_form base_db sample_project_form"
proof -
  have items: "toLineItemInputs (if_lineItems sample_project_form) []
      = [\<lparr>quantity = 2, unitPriceCents = 505, line_discount = None, taxPercentage = 0\<rparr>]"
    by (simp add: sample_project_form_def sample_invoice_form_def toLineItemInputs_def getTaxPercentage_def)
  have ps: "getTaxPercentages (if_lineItems sample_project_form) base_db = Inr []"
    by (simp add: sample_project_form_def sample_invoice_form_def getTaxPercentages_def wanted_tax_rates_def
        List.map_filter_simps)
  have "valid_items [\<lparr>quantity = 2, unitPriceCents = 505, line_discount = None, taxPercentage = 0\<rparr>] None" by code_simp
  then show ?thesis
    unfolding valid_invoice_form_def ps sum.case items
    by (simp add: sample_project_form_def sample_invoice_form_def)
qed

lemma first_invoice_reachable: "reachable first_invoice_db" "invoices first_invoice_db \<noteq> []"
proof -
  have "reachable base_db" by (rule reachable.start) (simp add: empty_ledger_def lines_of_invoices_def base_db_def sample_defs)
  moreover have "ledger_step base_db first_invoice_db"
    unfolding first_invoice_db_def
    by (rule ledger_step.create_invoice) (simp_all add: good_invoice_form_def base_form, simp add: base_db_def)
  ultimately show "reachable first_invoice_db" by (rule reachable.step)
  have "getTaxPercentages (if_lineItems sample_project_form) base_db = Inr []"
    by (simp add: sample_project_form_def sample_invoice_form_def getTaxPercentages_def wanted_tax_rates_def
        List.map_filter_simps)
  then have "\<exists>k. fst (createInvoice id owner_request (Inr sample_project_form) ''i2'' fresh_line_id ''tok2'' base_db) = Inr k"
    by (simp add: createInvoice_def owner_request_def requireInvoiceWrite_def require_role_def getActionContext_def
        sample_project_form_def sample_invoice_form_def live_project_def base_db_def sample_defs row_simps Let_def
        claimInvoiceNumber_def)
  then obtain k where "createInvoice id owner_request (Inr sample_project_form) ''i2'' fresh_line_id ''tok2'' base_db
      = (Inr k, first_invoice_db)" unfolding first_invoice_db_def by (metis prod.collapse)
  from createInvoice_result [OF this] show "invoices first_invoice_db \<noteq> []" by (auto simp: add_row_def)
qed


text \<open>
  C3. The payment writes implement the abstract accounts: seen through \<open>accounts\<close>, recording a payment
  is \<open>acc_pay\<close> (accepted exactly when the account is open and the amount fits), settling is paying the
  difference, deleting is refunding what the payment was, and the stored status of every open account
  is \<open>paid\<close> exactly when the account is covered.
\<close>

theorem payment_writes_refine_accounts:
  assumes "books_ok d" and "newId \<notin> pay_id ` set (payments d)" and "0 < pv_amountCents v"
  shows "accounts (snd (recordPaymentWrite newId i v d)) = acc_pay i (pv_amountCents v) (accounts d)
    \<and> accounts (snd (settleInvoiceWrite newId i method t d)) = acc_settle i (accounts d)
    \<and> (case softDeletePaymentWrite k t d of
         (Applied a, d1) \<Rightarrow> accounts d1 = acc_refund (ap_invoiceId a) (ap_amountCents a) (accounts d)
       | (Rejected_write e, d1) \<Rightarrow> accounts d1 = accounts d)
    \<and> (\<forall>r a. lockInvoice i d = Some r \<longrightarrow> accounts d i = Some a \<longrightarrow>
         (inv_status r = Paid \<longleftrightarrow> 0 < acc_total a \<and> acc_total a \<le> acc_credited a + acc_paid a))"
proof (intro conjI allI impI)
  show "accounts (snd (recordPaymentWrite newId i v d)) = acc_pay i (pv_amountCents v) (accounts d)"
    by (rule recordPaymentWrite_refines [OF assms])
  show "accounts (snd (settleInvoiceWrite newId i method t d)) = acc_settle i (accounts d)"
    by (rule settleInvoiceWrite_refines [OF assms(1,2)])
  show "case softDeletePaymentWrite k t d of
         (Applied a, d1) \<Rightarrow> accounts d1 = acc_refund (ap_invoiceId a) (ap_amountCents a) (accounts d)
       | (Rejected_write e, d1) \<Rightarrow> accounts d1 = accounts d"
    using softDeletePaymentWrite_refines [OF assms(1), of k t] rejected_writes_change_nothing(4) [of k t d]
    by (auto split: prod.splits write_result.splits)
next
  fix r a assume l: "lockInvoice i d = Some r" and a: "accounts d i = Some a"
  have issued: "inv_status r \<noteq> Draft" using a l by (auto simp: accounts_def)
  have acc: "acc_total a = inv_totalCents r" "acc_paid a = inv_amountPaidCents r" "acc_credited a = sumCreditedCents i d"
    using accounts_open [OF l issued] a locked_paid [OF assms(1) l] by simp_all
  show "inv_status r = Paid \<longleftrightarrow> 0 < acc_total a \<and> acc_total a \<le> acc_credited a + acc_paid a"
    using locked_row [OF assms(1) l] issued unfolding acc
    by (auto simp: status_ok_def settled_amounts_iff aggregate_ok_def)
qed

lemma payment_writes_refine_accounts_witness:
  "accounts sample_db ''i1'' = Some \<lparr>acc_total = 1000, acc_paid = 300, acc_credited = 0\<rparr>
   \<and> accounts (snd (recordPaymentWrite ''pay2'' ''i1'' sample_values sample_db)) ''i1''
       = Some \<lparr>acc_total = 1000, acc_paid = 1000, acc_credited = 0\<rparr>"
proof -
  have a: "accounts sample_db ''i1'' = Some \<lparr>acc_total = 1000, acc_paid = 300, acc_credited = 0\<rparr>" by code_simp
  have "''pay2'' \<notin> pay_id ` set (payments sample_db)" "0 < pv_amountCents sample_values"
    by (simp_all add: sample_defs sample_values_def)
  from payment_writes_refine_accounts [OF sample_books this]
  have "accounts (snd (recordPaymentWrite ''pay2'' ''i1'' sample_values sample_db)) = acc_pay ''i1'' 700 (accounts sample_db)"
    by (simp add: sample_values_def)
  then show ?thesis using a by (simp add: acc_pay_def)
qed

text \<open>
  C20. Issuing a credit note credits exactly its invoice: the account's credited amount grows by the
  note's positive total and no other account moves, no payment is touched, the stored lines of the note
  add up to its total, its number is minted from the counter, which moves on by one, and the books hold.
\<close>

theorem credit_note_credits_its_invoice:
  assumes "books_ok d" and "newId \<notin> cn_id ` set (creditNotes d)" and "\<forall>l\<in>set (lineItems d). li_creditNoteId l \<noteq> Some newId"
    and "createCreditNote store req (Inr f) newId lineIds now d = (Inr k, d1)"
  shows "\<exists>c a s. find_id cn_id k (creditNotes d1) = Some c \<and> cn_invoiceId c = cf_invoiceId f \<and> 0 < cn_totalCents c
    \<and> accounts d (cf_invoiceId f) = Some a
    \<and> accounts d1 = (accounts d)(cf_invoiceId f \<mapsto> a\<lparr>acc_credited := acc_credited a + cn_totalCents c\<rparr>)
    \<and> payments d1 = payments d
    \<and> sum_list (map li_totalCents (filter (\<lambda>l. li_creditNoteId l = Some k) (lineItems d1))) = cn_totalCents c
    \<and> settings d = Some s \<and> settings d1 = Some (s\<lparr>set_nextCreditNoteNumber := set_nextCreditNoteNumber s + 1\<rparr>)
    \<and> cn_number c = generateCreditNoteNumber (set_creditNotePrefix s) (set_numberPaddingWidth s) (set_nextCreditNoteNumber s)
    \<and> books_ok d1"
proof -
  from createCreditNote_result [OF assms(4)] obtain invoice ps number d0 where
    k: "k = newId" and lock: "lockInvoice (cf_invoiceId f) d = Some invoice" and issued: "inv_status invoice \<noteq> Draft"
    and pos: "0 < cnt_totalCents (calculateCreditNoteTotal (credit_toLineItemInputs (cf_lineItems f) ps))"
    and claim: "claimCreditNoteNumber d = Inr (number, d0)"
    and eq: "let t = calculateCreditNoteTotal (credit_toLineItemInputs (cf_lineItems f) ps);
           c = \<lparr>cn_id = newId, cn_invoiceId = cf_invoiceId f, cn_number = number, cn_reason = emptyToNull (cf_reason f),
                cn_currency = inv_currency invoice, cn_subtotalCents = cnt_subtotalCents t,
                cn_taxAmountCents = cnt_taxAmountCents t, cn_totalCents = cnt_totalCents t, cn_deletedAt = None\<rparr>;
           d' = writeCreditNoteLineItems store lineIds newId (cf_lineItems f) ps (d0\<lparr>creditNotes := add_row c (creditNotes d0)\<rparr>);
           d2 = resettleInvoiceWrite (cf_invoiceId f) now d'
       in invoices d1 = invoices d2 \<and> payments d1 = payments d2 \<and> creditNotes d1 = creditNotes d2
          \<and> lineItems d1 = lineItems d2 \<and> settings d1 = settings d2" by auto
  let ?i = "cf_invoiceId f" and ?t = "calculateCreditNoteTotal (credit_toLineItemInputs (cf_lineItems f) ps)"
  let ?c = "\<lparr>cn_id = newId, cn_invoiceId = ?i, cn_number = number, cn_reason = emptyToNull (cf_reason f),
                cn_currency = inv_currency invoice, cn_subtotalCents = cnt_subtotalCents ?t,
                cn_taxAmountCents = cnt_taxAmountCents ?t, cn_totalCents = cnt_totalCents ?t, cn_deletedAt = None\<rparr>"
  let ?d' = "writeCreditNoteLineItems store lineIds newId (cf_lineItems f) ps (d0\<lparr>creditNotes := add_row ?c (creditNotes d0)\<rparr>)"
  let ?d2 = "resettleInvoiceWrite ?i now ?d'"
  have d1: "invoices d1 = invoices ?d2" "payments d1 = payments ?d2" "creditNotes d1 = creditNotes ?d2"
    "lineItems d1 = lineItems ?d2" "settings d1 = settings ?d2" using eq by (simp_all only: Let_def)
  note t0 = claim_credit_tables [OF claim]
  have ids: "ids_ok d" using assms(1) by (simp add: books_ok_def)
  have only: "concerns_only ?i d ?d'"
    using concerns_add_credit [OF ids, of ?c ?d'] assms(2) pos t0 invoice_id_known [OF lock] by simp
  have sums: "sumRecordedPayments ?i None ?d' = sumRecordedPayments ?i None d"
    "sumCreditedCents ?i ?d' = sumCreditedCents ?i d + cnt_totalCents ?t"
    using t0 by (simp_all add: sumRecordedPayments_def sumCreditedCents_def sum_where_add_row live_credit_def)
  have "accounts d1 = accounts ?d2" using d1 by (intro accounts_cong)
  then have acc: "accounts d1 = (accounts d)(?i \<mapsto> \<lparr>acc_total = inv_totalCents invoice,
      acc_paid = sumRecordedPayments ?i None d, acc_credited = sumCreditedCents ?i d + cnt_totalCents ?t\<rparr>)"
    using resettle_refines [OF lock issued only, of now] sums by simp
  have find: "find_id cn_id newId (creditNotes d1) = Some ?c"
    using credit_note_table.lookup_add_fresh [of ?c "creditNotes d"] assms(2) t0 d1(3) by simp
  have "sum_list (map li_totalCents (filter (\<lambda>l. li_creditNoteId l = Some newId) (lineItems d1))) = cnt_totalCents ?t"
    using credit_lines_written [of "d0\<lparr>creditNotes := add_row ?c (creditNotes d0)\<rparr>" newId store lineIds "cf_lineItems f" ps]
      assms(3) claim_credit_lines [OF claim] d1(4) credit_lines_sum by simp
  moreover obtain s where "settings d = Some s" "settings d1 = Some (s\<lparr>set_nextCreditNoteNumber := set_nextCreditNoteNumber s + 1\<rparr>)"
    "number = generateCreditNoteNumber (set_creditNotePrefix s) (set_numberPaddingWidth s) (set_nextCreditNoteNumber s)"
    using claim d1(5) by (auto simp: claimCreditNoteNumber_def Let_def split: option.splits)
  moreover have "books_ok d1" using createCreditNote_books [OF assms(1,2), of store req "Inr f" lineIds now] assms(4) by simp
  moreover have "payments d1 = payments d" using d1(2) t0 by simp
  ultimately show ?thesis using k pos find acc accounts_open [OF lock issued]
    by (intro exI [of _ ?c] exI [of _ "\<lparr>acc_total = inv_totalCents invoice,
        acc_paid = sumRecordedPayments ?i None d, acc_credited = sumCreditedCents ?i d\<rparr>"] exI [of _ s]) simp
qed

definition sample_credit_form :: credit_note_form where
  "sample_credit_form = \<lparr>cf_invoiceId = ''i1'', cf_reason = ''Returned'',
     cf_lineItems = [\<lparr>lf_description = ''Design'', lf_unit = ''h'', lf_quantity = 1, lf_unitPrice = 700,
        lf_discount = \<lparr>dv_kind = KindNone, dv_percentage = None, dv_amount = None\<rparr>, lf_taxRateId = None\<rparr>]\<rparr>"

lemma credit_note_credits_its_invoice_witness:
  "\<exists>k d1. createCreditNote id owner_request (Inr sample_credit_form) ''c1'' fresh_line_id 1700265600000 sample_db = (Inr k, d1)
    \<and> payments d1 = payments sample_db \<and> books_ok d1"
proof -
  have "fst (createCreditNote id owner_request (Inr sample_credit_form) ''c1'' fresh_line_id 1700265600000 sample_db) = Inr ''c1''"
    by code_simp
  then obtain d1 where c: "createCreditNote id owner_request (Inr sample_credit_form) ''c1'' fresh_line_id 1700265600000 sample_db
      = (Inr ''c1'', d1)" by (metis prod.collapse)
  have "''c1'' \<notin> cn_id ` set (creditNotes sample_db)" "\<forall>l\<in>set (lineItems sample_db). li_creditNoteId l \<noteq> Some ''c1''"
    by (simp_all add: sample_defs)
  from credit_note_credits_its_invoice [OF sample_books this c] c show ?thesis by blast
qed

text \<open>
  C23. The trash can leave a paid invoice that is not paid for: there is a balanced ledger in which an
  owner, deleting an invoice settled by a credit note, withdrawing that credit note and then restoring
  the invoice, succeeds three times and ends with an invoice marked \<open>paid\<close> that still asks for money.
  Restoring re-decides nothing, and the withdrawal could not lock the deleted invoice.
\<close>

definition credited_db :: db where
  "credited_db = sample_db\<lparr>
     invoices := [sample_invoice\<lparr>inv_status := Paid, inv_paidAt := Some 1700265600000\<rparr>],
     creditNotes := [\<lparr>cn_id = ''c1'', cn_invoiceId = ''i1'', cn_number = ''CN-0001'', cn_reason = None,
       cn_currency = ''EUR'', cn_subtotalCents = 700, cn_taxAmountCents = 0, cn_totalCents = 700, cn_deletedAt = None\<rparr>]\<rparr>"

definition after_trash :: "ident result \<times> db" where
  "after_trash = restoreInvoice owner_request (Inr ''i1'')
     (snd (softDeleteCreditNote owner_request (Inr ''c1'') 1700352100000
       (snd (softDeleteInvoice owner_request (Inr ''i1'') 1700352000000 credited_db))))"

theorem restored_invoice_may_be_paid_and_owed:
  "books_ok credited_db \<and> fst after_trash = Inr ''i1''
   \<and> (\<exists>r. lockInvoice ''i1'' (snd after_trash) = Some r \<and> inv_status r = Paid
        \<and> 0 < getInvoiceOutstandingCents
              \<lparr>oi_totalCents = inv_totalCents r, oi_amountPaidCents = inv_amountPaidCents r,
               oi_creditedCents = sumCreditedCents ''i1'' (snd after_trash)\<rparr>)"
proof -
  have "books_ok credited_db"
    by (simp add: credited_db_def sample_defs books_ok_def ids_ok_def aggregate_ok_def status_ok_def sumRecordedPayments_def
        sumCreditedCents_def money_simps live_payment_def live_credit_def settled_amounts_iff)
  moreover have "fst after_trash = Inr ''i1''" by code_simp
  moreover have "map_option (\<lambda>r. (inv_status r, inv_totalCents r, inv_amountPaidCents r)) (lockInvoice ''i1'' (snd after_trash))
      = Some (Paid, 1000, 300)" by code_simp
  moreover have "sumCreditedCents ''i1'' (snd after_trash) = 0" by code_simp
  ultimately show ?thesis by (auto simp: getInvoiceOutstandingCents_def)
qed

end
