(* ===== verification/Billing.thy ===== *)
theory Billing
  imports TimeTracking "HOL-Library.List_Lexorder" "HOL-Library.Char_ord"
begin

text \<open>
  Turning logged time and rebillable expenses into invoice lines (\<open>features/invoices/billing.ts\<close> and
  \<open>services/billableConversion.ts\<close>): the plan, which is a pure function of the selected rows, and the action
  that confirms it, writes the lines to a new or an existing draft and stamps the source rows. The
  transaction is one step; a throw inside it gives back the workspace it started from.
\<close>

section \<open>Planning\<close>

datatype grouping = By_entry | By_task | By_project

record billable_time =
  bt_id :: ident
  bt_clientId :: ident
  bt_projectId :: ident
  bt_projectName :: string
  bt_taskId :: "ident option"
  bt_taskTitle :: "string option"
  bt_description :: string
  bt_durationSeconds :: int
  bt_rateCents :: int
  bt_currency :: string

record billable_expense =
  be_id :: ident
  be_clientId :: ident
  be_projectId :: "ident option"
  be_description :: string
  be_rebillableCents :: int
  be_descriptionSuffix :: "string option"
  be_currency :: string

record line_draft =
  ld_description :: string
  ld_unit :: "string option"
  ld_quantity :: jsnum
  ld_unitPriceCents :: int
  ld_sourceTimeEntryId :: "ident option"
  ld_sourceExpenseId :: "ident option"

record billable_plan =
  bp_currency :: string
  bp_clientId :: ident
  bp_projectId :: "ident option"
  bp_lines :: "line_draft list"
  bp_timeEntryIds :: "ident list"
  bp_expenseIds :: "ident list"
  bp_unbillableTimeEntryIds :: "ident list"

datatype plan = Currency_mismatch_plan "string list" | Client_mismatch_plan | Nothing_billable | Billable billable_plan

text \<open>\<open>[...new Set(xs)]\<close>: first occurrences, in order.\<close>

fun js_set :: "'a list \<Rightarrow> 'a list" where
  "js_set [] = []"
| "js_set (x # xs) = x # filter (\<lambda>y. y \<noteq> x) (js_set xs)"

definition toBilledHours :: "int \<Rightarrow> jsnum" where
  "toBilledHours totalSeconds =
     js_div (of_int (math_round (js_mul (js_div (of_int totalSeconds) 3600) 100))) 100"

datatype scope = Refused_scope plan | Resolved_scope string ident "ident option"

text \<open>The rows of a selection are triples of client, project and currency.\<close>

definition resolveSelectionScope :: "(ident \<times> ident option \<times> string) list \<Rightarrow> scope" where
  "resolveSelectionScope rows =
     (let currencies = js_set (map (\<lambda>(c, p, u). u) rows);
          clientIds = js_set (map (\<lambda>(c, p, u). c) rows)
      in if length currencies > 1 then Refused_scope (Currency_mismatch_plan (sort currencies))
         else if length clientIds > 1 then Refused_scope Client_mismatch_plan
         else (case (currencies, clientIds) of
             (currency # _, clientId # _) \<Rightarrow>
               let projectIds = js_set (map (\<lambda>(c, p, u). p) rows)
               in Resolved_scope currency clientId (case projectIds of [p] \<Rightarrow> p | _ \<Rightarrow> None)
           | _ \<Rightarrow> Refused_scope Nothing_billable))"

record time_group =
  tg_description :: string
  tg_rateCents :: int
  tg_totalSeconds :: int
  tg_entryIds :: "ident list"

definition toGroupKey :: "billable_time \<Rightarrow> grouping \<Rightarrow> string" where
  "toGroupKey row grouping =
     (case grouping of
        By_entry \<Rightarrow> bt_id row
      | By_task \<Rightarrow> bt_projectId row @ '':'' @ (case bt_taskId row of None \<Rightarrow> [] | Some t \<Rightarrow> t)
      | By_project \<Rightarrow> bt_projectId row)"

text \<open>An empty string is falsy, so \<open>||\<close> falls through it.\<close>

definition toGroupDescription :: "billable_time \<Rightarrow> grouping \<Rightarrow> string" where
  "toGroupDescription row grouping =
     (case grouping of
        By_project \<Rightarrow> bt_projectName row
      | By_task \<Rightarrow> (case bt_taskTitle row of None \<Rightarrow> bt_projectName row | Some t \<Rightarrow> t)
      | By_entry \<Rightarrow>
          (if js_trim (bt_description row) \<noteq> [] then js_trim (bt_description row)
           else case bt_taskTitle row of
             Some t \<Rightarrow> if t \<noteq> [] then t else bt_projectName row
           | None \<Rightarrow> bt_projectName row))"

definition group_key :: "grouping \<Rightarrow> billable_time \<Rightarrow> string" where
  "group_key grouping row = toGroupKey row grouping @ ''|'' @ js_int_string (bt_rateCents row)"

text \<open>The code's \<open>Map\<close> keeps insertion order: an association list in that order.\<close>

fun add_to_group :: "string \<Rightarrow> billable_time \<Rightarrow> string \<Rightarrow> (string \<times> time_group) list \<Rightarrow> (string \<times> time_group) list" where
  "add_to_group key row description [] =
     [(key, \<lparr>tg_description = description, tg_rateCents = bt_rateCents row,
             tg_totalSeconds = bt_durationSeconds row, tg_entryIds = [bt_id row]\<rparr>)]"
| "add_to_group key row description ((k, g) # groups) =
     (if k = key
      then (k, g\<lparr>tg_totalSeconds := tg_totalSeconds g + bt_durationSeconds row, tg_entryIds := tg_entryIds g @ [bt_id row]\<rparr>) # groups
      else (k, g) # add_to_group key row description groups)"

definition groupTimeEntries :: "billable_time list \<Rightarrow> grouping \<Rightarrow> time_group list" where
  "groupTimeEntries rows grouping =
     map snd (foldl (\<lambda>groups row. add_to_group (group_key grouping row) row (toGroupDescription row grouping) groups) [] rows)"

definition toTimeLineDraft :: "time_group \<Rightarrow> string \<Rightarrow> line_draft" where
  "toTimeLineDraft g hourUnit =
     \<lparr>ld_description = tg_description g, ld_unit = Some hourUnit, ld_quantity = toBilledHours (tg_totalSeconds g),
      ld_unitPriceCents = tg_rateCents g,
      ld_sourceTimeEntryId = (case tg_entryIds g of [k] \<Rightarrow> Some k | _ \<Rightarrow> None), ld_sourceExpenseId = None\<rparr>"

definition toExpenseLineDraft :: "billable_expense \<Rightarrow> line_draft" where
  "toExpenseLineDraft e =
     \<lparr>ld_description = (case be_descriptionSuffix e of
          Some s \<Rightarrow> if s \<noteq> [] then be_description e @ '' '' @ s else be_description e
        | None \<Rightarrow> be_description e),
      ld_unit = None, ld_quantity = 1, ld_unitPriceCents = be_rebillableCents e,
      ld_sourceTimeEntryId = None, ld_sourceExpenseId = Some (be_id e)\<rparr>"

definition selection_rows :: "billable_time list \<Rightarrow> billable_expense list \<Rightarrow> (ident \<times> ident option \<times> string) list" where
  "selection_rows ts es =
     map (\<lambda>t. (bt_clientId t, Some (bt_projectId t), bt_currency t)) ts
     @ map (\<lambda>e. (be_clientId e, be_projectId e, be_currency e)) es"

definition planBillableConversion ::
  "billable_time list \<Rightarrow> billable_expense list \<Rightarrow> grouping \<Rightarrow> string \<Rightarrow> plan" where
  "planBillableConversion ts es grouping hourUnit =
     (case resolveSelectionScope (selection_rows ts es) of
        Refused_scope p \<Rightarrow> p
      | Resolved_scope currency clientId projectId \<Rightarrow>
          let groups = groupTimeEntries ts grouping;
              billableGroups = filter (\<lambda>g. toBilledHours (tg_totalSeconds g) > 0) groups;
              unbillable = concat (map tg_entryIds (filter (\<lambda>g. \<not> toBilledHours (tg_totalSeconds g) > 0) groups));
              lines = map (\<lambda>g. toTimeLineDraft g hourUnit) billableGroups @ map toExpenseLineDraft es
          in if lines = [] then Nothing_billable
             else Billable \<lparr>bp_currency = currency, bp_clientId = clientId, bp_projectId = projectId,
               bp_lines = lines, bp_timeEntryIds = concat (map tg_entryIds billableGroups),
               bp_expenseIds = map be_id es, bp_unbillableTimeEntryIds = unbillable\<rparr>)"

section \<open>Selecting\<close>

definition calculateRebillableCents :: "int \<Rightarrow> bool \<Rightarrow> jsnum option \<Rightarrow> int" where
  "calculateRebillableCents amountCents rebillable markupPercentage =
     (if \<not> rebillable then 0
      else case markupPercentage of
        None \<Rightarrow> amountCents
      | Some m \<Rightarrow> math_round (js_mul (of_int amountCents) (js_add 1 (js_div m 100))))"

text \<open>The rows of \<open>selectBillableTimeEntries\<close>, joined with their project and their task.\<close>

definition billable_entry :: "ident list \<Rightarrow> db \<Rightarrow> time_entry_row \<Rightarrow> bool" where
  "billable_entry ids d e \<longleftrightarrow> te_id e \<in> set ids \<and> te_billable e \<and> te_invoicedInId e = None \<and> te_endedAt e \<noteq> None
     \<and> te_deletedAt e = None \<and> live_project (te_projectId e) d \<noteq> None"

definition to_billable_time :: "string \<Rightarrow> workspace \<Rightarrow> time_entry_row \<Rightarrow> billable_time" where
  "to_billable_time defaultCurrency w e =
     (let p = the (live_project (te_projectId e) (ledger w));
          task = Option.bind (te_taskId e) (\<lambda>k. find_id tsk_id k (tasks w))
      in \<lparr>bt_id = te_id e, bt_clientId = prj_clientId p, bt_projectId = te_projectId e, bt_projectName = prj_name p,
          bt_taskId = te_taskId e, bt_taskTitle = map_option tsk_title task,
          bt_description = (case te_description e of None \<Rightarrow> [] | Some s \<Rightarrow> s),
          bt_durationSeconds = (case te_durationSeconds e of None \<Rightarrow> 0 | Some s \<Rightarrow> s),
          bt_rateCents = te_hourlyRateSnapshotCents e,
          bt_currency = (case prj_currency p of None \<Rightarrow> defaultCurrency | Some c \<Rightarrow> c)\<rparr>)"

definition selectBillableTimeEntries :: "ident list \<Rightarrow> string \<Rightarrow> workspace \<Rightarrow> billable_time list" where
  "selectBillableTimeEntries ids defaultCurrency w =
     map (to_billable_time defaultCurrency w) (filter (billable_entry ids (ledger w)) (timeEntries w))"

definition billable_expense_row :: "ident list \<Rightarrow> db \<Rightarrow> expense_row \<Rightarrow> bool" where
  "billable_expense_row ids d e \<longleftrightarrow> ex_id e \<in> set ids \<and> ex_rebillable e \<and> ex_invoicedInId e = None \<and> ex_deletedAt e = None
     \<and> (case ex_clientId e of None \<Rightarrow> False
        | Some c \<Rightarrow> (case find_id cli_id c (clients d) of None \<Rightarrow> False | Some r \<Rightarrow> cli_deletedAt r = None))"

definition toBillableExpenseRow :: "(jsnum \<Rightarrow> string) \<Rightarrow> expense_row \<Rightarrow> billable_expense" where
  "toBillableExpenseRow markupSuffix e =
     \<lparr>be_id = ex_id e, be_clientId = the (ex_clientId e), be_projectId = ex_projectId e, be_description = ex_description e,
      be_rebillableCents = calculateRebillableCents (ex_amountCents e) True (ex_markupPercentage e),
      be_descriptionSuffix = (case ex_markupPercentage e of
          None \<Rightarrow> None | Some m \<Rightarrow> if m = 0 then None else Some (markupSuffix m)),
      be_currency = ex_currency e\<rparr>"

definition selectBillableExpenses :: "(jsnum \<Rightarrow> string) \<Rightarrow> ident list \<Rightarrow> workspace \<Rightarrow> billable_expense list" where
  "selectBillableExpenses markupSuffix ids w =
     map (toBillableExpenseRow markupSuffix) (filter (billable_expense_row ids (ledger w)) (expenses w))"

section \<open>The action\<close>

record billing_form =
  bf_timeEntryIds :: "ident list"
  bf_expenseIds :: "ident list"
  bf_grouping :: grouping
  bf_targetInvoiceId :: "ident option"

text \<open>The words of the interface that end up on a line: the unit of hours and the note on a marked-up expense.\<close>

record billing_words =
  bw_hourUnit :: string
  bw_markupSuffix :: "jsnum \<Rightarrow> string"

definition getDefaultCurrency :: "db \<Rightarrow> string" where
  "getDefaultCurrency d = (case settings d of None \<Rightarrow> ''EUR'' | Some s \<Rightarrow> set_defaultCurrency s)"

definition getDefaultTaxRate :: "db \<Rightarrow> (ident \<times> jsnum) option" where
  "getDefaultTaxRate d =
     map_option (\<lambda>r. (tax_id r, tax_percentage r)) (List.find (\<lambda>r. tax_isDefault r \<and> tax_deletedAt r = None) (taxRates d))"

definition confirmPlan :: "billing_words \<Rightarrow> billing_form \<Rightarrow> string \<Rightarrow> workspace \<Rightarrow> plan" where
  "confirmPlan words f defaultCurrency w =
     planBillableConversion
       (if bf_timeEntryIds f = [] then [] else selectBillableTimeEntries (bf_timeEntryIds f) defaultCurrency w)
       (if bf_expenseIds f = [] then [] else selectBillableExpenses (bw_markupSuffix words) (bf_expenseIds f) w)
       (bf_grouping f) (bw_hourUnit words)"

text \<open>
  The plan read before the transaction, over \<open>listUnbilledTimeEntries\<close> and \<open>listUnbilledExpenses\<close>, which
  issue the same selections as the transaction does on its own handle.
\<close>

definition buildPlan :: "billing_words \<Rightarrow> billing_form \<Rightarrow> workspace \<Rightarrow> plan" where
  "buildPlan words f w =
     planBillableConversion
       (if bf_timeEntryIds f = [] then []
        else selectBillableTimeEntries (bf_timeEntryIds f) (getDefaultCurrency (ledger w)) w)
       (if bf_expenseIds f = [] then [] else selectBillableExpenses (bw_markupSuffix words) (bf_expenseIds f) w)
       (bf_grouping f) (bw_hourUnit words)"

definition toPlanErrorMessage :: "plan \<Rightarrow> message" where
  "toPlanErrorMessage p =
     (case p of
        Currency_mismatch_plan cs \<Rightarrow> ''invoices.errors.billableCurrencyMismatch''
      | Client_mismatch_plan \<Rightarrow> ''invoices.errors.billableClientMismatch''
      | Nothing_billable \<Rightarrow> ''invoices.errors.billableNothingToBill''
      | Billable b \<Rightarrow> ''invoices.errors.billableFailed'')"

definition billing_row :: "line_draft \<Rightarrow> (ident \<times> jsnum) option \<Rightarrow> line_row_input" where
  "billing_row l defaultTaxRate =
     \<lparr>lr_taxRateId = map_option fst defaultTaxRate, lr_description = ld_description l, lr_unit = ld_unit l,
      lr_quantity = ld_quantity l, lr_unitPriceCents = ld_unitPriceCents l, lr_discount = no_discount_columns,
      lr_taxPercentage = (case defaultTaxRate of None \<Rightarrow> 0 | Some (k, p) \<Rightarrow> p),
      lr_sourceTimeEntryId = ld_sourceTimeEntryId l, lr_sourceExpenseId = ld_sourceExpenseId l\<rparr>"

definition resolveTarget :: "ident option \<Rightarrow> billable_plan \<Rightarrow> db \<Rightarrow> invoice_row option result" where
  "resolveTarget targetInvoiceId p d =
     (case targetInvoiceId of
        None \<Rightarrow> Inr None
      | Some k \<Rightarrow>
          (case lockInvoice k d of
             None \<Rightarrow> Inl ''invoices.errors.billableTargetNotEditable''
           | Some target \<Rightarrow>
               if inv_status target \<noteq> Draft \<or> inv_currency target \<noteq> bp_currency p \<or> inv_clientId target \<noteq> Some (bp_clientId p)
               then Inl ''invoices.errors.billableTargetNotEditable''
               else Inr (Some target)))"

definition createBillingInvoice ::
  "(jsnum \<Rightarrow> jsnum) \<Rightarrow> (nat \<Rightarrow> ident) \<Rightarrow> ident \<Rightarrow> string \<Rightarrow> billable_plan \<Rightarrow> line_row_input list \<Rightarrow> db \<Rightarrow> (ident \<times> db) result" where
  "createBillingInvoice store lineIds newId token p rows d =
     bind_result (claimInvoiceNumber d) (\<lambda>(number, d1).
       let totals = calculateInvoiceTotal (map row_input rows) None;
           row = \<lparr>inv_id = newId, inv_projectId = bp_projectId p, inv_clientId = Some (bp_clientId p), inv_proposalId = None,
             inv_templateId = None, inv_recurringInvoiceId = None, inv_pdfUploadId = None, inv_number = number, inv_status = Draft,
             inv_currency = bp_currency p, inv_discount = no_discount_columns, inv_subtotalCents = subtotalCents totals,
             inv_discountAmountTotalCents = discountAmountTotalCents totals, inv_taxAmountCents = taxAmountCents totals,
             inv_totalCents = totalCents totals, inv_amountPaidCents = 0, inv_issueDate = None, inv_dueDate = None,
             inv_paidAt = None, inv_lateFeeCents = None, inv_notes = None, inv_publicToken = Some token,
             inv_deletedAt = None\<rparr>
       in Inr (newId, writeInvoiceLineItems store lineIds newId rows None
            (d1\<lparr>invoices := add_row row (invoices d1)\<rparr>)))"

definition appendToBillingInvoice ::
  "(jsnum \<Rightarrow> jsnum) \<Rightarrow> (nat \<Rightarrow> ident) \<Rightarrow> invoice_row \<Rightarrow> line_row_input list \<Rightarrow> db \<Rightarrow> ident \<times> db" where
  "appendToBillingInvoice store lineIds target rows d =
     (let discount = (case find_id inv_id (inv_id target) (invoices d) of
            None \<Rightarrow> toInvoiceColumnDiscount no_discount_columns
          | Some current \<Rightarrow> toInvoiceColumnDiscount (inv_discount current));
          (totals, d1) = appendInvoiceLineItems store lineIds (inv_id target) rows discount d
      in (inv_id target, d1\<lparr>invoices := put_id inv_id (inv_id target)
            (\<lambda>r. r\<lparr>inv_subtotalCents := subtotalCents totals, inv_discountAmountTotalCents := discountAmountTotalCents totals,
                   inv_taxAmountCents := taxAmountCents totals, inv_totalCents := totalCents totals\<rparr>) (invoices d1)\<rparr>))"

definition stampBilled :: "ident \<Rightarrow> billable_plan \<Rightarrow> workspace \<Rightarrow> workspace result" where
  "stampBilled invoiceId p w =
     (let hit = (\<lambda>e. te_id e \<in> set (bp_timeEntryIds p) \<and> te_invoicedInId e = None);
          xhit = (\<lambda>e. ex_id e \<in> set (bp_expenseIds p) \<and> ex_invoicedInId e = None)
      in if bp_timeEntryIds p \<noteq> [] \<and> length (filter hit (timeEntries w)) \<noteq> length (bp_timeEntryIds p)
         then Inl ''invoices.errors.billableAlreadyInvoiced''
         else if bp_expenseIds p \<noteq> [] \<and> length (filter xhit (expenses w)) \<noteq> length (bp_expenseIds p)
         then Inl ''invoices.errors.billableAlreadyInvoiced''
         else Inr (w\<lparr>timeEntries := update_where hit (\<lambda>e. e\<lparr>te_invoicedInId := Some invoiceId\<rparr>) (timeEntries w),
                     expenses := update_where xhit (\<lambda>e. e\<lparr>ex_invoicedInId := Some invoiceId\<rparr>) (expenses w)\<rparr>))"

definition convertBillableWork ::
  "(jsnum \<Rightarrow> jsnum) \<Rightarrow> billing_words \<Rightarrow> request \<Rightarrow> billing_form result \<Rightarrow> ident \<Rightarrow> (nat \<Rightarrow> ident) \<Rightarrow> string \<Rightarrow> workspace
    \<Rightarrow> ident result \<times> workspace" where
  "convertBillableWork store words req parsed newId lineIds token w =
     (case requireInvoiceWrite req of
        Inl e \<Rightarrow> (Inl e, w)
      | Inr actor \<Rightarrow>
     (case parsed of
        Inl m \<Rightarrow> (Inl m, w)
      | Inr f \<Rightarrow>
     (case buildPlan words f w of
        Billable p0 \<Rightarrow>
     (case confirmPlan words f (getDefaultCurrency (ledger w)) w of
        Billable p \<Rightarrow>
     (case resolveTarget (bf_targetInvoiceId f) p (ledger w) of
        Inl e \<Rightarrow> (Inl e, w)
      | Inr target \<Rightarrow>
     (let rows = map (\<lambda>l. billing_row l (getDefaultTaxRate (ledger w))) (bp_lines p)
      in case (case target of
                 None \<Rightarrow> createBillingInvoice store lineIds newId token p rows (ledger w)
               | Some t \<Rightarrow> Inr (appendToBillingInvoice store lineIds t rows (ledger w))) of
           Inl e \<Rightarrow> (Inl e, w)
         | Inr (invoiceId, d) \<Rightarrow>
     (case stampBilled invoiceId p (w\<lparr>ledger := d\<rparr>) of
        Inl e \<Rightarrow> (Inl e, w)
      | Inr w1 \<Rightarrow>
          let event = (if target = None then ''invoice.created'' else ''invoice.updated'')
          in (Inr invoiceId, emitted event invoiceId (Some (actor_userId actor)) (audited event actor invoiceId w1)))))
      | refused \<Rightarrow> (Inl (toPlanErrorMessage refused), w))
      | refused \<Rightarrow> (Inl (toPlanErrorMessage refused), w))))"

section \<open>Grouping is a group-by\<close>

text \<open>The group of the rows that share a key, read off the rows themselves.\<close>

definition group_of :: "grouping \<Rightarrow> billable_time list \<Rightarrow> time_group" where
  "group_of grouping rs =
     \<lparr>tg_description = toGroupDescription (hd rs) grouping, tg_rateCents = bt_rateCents (hd rs),
      tg_totalSeconds = sum_list (map bt_durationSeconds rs), tg_entryIds = map bt_id rs\<rparr>"

definition rows_with_key :: "grouping \<Rightarrow> billable_time list \<Rightarrow> string \<Rightarrow> billable_time list" where
  "rows_with_key grouping xs k = filter (\<lambda>r. group_key grouping r = k) xs"

definition key_order :: "grouping \<Rightarrow> billable_time list \<Rightarrow> string list" where
  "key_order grouping xs = js_set (map (group_key grouping) xs)"

lemma set_js_set [simp]: "set (js_set xs) = set xs"
  by (induction xs) auto

lemma distinct_js_set [simp]: "distinct (js_set xs)"
  by (induction xs) auto

lemma js_set_append: "js_set (xs @ ys) = js_set xs @ filter (\<lambda>y. y \<notin> set xs) (js_set ys)"
  by (induction xs) (auto simp: filter_filter conj_commute intro: filter_cong)

lemma js_set_single: "length (js_set xs) \<le> 1 \<Longrightarrow> x \<in> set xs \<Longrightarrow> y \<in> set xs \<Longrightarrow> x = y"
  using set_js_set [of xs] by (cases "js_set xs") (auto simp del: set_js_set dest: equalityD2)

lemma add_to_group_new:
  "\<forall>(k, g)\<in>set gs. k \<noteq> key \<Longrightarrow> add_to_group key row descr gs = gs @
     [(key, \<lparr>tg_description = descr, tg_rateCents = bt_rateCents row,
             tg_totalSeconds = bt_durationSeconds row, tg_entryIds = [bt_id row]\<rparr>)]"
  by (induction gs) auto

lemma add_to_group_map:
  assumes "distinct ks" "key \<in> set ks"
  shows "add_to_group key row descr (map (\<lambda>k. (k, h k)) ks)
    = map (\<lambda>k. (k, if k = key then (h k)\<lparr>tg_totalSeconds := tg_totalSeconds (h k) + bt_durationSeconds row,
                     tg_entryIds := tg_entryIds (h k) @ [bt_id row]\<rparr> else h k)) ks"
  using assms by (induction ks) auto

lemma groups_are_group_by:
  "foldl (\<lambda>groups row. add_to_group (group_key g row) row (toGroupDescription row g) groups) [] xs
   = map (\<lambda>k. (k, group_of g (rows_with_key g xs k))) (key_order g xs)"
proof (induction xs rule: rev_induct)
  case (snoc x xs)
  let ?k = "group_key g x"
  show ?case
  proof (cases "?k \<in> set (key_order g xs)")
    case True
    then obtain r rs where r: "rows_with_key g xs ?k = r # rs"
      by (cases "rows_with_key g xs ?k") (auto simp: key_order_def rows_with_key_def filter_empty_conv)
    have "key_order g (xs @ [x]) = key_order g xs" using True by (simp add: key_order_def js_set_append)
    moreover have "rows_with_key g (xs @ [x]) k = rows_with_key g xs k @ (if k = ?k then [x] else [])" for k
      by (simp add: rows_with_key_def)
    ultimately show ?thesis using snoc True r
      by (simp add: add_to_group_map key_order_def [of g xs]) (simp add: group_of_def)
  next
    case False
    have "key_order g (xs @ [x]) = key_order g xs @ [?k]" using False by (simp add: key_order_def js_set_append)
    moreover have "rows_with_key g xs ?k = []"
      using False by (simp add: key_order_def rows_with_key_def filter_empty_conv) (metis imageI)
    moreover have "rows_with_key g (xs @ [x]) k = rows_with_key g xs k" if "k \<in> set (key_order g xs)" for k
      using that False by (auto simp: rows_with_key_def)
    moreover have "rows_with_key g (xs @ [x]) ?k = rows_with_key g xs ?k @ [x]" by (simp add: rows_with_key_def)
    ultimately have "map (\<lambda>k. (k, group_of g (rows_with_key g (xs @ [x]) k))) (key_order g (xs @ [x]))
        = map (\<lambda>k. (k, group_of g (rows_with_key g xs k))) (key_order g xs) @ [(?k, group_of g [x])]"
      by simp
    moreover have "add_to_group ?k x (toGroupDescription x g) (map (\<lambda>k. (k, group_of g (rows_with_key g xs k))) (key_order g xs))
        = map (\<lambda>k. (k, group_of g (rows_with_key g xs k))) (key_order g xs) @ [(?k, group_of g [x])]"
      using False by (subst add_to_group_new) (auto simp: group_of_def)
    ultimately show ?thesis using snoc by simp
  qed
qed (simp add: key_order_def)

lemma groupTimeEntries_eq: "groupTimeEntries xs g = map (\<lambda>k. group_of g (rows_with_key g xs k)) (key_order g xs)"
  by (simp add: groupTimeEntries_def groups_are_group_by comp_def)

lemma rows_partition: "mset (concat (map (rows_with_key g xs) (key_order g xs))) = mset xs"
proof -
  have "mset (concat (map (\<lambda>k. filter (\<lambda>r. f r = k) ys) ks)) = mset (filter (\<lambda>r. f r \<in> set ks) ys)"
    if "distinct ks" for f :: "billable_time \<Rightarrow> string" and ys ks
    using that
  proof (induction ks)
    case (Cons k ks)
    have "mset (filter (\<lambda>r. f r = k) ys) + mset (filter (\<lambda>r. f r \<in> set ks) ys) = mset (filter (\<lambda>r. f r \<in> set (k # ks)) ys)"
      using Cons.prems by (induction ys) auto
    then show ?case using Cons by simp
  qed simp
  from this [of "key_order g xs" "group_key g" xs]
  have "mset (concat (map (rows_with_key g xs) (key_order g xs))) = mset (filter (\<lambda>r. group_key g r \<in> set (key_order g xs)) xs)"
    unfolding rows_with_key_def [abs_def] by (simp add: key_order_def del: mset_filter)
  moreover have "filter (\<lambda>r. group_key g r \<in> set (key_order g xs)) xs = xs" by (simp add: filter_id_conv key_order_def)
  ultimately show ?thesis by (simp only:)
qed

section \<open>The rate is part of every key\<close>

lemma digit_char: "d < 10 \<Longrightarrow> (of_char (char_of (48 + d) :: char) :: nat) = 48 + d"
  by (simp add: of_char_of)

lemma nat_digits_chars: "c \<in> set (nat_digits n) \<Longrightarrow> 48 \<le> (of_char c :: nat) \<and> (of_char c :: nat) \<le> 57"
proof (induction n rule: nat_digits.induct)
  case (1 n)
  show ?case
  proof (cases "n < 10")
    case True
    then show ?thesis using 1(2) digit_char [of n] by (subst (asm) nat_digits.simps) simp
  next
    case False
    then have "c \<in> set (nat_digits (n div 10)) \<or> c = char_of (48 + n mod 10)"
      using 1(2) by (subst (asm) nat_digits.simps) auto
    then show ?thesis using 1(1) [OF False] digit_char [of "n mod 10"] by auto
  qed
qed

lemma int_string_chars: "c \<in> set (js_int_string i) \<Longrightarrow> c \<noteq> CHR ''|''"
  using nat_digits_chars [of c] by (auto simp: js_int_string_def split: if_splits)

lemma nat_digits_nonempty: "nat_digits n \<noteq> []"
  by (subst nat_digits.simps) simp

lemma js_int_string_inject: "js_int_string i = js_int_string j \<Longrightarrow> i = j"
proof -
  assume eq: "js_int_string i = js_int_string j"
  have no_minus: "nat_digits n \<noteq> CHR ''-'' # s" for n s using nat_digits_chars [of "CHR ''-''" n] by auto
  have digits: "nat_digits m = nat_digits n \<Longrightarrow> m = n" for m n by (metis digits_value_nat)
  from eq show "i = j"
    using no_minus no_minus [symmetric] by (auto simp: js_int_string_def split: if_splits dest!: digits)
qed

lemma same_key_same_rate:
  assumes "group_key g r = group_key g r'"
  shows "bt_rateCents r = bt_rateCents r'"
proof -
  have tail: "takeWhile (\<lambda>c. c \<noteq> CHR ''|'') (rev (group_key g r)) = rev (js_int_string (bt_rateCents r))" for r
  proof -
    have "\<forall>c\<in>set (rev (js_int_string (bt_rateCents r))). c \<noteq> CHR ''|''" using int_string_chars by auto
    then have "takeWhile (\<lambda>c. c \<noteq> CHR ''|'') (rev (js_int_string (bt_rateCents r)) @ CHR ''|'' # xs)
        = rev (js_int_string (bt_rateCents r))" for xs by (subst takeWhile_append2) auto
    then show ?thesis by (simp add: group_key_def)
  qed
  have "rev (js_int_string (bt_rateCents r)) = rev (js_int_string (bt_rateCents r'))"
    using tail [of r] tail [of r'] assms by simp
  then show ?thesis by (simp add: js_int_string_inject)
qed

section \<open>What a plan holds\<close>

definition group_rows :: "grouping \<Rightarrow> billable_time list \<Rightarrow> billable_time list list" where
  "group_rows g ts = map (rows_with_key g ts) (key_order g ts)"

definition seconds :: "billable_time list \<Rightarrow> int" where
  "seconds rs = sum_list (map bt_durationSeconds rs)"

lemma group_rows_facts:
  assumes "rs \<in> set (group_rows g ts)"
  shows "rs \<noteq> []" "set rs \<subseteq> set ts" "\<forall>r\<in>set rs. bt_rateCents r = bt_rateCents (hd rs)"
proof -
  obtain k where k: "k \<in> set (key_order g ts)" "rs = rows_with_key g ts k" using assms by (auto simp: group_rows_def)
  show ne: "rs \<noteq> []" using k by (auto simp: key_order_def rows_with_key_def filter_empty_conv)
  show "set rs \<subseteq> set ts" unfolding k(2) rows_with_key_def by auto
  have key: "group_key g r = k" if "r \<in> set rs" for r using that unfolding k(2) rows_with_key_def by simp
  show "\<forall>r\<in>set rs. bt_rateCents r = bt_rateCents (hd rs)"
  proof
    fix r assume "r \<in> set rs"
    then show "bt_rateCents r = bt_rateCents (hd rs)"
      using key [of r] key [OF hd_in_set [OF ne]] by (intro same_key_same_rate [where g = g]) simp
  qed
qed

lemma scope_resolved:
  assumes "resolveSelectionScope rows = Resolved_scope u c p" "x \<in> set rows"
  shows "fst x = c \<and> snd (snd x) = u"
proof -
  let ?us = "js_set (map (\<lambda>(c, p, u). u) rows)" and ?cs = "js_set (map (\<lambda>(c, p, u). c) rows)"
  have "length ?us \<le> 1" "length ?cs \<le> 1" using assms(1) by (auto simp: resolveSelectionScope_def Let_def split: if_splits)
  moreover obtain us cs where e: "?us = u # us" "?cs = c # cs"
    using assms(1) by (auto simp: resolveSelectionScope_def Let_def split: if_splits list.splits)
  ultimately have "set ?us = {u}" "set ?cs = {c}" by auto
  then have "set (map (\<lambda>(c, p, u). u) rows) = {u}" "set (map (\<lambda>(c, p, u). c) rows) = {c}" by (simp_all only: set_js_set)
  moreover have "snd (snd x) \<in> set (map (\<lambda>(c, p, u). u) rows)" "fst x \<in> set (map (\<lambda>(c, p, u). c) rows)"
    using assms(2) by (force simp: case_prod_unfold)+
  ultimately show ?thesis by auto
qed

lemma plan_of_groups:
  "planBillableConversion ts es g unit =
     (case resolveSelectionScope (selection_rows ts es) of
        Refused_scope p \<Rightarrow> p
      | Resolved_scope currency clientId projectId \<Rightarrow>
          let billed = filter (\<lambda>rs. toBilledHours (seconds rs) > 0) (group_rows g ts);
              lines = map (\<lambda>rs. toTimeLineDraft (group_of g rs) unit) billed @ map toExpenseLineDraft es
          in if lines = [] then Nothing_billable
             else Billable \<lparr>bp_currency = currency, bp_clientId = clientId, bp_projectId = projectId,
               bp_lines = lines, bp_timeEntryIds = map bt_id (concat billed), bp_expenseIds = map be_id es,
               bp_unbillableTimeEntryIds =
                 map bt_id (concat (filter (\<lambda>rs. \<not> toBilledHours (seconds rs) > 0) (group_rows g ts)))\<rparr>)"
  by (simp add: planBillableConversion_def groupTimeEntries_eq group_rows_def filter_map comp_def Let_def group_of_def
      seconds_def map_concat split: scope.split) blast

lemma groups_cover: "mset (concat (group_rows g ts)) = mset ts"
  using rows_partition [of g ts] by (simp add: group_rows_def)

lemma concat_filter_partition:
  "mset (concat (filter p xs)) + mset (concat (filter (\<lambda>x. \<not> p x) xs)) = mset (concat xs)"
  by (induction xs) auto

lemma plan_billable:
  assumes "planBillableConversion ts es g unit = Billable p"
  shows "\<forall>t\<in>set ts. bt_clientId t = bp_clientId p \<and> bt_currency t = bp_currency p"
    and "\<forall>e\<in>set es. be_clientId e = bp_clientId p \<and> be_currency e = bp_currency p"
    and "bp_lines p = map (\<lambda>rs. toTimeLineDraft (group_of g rs) unit)
          (filter (\<lambda>rs. toBilledHours (seconds rs) > 0) (group_rows g ts)) @ map toExpenseLineDraft es"
    and "bp_timeEntryIds p = map bt_id (concat (filter (\<lambda>rs. toBilledHours (seconds rs) > 0) (group_rows g ts)))"
    and "bp_unbillableTimeEntryIds p = map bt_id (concat (filter (\<lambda>rs. \<not> toBilledHours (seconds rs) > 0) (group_rows g ts)))"
    and "bp_expenseIds p = map be_id es"
proof -
  have "\<And>q. q \<noteq> Billable p \<Longrightarrow> resolveSelectionScope (selection_rows ts es) \<noteq> Refused_scope (Billable p)"
    by (auto simp: resolveSelectionScope_def Let_def split: list.splits)
  then obtain u c pr where sc: "resolveSelectionScope (selection_rows ts es) = Resolved_scope u c pr"
    using assms unfolding plan_of_groups by (cases "resolveSelectionScope (selection_rows ts es)") auto
  have all: "fst x = c \<and> snd (snd x) = u" if "x \<in> set (selection_rows ts es)" for x by (rule scope_resolved [OF sc that])
  have ct: "bt_clientId t = c \<and> bt_currency t = u" if "t \<in> set ts" for t
    using all [of "(bt_clientId t, Some (bt_projectId t), bt_currency t)"] that by (simp add: selection_rows_def)
  have ce: "be_clientId e = c \<and> be_currency e = u" if "e \<in> set es" for e
    using all [of "(be_clientId e, be_projectId e, be_currency e)"] that by (simp add: selection_rows_def)
  show "\<forall>t\<in>set ts. bt_clientId t = bp_clientId p \<and> bt_currency t = bp_currency p"
    "\<forall>e\<in>set es. be_clientId e = bp_clientId p \<and> be_currency e = bp_currency p"
    using assms ct ce unfolding plan_of_groups sc scope.case Let_def by (auto split: if_splits)
  show "bp_lines p = map (\<lambda>rs. toTimeLineDraft (group_of g rs) unit)
          (filter (\<lambda>rs. toBilledHours (seconds rs) > 0) (group_rows g ts)) @ map toExpenseLineDraft es"
    "bp_timeEntryIds p = map bt_id (concat (filter (\<lambda>rs. toBilledHours (seconds rs) > 0) (group_rows g ts)))"
    "bp_unbillableTimeEntryIds p = map bt_id (concat (filter (\<lambda>rs. \<not> toBilledHours (seconds rs) > 0) (group_rows g ts)))"
    "bp_expenseIds p = map be_id es"
    using assms unfolding plan_of_groups sc scope.case Let_def by (auto split: if_splits)
qed

section \<open>What the action does\<close>

definition selected_time :: "billing_form \<Rightarrow> workspace \<Rightarrow> billable_time list" where
  "selected_time f w = (if bf_timeEntryIds f = [] then []
     else selectBillableTimeEntries (bf_timeEntryIds f) (getDefaultCurrency (ledger w)) w)"

definition selected_expenses :: "billing_words \<Rightarrow> billing_form \<Rightarrow> workspace \<Rightarrow> billable_expense list" where
  "selected_expenses words f w = (if bf_expenseIds f = [] then []
     else selectBillableExpenses (bw_markupSuffix words) (bf_expenseIds f) w)"

lemma plans_agree:
  "confirmPlan words f (getDefaultCurrency (ledger w)) w = buildPlan words f w"
  "buildPlan words f w
    = planBillableConversion (selected_time f w) (selected_expenses words f w) (bf_grouping f) (bw_hourUnit words)"
  by (simp_all add: confirmPlan_def buildPlan_def selected_time_def selected_expenses_def)

lemma convertBillableWork_result:
  assumes "convertBillableWork store words req parsed newId lineIds token w = (x, w1)"
  shows "(\<exists>e. x = Inl e \<and> w1 = w) \<or>
    (\<exists>actor f p target i d w2. x = Inr i \<and> parsed = Inr f \<and> requireInvoiceWrite req = Inr actor
      \<and> buildPlan words f w = Billable p \<and> resolveTarget (bf_targetInvoiceId f) p (ledger w) = Inr target
      \<and> (case target of
           None \<Rightarrow> createBillingInvoice store lineIds newId token p
                     (map (\<lambda>l. billing_row l (getDefaultTaxRate (ledger w))) (bp_lines p)) (ledger w)
         | Some t \<Rightarrow> Inr (appendToBillingInvoice store lineIds t
                     (map (\<lambda>l. billing_row l (getDefaultTaxRate (ledger w))) (bp_lines p)) (ledger w))) = Inr (i, d)
      \<and> stampBilled i p (w\<lparr>ledger := d\<rparr>) = Inr w2
      \<and> w1 = emitted (if target = None then ''invoice.created'' else ''invoice.updated'') i (Some (actor_userId actor))
               (audited (if target = None then ''invoice.created'' else ''invoice.updated'') actor i w2))"
proof -
  let ?rows = "\<lambda>p. map (\<lambda>l. billing_row l (getDefaultTaxRate (ledger w))) (bp_lines p)"
  show ?thesis
  proof (cases x)
    case (Inl e)
    then show ?thesis using assms
      by (simp add: convertBillableWork_def plans_agree(1) Let_def split: sum.splits plan.splits prod.splits)
  next
    case (Inr i)
    obtain actor f where g: "requireInvoiceWrite req = Inr actor" "parsed = Inr f"
      using assms Inr by (auto simp: convertBillableWork_def split: sum.splits)
    obtain p where p: "buildPlan words f w = Billable p"
      using assms Inr g by (auto simp: convertBillableWork_def plans_agree(1) split: plan.splits)
    obtain target where t: "resolveTarget (bf_targetInvoiceId f) p (ledger w) = Inr target"
      using assms Inr g p by (auto simp: convertBillableWork_def plans_agree(1) split: sum.splits)
    obtain j d where w: "(case target of None \<Rightarrow> createBillingInvoice store lineIds newId token p (?rows p) (ledger w)
        | Some t \<Rightarrow> Inr (appendToBillingInvoice store lineIds t (?rows p) (ledger w))) = Inr (j, d)"
      using assms Inr g p t by (auto simp: convertBillableWork_def plans_agree(1) Let_def split: sum.splits)
    obtain w2 where s: "stampBilled j p (w\<lparr>ledger := d\<rparr>) = Inr w2"
      using assms Inr g p t w by (auto simp: convertBillableWork_def plans_agree(1) Let_def split: sum.splits)
    have "j = i" "w1 = emitted (if target = None then ''invoice.created'' else ''invoice.updated'') j (Some (actor_userId actor))
               (audited (if target = None then ''invoice.created'' else ''invoice.updated'') actor j w2)"
      using assms Inr g p t w s by (auto simp: convertBillableWork_def plans_agree(1) Let_def)
    then show ?thesis using Inr g p t w s by blast
  qed
qed

text \<open>What neither way of writing the invoice touches.\<close>

definition same_parents :: "db \<Rightarrow> db \<Rightarrow> bool" where
  "same_parents d d' \<longleftrightarrow> projects d' = projects d \<and> clients d' = clients d \<and> taxRates d' = taxRates d
     \<and> payments d' = payments d \<and> creditNotes d' = creditNotes d
     \<and> map_option set_defaultCurrency (settings d') = map_option set_defaultCurrency (settings d)"

lemma write_lines_parents:
  "same_parents d (writeInvoiceLineItems s l i rows disc d') = same_parents d d'"
  by (simp add: same_parents_def writeInvoiceLineItems_def insert_batches_eq Let_def)

lemma createBillingInvoice_parents:
  assumes "createBillingInvoice store lineIds newId token p rows d = Inr (i, d1)"
  shows "same_parents d d1" "i = newId"
  using assms
  by (auto simp: createBillingInvoice_def bind_result_Inr Let_def write_lines_parents)
    (auto simp: claimInvoiceNumber_def same_parents_def Let_def split: option.splits)

lemma appendToBillingInvoice_parents:
  assumes "appendToBillingInvoice store lineIds t rows d = (i, d1)"
  shows "same_parents d d1" "i = inv_id t"
  using assms
  by (auto simp: appendToBillingInvoice_def appendInvoiceLineItems_def insert_batches_eq same_parents_def Let_def)

subsection \<open>Planning again after a conversion\<close>

definition stamp_time :: "ident \<Rightarrow> ident list \<Rightarrow> time_entry_row \<Rightarrow> time_entry_row" where
  "stamp_time i ids e = (if te_id e \<in> set ids then e\<lparr>te_invoicedInId := Some i\<rparr> else e)"

definition stamp_expense :: "ident \<Rightarrow> ident list \<Rightarrow> expense_row \<Rightarrow> expense_row" where
  "stamp_expense i ids e = (if ex_id e \<in> set ids then e\<lparr>ex_invoicedInId := Some i\<rparr> else e)"

lemma stamp_none [simp]: "stamp_time i [] = (\<lambda>e. e)" "stamp_expense i [] = (\<lambda>e. e)"
  by (simp_all add: stamp_time_def [abs_def] stamp_expense_def [abs_def])

lemma js_set_const: "set xs \<subseteq> {a} \<Longrightarrow> js_set xs = [] \<or> js_set xs = [a]"
  by (induction xs) auto

lemma scope_of_agreeing:
  assumes "\<forall>x\<in>set rows. fst x = c \<and> snd (snd x) = u"
  shows "resolveSelectionScope rows = Refused_scope Nothing_billable \<or> (\<exists>p. resolveSelectionScope rows = Resolved_scope u c p)"
proof -
  have "js_set (map (\<lambda>(c, p, u). u) rows) = [] \<or> js_set (map (\<lambda>(c, p, u). u) rows) = [u]"
    "js_set (map (\<lambda>(c, p, u). c) rows) = [] \<or> js_set (map (\<lambda>(c, p, u). c) rows) = [c]"
    using assms by (auto intro!: js_set_const simp: case_prod_unfold)
  then show ?thesis by (auto simp: resolveSelectionScope_def Let_def)
qed

text \<open>The entries a plan leaves over fall into the same groups as before, all of them too short to bill.\<close>

lemma leftovers_not_billable:
  assumes "ts' = filter (\<lambda>t. \<not> toBilledHours (seconds (rows_with_key g ts (group_key g t))) > 0) ts"
  shows "filter (\<lambda>rs. toBilledHours (seconds rs) > 0) (group_rows g ts') = []"
proof -
  have "\<not> toBilledHours (seconds rs) > 0" if rs: "rs \<in> set (group_rows g ts')" for rs
  proof -
    obtain k where k: "k \<in> set (key_order g ts')" "rs = rows_with_key g ts' k" using rs by (auto simp: group_rows_def)
    then obtain t where t: "t \<in> set ts'" "group_key g t = k" by (auto simp: key_order_def)
    then have short: "\<not> toBilledHours (seconds (rows_with_key g ts k)) > 0" by (auto simp: assms)
    have "rows_with_key g ts' k = rows_with_key g ts k"
      using short by (auto simp: rows_with_key_def assms filter_filter intro!: filter_cong)
    then show ?thesis using short k(2) by simp
  qed
  then show ?thesis by (simp add: filter_empty_conv)
qed

lemma plan_again_refuses:
  assumes p: "planBillableConversion ts es g unit = Billable p"
    and ids: "distinct (map bt_id ts)"
    and ts': "ts' = filter (\<lambda>t. bt_id t \<notin> set (bp_timeEntryIds p)) ts"
  shows "planBillableConversion ts' [] g unit = Nothing_billable"
proof -
  note p = plan_billable [OF p]
  have billed: "bt_id t \<in> set (bp_timeEntryIds p) \<longleftrightarrow> toBilledHours (seconds (rows_with_key g ts (group_key g t))) > 0"
    if t: "t \<in> set ts" for t
  proof
    assume "bt_id t \<in> set (bp_timeEntryIds p)"
    then obtain rs t' where rs: "rs \<in> set (group_rows g ts)" "toBilledHours (seconds rs) > 0" "t' \<in> set rs" "bt_id t' = bt_id t"
      unfolding p(4) by auto
    then have "t' = t" using ids t group_rows_facts(2) [OF rs(1)] by (auto simp: distinct_map dest: inj_onD)
    moreover obtain k where "rs = rows_with_key g ts k" using rs(1) by (auto simp: group_rows_def)
    ultimately show "toBilledHours (seconds (rows_with_key g ts (group_key g t))) > 0"
      using rs(2,3) by (auto simp: rows_with_key_def)
  next
    assume long: "toBilledHours (seconds (rows_with_key g ts (group_key g t))) > 0"
    have "rows_with_key g ts (group_key g t) \<in> set (group_rows g ts)" "t \<in> set (rows_with_key g ts (group_key g t))"
      using t by (simp_all add: group_rows_def key_order_def rows_with_key_def)
    then show "bt_id t \<in> set (bp_timeEntryIds p)" using long unfolding p(4) by auto
  qed
  have none: "filter (\<lambda>rs. toBilledHours (seconds rs) > 0) (group_rows g ts') = []"
    by (rule leftovers_not_billable) (use ts' billed in \<open>auto intro!: filter_cong\<close>)
  have "\<forall>x\<in>set (selection_rows ts' []). fst x = bp_clientId p \<and> snd (snd x) = bp_currency p"
    using p(1) ts' by (auto simp: selection_rows_def)
  from scope_of_agreeing [OF this] none show ?thesis by (auto simp: plan_of_groups Let_def)
qed

lemma bt_id_of [simp]: "bt_id (to_billable_time cur w e) = te_id e" "be_id (toBillableExpenseRow sfx x) = ex_id x"
  by (simp_all add: to_billable_time_def toBillableExpenseRow_def Let_def)

lemma billable_entry_parents: "same_parents d d' \<Longrightarrow> billable_entry ids d' = billable_entry ids d"
  by (rule ext) (simp add: billable_entry_def live_project_def same_parents_def)

lemma selected_time_rows:
  "selected_time f w = map (to_billable_time (getDefaultCurrency (ledger w)) w)
     (filter (billable_entry (bf_timeEntryIds f) (ledger w)) (timeEntries w))"
  by (auto simp: selected_time_def selectBillableTimeEntries_def billable_entry_def filter_empty_conv)

lemma selected_expense_rows:
  "selected_expenses words f w = map (toBillableExpenseRow (bw_markupSuffix words))
     (filter (billable_expense_row (bf_expenseIds f) (ledger w)) (expenses w))"
  by (auto simp: selected_expenses_def selectBillableExpenses_def billable_expense_row_def filter_empty_conv)

lemma selection_after:
  assumes par: "same_parents (ledger w) (ledger w1)" and tasks: "tasks w1 = tasks w"
    and te: "timeEntries w1 = map (stamp_time i T) (timeEntries w)"
    and ex: "expenses w1 = map (stamp_expense i X) (expenses w)"
  shows "selected_time f w1 = filter (\<lambda>t. bt_id t \<notin> set T) (selected_time f w)"
    and "selected_expenses words f w1 = filter (\<lambda>x. be_id x \<notin> set X) (selected_expenses words f w)"
proof -
  have cur: "getDefaultCurrency (ledger w1) = getDefaultCurrency (ledger w)"
    using par by (auto simp: same_parents_def getDefaultCurrency_def split: option.splits)
  have row: "to_billable_time c w1 = to_billable_time c w" for c
    using par tasks by (simp add: to_billable_time_def [abs_def] live_project_def same_parents_def Let_def)
  have sel: "filter (billable_entry ids (ledger w1)) (map (stamp_time i T) es)
      = filter (\<lambda>e. te_id e \<notin> set T) (filter (billable_entry ids (ledger w)) es)" for ids es
    unfolding billable_entry_parents [OF par]
    by (induction es) (auto simp: stamp_time_def billable_entry_def)
  show "selected_time f w1 = filter (\<lambda>t. bt_id t \<notin> set T) (selected_time f w)"
    unfolding selected_time_rows cur te sel row by (simp add: filter_map comp_def)
  have xrow: "billable_expense_row ids (ledger w1) = billable_expense_row ids (ledger w)" for ids
  proof -
    have "clients (ledger w1) = clients (ledger w)" using par by (simp add: same_parents_def)
    then show ?thesis by (simp only: billable_expense_row_def [abs_def])
  qed
  have xsel: "filter (billable_expense_row ids (ledger w1)) (map (stamp_expense i X) es)
      = filter (\<lambda>e. ex_id e \<notin> set X) (filter (billable_expense_row ids (ledger w)) es)" for ids es
    unfolding xrow by (induction es) (auto simp: stamp_expense_def billable_expense_row_def)
  show "selected_expenses words f w1 = filter (\<lambda>x. be_id x \<notin> set X) (selected_expenses words f w)"
    unfolding selected_expense_rows ex xsel by (simp add: filter_map comp_def)
qed

lemma stampBilled_rows:
  assumes ids: "distinct (map te_id (timeEntries w))" "distinct (map ex_id (expenses w))"
    and st: "stampBilled i p (w\<lparr>ledger := d\<rparr>) = Inr w2"
    and T: "\<forall>k\<in>set (bp_timeEntryIds p). \<exists>e\<in>set (timeEntries w). te_id e = k \<and> te_invoicedInId e = None"
    and X: "\<forall>k\<in>set (bp_expenseIds p). \<exists>e\<in>set (expenses w). ex_id e = k \<and> ex_invoicedInId e = None"
  shows "timeEntries w2 = map (stamp_time i (bp_timeEntryIds p)) (timeEntries w)"
    and "expenses w2 = map (stamp_expense i (bp_expenseIds p)) (expenses w)"
    and "tasks w2 = tasks w" "ledger w2 = d" "schedules w2 = schedules w"
proof -
  have "te_invoicedInId e = None" if "e \<in> set (timeEntries w)" "te_id e \<in> set (bp_timeEntryIds p)" for e
    using T that ids(1) by (metis distinct_lookup option.inject)
  moreover have "ex_invoicedInId e = None" if "e \<in> set (expenses w)" "ex_id e \<in> set (bp_expenseIds p)" for e
    using X that ids(2) by (metis distinct_lookup option.inject)
  ultimately show "timeEntries w2 = map (stamp_time i (bp_timeEntryIds p)) (timeEntries w)"
    "expenses w2 = map (stamp_expense i (bp_expenseIds p)) (expenses w)"
    "tasks w2 = tasks w" "ledger w2 = d" "schedules w2 = schedules w"
    using st by (auto simp: stampBilled_def Let_def update_where_def stamp_time_def stamp_expense_def split: if_splits)
qed

section \<open>Properties\<close>

text \<open>
  C23. A billing plan covers the selection: every selected entry is either billed on exactly one line or
  reported unbillable, every expense gets its own line, all rows are of the plan's client and currency, and
  each time line bills the hours of a group of entries that agree on the rate it charges, rounded once, to a
  positive hundredth.
\<close>

theorem billing_plan_covers_selection:
  assumes "planBillableConversion ts es g unit = Billable p"
  shows "mset (bp_timeEntryIds p @ bp_unbillableTimeEntryIds p) = mset (map bt_id ts) \<and> bp_expenseIds p = map be_id es
    \<and> (\<forall>t\<in>set ts. bt_clientId t = bp_clientId p \<and> bt_currency t = bp_currency p)
    \<and> (\<forall>e\<in>set es. be_clientId e = bp_clientId p \<and> be_currency e = bp_currency p)
    \<and> (\<exists>gs timeLines. bp_lines p = timeLines @ map toExpenseLineDraft es
          \<and> map bt_id (concat gs) = bp_timeEntryIds p \<and> mset (concat gs) \<subseteq># mset ts
          \<and> map ld_quantity timeLines = map (\<lambda>rs. toBilledHours (seconds rs)) gs
          \<and> map ld_unitPriceCents timeLines = map (\<lambda>rs. bt_rateCents (hd rs)) gs
          \<and> (\<forall>rs\<in>set gs. rs \<noteq> [] \<and> 0 < toBilledHours (seconds rs) \<and> (\<forall>r\<in>set rs. bt_rateCents r = bt_rateCents (hd rs))))"
proof -
  let ?gs = "filter (\<lambda>rs. toBilledHours (seconds rs) > 0) (group_rows g ts)"
  let ?us = "filter (\<lambda>rs. \<not> toBilledHours (seconds rs) > 0) (group_rows g ts)"
  let ?lines = "map (\<lambda>rs. toTimeLineDraft (group_of g rs) unit) ?gs"
  note p = plan_billable [OF assms]
  have split: "mset (concat ?gs) + mset (concat ?us) = mset ts"
    using concat_filter_partition [of "\<lambda>rs. toBilledHours (seconds rs) > 0" "group_rows g ts"] groups_cover [of g ts] by simp
  have "image_mset bt_id (mset (concat ?gs)) + image_mset bt_id (mset (concat ?us)) = image_mset bt_id (mset ts)"
    unfolding split [symmetric] by (rule image_mset_union [symmetric])
  then have ids: "mset (bp_timeEntryIds p @ bp_unbillableTimeEntryIds p) = mset (map bt_id ts)"
    by (simp only: p(4,5) mset_append mset_map)
  have sub: "mset (concat ?gs) \<subseteq># mset ts" unfolding split [symmetric] by (rule mset_subset_eq_add_left)
  have fields: "map ld_quantity ?lines = map (\<lambda>rs. toBilledHours (seconds rs)) ?gs"
    "map ld_unitPriceCents ?lines = map (\<lambda>rs. bt_rateCents (hd rs)) ?gs"
    by (simp_all add: toTimeLineDraft_def group_of_def seconds_def)
  have good: "\<forall>rs\<in>set ?gs. rs \<noteq> [] \<and> 0 < toBilledHours (seconds rs) \<and> (\<forall>r\<in>set rs. bt_rateCents r = bt_rateCents (hd rs))"
    using group_rows_facts(1,3) by (intro ballI conjI) (simp_all only: set_filter mem_Collect_eq, blast+)
  note lines = conjI [OF p(3) conjI [OF p(4) [symmetric] conjI [OF sub conjI [OF fields(1) conjI [OF fields(2) good]]]]]
  show ?thesis by (rule conjI [OF ids], rule conjI [OF p(6)], rule conjI [OF p(1)], rule conjI [OF p(2)], rule exI [of _ ?gs], rule exI [of _ ?lines], rule lines)
qed

definition sample_words :: billing_words where
  "sample_words = \<lparr>bw_hourUnit = ''h'', bw_markupSuffix = (\<lambda>m. ''marked up'')\<rparr>"

definition sample_billing :: billing_form where
  "sample_billing = \<lparr>bf_timeEntryIds = [''e1''], bf_expenseIds = [], bf_grouping = By_project, bf_targetInvoiceId = None\<rparr>"

definition sample_rows :: "billable_time list" where
  "sample_rows = selectBillableTimeEntries [''e1''] ''EUR'' sample_workspace"

definition sample_expense :: billable_expense where
  "sample_expense = \<lparr>be_id = ''x1'', be_clientId = ''c1'', be_projectId = None, be_description = ''Fonts'', be_rebillableCents = 1200,
     be_descriptionSuffix = None, be_currency = ''EUR''\<rparr>"

definition sample_plan :: billable_plan where
  "sample_plan =
     \<lparr>bp_currency = ''EUR'', bp_clientId = ''c1'', bp_projectId = Some ''p1'',
      bp_lines = [\<lparr>ld_description = ''Site'', ld_unit = Some ''h'', ld_quantity = 1, ld_unitPriceCents = 5000,
        ld_sourceTimeEntryId = Some ''e1'', ld_sourceExpenseId = None\<rparr>],
      bp_timeEntryIds = [''e1''], bp_expenseIds = [], bp_unbillableTimeEntryIds = []\<rparr>"

lemma sample_rows_value:
  "sample_rows = [\<lparr>bt_id = ''e1'', bt_clientId = ''c1'', bt_projectId = ''p1'', bt_projectName = ''Site'', bt_taskId = None,
     bt_taskTitle = None, bt_description = ''Wireframes'', bt_durationSeconds = 3600, bt_rateCents = 5000, bt_currency = ''EUR''\<rparr>]"
  by (simp add: sample_rows_def selectBillableTimeEntries_def sample_work_defs billable_entry_def to_billable_time_def
      live_project_def find_id_def sample_defs)

lemma one_hour: "toBilledHours 3600 = 1" by code_simp

lemmas plan_sample = planBillableConversion_def selection_rows_def resolveSelectionScope_def sample_rows_value
  groupTimeEntries_def toGroupDescription_def one_hour toTimeLineDraft_def toExpenseLineDraft_def

lemma billing_plan_covers_selection_witness:
  "\<exists>p. planBillableConversion sample_rows [sample_expense] By_project ''h'' = Billable p \<and> bp_expenseIds p = [''x1'']
   \<and> mset (bp_timeEntryIds p @ bp_unbillableTimeEntryIds p) = {#''e1''#}"
proof -
  have "\<exists>p. planBillableConversion sample_rows [sample_expense] By_project ''h'' = Billable p"
    by (simp add: plan_sample sample_expense_def)
  then obtain p where p: "planBillableConversion sample_rows [sample_expense] By_project ''h'' = Billable p" by blast
  show ?thesis
    using p conjunct1 [OF billing_plan_covers_selection [OF p]] conjunct1 [OF conjunct2 [OF billing_plan_covers_selection [OF p]]]
    by (intro exI [of _ p] conjI) (simp_all add: sample_rows_value sample_expense_def)
qed

text \<open>
  C24. Work is billed once: a successful conversion stamps exactly the rows of the plan it confirmed, each of
  which was finished, billable and on no invoice, and leaves every other row as it was; running the same
  conversion again, whatever invoice it aims at, is refused with nothing left to bill and changes nothing.
\<close>

theorem work_is_billed_once:
  assumes "distinct (map te_id (timeEntries w))" and "distinct (map ex_id (expenses w))"
    and "convertBillableWork store words req (Inr f) newId lineIds token w = (Inr i, w1)"
    and "bf_timeEntryIds g = bf_timeEntryIds f" "bf_expenseIds g = bf_expenseIds f" "bf_grouping g = bf_grouping f"
  shows "\<exists>p. buildPlan words f w = Billable p
    \<and> timeEntries w1 = map (stamp_time i (bp_timeEntryIds p)) (timeEntries w)
    \<and> expenses w1 = map (stamp_expense i (bp_expenseIds p)) (expenses w)
    \<and> (\<forall>e\<in>set (timeEntries w). te_id e \<in> set (bp_timeEntryIds p) \<longrightarrow>
         te_invoicedInId e = None \<and> te_endedAt e \<noteq> None \<and> te_billable e \<and> te_deletedAt e = None)
    \<and> convertBillableWork store words req (Inr g) newId' lineIds' token' w1
        = (Inl ''invoices.errors.billableNothingToBill'', w1)"
proof -
  from convertBillableWork_result [OF assms(3)] obtain actor p target d w2 where gate: "requireInvoiceWrite req = Inr actor"
    and plan: "buildPlan words f w = Billable p"
    and written: "(case target of
           None \<Rightarrow> createBillingInvoice store lineIds newId token p
                     (map (\<lambda>l. billing_row l (getDefaultTaxRate (ledger w))) (bp_lines p)) (ledger w)
         | Some t \<Rightarrow> Inr (appendToBillingInvoice store lineIds t
                     (map (\<lambda>l. billing_row l (getDefaultTaxRate (ledger w))) (bp_lines p)) (ledger w))) = Inr (i, d)"
    and st: "stampBilled i p (w\<lparr>ledger := d\<rparr>) = Inr w2"
    and w1: "w1 = emitted (if target = None then ''invoice.created'' else ''invoice.updated'') i (Some (actor_userId actor))
               (audited (if target = None then ''invoice.created'' else ''invoice.updated'') actor i w2)"
    by auto
  note facts = plan_billable [OF plan [unfolded plans_agree(2)]]
  have T: "\<exists>e\<in>set (timeEntries w). te_id e = k \<and> billable_entry (bf_timeEntryIds f) (ledger w) e"
    if k: "k \<in> set (bp_timeEntryIds p)" for k
  proof -
    obtain rs t where "rs \<in> set (group_rows (bf_grouping f) (selected_time f w))" "t \<in> set rs" "k = bt_id t"
      using k unfolding facts(4) by auto
    then have "t \<in> set (selected_time f w)" "k = bt_id t" using group_rows_facts(2) by blast+
    then show ?thesis unfolding selected_time_rows by auto
  qed
  have X: "\<exists>e\<in>set (expenses w). ex_id e = k \<and> billable_expense_row (bf_expenseIds f) (ledger w) e"
    if k: "k \<in> set (bp_expenseIds p)" for k
    using k unfolding facts(6) selected_expense_rows by auto
  have free: "\<forall>k\<in>set (bp_timeEntryIds p). \<exists>e\<in>set (timeEntries w). te_id e = k \<and> te_invoicedInId e = None"
    "\<forall>k\<in>set (bp_expenseIds p). \<exists>e\<in>set (expenses w). ex_id e = k \<and> ex_invoicedInId e = None"
    using T X unfolding billable_entry_def billable_expense_row_def by blast+
  have st': "stampBilled i p (w\<lparr>ledger := d\<rparr>) = Inr w2" using st by simp
  note rows = stampBilled_rows [OF assms(1,2) st' free]
  have te: "timeEntries w1 = map (stamp_time i (bp_timeEntryIds p)) (timeEntries w)"
    and ex: "expenses w1 = map (stamp_expense i (bp_expenseIds p)) (expenses w)"
    and rest: "tasks w1 = tasks w" "same_parents d (ledger w1)"
    by (simp_all add: w1 rows emitted_def audited_def same_parents_def writeAudit_def emit_def)
  have "same_parents (ledger w) d"
    using written createBillingInvoice_parents(1) appendToBillingInvoice_parents(1) by (auto split: option.splits)
  then have par: "same_parents (ledger w) (ledger w1)" using rest(2) by (simp add: same_parents_def)
  note after = selection_after [OF par rest(1) te ex]
  have "distinct (map bt_id (selected_time f w))"
    using assms(1) by (simp add: selected_time_rows comp_def distinct_map_filter)
  then have "planBillableConversion (selected_time f w1) [] (bf_grouping f) (bw_hourUnit words) = Nothing_billable"
    using after(1) by (intro plan_again_refuses [OF plan [unfolded plans_agree(2)]]) simp_all
  moreover have "selected_expenses words f w1 = []"
    using after(2) [of words f] by (simp add: facts(6) filter_empty_conv)
  moreover have "selected_time g w1 = selected_time f w1" "selected_expenses words g w1 = selected_expenses words f w1"
    by (simp_all only: selected_time_def selected_expenses_def assms(4,5))
  ultimately have "buildPlan words g w1 = Nothing_billable" by (simp only: plans_agree(2) assms(6))
  then have again: "convertBillableWork store words req (Inr g) newId' lineIds' token' w1
        = (Inl ''invoices.errors.billableNothingToBill'', w1)"
    by (simp add: convertBillableWork_def gate toPlanErrorMessage_def)
  have "te_invoicedInId e = None \<and> te_endedAt e \<noteq> None \<and> te_billable e \<and> te_deletedAt e = None"
    if e: "e \<in> set (timeEntries w)" "te_id e \<in> set (bp_timeEntryIds p)" for e
  proof -
    obtain e' where "e' \<in> set (timeEntries w)" "te_id e' = te_id e" "billable_entry (bf_timeEntryIds f) (ledger w) e'"
      using T [OF e(2)] by blast
    moreover have "e' = e" using calculation(1,2) e(1) assms(1) by (metis distinct_lookup option.inject)
    ultimately show ?thesis by (simp add: billable_entry_def)
  qed
  then have "\<forall>e\<in>set (timeEntries w). te_id e \<in> set (bp_timeEntryIds p) \<longrightarrow>
         te_invoicedInId e = None \<and> te_endedAt e \<noteq> None \<and> te_billable e \<and> te_deletedAt e = None" by blast
  then show ?thesis using plan te ex again by (intro exI [of _ p] conjI)
qed

lemma sample_billed:
  "buildPlan sample_words sample_billing sample_workspace = Billable sample_plan"
  "\<exists>w1. convertBillableWork id sample_words owner_request (Inr sample_billing) ''i2'' fresh_line_id ''tok2'' sample_workspace
      = (Inr ''i2'', w1)"
proof -
  have "getDefaultCurrency (ledger sample_workspace) = ''EUR''"
    by (simp add: getDefaultCurrency_def sample_workspace_def sample_defs)
  then show plan: "buildPlan sample_words sample_billing sample_workspace = Billable sample_plan"
    by (simp add: buildPlan_def sample_billing_def sample_words_def sample_rows_def [symmetric] sample_plan_def plan_sample)
  have "\<exists>d. createBillingInvoice id fresh_line_id ''i2'' ''tok2'' sample_plan rows sample_db = Inr (''i2'', d)" for rows
    by (simp add: createBillingInvoice_def claimInvoiceNumber_def sample_defs Let_def)
  then obtain d where d: "createBillingInvoice id fresh_line_id ''i2'' ''tok2'' sample_plan
      (map (\<lambda>l. billing_row l (getDefaultTaxRate (ledger sample_workspace))) (bp_lines sample_plan)) (ledger sample_workspace)
      = Inr (''i2'', d)" by (simp add: sample_workspace_def) blast
  have "\<exists>w2. stampBilled ''i2'' sample_plan (sample_workspace\<lparr>ledger := d\<rparr>) = Inr w2"
    by (simp add: stampBilled_def sample_plan_def sample_work_defs)
  moreover have "\<exists>a. requireInvoiceWrite owner_request = Inr a"
    by (simp add: owner_request_def requireInvoiceWrite_def require_role_def getActionContext_def)
  ultimately show "\<exists>w1. convertBillableWork id sample_words owner_request (Inr sample_billing) ''i2'' fresh_line_id ''tok2''
      sample_workspace = (Inr ''i2'', w1)"
    using plan d by (auto simp: convertBillableWork_def plans_agree(1) resolveTarget_def sample_billing_def Let_def)
qed

lemma work_is_billed_once_witness:
  "\<exists>w1. convertBillableWork id sample_words owner_request (Inr sample_billing) ''i2'' fresh_line_id ''tok2'' sample_workspace
      = (Inr ''i2'', w1)
    \<and> timeEntries w1 = [sample_entry\<lparr>te_invoicedInId := Some ''i2''\<rparr>]
    \<and> convertBillableWork id sample_words owner_request (Inr (sample_billing\<lparr>bf_targetInvoiceId := Some ''i2''\<rparr>)) ''i3''
        fresh_line_id ''tok3'' w1 = (Inl ''invoices.errors.billableNothingToBill'', w1)"
proof -
  obtain w1 where c: "convertBillableWork id sample_words owner_request (Inr sample_billing) ''i2'' fresh_line_id ''tok2''
      sample_workspace = (Inr ''i2'', w1)" using sample_billed(2) by blast
  have ids: "distinct (map te_id (timeEntries sample_workspace))" "distinct (map ex_id (expenses sample_workspace))"
    by (simp_all add: sample_work_defs)
  from work_is_billed_once [OF ids c, of "sample_billing\<lparr>bf_targetInvoiceId := Some ''i2''\<rparr>" "''i3''" fresh_line_id "''tok3''"]
  have te: "timeEntries w1 = map (stamp_time ''i2'' [''e1'']) (timeEntries sample_workspace)"
    and again: "convertBillableWork id sample_words owner_request (Inr (sample_billing\<lparr>bf_targetInvoiceId := Some ''i2''\<rparr>))
        ''i3'' fresh_line_id ''tok3'' w1 = (Inl ''invoices.errors.billableNothingToBill'', w1)"
    by (auto simp: sample_billed(1) sample_plan_def)
  then have "timeEntries w1 = [sample_entry\<lparr>te_invoicedInId := Some ''i2''\<rparr>]"
    by (simp add: stamp_time_def sample_work_defs)
  with c again show ?thesis by blast
qed

end
