(* ===== verification/RecurringRules.thy ===== *)
theory RecurringRules
  imports Workspace "HOL-Library.Signed_Division"
begin

text \<open>
  The pure rules of recurring invoices (\<open>features/recurringInvoices/services\<close>): the date of the next run,
  whether a schedule generates, finishes or waits, the retainer pool, and the blueprint frozen from a form.
  The lemmas place every run on the calendar and show that a stored day never drifts.
\<close>

section \<open>The next run\<close>

fun monthsPerCadence :: "cadence \<Rightarrow> int" where
  "monthsPerCadence Monthly = 1"
| "monthsPerCadence Quarterly = 3"
| "monthsPerCadence Yearly = 12"
| "monthsPerCadence Weekly = 0"

definition addUtcDays :: "jsdate \<Rightarrow> int \<Rightarrow> jsdate" where
  "addUtcDays value days = date_UTC (utc_year value) (utc_month value) (utc_date value + days)"

definition daysInMonth :: "int \<Rightarrow> int \<Rightarrow> int" where
  "daysInMonth year month = utc_date (date_UTC year (month + 1) 0)"

definition nextWeeklyRun :: "jsdate \<Rightarrow> int option \<Rightarrow> jsdate" where
  "nextWeeklyRun anchor cadenceDay =
     (case cadenceDay of
        None \<Rightarrow> addUtcDays anchor 7
      | Some day \<Rightarrow>
          let anchorIsoDay = (if utc_weekday anchor = 0 then 7 else utc_weekday anchor);
              offset = (day - anchorIsoDay + 7) smod 7
          in addUtcDays anchor (if offset = 0 then 7 else offset))"

definition computeNextRunDate :: "cadence \<Rightarrow> int option \<Rightarrow> jsdate \<Rightarrow> jsdate" where
  "computeNextRunDate cadence cadenceDay lastRunAt =
     (let anchor = toUtcDay lastRunAt
      in if cadence = Weekly then nextWeeklyRun anchor cadenceDay
         else let targetMonth = utc_month anchor + monthsPerCadence cadence;
                  year = utc_year anchor;
                  day = (case cadenceDay of None \<Rightarrow> utc_date anchor | Some d \<Rightarrow> d)
              in date_UTC year targetMonth (min day (daysInMonth year targetMonth)))"

section \<open>Whether to run\<close>

datatype run_decision = Generate | Complete_limit | Complete_end_date | Skip_inactive | Skip_not_due

definition shouldGenerateInvoice ::
  "recurring_status \<Rightarrow> jsdate \<Rightarrow> int option \<Rightarrow> jsdate option \<Rightarrow> int \<Rightarrow> jsdate \<Rightarrow> run_decision" where
  "shouldGenerateInvoice status nextRunAt endAfterCount endByDate occurrencesGenerated asOf =
     (if status \<noteq> Active then Skip_inactive
      else if (case endAfterCount of None \<Rightarrow> False | Some n \<Rightarrow> n \<le> occurrencesGenerated) then Complete_limit
      else let nextRun = toUtcDay nextRunAt
           in if (case endByDate of None \<Rightarrow> False | Some d \<Rightarrow> toUtcDay d < nextRun) then Complete_end_date
              else if toUtcDay asOf < nextRun then Skip_not_due
              else Generate)"

section \<open>The retainer pool\<close>

record retainer_terms =
  rt_includedHours :: int
  rt_overageRateCents :: int

record retainer_usage =
  ru_includedHours :: int
  ru_consumedHours :: jsnum
  ru_remainingHours :: jsnum
  ru_overageHours :: jsnum
  ru_overageCents :: int
  ru_exhausted :: bool

definition calculateRetainerUsage :: "retainer_terms \<Rightarrow> jsnum \<Rightarrow> retainer_usage" where
  "calculateRetainerUsage terms consumedHours =
     (let consumed = max consumedHours 0;
          included = of_int (rt_includedHours terms);
          overageHours = max (js_sub consumed included) 0
      in \<lparr>ru_includedHours = rt_includedHours terms, ru_consumedHours = consumed,
          ru_remainingHours = max (js_sub included consumed) 0, ru_overageHours = overageHours,
          ru_overageCents = math_round (js_mul overageHours (of_int (rt_overageRateCents terms))),
          ru_exhausted = (included \<le> consumed)\<rparr>)"

definition toRetainerTerms :: "int option \<Rightarrow> int option \<Rightarrow> retainer_terms option" where
  "toRetainerTerms includedHours overageRateCents =
     (case (includedHours, overageRateCents) of
        (Some h, Some r) \<Rightarrow> Some \<lparr>rt_includedHours = h, rt_overageRateCents = r\<rparr>
      | _ \<Rightarrow> None)"

definition toConsumedHours :: "int \<Rightarrow> jsnum" where
  "toConsumedHours durationSeconds = js_div (of_int (max durationSeconds 0)) 3600"

section \<open>The blueprint\<close>

text \<open>A form line carries its discount as submitted; the blueprint stores the column shape.\<close>

definition toBlueprintDiscount :: "discount_values \<Rightarrow> discount_columns" where
  "toBlueprintDiscount v =
     (if dv_kind v = KindPercentage \<and> dv_percentage v \<noteq> None
      then \<lparr>dc_type = Some TypePercentage, dc_percentage = dv_percentage v, dc_amount_cents = None\<rparr>
      else if dv_kind v = KindFixed \<and> dv_amount v \<noteq> None
      then \<lparr>dc_type = Some TypeFixed, dc_percentage = None, dc_amount_cents = dv_amount v\<rparr>
      else \<lparr>dc_type = None, dc_percentage = None, dc_amount_cents = None\<rparr>)"

definition toBlueprintLines :: "line_form list \<Rightarrow> (ident \<times> jsnum) list \<Rightarrow> blueprint_line list" where
  "toBlueprintLines items taxPercentages =
     map (\<lambda>item.
       \<lparr>bl_description = lf_description item, bl_unit = (if lf_unit item \<noteq> [] then Some (lf_unit item) else None),
        bl_quantity = lf_quantity item, bl_unitPriceCents = lf_unitPrice item, bl_taxRateId = lf_taxRateId item,
        bl_taxPercentage = (case lf_taxRateId item of None \<Rightarrow> 0
          | Some k \<Rightarrow> (case map_of taxPercentages k of None \<Rightarrow> 0 | Some p \<Rightarrow> p)),
        bl_discount = toBlueprintDiscount (lf_discount item)\<rparr>) items"

section \<open>The calendar\<close>

text \<open>A month is numbered from the year 0, so that adding months is addition.\<close>

definition month_index :: "jsdate \<Rightarrow> int" where
  "month_index t = 12 * utc_year t + utc_month t"

definition month_day :: "int \<Rightarrow> int \<Rightarrow> int" where
  "month_day k d = make_day 0 k d"

lemma make_day_index: "make_day y m d = month_day (12 * y + m) d"
  by (simp add: month_day_def make_day_def Let_def)

lemma days_in_month_index: "days_in_month y m = days_in_month 0 (12 * y + m)"
  by (simp add: days_in_month_def Let_def)

lemma month_length_pos: "28 \<le> days_in_month y m" "days_in_month y m \<le> 31"
proof -
  have "m mod 12 \<in> {0,1,2,3,4,5,6,7,8,9,10,11}" by simp presburger
  then show "28 \<le> days_in_month y m" "days_in_month y m \<le> 31"
    unfolding days_in_month_def Let_def by (elim insertE; simp add: month_start_def Let_def)+
qed

lemma month_day_Suc: "month_day (k + 1) d = month_day k d + days_in_month 0 k"
proof (cases "k mod 12 = 11")
  case True
  have e: "k + 1 = 12 * (k div 12 + 1) + 0" using True mult_div_mod_eq [of 12 k] by simp
  have q: "(k + 1) div 12 = k div 12 + 1" "(k + 1) mod 12 = 0"
    using int_div_pos_eq [OF e] int_mod_pos_eq [OF e] by simp_all
  show ?thesis
    using True year_start_Suc [of "k div 12"] by (simp add: month_day_def make_day_def days_in_month_def Let_def q month_start_def)
next
  case False
  have "k mod 12 < 12" by simp
  then have r: "k mod 12 + 1 < 12" using False by linarith
  have e: "k + 1 = 12 * (k div 12) + (k mod 12 + 1)" by simp
  have q: "(k + 1) div 12 = k div 12" "(k + 1) mod 12 = k mod 12 + 1"
    using int_div_pos_eq [OF e] int_mod_pos_eq [OF e] r by simp_all
  show ?thesis by (simp add: month_day_def make_day_def days_in_month_def Let_def q)
qed

lemma month_day_mono: "j \<le> k \<Longrightarrow> month_day j d \<le> month_day k d"
proof (induction "nat (k - j)" arbitrary: k)
  case (Suc n)
  have "month_day j d \<le> month_day (k - 1) d" using Suc by auto
  also have "\<dots> \<le> month_day k d" using month_day_Suc [of "k - 1" d] month_length_pos(1) [of 0 "k - 1"] by simp
  finally show ?case .
qed simp

lemma month_day_shift: "month_day k d = month_day k 1 + (d - 1)"
  by (simp add: month_day_def make_day_def Let_def)

lemma month_of_day:
  assumes d: "1 \<le> d" "d \<le> days_in_month 0 k" and t: "day_of t = month_day k d"
  shows "utc_year t = k div 12" and "utc_month t = k mod 12" and "utc_date t = d" and "month_index t = k"
proof -
  have "k = 12 * (k div 12) + k mod 12" by simp
  then have day: "day_of t = make_day (k div 12) (k mod 12) d" and len: "d \<le> days_in_month (k div 12) (k mod 12)"
    using t d(2) make_day_index [of "k div 12" "k mod 12" d] days_in_month_index [of "k div 12" "k mod 12"] by simp_all
  note civil = day_of_civil [OF _ _ d(1) len day]
  show "utc_year t = k div 12" "utc_month t = k mod 12" "utc_date t = d" using civil by simp_all
  then show "month_index t = k" by (simp add: month_index_def)
qed

lemma date_in_month: "1 \<le> utc_date t" "utc_date t \<le> days_in_month 0 (month_index t)"
  "day_of t = month_day (month_index t) (utc_date t)"
proof -
  have m: "utc_month t div 12 = 0" "utc_month t mod 12 = utc_month t"
    using month_of_yday_range [of "leap_year (utc_year t)" "day_of t - year_start (utc_year t)"]
    by (simp_all add: utc_month_def Let_def)
  have "0 \<le> day_of t - year_start (utc_year t)"
    "day_of t - year_start (utc_year t) < (if leap_year (utc_year t) then 366 else 365)"
    using year_of_day_bounds [of "day_of t"] year_start_Suc [of "utc_year t"] by (auto simp: utc_year_def split: if_splits)
  from month_of_yday_bounds [OF this] have
    "month_start (leap_year (utc_year t)) (utc_month t) \<le> day_of t - year_start (utc_year t)"
    "day_of t - year_start (utc_year t) < month_start (leap_year (utc_year t)) (utc_month t + 1)"
    by (simp_all add: utc_month_def Let_def)
  then show "1 \<le> utc_date t" "utc_date t \<le> days_in_month 0 (month_index t)"
    using m days_in_month_index [of "utc_year t" "utc_month t"]
    by (simp_all add: utc_date_def days_in_month_def Let_def month_index_def)
  show "day_of t = month_day (month_index t) (utc_date t)"
    using civil_of_day [of t] by (simp add: make_day_index month_index_def)
qed

lemma daysInMonth_eq: "100 \<le> y \<Longrightarrow> daysInMonth y m = days_in_month y m"
proof -
  assume y: "100 \<le> y"
  let ?k = "12 * y + m"
  have "day_of (date_UTC y (m + 1) 0) = month_day (?k + 1) 0"
    using y by (simp add: day_of_date_UTC make_day_index add.assoc)
  also have "\<dots> = month_day ?k (days_in_month 0 ?k)"
    using month_day_Suc [of ?k 0] month_day_shift [of ?k 0] month_day_shift [of ?k "days_in_month 0 ?k"] by simp
  finally have "utc_date (date_UTC y (m + 1) 0) = days_in_month 0 ?k"
    using month_of_day(3) [of "days_in_month 0 ?k" ?k] month_length_pos(1) [of 0 ?k] by simp
  then show ?thesis by (simp add: daysInMonth_def days_in_month_index [of y m])
qed

lemma toUtcDay_fields:
  assumes "modern t"
  shows "day_of (toUtcDay t) = day_of t" "utc_year (toUtcDay t) = utc_year t" "utc_month (toUtcDay t) = utc_month t"
    "utc_date (toUtcDay t) = utc_date t" "utc_weekday (toUtcDay t) = utc_weekday t" "month_index (toUtcDay t) = month_index t"
proof -
  show d: "day_of (toUtcDay t) = day_of t" using assms by (simp add: toUtcDay_modern)
  then show "utc_year (toUtcDay t) = utc_year t" "utc_month (toUtcDay t) = utc_month t" "utc_date (toUtcDay t) = utc_date t"
    "utc_weekday (toUtcDay t) = utc_weekday t" "month_index (toUtcDay t) = month_index t"
    by (simp_all add: utc_year_def utc_month_def utc_date_def utc_weekday_def month_index_def Let_def)
qed

lemma modern_utc_year: "modern t \<Longrightarrow> 100 \<le> utc_year t"
  by (simp add: modern_def modern_year)

lemma addUtcDays_eq: "modern t \<Longrightarrow> addUtcDays t n = ms_per_day * (day_of t + n)"
  using modern_utc_year [of t] civil_of_day [of t]
  by (simp add: addUtcDays_def date_UTC_def make_day_add)

lemma later_day_modern: "modern t \<Longrightarrow> day_of t \<le> d \<Longrightarrow> modern (ms_per_day * d)"
  using modern_day [of t] by (intro modern_day_mult) simp

text \<open>A run some months on: the month is exact, the day is the wanted one or the last of that month.\<close>

lemma months_later:
  fixes step :: int
  assumes t: "modern t" and step: "1 \<le> step" and day: "1 \<le> d"
  defines "r \<equiv> date_UTC (utc_year t) (utc_month t + step) (min d (daysInMonth (utc_year t) (utc_month t + step)))"
  shows "month_index r = month_index t + step" "utc_date r = min d (days_in_month (utc_year r) (utc_month r))"
    "day_of t < day_of r" "r = ms_per_day * day_of r"
proof -
  let ?k = "month_index t + step"
  have y: "100 \<le> utc_year t" by (rule modern_utc_year [OF t])
  have len: "daysInMonth (utc_year t) (utc_month t + step) = days_in_month 0 ?k"
    using daysInMonth_eq [OF y] days_in_month_index [of "utc_year t" "utc_month t + step"] by (simp add: month_index_def add.assoc)
  let ?d = "min d (days_in_month 0 ?k)"
  have dd: "1 \<le> ?d" "?d \<le> days_in_month 0 ?k" using day month_length_pos(1) [of 0 ?k] by simp_all
  have day_r: "day_of r = month_day ?k ?d"
    using y by (simp add: r_def len day_of_date_UTC make_day_index month_index_def add.assoc)
  note m = month_of_day [OF dd day_r]
  show idx: "month_index r = ?k" by (rule m(4))
  show "utc_date r = min d (days_in_month (utc_year r) (utc_month r))"
    using m(3) idx days_in_month_index [of "utc_year r" "utc_month r"] by (simp add: month_index_def)
  have "day_of t = month_day (month_index t) 1 + (utc_date t - 1)"
    using date_in_month(3) [of t] month_day_shift [of "month_index t" "utc_date t"] by simp
  also have "\<dots> < month_day (month_index t + 1) 1"
    using date_in_month(2) [of t] by (simp add: month_day_Suc)
  also have "\<dots> \<le> month_day ?k 1" using step by (intro month_day_mono) simp
  also have "\<dots> \<le> day_of r" using day_r dd month_day_shift [of ?k ?d] by simp
  finally show "day_of t < day_of r" .
  show "r = ms_per_day * day_of r"
    by (simp add: r_def date_UTC_def Let_def)
qed

definition valid_cadence_day :: "cadence \<Rightarrow> int option \<Rightarrow> bool" where
  "valid_cadence_day c cadenceDay \<longleftrightarrow>
     (case cadenceDay of None \<Rightarrow> True | Some d \<Rightarrow> 1 \<le> d \<and> d \<le> (if c = Weekly then 7 else 31))"

lemma weekday_step:
  fixes w i n day :: int
  assumes "i mod 7 = w" and "n mod 7 = (day - i) mod 7"
  shows "(w + n) mod 7 = day mod 7"
proof -
  have "w mod 7 = i mod 7" using assms(1) by auto
  from mod_add_cong [OF this assms(2)] show ?thesis by simp
qed

lemma weekly_run:
  assumes t: "modern t" and d: "valid_cadence_day Weekly cd"
  shows "\<exists>n. nextWeeklyRun (toUtcDay t) cd = ms_per_day * (day_of t + n) \<and> 1 \<le> n \<and> n \<le> 7
    \<and> (case cd of None \<Rightarrow> n = 7 | Some day \<Rightarrow> (day_of t + n + 4) mod 7 = day mod 7)"
proof (cases cd)
  case None
  then show ?thesis
    by (auto simp: nextWeeklyRun_def addUtcDays_eq modern_toUtcDay t toUtcDay_fields)
next
  case (Some day)
  let ?w = "(day_of t + 4) mod 7"
  let ?iso = "if ?w = 0 then 7 else ?w"
  let ?o = "(day - ?iso + 7) smod 7"
  have day: "1 \<le> day" "day \<le> 7" using d Some by (simp_all add: valid_cadence_day_def)
  have "0 \<le> ?w" "?w < 7" by simp_all
  then have iso: "1 \<le> ?iso" "?iso \<le> 7" "?iso mod 7 = ?w" by auto
  have o: "?o = (day - ?iso + 7) mod 7" using day iso by (simp add: signed_modulo_int_def signed_divide_int_def sgn_if minus_div_mult_eq_mod)
  let ?n = "if ?o = 0 then 7 else ?o"
  have wrap: "1 \<le> (if x mod 7 = 0 then 7 else x mod 7) \<and> (if x mod 7 = 0 then 7 else x mod 7) \<le> 7
      \<and> (if x mod 7 = 0 then 7 else x mod 7) mod 7 = x mod 7" for x :: int by simp presburger
  have n: "1 \<le> ?n" "?n \<le> 7" and nm: "?n mod 7 = (day - ?iso) mod 7"
    using wrap [of "day - ?iso + 7"] unfolding o mod_add_self2 by (rule conjunct1, rule conjunct1 [OF conjunct2], rule conjunct2 [OF conjunct2])
  have "(day_of t + m + 4) mod 7 = (?w + m) mod 7" for m by (simp add: mod_simps algebra_simps)
  from trans [OF this weekday_step [OF iso(3) nm]] have "(day_of t + ?n + 4) mod 7 = day mod 7" .
  moreover have "utc_weekday (toUtcDay t) = ?w" using toUtcDay_fields(5) [OF t] by (simp add: utc_weekday_def)
  then have "nextWeeklyRun (toUtcDay t) cd = addUtcDays (toUtcDay t) ?n"
    unfolding nextWeeklyRun_def Some option.case Let_def by (simp only:)
  then have "nextWeeklyRun (toUtcDay t) cd = ms_per_day * (day_of t + ?n)"
    unfolding addUtcDays_eq [OF modern_toUtcDay [OF t]] toUtcDay_fields(1) [OF t] .
  ultimately show ?thesis unfolding Some option.case by (intro exI [of _ ?n] conjI n)
qed

lemma next_run_monthly:
  assumes t: "modern t" and c: "c \<noteq> Weekly" and d: "valid_cadence_day c cd"
  defines "r \<equiv> computeNextRunDate c cd t"
  shows "month_index r = month_index t + monthsPerCadence c"
    "utc_date r = min (case cd of None \<Rightarrow> utc_date t | Some d \<Rightarrow> d) (days_in_month (utc_year r) (utc_month r))"
    "day_of t < day_of r" "r = ms_per_day * day_of r"
proof -
  have step: "1 \<le> monthsPerCadence c" using c by (cases c) simp_all
  have day: "1 \<le> (case cd of None \<Rightarrow> utc_date t | Some d \<Rightarrow> d)"
    using d date_in_month(1) [of t] by (auto simp: valid_cadence_day_def split: option.splits)
  have r: "r = date_UTC (utc_year t) (utc_month t + monthsPerCadence c)
      (min (case cd of None \<Rightarrow> utc_date t | Some d \<Rightarrow> d) (daysInMonth (utc_year t) (utc_month t + monthsPerCadence c)))"
    using c by (simp add: r_def computeNextRunDate_def Let_def toUtcDay_fields [OF t] cong: option.case_cong)
  show "month_index r = month_index t + monthsPerCadence c"
    "utc_date r = min (case cd of None \<Rightarrow> utc_date t | Some d \<Rightarrow> d) (days_in_month (utc_year r) (utc_month r))"
    "day_of t < day_of r" "r = ms_per_day * day_of r"
    unfolding r by (rule months_later [OF t step day])+
qed

lemma next_run_later:
  assumes "modern t" and "valid_cadence_day c cd"
  shows "day_of t < day_of (computeNextRunDate c cd t)" "modern (computeNextRunDate c cd t)"
    "computeNextRunDate c cd t = ms_per_day * day_of (computeNextRunDate c cd t)"
proof -
  have a: "day_of t < day_of (computeNextRunDate c cd t)
    \<and> computeNextRunDate c cd t = ms_per_day * day_of (computeNextRunDate c cd t)"
  proof (cases "c = Weekly")
    case True
    then show ?thesis using weekly_run [of t cd] assms by (auto simp: computeNextRunDate_def)
  qed (use next_run_monthly assms in blast)
  then show "day_of t < day_of (computeNextRunDate c cd t)"
    "computeNextRunDate c cd t = ms_per_day * day_of (computeNextRunDate c cd t)" by blast+
  then show "modern (computeNextRunDate c cd t)" using later_day_modern [OF assms(1)] by (metis less_imp_le)
qed

section \<open>Properties\<close>

text \<open>
  The next run is the next one on the calendar: a midnight strictly after the anchor's day; for a weekly
  schedule within seven days and on the wanted weekday; otherwise exactly the cadence's number of months on,
  on the wanted day of that month or on its last day where the month is shorter.
\<close>

theorem next_run_is_on_calendar:
  assumes "modern t" and "valid_cadence_day c cd" and "r = computeNextRunDate c cd t"
  shows "day_of t < day_of r \<and> r = ms_per_day * day_of r
    \<and> (if c = Weekly
       then day_of r \<le> day_of t + 7
          \<and> (case cd of None \<Rightarrow> day_of r = day_of t + 7 | Some d \<Rightarrow> utc_weekday r = d mod 7)
       else 12 * utc_year r + utc_month r = 12 * utc_year t + utc_month t + monthsPerCadence c
          \<and> utc_date r = min (case cd of None \<Rightarrow> utc_date t | Some d \<Rightarrow> d) (days_in_month (utc_year r) (utc_month r)))"
proof (cases "c = Weekly")
  case True
  then show ?thesis
    using weekly_run [of t cd] assms
    by (auto simp: computeNextRunDate_def utc_weekday_def split: option.splits)
next
  case False
  note m = next_run_monthly [OF assms(1) False assms(2), folded assms(3)]
  show ?thesis using m False by (simp add: month_index_def)
qed

lemma next_run_is_on_calendar_witness:
  "utc_date (computeNextRunDate Monthly (Some 31) 1769817600000) = 28
   \<and> utc_weekday (computeNextRunDate Weekly (Some 5) 1769817600000) = 5"
proof -
  have t: "modern 1769817600000" by (simp add: modern_def)
  have d: "valid_cadence_day Monthly (Some 31)" "valid_cadence_day Weekly (Some 5)" by (simp_all add: valid_cadence_day_def)
  have "days_in_month (utc_year (computeNextRunDate Monthly (Some 31) 1769817600000))
      (utc_month (computeNextRunDate Monthly (Some 31) 1769817600000)) = 28" by code_simp
  with next_run_is_on_calendar [OF t d(1) refl] next_run_is_on_calendar [OF t d(2) refl] show ?thesis by simp
qed

text \<open>
  A stored day never drifts: however often a monthly, quarterly or yearly schedule with a stored day has
  run, through months too short for that day, the next run falls on the stored day of the right month or on
  its last day.
\<close>

theorem stored_day_never_drifts:
  assumes "modern t" and "c \<noteq> Weekly" and "1 \<le> d" and "d \<le> 31"
  shows "let r = ((computeNextRunDate c (Some d)) ^^ Suc n) t
     in 12 * utc_year r + utc_month r = 12 * utc_year t + utc_month t + int (Suc n) * monthsPerCadence c
        \<and> utc_date r = min d (days_in_month (utc_year r) (utc_month r))"
proof -
  have v: "valid_cadence_day c (Some d)" using assms(2-4) by (simp add: valid_cadence_day_def)
  have m: "modern ((computeNextRunDate c (Some d) ^^ k) t)
      \<and> month_index ((computeNextRunDate c (Some d) ^^ k) t) = month_index t + int k * monthsPerCadence c" for k
  proof (induction k)
    case (Suc k)
    then have "modern ((computeNextRunDate c (Some d) ^^ k) t)" by blast
    note next_run_later(2) [OF this v] next_run_monthly(1) [OF this assms(2) v]
    then show ?case using Suc by (simp add: algebra_simps)
  qed (use assms(1) in simp)
  have "modern ((computeNextRunDate c (Some d) ^^ n) t)" using m by blast
  from next_run_monthly(2) [OF this assms(2) v] m [of "Suc n"] show ?thesis
    by (simp add: Let_def month_index_def algebra_simps)
qed

lemma stored_day_never_drifts_witness:
  "utc_date (((computeNextRunDate Monthly (Some 31)) ^^ Suc 1) 1769817600000) = 31"
proof -
  have t: "modern 1769817600000" by (simp add: modern_def)
  have "computeNextRunDate Monthly (Some 31) 1769817600000 = 1772236800000"
    "computeNextRunDate Monthly (Some 31) 1772236800000 = 1774915200000"
    "days_in_month (utc_year 1774915200000) (utc_month 1774915200000) = 31" by code_simp+
  then show ?thesis using stored_day_never_drifts [OF t, of Monthly 31 1] by (simp add: Let_def)
qed

text \<open>
  Without a stored day the run takes the day of the previous run, so a day lost to a short month does not
  come back: from 31 January 2026 to 28 February to 28 March.
\<close>

lemma unstored_day_drifts:
  "utc_date 1769817600000 = 31"
  "computeNextRunDate Monthly None 1769817600000 = 1772236800000"
  "utc_date (computeNextRunDate Monthly None 1772236800000) = 28"
  by code_simp+

end
