(* ===== verification/Recurring.thy ===== *)
theory Recurring
  imports RecurringRules TimeTracking
begin

text \<open>
  Recurring invoices (\<open>features/recurringInvoices\<close>): the nightly sweep that queues a job per due schedule, the
  job that generates one invoice inside a transaction holding the schedule's lock, the system-side invoice
  write it uses (\<open>features/invoices/systemWrites.ts\<close>), and the actions on schedules. The job transaction is one
  step; a throw inside it gives back the workspace it started from and leaves the retry to the queue.
\<close>

section \<open>The system-side invoice write\<close>

record system_invoice =
  sys_clientId :: ident
  sys_projectId :: "ident option"
  sys_templateId :: "ident option"
  sys_recurringInvoiceId :: ident
  sys_currency :: string
  sys_status :: invoice_status
  sys_notes :: "string option"
  sys_lineItems :: "line_row_input list"
  sys_now :: jsdate

definition writeSystemInvoice ::
  "(jsnum \<Rightarrow> jsnum) \<Rightarrow> (nat \<Rightarrow> ident) \<Rightarrow> ident \<Rightarrow> string \<Rightarrow> system_invoice \<Rightarrow> db \<Rightarrow> ((ident \<times> string \<times> int) \<times> db) result" where
  "writeSystemInvoice store lineIds newId token input d =
     (let totals = calculateInvoiceTotal (map row_input (sys_lineItems input)) None;
          dates = (if sys_status input = Sent
                   then Some (resolveInvoiceIssueDates (sys_now input) None None
                          (case getPaymentTermsDays d of None \<Rightarrow> 0 | Some n \<Rightarrow> n))
                   else None)
      in bind_result (claimInvoiceNumber d) (\<lambda>(number, d1).
        let row = \<lparr>inv_id = newId, inv_projectId = sys_projectId input, inv_clientId = Some (sys_clientId input), inv_proposalId = None,
              inv_templateId = sys_templateId input, inv_recurringInvoiceId = Some (sys_recurringInvoiceId input),
              inv_pdfUploadId = None, inv_number = number, inv_status = sys_status input,
              inv_currency = sys_currency input, inv_discount = no_discount_columns,
              inv_subtotalCents = subtotalCents totals, inv_discountAmountTotalCents = discountAmountTotalCents totals,
              inv_taxAmountCents = taxAmountCents totals, inv_totalCents = totalCents totals, inv_amountPaidCents = 0,
              inv_issueDate = map_option fst dates, inv_dueDate = map_option snd dates, inv_paidAt = None,
              inv_lateFeeCents = None, inv_notes = sys_notes input, inv_publicToken = Some token,
              inv_deletedAt = None\<rparr>
        in Inr ((newId, number, totalCents totals), writeInvoiceLineItems store lineIds newId (sys_lineItems input) None
             (d1\<lparr>invoices := add_row row (invoices d1)\<rparr>))))"

section \<open>Generating\<close>

text \<open>The blueprint column is jsonb without a shape; every read parses it through the schema.\<close>

definition percentage_ok :: "jsnum \<Rightarrow> bool" where
  "percentage_ok p \<longleftrightarrow> 0 \<le> p \<and> p \<le> 100"

definition recurringInvoiceBlueprintLineSchema :: "(ident \<Rightarrow> bool) \<Rightarrow> blueprint_line \<Rightarrow> bool" where
  "recurringInvoiceBlueprintLineSchema isUuid l \<longleftrightarrow>
     1 \<le> length (bl_description l) \<and> length (bl_description l) \<le> 500
     \<and> (case bl_unit l of None \<Rightarrow> True | Some u \<Rightarrow> length u \<le> 50)
     \<and> 0 < bl_quantity l \<and> 0 \<le> bl_unitPriceCents l
     \<and> (case bl_taxRateId l of None \<Rightarrow> True | Some k \<Rightarrow> isUuid k)
     \<and> percentage_ok (bl_taxPercentage l)
     \<and> (case dc_percentage (bl_discount l) of None \<Rightarrow> True | Some p \<Rightarrow> percentage_ok p)
     \<and> (case dc_amount_cents (bl_discount l) of None \<Rightarrow> True | Some a \<Rightarrow> 0 \<le> a)"

definition toInvoiceLineItemRow :: "blueprint_line \<Rightarrow> line_row_input" where
  "toInvoiceLineItemRow l =
     \<lparr>lr_taxRateId = bl_taxRateId l, lr_description = bl_description l, lr_unit = bl_unit l,
      lr_quantity = bl_quantity l, lr_unitPriceCents = bl_unitPriceCents l, lr_discount = bl_discount l,
      lr_taxPercentage = bl_taxPercentage l, lr_sourceTimeEntryId = None, lr_sourceExpenseId = None\<rparr>"

text \<open>The words of the interface on an overage line.\<close>

record overage_words =
  ow_lineDescription :: "int \<Rightarrow> string"
  ow_lineUnit :: string

definition toOverageLineItems :: "overage_words \<Rightarrow> retainer_usage option \<Rightarrow> int option \<Rightarrow> line_row_input list" where
  "toOverageLineItems words retainer overageRateCents =
     (case retainer of
        None \<Rightarrow> []
      | Some r \<Rightarrow>
          if ru_overageHours r \<le> 0 then []
          else (case overageRateCents of
             None \<Rightarrow> []
           | Some rate \<Rightarrow>
               [\<lparr>lr_taxRateId = None, lr_description = ow_lineDescription words (ru_includedHours r),
                 lr_unit = Some (ow_lineUnit words), lr_quantity = ru_overageHours r, lr_unitPriceCents = rate,
                 lr_discount = no_discount_columns, lr_taxPercentage = 0,
                 lr_sourceTimeEntryId = None, lr_sourceExpenseId = None\<rparr>]))"

definition unbilled_entry :: "ident \<Rightarrow> time_entry_row \<Rightarrow> bool" where
  "unbilled_entry projectId e \<longleftrightarrow> te_projectId e = projectId \<and> te_billable e \<and> te_invoicedInId e = None \<and> te_deletedAt e = None"

text \<open>SQL's \<open>sum\<close> skips the entries without a duration, and is null over none, which reads as 0.\<close>

definition sum_durations :: "time_entry_row list \<Rightarrow> int" where
  "sum_durations es = sum_list (map (\<lambda>e. case te_durationSeconds e of None \<Rightarrow> 0 | Some s \<Rightarrow> s) es)"

definition resolveRetainerUsage :: "schedule_row \<Rightarrow> workspace \<Rightarrow> retainer_usage option" where
  "resolveRetainerUsage s w =
     (case toRetainerTerms (rec_includedHours s) (rec_overageRateCents s) of
        None \<Rightarrow> None
      | Some terms \<Rightarrow>
          (case rec_projectId s of
             None \<Rightarrow> Some (calculateRetainerUsage terms 0)
           | Some p \<Rightarrow> Some (calculateRetainerUsage terms
                (toConsumedHours (sum_durations (filter (unbilled_entry p) (timeEntries w)))))))"

record generation_outcome =
  go_invoiceId :: ident
  go_invoiceNumber :: string
  go_totalCents :: int
  go_occurrence :: int
  go_clientId :: ident
  go_projectId :: "ident option"
  go_retainer :: "retainer_usage option"
  go_autoSend :: bool

definition live_schedule :: "ident \<Rightarrow> workspace \<Rightarrow> schedule_row option" where
  "live_schedule k w = List.find (\<lambda>s. rec_id s = k \<and> rec_deletedAt s = None) (schedules w)"

definition decide_run :: "schedule_row \<Rightarrow> jsdate \<Rightarrow> run_decision" where
  "decide_run s asOf = shouldGenerateInvoice (rec_status s) (rec_nextRunAt s) (rec_endAfterCount s) (rec_endByDate s)
     (rec_occurrencesGenerated s) asOf"

text \<open>The columns the run advances: the counters, the dates, and \<open>completed\<close> after the last occurrence.\<close>

definition advance_schedule :: "schedule_row \<Rightarrow> schedule_row" where
  "advance_schedule s =
     (let nextRunAt = computeNextRunDate (rec_cadence s) (rec_cadenceDay s) (rec_nextRunAt s);
          after = decide_run (s\<lparr>rec_nextRunAt := nextRunAt, rec_occurrencesGenerated := rec_occurrencesGenerated s + 1\<rparr>) nextRunAt
      in s\<lparr>rec_lastRunAt := Some (rec_nextRunAt s), rec_nextRunAt := nextRunAt,
           rec_occurrencesGenerated := rec_occurrencesGenerated s + 1,
           rec_status := (if after = Complete_limit \<or> after = Complete_end_date then Completed else rec_status s)\<rparr>)"

definition announceGeneration :: "ident \<Rightarrow> generation_outcome \<Rightarrow> workspace \<Rightarrow> workspace" where
  "announceGeneration scheduleId outcome w =
     (let d1 = emit ''recurring.invoice_generated'' scheduleId None
                 (writeAudit ''recurring_invoice.generated'' None (Some scheduleId) (ledger w));
          d2 = (case go_retainer outcome of
                  None \<Rightarrow> d1
                | Some r \<Rightarrow> if ru_exhausted r then emit ''retainer.pool_exhausted'' scheduleId None d1 else d1)
      in w\<lparr>ledger := enqueueJob ''invoice.pdf.render'' (go_invoiceId outcome)
             (if go_autoSend outcome then Some ''recurring_generated'' else None) d2\<rparr>)"

definition generation_rows :: "overage_words \<Rightarrow> schedule_row \<Rightarrow> retainer_usage option \<Rightarrow> line_row_input list" where
  "generation_rows words s retainer =
     map toInvoiceLineItemRow (rec_blueprint s) @ toOverageLineItems words retainer (rec_overageRateCents s)"

definition generation_input :: "schedule_row \<Rightarrow> line_row_input list \<Rightarrow> jsdate \<Rightarrow> system_invoice" where
  "generation_input s rows now =
     \<lparr>sys_clientId = rec_clientId s, sys_projectId = rec_projectId s, sys_templateId = rec_templateId s,
      sys_recurringInvoiceId = rec_id s, sys_currency = rec_currency s,
      sys_status = (if rec_autoSend s then Sent else Draft), sys_notes = rec_notes s,
      sys_lineItems = rows, sys_now = now\<rparr>"

definition stamp_hours :: "ident \<Rightarrow> schedule_row \<Rightarrow> retainer_usage option \<Rightarrow> workspace \<Rightarrow> workspace" where
  "stamp_hours invoiceId s retainer w =
     (case (retainer, rec_projectId s) of
        (Some _, Some p) \<Rightarrow> w\<lparr>timeEntries := update_where (unbilled_entry p)
            (\<lambda>e. e\<lparr>te_invoicedInId := Some invoiceId\<rparr>) (timeEntries w)\<rparr>
      | _ \<Rightarrow> w)"

definition generateRecurringInvoice ::
  "(jsnum \<Rightarrow> jsnum) \<Rightarrow> overage_words \<Rightarrow> (ident \<Rightarrow> bool) \<Rightarrow> ident \<Rightarrow> jsdate \<Rightarrow> ident \<Rightarrow> (nat \<Rightarrow> ident) \<Rightarrow> string \<Rightarrow> workspace
    \<Rightarrow> generation_outcome option result \<times> workspace" where
  "generateRecurringInvoice store words isUuid scheduleId now newId lineIds token w =
     (case live_schedule scheduleId w of
        None \<Rightarrow> (Inr None, w)
      | Some s \<Rightarrow>
     (case decide_run s now of
        Skip_inactive \<Rightarrow> (Inr None, w)
      | Skip_not_due \<Rightarrow> (Inr None, w)
      | Complete_limit \<Rightarrow> (Inr None, w\<lparr>schedules := put_id rec_id (rec_id s) (\<lambda>r. r\<lparr>rec_status := Completed\<rparr>) (schedules w)\<rparr>)
      | Complete_end_date \<Rightarrow> (Inr None, w\<lparr>schedules := put_id rec_id (rec_id s) (\<lambda>r. r\<lparr>rec_status := Completed\<rparr>) (schedules w)\<rparr>)
      | Generate \<Rightarrow>
          if \<not> list_all (recurringInvoiceBlueprintLineSchema isUuid) (rec_blueprint s) \<or> rec_blueprint s = []
          then (Inr None, w)
          else
            let retainer = resolveRetainerUsage s w
            in case writeSystemInvoice store lineIds newId token
                 (generation_input s (generation_rows words s retainer) now) (ledger w) of
                 Inl e \<Rightarrow> (Inl e, w)
               | Inr ((invoiceId, number, amount), d) \<Rightarrow>
                   let w1 = w\<lparr>ledger := d, schedules := put_id rec_id (rec_id s) (\<lambda>r. advance_schedule s) (schedules w)\<rparr>;
                       w2 = stamp_hours invoiceId s retainer w1;
                       outcome = \<lparr>go_invoiceId = invoiceId, go_invoiceNumber = number, go_totalCents = amount,
                         go_occurrence = rec_occurrencesGenerated s + 1, go_clientId = rec_clientId s,
                         go_projectId = rec_projectId s, go_retainer = retainer, go_autoSend = rec_autoSend s\<rparr>
                   in (Inr (Some outcome), announceGeneration scheduleId outcome w2)))"

section \<open>The sweep\<close>

definition isoDay :: "jsdate \<Rightarrow> string" where
  "isoDay t = padStart (js_int_string (utc_year t)) 4 CHR ''0'' @ ''-''
     @ padStart (js_int_string (utc_month t + 1)) 2 CHR ''0'' @ ''-'' @ padStart (js_int_string (utc_date t)) 2 CHR ''0''"

definition listDueRecurringInvoices :: "jsdate \<Rightarrow> workspace \<Rightarrow> schedule_row list" where
  "listDueRecurringInvoices asOf w =
     sort_key rec_nextRunAt (filter (\<lambda>s. rec_status s = Active \<and> rec_nextRunAt s \<le> toUtcDay asOf \<and> rec_deletedAt s = None) (schedules w))"

text \<open>The jobs it queues, with the key that names the occurrence and so the job.\<close>

definition runScheduleSweep :: "jsdate \<Rightarrow> workspace \<Rightarrow> (ident \<times> string) list" where
  "runScheduleSweep now w = map (\<lambda>s. (rec_id s, isoDay (rec_nextRunAt s))) (listDueRecurringInvoices now w)"

section \<open>The actions\<close>

definition requireRecurringInvoiceWrite :: "request \<Rightarrow> actor result" where
  "requireRecurringInvoiceWrite = require_role [Owner, Assistant]"

definition requireRecurringInvoiceCancel :: "request \<Rightarrow> actor result" where
  "requireRecurringInvoiceCancel = require_role [Owner]"

definition requireRecurringInvoiceDelete :: "request \<Rightarrow> actor result" where
  "requireRecurringInvoiceDelete = require_role [Owner]"

interpretation schedule_write: role_gate requireRecurringInvoiceWrite "{Owner, Assistant}"
  using role_gate_require_role [of "[Owner, Assistant]"] by (simp add: requireRecurringInvoiceWrite_def)

interpretation schedule_cancel: role_gate requireRecurringInvoiceCancel "{Owner}"
  using role_gate_require_role [of "[Owner]"] by (simp add: requireRecurringInvoiceCancel_def)

interpretation schedule_delete: role_gate requireRecurringInvoiceDelete "{Owner}"
  using role_gate_require_role [of "[Owner]"] by (simp add: requireRecurringInvoiceDelete_def)

datatype end_condition = Ends_never | Ends_after_count | Ends_by_date

record schedule_form =
  sf_id :: ident
  sf_name :: string
  sf_clientId :: ident
  sf_projectId :: "ident option"
  sf_templateId :: "ident option"
  sf_cadence :: cadence
  sf_cadenceDay :: "int option"
  sf_nextRunAt :: jsdate
  sf_endCondition :: end_condition
  sf_endAfterCount :: "int option"
  sf_endByDate :: "jsdate option"
  sf_autoSend :: bool
  sf_currency :: string
  sf_includedHours :: "jsnum option"
  sf_overageRate :: "int option"
  sf_notes :: string
  sf_lineItems :: "line_form list"

text \<open>
  The rules across fields. The parse of the single fields is an argument of the actions; on what it accepts
  the refinement adds its issues in this order, and the action answers with the first.
\<close>

definition refineRecurringInvoiceFields :: "schedule_form \<Rightarrow> message list" where
  "refineRecurringInvoiceFields f =
     (case sf_cadenceDay f of
        None \<Rightarrow> []
      | Some d \<Rightarrow> if d < 1 \<or> (if sf_cadence f = Weekly then 7 else 31) < d
                  then [''recurringInvoices.validation.cadenceDayOutOfRange''] else [])
     @ (if sf_endCondition f = Ends_after_count \<and> sf_endAfterCount f = None
        then [''recurringInvoices.validation.occurrenceCountRequired''] else [])
     @ (if sf_endCondition f = Ends_by_date \<and> sf_endByDate f = None
        then [''recurringInvoices.validation.endDateRequired''] else [])
     @ (case sf_endByDate f of
          None \<Rightarrow> []
        | Some e \<Rightarrow> if e < sf_nextRunAt f then [''recurringInvoices.validation.endDateBeforeNextRun''] else [])
     @ (if (sf_includedHours f = None) \<noteq> (sf_overageRate f = None)
        then [''recurringInvoices.validation.retainerIncomplete''] else [])"

definition recurringInvoiceFormSchema :: "schedule_form result \<Rightarrow> schedule_form result" where
  "recurringInvoiceFormSchema submitted =
     bind_result submitted (\<lambda>f. case refineRecurringInvoiceFields f of [] \<Rightarrow> Inr f | issue # _ \<Rightarrow> Inl issue)"

text \<open>An \<open>integer\<close> column refuses a number with a fraction.\<close>

definition integer_column :: "jsnum option \<Rightarrow> int option option" where
  "integer_column v =
     (case v of None \<Rightarrow> Some None | Some x \<Rightarrow> if of_int \<lfloor>x\<rfloor> = x then Some (Some \<lfloor>x\<rfloor>) else None)"

definition toScheduleColumns :: "schedule_form \<Rightarrow> blueprint_line list \<Rightarrow> int option \<Rightarrow> schedule_row \<Rightarrow> schedule_row" where
  "toScheduleColumns f blueprint includedHours r =
     r\<lparr>rec_name := sf_name f, rec_clientId := sf_clientId f, rec_projectId := sf_projectId f,
       rec_templateId := sf_templateId f, rec_cadence := sf_cadence f, rec_cadenceDay := sf_cadenceDay f,
       rec_nextRunAt := sf_nextRunAt f,
       rec_endAfterCount := (if sf_endCondition f = Ends_after_count then sf_endAfterCount f else None),
       rec_endByDate := (if sf_endCondition f = Ends_by_date then sf_endByDate f else None),
       rec_autoSend := sf_autoSend f, rec_currency := sf_currency f, rec_includedHours := includedHours,
       rec_overageRateCents := sf_overageRate f, rec_notes := emptyToNull (sf_notes f), rec_blueprint := blueprint\<rparr>"

definition assertParentsExist :: "schedule_form \<Rightarrow> db \<Rightarrow> message option" where
  "assertParentsExist f d =
     (case List.find (\<lambda>c. cli_id c = sf_clientId f \<and> cli_deletedAt c = None) (clients d) of
        None \<Rightarrow> Some ''recurringInvoices.errors.clientNotFound''
      | Some _ \<Rightarrow>
          (case sf_projectId f of
             None \<Rightarrow> None
           | Some p \<Rightarrow>
               (case List.find (\<lambda>r. prj_id r = p \<and> prj_clientId r = sf_clientId f \<and> prj_deletedAt r = None) (projects d) of
                  None \<Rightarrow> Some ''recurringInvoices.errors.projectNotFound''
                | Some _ \<Rightarrow> None)))"

definition getScheduleTaxPercentages :: "schedule_form \<Rightarrow> db \<Rightarrow> (ident \<times> jsnum) list result" where
  "getScheduleTaxPercentages f d =
     (let ids = wanted_tax_rates (sf_lineItems f)
      in if ids = [] then Inr []
         else let rows = filter (\<lambda>r. tax_id r \<in> set ids \<and> tax_deletedAt r = None) (taxRates d)
              in if length rows \<noteq> length ids then Inl ''recurringInvoices.errors.taxRateInvalid''
                 else Inr (map (\<lambda>r. (tax_id r, tax_percentage r)) rows))"

definition blank_schedule :: "ident \<Rightarrow> schedule_form \<Rightarrow> schedule_row" where
  "blank_schedule newId f =
     \<lparr>rec_id = newId, rec_clientId = sf_clientId f, rec_projectId = None, rec_templateId = None, rec_name = [],
      rec_status = Active, rec_cadence = sf_cadence f, rec_cadenceDay = None, rec_nextRunAt = sf_nextRunAt f,
      rec_lastRunAt = None, rec_endAfterCount = None, rec_endByDate = None, rec_occurrencesGenerated = 0,
      rec_autoSend = False, rec_currency = [], rec_blueprint = [], rec_includedHours = None,
      rec_overageRateCents = None, rec_notes = None, rec_deletedAt = None\<rparr>"

definition createRecurringInvoice :: "request \<Rightarrow> schedule_form result \<Rightarrow> ident \<Rightarrow> workspace \<Rightarrow> ident result \<times> workspace" where
  "createRecurringInvoice req submitted newId w =
     (case requireRecurringInvoiceWrite req of
        Inl e \<Rightarrow> (Inl e, w)
      | Inr actor \<Rightarrow>
     (case recurringInvoiceFormSchema submitted of
        Inl m \<Rightarrow> (Inl m, w)
      | Inr f \<Rightarrow>
     (case assertParentsExist f (ledger w) of
        Some m \<Rightarrow> (Inl m, w)
      | None \<Rightarrow>
     (case getScheduleTaxPercentages f (ledger w) of
        Inl m \<Rightarrow> (Inl m, w)
      | Inr percentages \<Rightarrow>
     (case integer_column (sf_includedHours f) of
        None \<Rightarrow> (Inl ''recurringInvoices.errors.createFailed'', w)
      | Some hours \<Rightarrow>
          let row = toScheduleColumns f (toBlueprintLines (sf_lineItems f) percentages) hours (blank_schedule newId f)
          in (Inr newId, audited ''recurring_invoice.created'' actor newId
                (w\<lparr>schedules := add_row row (schedules w)\<rparr>)))))))"

definition updateRecurringInvoice :: "request \<Rightarrow> schedule_form result \<Rightarrow> workspace \<Rightarrow> ident result \<times> workspace" where
  "updateRecurringInvoice req submitted w =
     (case requireRecurringInvoiceWrite req of
        Inl e \<Rightarrow> (Inl e, w)
      | Inr actor \<Rightarrow>
     (case recurringInvoiceFormSchema submitted of
        Inl m \<Rightarrow> (Inl m, w)
      | Inr f \<Rightarrow>
     (case live_schedule (sf_id f) w of
        None \<Rightarrow> (Inl ''recurringInvoices.errors.notFound'', w)
      | Some existing \<Rightarrow>
          if rec_status existing = Completed \<or> rec_status existing = Cancelled
          then (Inl ''recurringInvoices.errors.terminal'', w)
          else
     (case assertParentsExist f (ledger w) of
        Some m \<Rightarrow> (Inl m, w)
      | None \<Rightarrow>
     (case getScheduleTaxPercentages f (ledger w) of
        Inl m \<Rightarrow> (Inl m, w)
      | Inr percentages \<Rightarrow>
     (case integer_column (sf_includedHours f) of
        None \<Rightarrow> (Inl ''recurringInvoices.errors.updateFailed'', w)
      | Some hours \<Rightarrow>
          (Inr (sf_id f), audited ''recurring_invoice.updated'' actor (sf_id f)
             (w\<lparr>schedules := update_where (\<lambda>s. rec_id s = sf_id f \<and> rec_deletedAt s = None)
                 (toScheduleColumns f (toBlueprintLines (sf_lineItems f) percentages) hours) (schedules w)\<rparr>))))))))"

definition changeScheduleStatus ::
  "ident result \<Rightarrow> actor \<Rightarrow> recurring_status \<Rightarrow> string \<Rightarrow> workspace \<Rightarrow> ident result \<times> workspace" where
  "changeScheduleStatus parsed actor wanted event w =
     (case parsed of
        Inl m \<Rightarrow> (Inl m, w)
      | Inr k \<Rightarrow>
     (case live_schedule k w of
        None \<Rightarrow> (Inl ''recurringInvoices.errors.notFound'', w)
      | Some existing \<Rightarrow>
     (case canTransitionRecurringInvoiceStatus (rec_status existing) wanted of
        Refused r \<Rightarrow> (Inl ''recurringInvoices.errors.invalidTransition'', w)
      | Allowed next_status \<Rightarrow>
          let hit = (\<lambda>s. rec_id s = k \<and> rec_status s = rec_status existing \<and> rec_deletedAt s = None)
          in if \<not> list_ex hit (schedules w) then (Inl ''recurringInvoices.errors.invalidTransition'', w)
             else (Inr k, audited event actor k
                (w\<lparr>schedules := update_where hit (\<lambda>s. s\<lparr>rec_status := next_status\<rparr>) (schedules w)\<rparr>)))))"

definition pauseRecurringInvoice :: "request \<Rightarrow> ident result \<Rightarrow> workspace \<Rightarrow> ident result \<times> workspace" where
  "pauseRecurringInvoice req input w =
     (case requireRecurringInvoiceWrite req of
        Inl e \<Rightarrow> (Inl e, w)
      | Inr actor \<Rightarrow> changeScheduleStatus input actor Paused ''recurring_invoice.paused'' w)"

definition resumeRecurringInvoice :: "request \<Rightarrow> ident result \<Rightarrow> workspace \<Rightarrow> ident result \<times> workspace" where
  "resumeRecurringInvoice req input w =
     (case requireRecurringInvoiceWrite req of
        Inl e \<Rightarrow> (Inl e, w)
      | Inr actor \<Rightarrow> changeScheduleStatus input actor Active ''recurring_invoice.resumed'' w)"

definition cancelRecurringInvoice :: "request \<Rightarrow> ident result \<Rightarrow> workspace \<Rightarrow> ident result \<times> workspace" where
  "cancelRecurringInvoice req input w =
     (case requireRecurringInvoiceCancel req of
        Inl e \<Rightarrow> (Inl e, w)
      | Inr actor \<Rightarrow> changeScheduleStatus input actor Cancelled ''recurring_invoice.cancelled'' w)"

definition restoreRecurringInvoice :: "request \<Rightarrow> ident result \<Rightarrow> workspace \<Rightarrow> ident result \<times> workspace" where
  "restoreRecurringInvoice req parsed w =
     (case requireRecurringInvoiceDelete req of
        Inl e \<Rightarrow> (Inl e, w)
      | Inr actor \<Rightarrow>
     (case parsed of
        Inl m \<Rightarrow> (Inl m, w)
      | Inr k \<Rightarrow>
     (case List.find (\<lambda>s. rec_id s = k \<and> rec_deletedAt s \<noteq> None) (schedules w) of
        None \<Rightarrow> (Inl ''recurringInvoices.errors.notFound'', w)
      | Some existing \<Rightarrow>
     (case resolveRestoreBlocker
             [(''trash.entities.client'', client_deletedAt (Some (rec_clientId existing)) (ledger w)),
              (''trash.entities.project'', project_deletedAt (rec_projectId existing) (ledger w))] of
        Some parent \<Rightarrow> (Inl (restore_blocked parent), w)
      | None \<Rightarrow>
          (Inr k, audited ''recurring_invoice.restored'' actor k
             (w\<lparr>schedules := update_where (\<lambda>s. rec_id s = k \<and> rec_deletedAt s \<noteq> None)
                 (\<lambda>s. s\<lparr>rec_deletedAt := None\<rparr>) (schedules w)\<rparr>))))))"

definition softDeleteRecurringInvoice :: "request \<Rightarrow> ident result \<Rightarrow> jsdate \<Rightarrow> workspace \<Rightarrow> ident result \<times> workspace" where
  "softDeleteRecurringInvoice req parsed now w =
     (case requireRecurringInvoiceDelete req of
        Inl e \<Rightarrow> (Inl e, w)
      | Inr actor \<Rightarrow>
     (case parsed of
        Inl m \<Rightarrow> (Inl m, w)
      | Inr k \<Rightarrow>
     (case live_schedule k w of
        None \<Rightarrow> (Inl ''recurringInvoices.errors.notFound'', w)
      | Some existing \<Rightarrow>
          (Inr k, audited ''recurring_invoice.deleted'' actor k
             (w\<lparr>schedules := update_where (\<lambda>s. rec_id s = k \<and> rec_deletedAt s = None)
                 (\<lambda>s. s\<lparr>rec_deletedAt := Some now\<rparr>) (schedules w)\<rparr>)))))"

section \<open>Lemmas\<close>

lemma live_schedule_Some: "live_schedule k w = Some s \<Longrightarrow> s \<in> set (schedules w) \<and> rec_id s = k \<and> rec_deletedAt s = None"
  unfolding live_schedule_def by (drule find_hit) simp

lemma live_schedule_logged [simp]: "live_schedule k (audited e a t w) = live_schedule k w"
  by (simp add: live_schedule_def)

lemma generation_tables [simp]:
  "schedules (announceGeneration k out w) = schedules w" "timeEntries (announceGeneration k out w) = timeEntries w"
  "tasks (announceGeneration k out w) = tasks w" "expenses (announceGeneration k out w) = expenses w"
  "invoices (ledger (announceGeneration k out w)) = invoices (ledger w)"
  "payments (ledger (announceGeneration k out w)) = payments (ledger w)"
  "creditNotes (ledger (announceGeneration k out w)) = creditNotes (ledger w)"
  "lineItems (ledger (announceGeneration k out w)) = lineItems (ledger w)"
  "settings (ledger (announceGeneration k out w)) = settings (ledger w)"
  by (simp_all add: announceGeneration_def Let_def split: option.splits)

lemma stamp_tables [simp]:
  "schedules (stamp_hours i s r w) = schedules w" "ledger (stamp_hours i s r w) = ledger w"
  "tasks (stamp_hours i s r w) = tasks w" "expenses (stamp_hours i s r w) = expenses w"
  by (simp_all add: stamp_hours_def split: option.splits)

definition system_row :: "ident \<Rightarrow> string \<Rightarrow> string \<Rightarrow> system_invoice \<Rightarrow> db \<Rightarrow> invoice_row" where
  "system_row newId token number input d =
     (let totals = calculateInvoiceTotal (map row_input (sys_lineItems input)) None;
          dates = (if sys_status input = Sent
                   then Some (resolveInvoiceIssueDates (sys_now input) None None
                          (case getPaymentTermsDays d of None \<Rightarrow> 0 | Some n \<Rightarrow> n))
                   else None)
      in \<lparr>inv_id = newId, inv_projectId = sys_projectId input, inv_clientId = Some (sys_clientId input), inv_proposalId = None,
              inv_templateId = sys_templateId input, inv_recurringInvoiceId = Some (sys_recurringInvoiceId input),
              inv_pdfUploadId = None, inv_number = number, inv_status = sys_status input,
              inv_currency = sys_currency input, inv_discount = no_discount_columns,
              inv_subtotalCents = subtotalCents totals, inv_discountAmountTotalCents = discountAmountTotalCents totals,
              inv_taxAmountCents = taxAmountCents totals, inv_totalCents = totalCents totals, inv_amountPaidCents = 0,
              inv_issueDate = map_option fst dates, inv_dueDate = map_option snd dates, inv_paidAt = None,
              inv_lateFeeCents = None, inv_notes = sys_notes input, inv_publicToken = Some token,
              inv_deletedAt = None\<rparr>)"

lemma writeSystemInvoice_result:
  assumes "writeSystemInvoice store lineIds newId token input d = Inr (r, d1)"
  shows "\<exists>number d0. claimInvoiceNumber d = Inr (number, d0)
    \<and> r = (newId, number, totalCents (calculateInvoiceTotal (map row_input (sys_lineItems input)) None))
    \<and> d1 = writeInvoiceLineItems store lineIds newId (sys_lineItems input) None
             (d0\<lparr>invoices := add_row (system_row newId token number input d) (invoices d0)\<rparr>)"
  using assms by (auto simp: writeSystemInvoice_def system_row_def bind_result_Inr Let_def)

lemma written_tables [simp]:
  "invoices (writeInvoiceLineItems store lineIds i rows disc d) = invoices d"
  "payments (writeInvoiceLineItems store lineIds i rows disc d) = payments d"
  "creditNotes (writeInvoiceLineItems store lineIds i rows disc d) = creditNotes d"
  "settings (writeInvoiceLineItems store lineIds i rows disc d) = settings d"
  by (simp_all add: writeInvoiceLineItems_def insert_batches_eq Let_def)

text \<open>The three outcomes of a job: nothing, a finished schedule, or one generated invoice.\<close>

definition completed_only :: "ident \<Rightarrow> workspace \<Rightarrow> workspace" where
  "completed_only k w = w\<lparr>schedules := put_id rec_id k (\<lambda>r. r\<lparr>rec_status := Completed\<rparr>) (schedules w)\<rparr>"

lemma generate_cases:
  assumes "generateRecurringInvoice store words isUuid k now newId lineIds token w = (x, w')"
  obtains (idle) "w' = w" "\<forall>out. x \<noteq> Inr (Some out)"
    | (finished) s where "live_schedule k w = Some s" "decide_run s now \<in> {Complete_limit, Complete_end_date}"
        "x = Inr None" "w' = completed_only k w"
    | (generated) s number d out where "live_schedule k w = Some s" "decide_run s now = Generate"
        "list_all (recurringInvoiceBlueprintLineSchema isUuid) (rec_blueprint s)" "rec_blueprint s \<noteq> []"
        "writeSystemInvoice store lineIds newId token
           (generation_input s (generation_rows words s (resolveRetainerUsage s w)) now) (ledger w)
           = Inr ((newId, number, go_totalCents out), d)"
        "out = \<lparr>go_invoiceId = newId, go_invoiceNumber = number, go_totalCents = go_totalCents out,
           go_occurrence = rec_occurrencesGenerated s + 1, go_clientId = rec_clientId s,
           go_projectId = rec_projectId s, go_retainer = resolveRetainerUsage s w, go_autoSend = rec_autoSend s\<rparr>"
        "x = Inr (Some out)"
        "w' = announceGeneration k out (stamp_hours newId s (resolveRetainerUsage s w)
           (w\<lparr>ledger := d, schedules := put_id rec_id k (\<lambda>r. advance_schedule s) (schedules w)\<rparr>))"
proof (cases "live_schedule k w")
  case None
  then have "(x, w') = (Inr None, w)" unfolding assms [symmetric] by (simp add: generateRecurringInvoice_def)
  then show ?thesis by (intro idle) simp_all
next
  case (Some s)
  have k: "rec_id s = k" using live_schedule_Some [OF Some] by simp
  show ?thesis
  proof (cases "decide_run s now")
    case Generate
    show ?thesis
    proof (cases "\<not> list_all (recurringInvoiceBlueprintLineSchema isUuid) (rec_blueprint s) \<or> rec_blueprint s = []")
      case True
      then have "(x, w') = (Inr None, w)"
        unfolding assms [symmetric] by (simp only: generateRecurringInvoice_def Some Generate option.case run_decision.case if_True)
      then show ?thesis by (intro idle) simp_all
    next
      case False
      let ?wr = "writeSystemInvoice store lineIds newId token
           (generation_input s (generation_rows words s (resolveRetainerUsage s w)) now) (ledger w)"
      show ?thesis
      proof (cases ?wr)
        case (Inl e)
        then have "(x, w') = (Inl e, w)"
          unfolding assms [symmetric]
          by (simp only: generateRecurringInvoice_def Some Generate option.case run_decision.case False if_False Let_def sum.case)
        then show ?thesis by (intro idle) simp_all
      next
        case (Inr r)
        obtain number amount d where r: "r = ((newId, number, amount), d)"
          using writeSystemInvoice_result [of store lineIds newId token _ "ledger w" "fst r" "snd r"] Inr by (cases r) fastforce
        define out where "out = \<lparr>go_invoiceId = newId, go_invoiceNumber = number, go_totalCents = amount,
           go_occurrence = rec_occurrencesGenerated s + 1, go_clientId = rec_clientId s,
           go_projectId = rec_projectId s, go_retainer = resolveRetainerUsage s w, go_autoSend = rec_autoSend s\<rparr>"
        have "(x, w') = (Inr (Some out), announceGeneration k out (stamp_hours newId s (resolveRetainerUsage s w)
           (w\<lparr>ledger := d, schedules := put_id rec_id k (\<lambda>r. advance_schedule s) (schedules w)\<rparr>)))"
          unfolding assms [symmetric] out_def
          by (simp only: generateRecurringInvoice_def Some Generate option.case run_decision.case False if_False Let_def
              sum.case prod.case Inr r k)
        moreover have "go_totalCents out = amount" by (simp add: out_def)
        ultimately show ?thesis
          using Some Generate False Inr r by (intro generated [of s number out d]) (simp_all add: out_def)
      qed
    qed
  next
    case Complete_limit
    then have "(x, w') = (Inr None, completed_only k w)"
      unfolding assms [symmetric] by (simp add: generateRecurringInvoice_def completed_only_def Some k)
    then show ?thesis using Some Complete_limit by (intro finished [of s]) simp_all
  next
    case Complete_end_date
    then have "(x, w') = (Inr None, completed_only k w)"
      unfolding assms [symmetric] by (simp add: generateRecurringInvoice_def completed_only_def Some k)
    then show ?thesis using Some Complete_end_date by (intro finished [of s]) simp_all
  next
    case Skip_inactive
    then have "(x, w') = (Inr None, w)" unfolding assms [symmetric] by (simp add: generateRecurringInvoice_def Some)
    then show ?thesis by (intro idle) simp_all
  next
    case Skip_not_due
    then have "(x, w') = (Inr None, w)" unfolding assms [symmetric] by (simp add: generateRecurringInvoice_def Some)
    then show ?thesis by (intro idle) simp_all
  qed
qed

text \<open>What one job does to one schedule.\<close>

definition billed_for :: "ident \<Rightarrow> workspace \<Rightarrow> nat" where
  "billed_for k w = length (filter (\<lambda>r. inv_recurringInvoiceId r = Some k) (invoices (ledger w)))"

lemma put_schedules:
  assumes "distinct (map rec_id (schedules w))" and "live_schedule k w = Some s" and "\<And>r. rec_id r = k' \<Longrightarrow> rec_id (f r) = k'"
    and "schedules w' = put_id rec_id k' f (schedules w)" and "k' = k \<Longrightarrow> rec_deletedAt (f s) = None"
  shows "live_schedule k w' = Some (if k' = k then f s else s)"
proof -
  have s: "s \<in> set (schedules w)" "rec_id s = k" "rec_deletedAt s = None" using live_schedule_Some [OF assms(2)] by simp_all
  have unique: "r = s" if "r \<in> set (schedules w)" "rec_id r = k" for r
    using assms(1) s(1,2) that by (metis distinct_lookup option.inject)
  let ?t = "if k' = k then f s else s"
  have mem: "?t \<in> set (schedules w')" using s by (auto simp: assms(4) put_id_def update_where_def)
  have keys: "rec_id ?t = k" "rec_deletedAt ?t = None" using s assms(3,5) by auto
  have "live_schedule k w' \<noteq> None" unfolding live_schedule_def find_None_iff using mem keys by blast
  then obtain t where t: "live_schedule k w' = Some t" by blast
  note hit = live_schedule_Some [OF t]
  then obtain r where r: "r \<in> set (schedules w)" "t = (if rec_id r = k' then f r else r)"
    by (auto simp: assms(4) put_id_def update_where_def)
  then have "rec_id r = k" using hit assms(3) by (auto split: if_splits)
  then have "t = ?t" using unique r by auto
  with t show ?thesis by simp
qed

lemma put_schedules_ids:
  assumes "\<And>r. rec_id r = k' \<Longrightarrow> rec_id (f r) = k'" and "schedules w' = put_id rec_id k' f (schedules w)"
  shows "map rec_id (schedules w') = map rec_id (schedules w)"
  using assms by (simp add: put_id_def update_where_def)

lemma advance_id [simp]: "rec_id (advance_schedule s) = rec_id s" "rec_deletedAt (advance_schedule s) = rec_deletedAt s"
  "rec_occurrencesGenerated (advance_schedule s) = rec_occurrencesGenerated s + 1"
  "rec_endAfterCount (advance_schedule s) = rec_endAfterCount s"
  "rec_nextRunAt (advance_schedule s) = computeNextRunDate (rec_cadence s) (rec_cadenceDay s) (rec_nextRunAt s)"
  "rec_cadence (advance_schedule s) = rec_cadence s" "rec_cadenceDay (advance_schedule s) = rec_cadenceDay s"
  by (simp_all add: advance_schedule_def Let_def)

lemma generated_invoices:
  assumes "writeSystemInvoice store lineIds newId token input d = Inr (r, d1)"
  shows "\<exists>number. invoices d1 = add_row (system_row newId token number input d) (invoices d)"
    "payments d1 = payments d" "creditNotes d1 = creditNotes d"
  using writeSystemInvoice_result [OF assms] claim_tables by fastforce+

lemma generated_step:
  assumes ids: "distinct (map rec_id (schedules w))" and s: "live_schedule k w = Some s"
    and g: "generateRecurringInvoice store words isUuid k' now newId lineIds token w = (x, w')"
  shows "map rec_id (schedules w') = map rec_id (schedules w)
    \<and> ((\<exists>out. x = Inr (Some out) \<and> k' = k \<and> decide_run s now = Generate \<and> go_occurrence out = rec_occurrencesGenerated s + 1
            \<and> live_schedule k w' = Some (advance_schedule s) \<and> billed_for k w' = Suc (billed_for k w))
       \<or> ((k' = k \<longrightarrow> (\<forall>out. x \<noteq> Inr (Some out))) \<and> billed_for k w' = billed_for k w
            \<and> (\<exists>st. live_schedule k w' = Some (s\<lparr>rec_status := st\<rparr>))))"
proof -
  have same: "\<exists>st. s = s\<lparr>rec_status := st\<rparr>" by (rule exI [of _ "rec_status s"]) simp
  show ?thesis using g
  proof (cases rule: generate_cases)
  case idle
  then show ?thesis using same s by auto
next
  case (finished s')
  have id: "rec_id (r\<lparr>rec_status := Completed\<rparr>) = k'" if "rec_id r = k'" for r using that by simp
  have tab: "schedules w' = put_id rec_id k' (\<lambda>r. r\<lparr>rec_status := Completed\<rparr>) (schedules w)"
    using finished(4) by (simp add: completed_only_def)
  have "live_schedule k w' = Some (if k' = k then s\<lparr>rec_status := Completed\<rparr> else s)"
    using put_schedules [OF ids s id tab] live_schedule_Some [OF s] by simp
  then have "\<exists>st. live_schedule k w' = Some (s\<lparr>rec_status := st\<rparr>)" using same by (cases "k' = k") auto
  moreover have "billed_for k w' = billed_for k w" using finished(4) by (simp add: billed_for_def completed_only_def)
  ultimately show ?thesis using put_schedules_ids [OF id tab] finished(3) by simp
next
  case (generated s' number d out)
  have s': "rec_id s' = k'" using live_schedule_Some [OF generated(1)] by simp
  have id: "rec_id (advance_schedule s') = k'" for r :: schedule_row using s' by simp
  have tab: "schedules w' = put_id rec_id k' (\<lambda>r. advance_schedule s') (schedules w)" using generated(8) by simp
  have live: "live_schedule k w' = Some (if k' = k then advance_schedule s' else s)"
    using put_schedules [OF ids s id tab] live_schedule_Some [OF generated(1)] by simp
  have "\<exists>n. invoices (ledger w') = add_row (system_row newId token n
      (generation_input s' (generation_rows words s' (resolveRetainerUsage s' w)) now) (ledger w)) (invoices (ledger w))"
    using generated_invoices(1) [OF generated(5)] by (simp add: generated(8))
  then have count: "billed_for k w' = (if k' = k then Suc (billed_for k w) else billed_for k w)"
    using s' by (auto simp: billed_for_def add_row_def system_row_def generation_input_def Let_def)
  show ?thesis
  proof (cases "k' = k")
    case True
    then have "s' = s" using s generated(1) by simp
    then show ?thesis
      using True live count generated(2,7) put_schedules_ids [OF id tab] generated(6)
      by (metis generation_outcome.select_convs(4))
  next
    case False
    then show ?thesis using same live count put_schedules_ids [OF id tab] by auto
  qed
  qed
qed

section \<open>Running the queue\<close>

text \<open>Jobs as the queue hands them out, in any order and any number of times, each with what the database and the clock will give it.\<close>

record generation_job =
  gj_schedule :: ident
  gj_now :: jsdate
  gj_newId :: ident
  gj_lineIds :: "nat \<Rightarrow> ident"
  gj_token :: string

fun run_jobs ::
  "(jsnum \<Rightarrow> jsnum) \<Rightarrow> overage_words \<Rightarrow> (ident \<Rightarrow> bool) \<Rightarrow> generation_job list \<Rightarrow> workspace
    \<Rightarrow> (ident \<times> generation_outcome) list \<times> workspace" where
  "run_jobs store words isUuid [] w = ([], w)"
| "run_jobs store words isUuid (j # js) w =
     (let (x, w1) = generateRecurringInvoice store words isUuid (gj_schedule j) (gj_now j) (gj_newId j) (gj_lineIds j) (gj_token j) w;
          (outs, w2) = run_jobs store words isUuid js w1
      in (case x of Inr (Some out) \<Rightarrow> (gj_schedule j, out) # outs | _ \<Rightarrow> outs, w2))"

definition outcomes_of :: "ident \<Rightarrow> (ident \<times> generation_outcome) list \<Rightarrow> generation_outcome list" where
  "outcomes_of k outs = map snd (filter (\<lambda>(j, out). j = k) outs)"

lemma outcomes_of_simps [simp]:
  "outcomes_of k [] = []" "outcomes_of k ((j, out) # outs) = (if j = k then out # outcomes_of k outs else outcomes_of k outs)"
  by (simp_all add: outcomes_of_def)

lemma decide_status [simp]: "decide_run (s\<lparr>rec_status := st\<rparr>) now
    = shouldGenerateInvoice st (rec_nextRunAt s) (rec_endAfterCount s) (rec_endByDate s) (rec_occurrencesGenerated s) now"
  by (simp add: decide_run_def)

lemma decide_generate:
  assumes "decide_run s now = Generate"
  shows "\<forall>N. rec_endAfterCount s = Some N \<longrightarrow> rec_occurrencesGenerated s < N" and "toUtcDay (rec_nextRunAt s) \<le> toUtcDay now"
    "rec_status s = Active"
  using assms by (auto simp: decide_run_def shouldGenerateInvoice_def Let_def split: if_splits)

text \<open>One job, seen from one schedule: it advances by one occurrence, or keeps everything but its status.\<close>

lemma job_step:
  assumes "distinct (map rec_id (schedules w))" and "live_schedule k w = Some s"
    and "generateRecurringInvoice store words isUuid (gj_schedule j) (gj_now j) (gj_newId j) (gj_lineIds j) (gj_token j) w = (x, w1)"
    and "run_jobs store words isUuid js w1 = (outs, w2)" and "run_jobs store words isUuid (j # js) w = (all, w')"
  obtains (advanced) out where "decide_run s (gj_now j) = Generate" "outcomes_of k all = out # outcomes_of k outs"
      "go_occurrence out = rec_occurrencesGenerated s + 1" "live_schedule k w1 = Some (advance_schedule s)"
      "billed_for k w1 = Suc (billed_for k w)" "w' = w2" "distinct (map rec_id (schedules w1))"
    | (kept) st where "outcomes_of k all = outcomes_of k outs" "live_schedule k w1 = Some (s\<lparr>rec_status := st\<rparr>)"
      "billed_for k w1 = billed_for k w" "w' = w2" "distinct (map rec_id (schedules w1))"
proof -
  note step = generated_step [OF assms(1-3)]
  have ids: "distinct (map rec_id (schedules w1))" using step assms(1) by simp
  have all: "all = (case x of Inr (Some out) \<Rightarrow> (gj_schedule j, out) # outs | _ \<Rightarrow> outs)" "w' = w2"
    using assms(3-5) by (simp_all add: Let_def)
  from step show ?thesis
  proof (elim conjE disjE exE)
    fix out assume "x = Inr (Some out)" "gj_schedule j = k" "decide_run s (gj_now j) = Generate"
      "go_occurrence out = rec_occurrencesGenerated s + 1" "live_schedule k w1 = Some (advance_schedule s)"
      "billed_for k w1 = Suc (billed_for k w)"
    then show thesis using all ids by (intro advanced [of out]) simp_all
  next
    fix st assume quiet: "gj_schedule j = k \<longrightarrow> (\<forall>out. x \<noteq> Inr (Some out))" "billed_for k w1 = billed_for k w"
      "live_schedule k w1 = Some (s\<lparr>rec_status := st\<rparr>)"
    have "outcomes_of k all = outcomes_of k outs"
      using quiet(1) unfolding all(1) by (auto split: sum.splits option.splits)
    then show thesis using quiet all ids by (intro kept [of st]) simp_all
  qed
qed

section \<open>The generated invoice\<close>

lemma system_row_fields [simp]:
  "inv_id (system_row newId token number input d) = newId"
  "inv_status (system_row newId token number input d) = sys_status input"
  "inv_recurringInvoiceId (system_row newId token number input d) = Some (sys_recurringInvoiceId input)"
  "inv_amountPaidCents (system_row newId token number input d) = 0"
  "inv_paidAt (system_row newId token number input d) = None"
  "inv_lateFeeCents (system_row newId token number input d) = None"
  "inv_totalCents (system_row newId token number input d)
    = totalCents (calculateInvoiceTotal (map row_input (sys_lineItems input)) None)"
  "sys_status (generation_input s rows now) = (if rec_autoSend s then Sent else Draft)"
  "sys_recurringInvoiceId (generation_input s rows now) = rec_id s"
  "sys_lineItems (generation_input s rows now) = rows"
  by (simp_all add: system_row_def generation_input_def Let_def)

lemma generate_books:
  assumes "books_ok (ledger w)" and "newId \<notin> inv_id ` set (invoices (ledger w))"
    and valid: "\<And>s. live_schedule k w = Some s \<Longrightarrow> 0 \<le> totalCents (calculateInvoiceTotal
      (map row_input (generation_rows words s (resolveRetainerUsage s w))) None)"
  shows "books_ok (ledger (snd (generateRecurringInvoice store words isUuid k now newId lineIds token w)))"
proof -
  obtain x w' where g: "generateRecurringInvoice store words isUuid k now newId lineIds token w = (x, w')" by fastforce
  from g have "books_ok (ledger w')"
  proof (cases rule: generate_cases)
    case (generated s number d out)
    note t = generated_invoices [OF generated(5)]
    obtain n where row: "invoices d = add_row (system_row newId token n
        (generation_input s (generation_rows words s (resolveRetainerUsage s w)) now) (ledger w)) (invoices (ledger w))"
      using t(1) by blast
    have "books_ok d"
      by (rule books_add_draft [OF assms(1) _ row t(2,3)]) (use assms(2) valid [OF generated(1)] in simp_all)
    moreover have "books_ok (ledger w') = books_ok d" by (rule books_ok_tables) (simp_all add: generated(8))
    ultimately show ?thesis by simp
  qed (use assms(1) in \<open>simp_all add: completed_only_def\<close>)
  then show ?thesis by (simp add: g)
qed

text \<open>Hours inside the pool add no line; the hours beyond it add one.\<close>

lemma overage_rows:
  "generation_rows words s retainer = map toInvoiceLineItemRow (rec_blueprint s)"
  if "\<And>r. retainer = Some r \<Longrightarrow> ru_overageHours r = 0"
  using that by (cases retainer) (simp_all add: generation_rows_def toOverageLineItems_def)

lemma pool_not_exceeded:
  assumes "consumed \<le> of_int (rt_includedHours terms)" and "0 \<le> rt_includedHours terms"
  shows "ru_overageHours (calculateRetainerUsage terms consumed) = 0" "ru_overageCents (calculateRetainerUsage terms consumed) = 0"
proof -
  have "max consumed 0 - of_int (rt_includedHours terms) \<le> 0" using assms by simp
  then have "js_sub (max consumed 0) (of_int (rt_includedHours terms)) \<le> 0"
    using fl_mono [of _ 0] by (simp add: js_sub_def)
  moreover have "math_round 0 = 0" by code_simp
  ultimately show "ru_overageHours (calculateRetainerUsage terms consumed) = 0" "ru_overageCents (calculateRetainerUsage terms consumed) = 0"
    by (simp_all add: calculateRetainerUsage_def Let_def max_absorb2 js_mul_def)
qed

section \<open>A sample schedule\<close>

definition sample_schedule :: schedule_row where
  "sample_schedule =
     \<lparr>rec_id = ''r1'', rec_clientId = ''c1'', rec_projectId = Some ''p1'', rec_templateId = None, rec_name = ''Care plan'',
      rec_status = Active, rec_cadence = Monthly, rec_cadenceDay = Some 31, rec_nextRunAt = 1769817600000,
      rec_lastRunAt = None, rec_endAfterCount = Some 2, rec_endByDate = None, rec_occurrencesGenerated = 0,
      rec_autoSend = True, rec_currency = ''EUR'',
      rec_blueprint = [\<lparr>bl_description = ''Care'', bl_unit = None, bl_quantity = 1, bl_unitPriceCents = 900, bl_taxRateId = None,
        bl_taxPercentage = 0, bl_discount = no_discount_columns\<rparr>],
      rec_includedHours = Some 10, rec_overageRateCents = Some 6000, rec_notes = None, rec_deletedAt = None\<rparr>"

definition retainer_workspace :: workspace where
  "retainer_workspace = sample_workspace\<lparr>schedules := [sample_schedule]\<rparr>"

definition sample_overage :: overage_words where
  "sample_overage = \<lparr>ow_lineDescription = (\<lambda>h. ''Extra hours''), ow_lineUnit = ''h''\<rparr>"

definition sample_job :: generation_job where
  "sample_job = \<lparr>gj_schedule = ''r1'', gj_now = 1769904000000, gj_newId = ''i2'', gj_lineIds = fresh_line_id, gj_token = ''tok2''\<rparr>"

lemma sample_live: "live_schedule ''r1'' retainer_workspace = Some sample_schedule"
  "distinct (map rec_id (schedules retainer_workspace))"
  by (simp_all add: live_schedule_def retainer_workspace_def sample_schedule_def)

section \<open>Properties\<close>

text \<open>
  C25. Each occurrence is billed once: however the queue repeats, reorders or delays the jobs, a schedule's
  generated occurrences are numbered one after the other without a gap or a repeat, each raises exactly one
  invoice that names the schedule, and none passes its occurrence limit.
\<close>

theorem each_occurrence_is_billed_once:
  assumes "distinct (map rec_id (schedules w))" and "live_schedule k w = Some s"
    and "run_jobs store words isUuid js w = (outs, w')"
  shows "\<exists>s'. live_schedule k w' = Some s' \<and> rec_occurrencesGenerated s \<le> rec_occurrencesGenerated s'
    \<and> map go_occurrence (outcomes_of k outs) = [rec_occurrencesGenerated s + 1 .. rec_occurrencesGenerated s']
    \<and> billed_for k w' = billed_for k w + length (outcomes_of k outs)
    \<and> (\<forall>N. rec_endAfterCount s = Some N \<longrightarrow> rec_occurrencesGenerated s' \<le> max N (rec_occurrencesGenerated s))"
  using assms
proof (induction js arbitrary: w s outs)
  case (Cons j js)
  obtain x w1 where g: "generateRecurringInvoice store words isUuid (gj_schedule j) (gj_now j) (gj_newId j) (gj_lineIds j)
      (gj_token j) w = (x, w1)" by fastforce
  obtain rest w2 where r: "run_jobs store words isUuid js w1 = (rest, w2)" by fastforce
  from Cons.prems(1,2) g r Cons.prems(3) show ?case
  proof (cases rule: job_step)
    case (advanced out)
    from Cons.IH [OF advanced(7,4) r [folded advanced(6)]] obtain s' where s': "live_schedule k w' = Some s'"
      "rec_occurrencesGenerated s + 1 \<le> rec_occurrencesGenerated s'"
      "map go_occurrence (outcomes_of k rest) = [rec_occurrencesGenerated s + 1 + 1 .. rec_occurrencesGenerated s']"
      "billed_for k w' = billed_for k w1 + length (outcomes_of k rest)"
      "\<forall>N. rec_endAfterCount s = Some N \<longrightarrow> rec_occurrencesGenerated s' \<le> max N (rec_occurrencesGenerated s + 1)"
      by auto
    have "\<forall>N. rec_endAfterCount s = Some N \<longrightarrow> rec_occurrencesGenerated s' \<le> max N (rec_occurrencesGenerated s)"
      using s'(5) decide_generate(1) [OF advanced(1)] by fastforce
    then show ?thesis
      using s'(1-4) advanced(2,3,5) upto_rec1 [OF s'(2)] by (intro exI [of _ s'] conjI) simp_all
  next
    case (kept st)
    from Cons.IH [OF kept(5,2) r [folded kept(4)]] show ?thesis using kept(1,3) by simp
  qed
qed auto

lemma each_occurrence_is_billed_once_witness:
  "\<exists>outs w' n. run_jobs id sample_overage (\<lambda>k. True) [sample_job, sample_job] retainer_workspace = (outs, w')
     \<and> map go_occurrence (outcomes_of ''r1'' outs) = [1 .. n] \<and> n \<le> 2
     \<and> billed_for ''r1'' w' = length (outcomes_of ''r1'' outs)"
proof -
  obtain outs w' where r: "run_jobs id sample_overage (\<lambda>k. True) [sample_job, sample_job] retainer_workspace = (outs, w')"
    by fastforce
  have "billed_for ''r1'' retainer_workspace = 0"
    by (simp add: billed_for_def retainer_workspace_def sample_workspace_def sample_defs)
  moreover have "rec_endAfterCount sample_schedule = Some 2" "rec_occurrencesGenerated sample_schedule = 0"
    by (simp_all add: sample_schedule_def)
  moreover obtain s' :: schedule_row where "map go_occurrence (outcomes_of ''r1'' outs)
      = [rec_occurrencesGenerated sample_schedule + 1 .. rec_occurrencesGenerated s']"
    "billed_for ''r1'' w' = billed_for ''r1'' retainer_workspace + length (outcomes_of ''r1'' outs)"
    "\<forall>N. rec_endAfterCount sample_schedule = Some N \<longrightarrow>
       rec_occurrencesGenerated s' \<le> max N (rec_occurrencesGenerated sample_schedule)"
    using each_occurrence_is_billed_once [OF sample_live(2,1) r] by blast
  ultimately show ?thesis
    using r by (intro exI [of _ outs] exI [of _ w'] exI [of _ "rec_occurrencesGenerated s'"]) (simp del: run_jobs.simps)
qed

text \<open>
  C26. Catching up ends: whatever the queue holds, on jobs that run no later than some day a schedule generates
  at most one occurrence per day from its next run to that day, so the jobs left after that do nothing.
\<close>

theorem catching_up_ends:
  assumes "distinct (map rec_id (schedules w))" and "live_schedule k w = Some s"
    and "run_jobs store words isUuid js w = (outs, w')"
    and "modern (rec_nextRunAt s)" and "valid_cadence_day (rec_cadence s) (rec_cadenceDay s)"
    and "\<forall>j\<in>set js. modern (gj_now j) \<and> day_of (gj_now j) \<le> lastDay"
  shows "length (outcomes_of k outs) \<le> nat (lastDay - day_of (rec_nextRunAt s) + 1)"
  using assms
proof (induction js arbitrary: w s outs)
  case (Cons j js)
  obtain x w1 where g: "generateRecurringInvoice store words isUuid (gj_schedule j) (gj_now j) (gj_newId j) (gj_lineIds j)
      (gj_token j) w = (x, w1)" by fastforce
  obtain rest w2 where r: "run_jobs store words isUuid js w1 = (rest, w2)" by fastforce
  have late: "\<forall>j\<in>set js. modern (gj_now j) \<and> day_of (gj_now j) \<le> lastDay" using Cons.prems(6) by simp
  from Cons.prems(1,2) g r Cons.prems(3) show ?case
  proof (cases rule: job_step)
    case (advanced out)
    note later = next_run_later [OF Cons.prems(4,5)]
    have IH: "length (outcomes_of k rest) \<le> nat (lastDay - day_of (rec_nextRunAt (advance_schedule s)) + 1)"
      by (rule Cons.IH [OF advanced(7,4) r [folded advanced(6)] _ _ late]) (simp_all add: later(2) Cons.prems(5))
    have "day_of (rec_nextRunAt s) \<le> lastDay"
      using decide_generate(2) [OF advanced(1)] Cons.prems(4,6)
      by (simp add: toUtcDay_modern ms_per_day_def)
    then show ?thesis using IH later(1) by (simp add: advanced(2))
  next
    case (kept st)
    from Cons.IH [OF kept(5,2) r [folded kept(4)] _ _ late] Cons.prems(4,5) show ?thesis using kept(1) by simp
  qed
qed simp

lemma catching_up_ends_witness:
  "length (outcomes_of ''r1'' (fst (run_jobs id sample_overage (\<lambda>k. True) [sample_job, sample_job, sample_job] retainer_workspace))) \<le> 2"
proof -
  obtain outs w' where r: "run_jobs id sample_overage (\<lambda>k. True) [sample_job, sample_job, sample_job] retainer_workspace = (outs, w')"
    by fastforce
  have days: "day_of 1769904000000 = 20485" "day_of 1769817600000 = 20484" by (simp_all add: day_of_def ms_per_day_def)
  have ok: "modern (rec_nextRunAt sample_schedule)" "valid_cadence_day (rec_cadence sample_schedule) (rec_cadenceDay sample_schedule)"
    "\<forall>j\<in>set [sample_job, sample_job, sample_job]. modern (gj_now j) \<and> day_of (gj_now j) \<le> 20485"
    by (simp_all add: sample_schedule_def sample_job_def modern_def valid_cadence_day_def days)
  from catching_up_ends [OF sample_live(2,1) r ok] show ?thesis
    unfolding r fst_conv by (simp add: sample_schedule_def days)
qed



text \<open>
  C28. A finished schedule is history: one that is completed or cancelled is never edited, paused, resumed,
  cancelled again or generated from, whoever asks and whatever the date.
\<close>

theorem finished_schedules_are_frozen:
  assumes "live_schedule k w = Some s" and "rec_status s = Completed \<or> rec_status s = Cancelled"
    and "distinct (map rec_id (schedules w))"
  shows "live_schedule k (snd (updateRecurringInvoice req form w)) = Some s
    \<and> live_schedule k (snd (pauseRecurringInvoice req input w)) = Some s
    \<and> live_schedule k (snd (resumeRecurringInvoice req input w)) = Some s
    \<and> live_schedule k (snd (cancelRecurringInvoice req input w)) = Some s
    \<and> generateRecurringInvoice store words isUuid k now newId lineIds token w = (Inr None, w)"
proof -
  have s: "s \<in> set (schedules w)" "rec_id s = k" "rec_deletedAt s = None" using live_schedule_Some [OF assms(1)] by simp_all
  have unique: "t = s" if "live_schedule k w = Some t" for t using that assms(1) by simp
  have other: "live_schedule k (w\<lparr>schedules := update_where (\<lambda>r. rec_id r = k' \<and> P r) f (schedules w)\<rparr>) = Some s"
    if "k' \<noteq> k" "\<And>r. rec_id (f r) = rec_id r" for k' P f
  proof -
    have "update_where (\<lambda>r. rec_id r = k' \<and> P r) f (schedules w)
        = put_id rec_id k' (\<lambda>r. if P r then f r else r) (schedules w)"
      by (auto simp: put_id_def update_where_def)
    then show ?thesis
      using put_schedules [OF assms(3,1), of k' "\<lambda>r. if P r then f r else r"] that by simp
  qed
  have upd: "live_schedule k (snd (updateRecurringInvoice req form w)) = Some s"
  proof (cases "recurringInvoiceFormSchema form")
    case (Inr f)
    show ?thesis
    proof (cases "sf_id f = k")
      case True
      then have "snd (updateRecurringInvoice req form w) = w"
        using assms(1,2) Inr by (auto simp: updateRecurringInvoice_def split: sum.splits)
      then show ?thesis using assms(1) by simp
    next
      case False
      have id: "rec_id (toScheduleColumns f b h r) = rec_id r" for b h r by (simp add: toScheduleColumns_def)
      show ?thesis
        using assms(1) Inr other [OF False id] by (auto simp: updateRecurringInvoice_def split: sum.splits option.splits)
    qed
  qed (use assms(1) in \<open>auto simp: updateRecurringInvoice_def split: sum.splits\<close>)
  have change: "live_schedule k (snd (changeScheduleStatus input actor wanted event w)) = Some s" for actor wanted event
  proof (cases input)
    case (Inr k')
    show ?thesis
    proof (cases "k' = k")
      case True
      then have "snd (changeScheduleStatus input actor wanted event w) = w"
        using assms(1,2) Inr
        by (auto simp: changeScheduleStatus_def canTransitionRecurringInvoiceStatus_def split: if_splits)
      then show ?thesis using assms(1) by simp
    next
      case False
      have id: "rec_id (r\<lparr>rec_status := st\<rparr>) = rec_id r" for r st by simp
      show ?thesis
        using assms(1) Inr other [OF False id]
        by (auto simp: changeScheduleStatus_def Let_def split: option.splits transition.splits)
    qed
  qed (use assms(1) in \<open>simp add: changeScheduleStatus_def\<close>)
  have "generateRecurringInvoice store words isUuid k now newId lineIds token w = (Inr None, w)"
    using assms(1,2) by (auto simp: generateRecurringInvoice_def decide_run_def shouldGenerateInvoice_def)
  then show ?thesis
    using upd change
    by (auto simp: pauseRecurringInvoice_def resumeRecurringInvoice_def cancelRecurringInvoice_def assms(1) split: sum.splits)
qed

lemma finished_schedules_are_frozen_witness:
  "live_schedule ''r1'' (snd (resumeRecurringInvoice owner_request (Inr ''r1'')
     (retainer_workspace\<lparr>schedules := [sample_schedule\<lparr>rec_status := Cancelled\<rparr>]\<rparr>)))
   = Some (sample_schedule\<lparr>rec_status := Cancelled\<rparr>)"
proof -
  let ?w = "retainer_workspace\<lparr>schedules := [sample_schedule\<lparr>rec_status := Cancelled\<rparr>]\<rparr>"
  have "live_schedule ''r1'' ?w = Some (sample_schedule\<lparr>rec_status := Cancelled\<rparr>)" "distinct (map rec_id (schedules ?w))"
    by (simp_all add: live_schedule_def sample_schedule_def)
  from finished_schedules_are_frozen [OF this(1) _ this(2)] show ?thesis by simp
qed

section \<open>What the model shows to go wrong\<close>

text \<open>
  The retainer run stamps every unbilled billable entry of the project, a timer that is still running among
  them, although its hours are not in the sum. Stopping the timer later logs the hours on an entry that already
  names an invoice, so neither a later run nor the billing form picks them up.
\<close>

lemma running_timer_is_never_billed:
  assumes "live_schedule k w = Some s" and "rec_projectId s = Some p"
    and "toRetainerTerms (rec_includedHours s) (rec_overageRateCents s) \<noteq> None"
    and "generateRecurringInvoice store words isUuid k now newId lineIds token w = (Inr (Some out), w1)"
    and "e \<in> set (timeEntries w)" and "unbilled_entry p e" and "te_endedAt e = None"
    and "stopTimer req (Inr (te_id e)) t w1 = (Inr j, w2)"
  shows "\<exists>e'\<in>set (timeEntries w2). te_id e' = te_id e \<and> te_endedAt e' = Some t \<and> te_invoicedInId e' = Some newId
    \<and> \<not> unbilled_entry q e'"
proof -
  have p: "\<exists>r. resolveRetainerUsage s w = Some r" using assms(2,3) by (auto simp: resolveRetainerUsage_def split: option.splits)
  have w1: "timeEntries w1 = update_where (unbilled_entry p) (\<lambda>e. e\<lparr>te_invoicedInId := Some newId\<rparr>) (timeEntries w)"
    using assms(4)
  proof (cases rule: generate_cases)
    case (generated s' number d out')
    then show ?thesis using assms(1,2) p by (auto simp: stamp_hours_def)
  qed simp_all
  from stopTimer_result [OF assms(8)] obtain n where
    w2: "timeEntries w2 = update_where (\<lambda>r. te_id r = te_id e \<and> te_endedAt r = None)
             (\<lambda>r. r\<lparr>te_endedAt := Some t, te_durationSeconds := Some n\<rparr>) (timeEntries w1)"
    by auto
  let ?stopped = "e\<lparr>te_invoicedInId := Some newId, te_endedAt := Some t, te_durationSeconds := Some n\<rparr>"
  have "e\<lparr>te_invoicedInId := Some newId\<rparr> \<in> set (timeEntries w1)"
    using assms(5,6) by (force simp: w1 update_where_def)
  then have "?stopped \<in> set (timeEntries w2)" using assms(7) by (force simp: w2 update_where_def)
  then show ?thesis by (intro bexI [of _ ?stopped]) (simp_all add: unbilled_entry_def)
qed

text \<open>The form accepts a pool of ten and a half hours, and the integer column then refuses it every time.\<close>

definition half_hour_form :: schedule_form where
  "half_hour_form =
     \<lparr>sf_id = ''r1'', sf_name = ''Care plan'', sf_clientId = ''c1'', sf_projectId = None, sf_templateId = None,
      sf_cadence = Monthly, sf_cadenceDay = None, sf_nextRunAt = 1769817600000, sf_endCondition = Ends_never,
      sf_endAfterCount = None, sf_endByDate = None, sf_autoSend = False, sf_currency = ''EUR'',
      sf_includedHours = Some (21 / 2), sf_overageRate = Some 6000, sf_notes = [],
      sf_lineItems = [\<lparr>lf_description = ''Care'', lf_unit = [], lf_quantity = 1, lf_unitPrice = 900,
        lf_discount = \<lparr>dv_kind = KindNone, dv_percentage = None, dv_amount = None\<rparr>, lf_taxRateId = None\<rparr>]\<rparr>"

lemma fractional_pool_is_refused_by_the_column:
  "refineRecurringInvoiceFields half_hour_form = []"
  "fst (createRecurringInvoice owner_request (Inr half_hour_form) ''r2'' retainer_workspace)
    = Inl ''recurringInvoices.errors.createFailed''"
  by code_simp+

end
