(* ===== verification/Conversion.thy ===== *)
theory Conversion
  imports ProposalGuarantees
begin

text \<open>
  From an accepted proposal to an invoice (\<open>features/invoices/conversion.ts\<close> and the snapshot of
  \<open>features/invoices/queries.ts\<close>): every number of the invoice comes from the proposal's own rows.
\<close>

section \<open>The snapshot\<close>

record snapshot_line =
  sl_description :: string
  sl_unit :: "string option"
  sl_quantity :: jsnum
  sl_unitPriceCents :: int
  sl_discount :: discount_columns
  sl_taxRateId :: "ident option"
  sl_taxPercentage :: jsnum

record invoice_snapshot =
  sn_id :: ident
  sn_projectId :: "ident option"
  sn_clientId :: "ident option"
  sn_currency :: string
  sn_notes :: "string option"
  sn_discount :: discount_columns
  sn_lineItems :: "snapshot_line list"

definition toSnapshotLine :: "line_item_row \<Rightarrow> snapshot_line" where
  "toSnapshotLine l =
     \<lparr>sl_description = li_description l, sl_unit = li_unit l, sl_quantity = li_quantity l,
      sl_unitPriceCents = li_unitPriceCents l, sl_discount = li_discount l, sl_taxRateId = li_taxRateId l,
      sl_taxPercentage = li_taxPercentageSnapshot l\<rparr>"

definition accepted_proposal_row :: "ident \<Rightarrow> proposal_row \<Rightarrow> bool" where
  "accepted_proposal_row k r \<longleftrightarrow> pp_id r = k \<and> pp_status r = Accepted \<and> pp_deletedAt r = None"

definition getProposalInvoiceSnapshot :: "ident \<Rightarrow> sales \<Rightarrow> invoice_snapshot option" where
  "getProposalInvoiceSnapshot k s =
     (case List.find (accepted_proposal_row k) (proposals s) of
        None \<Rightarrow> None
      | Some p \<Rightarrow>
          let rows = sort_key li_position (filter (live_proposal_line (pp_id p)) (lineItems (books s)))
          in Some \<lparr>sn_id = pp_id p, sn_projectId = pp_projectId p, sn_clientId = pp_clientId p, sn_currency = pp_currency p,
                   sn_notes = pp_notes p, sn_discount = pp_discount p, sn_lineItems = map toSnapshotLine rows\<rparr>)"

definition toSnapshotLineItemRow :: "snapshot_line \<Rightarrow> line_row_input" where
  "toSnapshotLineItemRow item =
     \<lparr>lr_taxRateId = sl_taxRateId item, lr_description = sl_description item, lr_unit = sl_unit item,
      lr_quantity = sl_quantity item, lr_unitPriceCents = sl_unitPriceCents item, lr_discount = sl_discount item,
      lr_taxPercentage = sl_taxPercentage item, lr_sourceTimeEntryId = None, lr_sourceExpenseId = None\<rparr>"

definition toSnapshotLineItemInput :: "snapshot_line \<Rightarrow> line_item_input" where
  "toSnapshotLineItemInput item =
     \<lparr>quantity = sl_quantity item, unitPriceCents = sl_unitPriceCents item,
      line_discount = toInvoiceColumnDiscount (sl_discount item), taxPercentage = sl_taxPercentage item\<rparr>"

section \<open>The action\<close>

definition converted_invoice :: "invoice_snapshot \<Rightarrow> invoice_totals \<Rightarrow> ident \<Rightarrow> string \<Rightarrow> string \<Rightarrow> invoice_row" where
  "converted_invoice snapshot t newId number token =
     \<lparr>inv_id = newId, inv_projectId = sn_projectId snapshot, inv_clientId = sn_clientId snapshot,
      inv_proposalId = Some (sn_id snapshot), inv_templateId = None, inv_recurringInvoiceId = None, inv_pdfUploadId = None,
      inv_number = number, inv_status = Draft, inv_currency = sn_currency snapshot, inv_discount = sn_discount snapshot,
      inv_subtotalCents = subtotalCents t, inv_discountAmountTotalCents = discountAmountTotalCents t,
      inv_taxAmountCents = taxAmountCents t, inv_totalCents = totalCents t, inv_amountPaidCents = 0, inv_issueDate = None,
      inv_dueDate = None, inv_paidAt = None, inv_lateFeeCents = None, inv_notes = sn_notes snapshot,
      inv_publicToken = Some token, inv_deletedAt = None\<rparr>"

definition converted_row :: "ident \<Rightarrow> invoice_row \<Rightarrow> bool" where
  "converted_row k r \<longleftrightarrow> inv_proposalId r = Some k \<and> inv_deletedAt r = None"

definition createInvoiceFromProposal ::
  "(jsnum \<Rightarrow> jsnum) \<Rightarrow> request \<Rightarrow> ident result \<Rightarrow> ident \<Rightarrow> (nat \<Rightarrow> ident) \<Rightarrow> string \<Rightarrow> sales \<Rightarrow> ident result \<times> sales" where
  "createInvoiceFromProposal store req parsed newId lineIds token s =
     (case requireInvoiceWrite req of
        Inl e \<Rightarrow> (Inl e, s)
      | Inr actor \<Rightarrow>
     (case parsed of
        Inl m \<Rightarrow> (Inl m, s)
      | Inr k \<Rightarrow>
     (case getProposalInvoiceSnapshot k s of
        None \<Rightarrow> (Inl ''invoices.errors.proposalNotConvertible'', s)
      | Some snapshot \<Rightarrow>
     (if sn_lineItems snapshot = [] then (Inl ''invoices.errors.proposalHasNoLineItems'', s)
      else if list_ex (converted_row (sn_id snapshot)) (invoices (books s))
      then (Inl ''invoices.errors.proposalAlreadyConverted'', s)
      else
     (let snapshotLines = map toSnapshotLineItemInput (sn_lineItems snapshot);
          snapshotDiscount = toInvoiceColumnDiscount (sn_discount snapshot);
          totals = calculateInvoiceTotal snapshotLines snapshotDiscount
      in case claimInvoiceNumber (books s) of
        Inl e \<Rightarrow> (Inl e, s)
      | Inr (number, d1) \<Rightarrow>
          let d2 = d1\<lparr>invoices := add_row (converted_invoice snapshot totals newId number token) (invoices d1)\<rparr>;
              d3 = writeInvoiceLineItems store lineIds newId (map toSnapshotLineItemRow (sn_lineItems snapshot)) snapshotDiscount d2;
              user = Some (actor_userId actor)
          in (Inr newId, with_books (emit ''invoice.created'' newId user (writeAudit ''invoice.created'' user (Some newId) d3)) s))))))"

section \<open>What a conversion does\<close>

lemma snapshot_of:
  assumes "getProposalInvoiceSnapshot k s = Some n"
  shows "\<exists>p\<in>set (proposals s). pp_id p = k \<and> pp_status p = Accepted \<and> pp_deletedAt p = None \<and> sn_id n = k
    \<and> sn_projectId n = pp_projectId p \<and> sn_clientId n = pp_clientId p \<and> sn_currency n = pp_currency p
    \<and> sn_notes n = pp_notes p \<and> sn_discount n = pp_discount p \<and> sn_lineItems n = map toSnapshotLine (proposal_lines k (books s))"
  using assms unfolding getProposalInvoiceSnapshot_def
  by (auto simp: Let_def proposal_lines_def accepted_proposal_row_def dest!: find_hit split: option.splits)

lemma snapshot_inputs:
  "map (toSnapshotLineItemInput \<circ> toSnapshotLine) ls = map stored_input ls"
  "map (row_input \<circ> (toSnapshotLineItemRow \<circ> toSnapshotLine)) ls = map stored_input ls"
  by (simp_all add: toSnapshotLineItemInput_def toSnapshotLine_def stored_input_def row_input_def toSnapshotLineItemRow_def
      del: toInvoiceColumnDiscount.simps)

text \<open>The totals and the rows a conversion writes.\<close>

definition agreed_totals :: "ident \<Rightarrow> proposal_row \<Rightarrow> sales \<Rightarrow> invoice_totals" where
  "agreed_totals k p s = calculateInvoiceTotal (map stored_input (proposal_lines k (books s))) (toInvoiceColumnDiscount (pp_discount p))"

lemma createInvoiceFromProposal_result:
  assumes "createInvoiceFromProposal store req parsed newId lineIds token s = (res, s1)"
  shows "(\<exists>e. res = Inl e) \<and> s1 = s
    \<or> (\<exists>p n number d0. p \<in> set (proposals s) \<and> parsed = Inr (pp_id p) \<and> pp_status p = Accepted \<and> pp_deletedAt p = None
        \<and> getProposalInvoiceSnapshot (pp_id p) s = Some n
        \<and> res = Inr newId \<and> proposal_lines (pp_id p) (books s) \<noteq> []
        \<and> \<not> list_ex (converted_row (pp_id p)) (invoices (books s)) \<and> claimInvoiceNumber (books s) = Inr (number, d0)
        \<and> s1 = with_books (books s1) s
        \<and> invoices (books s1) = add_row (converted_invoice n (agreed_totals (pp_id p) p s) newId number token) (invoices (books s))
        \<and> payments (books s1) = payments (books s) \<and> creditNotes (books s1) = creditNotes (books s)
        \<and> lineItems (books s1) = lineItems (writeInvoiceLineItems store lineIds newId
            (map (toSnapshotLineItemRow \<circ> toSnapshotLine) (proposal_lines (pp_id p) (books s))) (toInvoiceColumnDiscount (pp_discount p)) (books s)))"
proof (cases "\<exists>e. res = Inl e")
  case True
  then show ?thesis using assms unfolding createInvoiceFromProposal_def
    by (auto simp: Let_def split: sum.splits option.splits if_splits)
next
  case False
  with assms obtain k n number d0 where p: "parsed = Inr k" "getProposalInvoiceSnapshot k s = Some n" "sn_lineItems n \<noteq> []"
    "\<not> list_ex (converted_row (sn_id n)) (invoices (books s))" "claimInvoiceNumber (books s) = Inr (number, d0)" "res = Inr newId"
    and s1: "\<exists>u. s1 = with_books (emit ''invoice.created'' newId u (writeAudit ''invoice.created'' u (Some newId)
       (writeInvoiceLineItems store lineIds newId (map toSnapshotLineItemRow (sn_lineItems n)) (toInvoiceColumnDiscount (sn_discount n))
       (d0\<lparr>invoices := add_row (converted_invoice n (calculateInvoiceTotal (map toSnapshotLineItemInput (sn_lineItems n))
          (toInvoiceColumnDiscount (sn_discount n))) newId number token) (invoices d0)\<rparr>)))) s"
    unfolding createInvoiceFromProposal_def
    by (auto simp: Let_def simp del: toInvoiceColumnDiscount.simps split: sum.splits option.splits if_splits) blast
  from snapshot_of [OF p(2)] obtain q where q: "q \<in> set (proposals s)" "pp_id q = k" "pp_status q = Accepted" "pp_deletedAt q = None"
    "sn_id n = k" "sn_discount n = pp_discount q" "sn_lineItems n = map toSnapshotLine (proposal_lines k (books s))" by blast
  have "map toSnapshotLineItemInput (sn_lineItems n) = map stored_input (proposal_lines k (books s))"
    by (simp add: q(7) snapshot_inputs del: toInvoiceColumnDiscount.simps)
  with s1 p q show ?thesis
    by (intro disjI2 exI [of _ q] exI [of _ n] exI [of _ number] exI [of _ d0])
      (auto simp: agreed_totals_def snapshot_inputs claim_tables [OF p(5)] writeInvoiceLineItems_def insert_batches_eq Let_def
        simp del: toInvoiceColumnDiscount.simps)
qed

lemma conversion_lines:
  assumes "createInvoiceFromProposal store req parsed newId lineIds token s = (res, s1)"
  shows "lines_of_proposals (books s1) = lines_of_proposals (books s)"
  using createInvoiceFromProposal_result [OF assms]
  by (elim disjE exE conjE)
    (auto simp: lines_of_proposals_def writeInvoiceLineItems_def insert_batches_eq concat_chunks line_row_def Let_def filter_empty_conv
      simp del: toInvoiceColumnDiscount.simps)

text \<open>For the tables of the sales side a conversion is a step of the rest of the application.\<close>

lemma conversion_is_elsewhere:
  "sales_step store compare s (snd (createInvoiceFromProposal store' req parsed newId lineIds token s))"
proof -
  obtain res s1 where run: "createInvoiceFromProposal store' req parsed newId lineIds token s = (res, s1)" by (rule prod.exhaust)
  from createInvoiceFromProposal_result [OF run] have "\<exists>d. s1 = with_books d s" using with_books_id [of s] by metis
  then show ?thesis using conversion_lines [OF run] by (auto simp: run intro!: sales_step.elsewhere)
qed

lemma conversion_books:
  assumes "books_ok (books s)" "newId \<notin> inv_id ` set (invoices (books s))"
    and "\<And>p. p \<in> set (proposals s) \<Longrightarrow> parsed = Inr (pp_id p) \<Longrightarrow>
      valid_items (map stored_input (proposal_lines (pp_id p) (books s))) (toInvoiceColumnDiscount (pp_discount p))"
    and run: "createInvoiceFromProposal store req parsed newId lineIds token s = (res, s1)"
  shows "books_ok (books s1)"
  using createInvoiceFromProposal_result [OF run]
proof (elim disjE exE conjE)
  fix p n number d0
  assume p: "p \<in> set (proposals s)" "parsed = Inr (pp_id p)"
    and t: "invoices (books s1) = add_row (converted_invoice n (agreed_totals (pp_id p) p s) newId number token) (invoices (books s))"
      "payments (books s1) = payments (books s)" "creditNotes (books s1) = creditNotes (books s)"
  have "0 \<le> totalCents (agreed_totals (pp_id p) p s)" unfolding agreed_totals_def by (rule valid_total [OF assms(3) [OF p]])
  then show ?thesis using assms(2) by (intro books_add_draft [OF assms(1) _ t]) (simp_all add: converted_invoice_def)
qed (simp add: assms(1))


lemma live_proposal_lines_of: "filter (live_proposal_line k) (lineItems d) = filter (live_proposal_line k) (lines_of_proposals d)"
  by (auto simp: lines_of_proposals_def live_proposal_line_def intro!: filter_cong)

lemma snapshot_cong:
  assumes "proposals s1 = proposals s" "lines_of_proposals (books s1) = lines_of_proposals (books s)"
  shows "getProposalInvoiceSnapshot k s1 = getProposalInvoiceSnapshot k s"
  unfolding getProposalInvoiceSnapshot_def live_proposal_lines_of [of _ "books s1"] live_proposal_lines_of [of _ "books s"] assms ..

text \<open>C9. An accepted proposal becomes an invoice at the agreed price: the draft under the new id names the proposal, has
  its currency and exactly its totals, and its stored lines are the proposal's lines and add up to the agreed total.
  It is the only live invoice of the proposal, and asking again is refused.\<close>

theorem converted_invoice_keeps_the_price:
  assumes "sales_ok s" and "newId \<notin> inv_id ` set (invoices (books s))"
    and "\<forall>l\<in>set (lineItems (books s)). li_invoiceId l \<noteq> Some newId \<and> store (li_quantity l) = li_quantity l"
    and "\<forall>p\<in>set (proposals s). pp_id p = k \<longrightarrow>
      valid_items (map stored_input (proposal_lines k (books s))) (toInvoiceColumnDiscount (pp_discount p))"
    and "createInvoiceFromProposal store req (Inr k) newId lineIds token s = (Inr i, s1)"
  shows "\<exists>p r. p \<in> set (proposals s) \<and> pp_id p = k \<and> pp_status p = Accepted \<and> i = newId
    \<and> find_id inv_id newId (invoices (books s1)) = Some r
    \<and> inv_proposalId r = Some k \<and> inv_status r = Draft \<and> inv_currency r = pp_currency p
    \<and> inv_subtotalCents r = pp_subtotalCents p \<and> inv_discountAmountTotalCents r = pp_discountAmountTotalCents p
    \<and> inv_taxAmountCents r = pp_taxAmountCents p \<and> inv_totalCents r = pp_totalCents p
    \<and> map stored_input (filter (live_line newId) (lineItems (books s1))) = map stored_input (proposal_lines k (books s))
    \<and> sum_list (map li_totalCents (filter (live_line newId) (lineItems (books s1)))) = pp_totalCents p
    \<and> filter (converted_row k) (invoices (books s1)) = [r]
    \<and> createInvoiceFromProposal store req (Inr k) newId' lineIds' token' s1 = (Inl ''invoices.errors.proposalAlreadyConverted'', s1)"
proof -
  from createInvoiceFromProposal_result [OF assms(5)] obtain p n number d0 where p: "p \<in> set (proposals s)" "pp_id p = k" "pp_status p = Accepted"
    and n: "getProposalInvoiceSnapshot k s = Some n" and i: "i = newId" and some: "proposal_lines k (books s) \<noteq> []"
    and none: "\<not> list_ex (converted_row k) (invoices (books s))"
    and s1: "s1 = with_books (books s1) s"
    and inv: "invoices (books s1) = add_row (converted_invoice n (agreed_totals k p s) newId number token) (invoices (books s))"
    and ln: "lineItems (books s1) = lineItems (writeInvoiceLineItems store lineIds newId
            (map (toSnapshotLineItemRow \<circ> toSnapshotLine) (proposal_lines k (books s))) (toInvoiceColumnDiscount (pp_discount p)) (books s))"
    by auto
  let ?r = "converted_invoice n (agreed_totals k p s) newId number token"
  let ?items = "map stored_input (proposal_lines k (books s))" and ?disc = "toInvoiceColumnDiscount (pp_discount p)"
  from snapshot_of [OF n] obtain q where q: "q \<in> set (proposals s)" "pp_id q = k" "sn_id n = k" "sn_currency n = pp_currency q"
    "sn_lineItems n = map toSnapshotLine (proposal_lines k (books s))" by blast
  have "q = p" using q(1,2) p(1,2) assms(1) by (auto simp: sales_ok_def proposals_ok_def distinct_map inj_on_def)
  have price: "agreed_totals k p s = proposal_totals p"
    using assms(1) p(1,2) by (simp add: agreed_totals_def sales_ok_def priced_ok_def priced_def proposal_prices_like_invoice
        del: toInvoiceColumnDiscount.simps)
  have found: "find_id inv_id newId (invoices (books s1)) = Some ?r"
    using invoice_table.lookup_add_fresh [of ?r "invoices (books s)"] assms(2) by (simp add: inv converted_invoice_def)
  have only: "filter (converted_row k) (invoices (books s1)) = [?r]"
    using none q(3) by (simp add: inv add_row_def list_ex_iff filter_empty_conv) (simp add: converted_row_def converted_invoice_def)
  have fresh: "\<forall>l\<in>set (lineItems (books s)). li_invoiceId l \<noteq> Some newId" using assms(3) by blast
  have "map stored_input (filter (live_line newId) (lineItems (books s1))) = ?items"
    unfolding ln written_lines(1) [OF fresh] map_map using assms(3)
    by (intro map_cong refl) (auto simp: proposal_lines_def toSnapshotLineItemRow_def toSnapshotLine_def row_input_def stored_input_def
        simp del: toInvoiceColumnDiscount.simps)
  moreover have amounts: "map (\<lambda>l. (li_subtotalCents l, li_taxAmountCents l, li_totalCents l)) (filter (live_line newId) (lineItems (books s1)))
      = map (\<lambda>t. (lt_subtotalCents t, lt_taxAmountCents t, lt_totalCents t)) (calculateInvoiceLineTotals ?items ?disc)"
    unfolding ln written_lines(2) [OF fresh] map_map snapshot_inputs ..
  have "sum_list (map li_totalCents (filter (live_line newId) (lineItems (books s1)))) = totalCents (calculateInvoiceTotal ?items ?disc)"
    using arg_cong [OF amounts, of "\<lambda>xs. sum_list (map (snd \<circ> snd) xs)"] assms(4) p(1,2) line_totals_sum [of ?items ?disc]
    by (simp add: comp_def valid_items_def del: toInvoiceColumnDiscount.simps)
  moreover have "createInvoiceFromProposal store req (Inr k) newId' lineIds' token' s1 = (Inl ''invoices.errors.proposalAlreadyConverted'', s1)"
  proof -
    have "proposals s1 = proposals s" using s1 with_books_proposals by metis
    then have "getProposalInvoiceSnapshot k s1 = Some n" using snapshot_cong conversion_lines [OF assms(5)] n by metis
    moreover have "list_ex (converted_row k) (invoices (books s1))" using only by (auto simp: list_ex_iff filter_eq_Cons_iff)
    moreover obtain actor where "requireInvoiceWrite req = Inr actor"
      using assms(5) by (auto simp: createInvoiceFromProposal_def split: sum.splits)
    ultimately show ?thesis using some q(3,5) by (simp add: createInvoiceFromProposal_def)
  qed
  ultimately show ?thesis
    using p i found only price \<open>q = p\<close> q(3,4) unfolding agreed_totals_def [symmetric]
    by (intro exI [of _ p] exI [of _ ?r])
      (simp add: converted_invoice_def proposal_totals_def agreed_totals_def)
qed


lemma converted_invoice_keeps_the_price_witness:
  "\<exists>p r. p \<in> set (proposals sample_accepted)
    \<and> find_id inv_id ''i2'' (invoices (books (snd (createInvoiceFromProposal id owner_request (Inr ''q1'') ''i2'' fresh_line_id ''tok2'' sample_accepted)))) = Some r
    \<and> inv_totalCents r = pp_totalCents p \<and> inv_proposalId r = Some ''q1''"
proof -
  let ?run = "createInvoiceFromProposal id owner_request (Inr ''q1'') ''i2'' fresh_line_id ''tok2'' sample_accepted"
  have "fst ?run = Inr ''i2''" by code_simp
  then have run: "?run = (Inr ''i2'', snd ?run)" by (simp only: prod_eq_iff fst_conv snd_conv simp_thms)
  have fresh: "''i2'' \<notin> inv_id ` set (invoices (books sample_accepted))" by code_simp
  have "list_all (\<lambda>l. li_invoiceId l \<noteq> Some ''i2'') (lineItems (books sample_accepted))" by code_simp
  then have lines: "\<forall>l\<in>set (lineItems (books sample_accepted)). li_invoiceId l \<noteq> Some ''i2'' \<and> id (li_quantity l) = li_quantity l"
    by (auto simp: list_all_iff)
  have "list_all (\<lambda>p. valid_items (map stored_input (proposal_lines ''q1'' (books sample_accepted))) (toInvoiceColumnDiscount (pp_discount p)))
      (proposals sample_accepted)" by code_simp
  then have "\<forall>p\<in>set (proposals sample_accepted). pp_id p = ''q1'' \<longrightarrow>
      valid_items (map stored_input (proposal_lines ''q1'' (books sample_accepted))) (toInvoiceColumnDiscount (pp_discount p))"
    by (simp add: list_all_iff)
  from converted_invoice_keeps_the_price [OF sales_reach_ok [OF sample_accepted_reached sample_sales_ok] fresh lines this run]
  show ?thesis by blast
qed

text \<open>
  The guard looks at live invoices only, and restoring an invoice does not ask again: an invoice that was deleted,
  replaced by a second conversion and restored leaves two live invoices for one proposal.
\<close>

definition on_books :: "(db \<Rightarrow> 'a \<times> db) \<Rightarrow> sales \<Rightarrow> sales" where
  "on_books action s = with_books (snd (action (books s))) s"

theorem restored_conversion_bills_twice:
  "let convert = (\<lambda>k s. snd (createInvoiceFromProposal id owner_request (Inr ''q1'') k fresh_line_id (''tok'' @ k) s));
       s = on_books (restoreInvoice owner_request (Inr ''i2'')) (convert ''i3''
             (on_books (softDeleteInvoice owner_request (Inr ''i2'') 1700000500000) (convert ''i2'' sample_accepted)))
   in map (\<lambda>r. (inv_id r, inv_totalCents r)) (filter (converted_row ''q1'') (invoices (books s))) = [(''i2'', 1010), (''i3'', 1010)]"
  by code_simp

end
