(* ===== verification/InvoicePrices.thy ===== *)
theory InvoicePrices
  imports Ledger Billing Recurring Conversion
begin

text \<open>
  The price of an invoice across every feature that writes one: the actions of the ledger, billing tracked
  work, the recurring generation job and the conversion of a proposal are the steps of one relation, and
  in every ledger they reach each invoice asks for what its stored lines add up to and its late fee.
\<close>

section \<open>What an invoice is made of\<close>

definition lines_total :: "ident \<Rightarrow> db \<Rightarrow> int" where
  "lines_total i d = sum_list (map li_totalCents (filter (live_line i) (lineItems d)))"

definition lines_tax :: "ident \<Rightarrow> db \<Rightarrow> int" where
  "lines_tax i d = sum_list (map li_taxAmountCents (filter (live_line i) (lineItems d)))"

definition late_fee_of :: "invoice_row \<Rightarrow> int" where
  "late_fee_of r = (case inv_lateFeeCents r of None \<Rightarrow> 0 | Some f \<Rightarrow> f)"

definition priced_row :: "db \<Rightarrow> invoice_row \<Rightarrow> bool" where
  "priced_row d r \<longleftrightarrow> inv_totalCents r = lines_total (inv_id r) d + late_fee_of r
     \<and> inv_taxAmountCents r = lines_tax (inv_id r) d"

definition lines_known :: "db \<Rightarrow> bool" where
  "lines_known d \<longleftrightarrow> (\<forall>l\<in>set (lineItems d). \<forall>i. li_invoiceId l = Some i \<longrightarrow> i \<in> inv_id ` set (invoices d))"

definition prices_ok :: "db \<Rightarrow> bool" where
  "prices_ok d \<longleftrightarrow> (\<forall>r\<in>set (invoices d). priced_row d r) \<and> lines_known d"

text \<open>What the invariant reads of an invoice, and the writes that leave all of it alone.\<close>

definition price_row :: "invoice_row \<Rightarrow> ident \<times> int \<times> int \<times> int option" where
  "price_row r = (inv_id r, inv_totalCents r, inv_taxAmountCents r, inv_lateFeeCents r)"

definition same_prices :: "db \<Rightarrow> db \<Rightarrow> bool" where
  "same_prices d d' \<longleftrightarrow> map price_row (invoices d') = map price_row (invoices d)
     \<and> lines_of_invoices d' = lines_of_invoices d"

lemma live_lines_of: "filter (live_line i) (lineItems d) = filter (live_line i) (lines_of_invoices d)"
  by (auto simp: lines_of_invoices_def live_line_def intro!: filter_cong)

lemma lines_cong:
  "lines_of_invoices d' = lines_of_invoices d \<Longrightarrow> lines_total i d' = lines_total i d"
  "lines_of_invoices d' = lines_of_invoices d \<Longrightarrow> lines_tax i d' = lines_tax i d"
  unfolding lines_total_def lines_tax_def live_lines_of [of i] by simp_all

lemma lines_known_iff:
  "lines_known d \<longleftrightarrow> (\<forall>l\<in>set (lines_of_invoices d). \<forall>i. li_invoiceId l = Some i \<longrightarrow> i \<in> inv_id ` set (invoices d))"
  by (auto simp: lines_known_def lines_of_invoices_def)

lemma priced_row_by_price:
  "price_row r' = price_row r \<Longrightarrow> lines_of_invoices d' = lines_of_invoices d \<Longrightarrow> priced_row d' r' = priced_row d r"
  using lines_cong [of d' d] by (simp add: priced_row_def price_row_def late_fee_of_def)

lemma same_prices_priced:
  assumes "same_prices d d'" "prices_ok d"
  shows "prices_ok d'"
proof -
  have rows: "map price_row (invoices d') = map price_row (invoices d)" and lines: "lines_of_invoices d' = lines_of_invoices d"
    using assms(1) by (simp_all add: same_prices_def)
  have "price_row ` set (invoices d') = price_row ` set (invoices d)"
    using arg_cong [OF rows, of set] by simp
  then have "\<forall>r'\<in>set (invoices d'). \<exists>r\<in>set (invoices d). price_row r' = price_row r" by blast
  then have "\<forall>r'\<in>set (invoices d'). priced_row d' r'"
    using assms(2) priced_row_by_price [OF _ lines] unfolding prices_ok_def by blast
  moreover have "map inv_id (invoices d') = map inv_id (invoices d)"
    using arg_cong [OF rows, of "map fst"] by (simp add: comp_def price_row_def)
  then have "inv_id ` set (invoices d') = inv_id ` set (invoices d)" by (metis list.set_map)
  ultimately show ?thesis using assms(2) lines by (simp add: prices_ok_def lines_known_iff)
qed

lemma same_prices_refl [simp]: "same_prices d d"
  by (simp add: same_prices_def)

lemma same_prices_trans: "same_prices d d1 \<Longrightarrow> same_prices d1 d2 \<Longrightarrow> same_prices d d2"
  by (simp add: same_prices_def)

lemma same_prices_logs [simp]:
  "same_prices d (writeAudit e a t d') = same_prices d d'" "same_prices d (emit n s u d') = same_prices d d'"
  "same_prices d (enqueueJob n s m d') = same_prices d d'"
  "same_prices d (d'\<lparr>payments := ps\<rparr>) = same_prices d d'" "same_prices d (d'\<lparr>creditNotes := cs\<rparr>) = same_prices d d'"
  "same_prices d (d'\<lparr>settings := ss\<rparr>) = same_prices d d'"
  by (simp_all add: same_prices_def lines_of_invoices_def writeAudit_def emit_def enqueueJob_def)

lemma map_put_id: "(\<And>r. f (g r) = f r) \<Longrightarrow> map f (put_id key k g rows) = map f rows"
  by (auto simp: put_id_def update_where_def)

lemma aggregate_prices [simp]: "same_prices d (applyInvoiceAggregate invoice a s t d') = same_prices d d'"
proof -
  have "map price_row (invoices (applyInvoiceAggregate invoice a s t d')) = map price_row (invoices d')"
    by (simp add: applyInvoiceAggregate_def Let_def map_put_id price_row_def)
  then show ?thesis by (simp add: same_prices_def lines_of_invoices_def applyInvoiceAggregate_def Let_def)
qed

section \<open>Payments, credit notes and the trash leave the price alone\<close>

lemma resettle_prices [simp]: "same_prices d (resettleInvoiceWrite i t d') = same_prices d d'"
  by (simp add: resettleInvoiceWrite_def decideSettlement_def Let_def split: option.splits)

lemma credit_lines_prices [simp]: "same_prices d (writeCreditNoteLineItems s ids k items ps d') = same_prices d d'"
proof -
  have "lines_of_invoices (writeCreditNoteLineItems s ids k items ps d') = lines_of_invoices d'"
    by (auto simp: lines_of_invoices_def writeCreditNoteLineItems_def Let_def filter_empty_conv credit_line_row_def)
  then show ?thesis by (simp add: same_prices_def writeCreditNoteLineItems_def Let_def)
qed

lemma announce_prices [simp]: "same_prices d (announce_settled p user d') = same_prices d d'"
  by (simp add: announce_settled_def)

lemma addPayment_prices: "same_prices d (snd (addPayment newId invoice v d))"
  by (simp add: addPayment_def decideSettlement_def Let_def)

lemma add_prices: "addPayment newId invoice v d = (x, d1) \<Longrightarrow> same_prices d d1"
  using addPayment_prices [of d newId invoice v] by simp

lemma payment_write_prices:
  "recordPaymentWrite newId i v d = (x, d1) \<Longrightarrow> same_prices d d1"
  "updatePaymentWrite k v d = (x, d1) \<Longrightarrow> same_prices d d1"
  "settleInvoiceWrite newId i method t d = (x, d1) \<Longrightarrow> same_prices d d1"
  "softDeletePaymentWrite k t d = (x, d1) \<Longrightarrow> same_prices d d1"
  "restorePaymentWrite k t d = (x, d1) \<Longrightarrow> same_prices d d1"
  "recordStripePaymentWrite newId i amount currency t intent d = (y, d1) \<Longrightarrow> same_prices d d1"
  by (auto simp: recordPaymentWrite_def updatePaymentWrite_def settleInvoiceWrite_def softDeletePaymentWrite_def
      restorePaymentWrite_def recordStripePaymentWrite_def decideSettlement_def Let_def apfst_def map_prod_def dest: add_prices
      split: option.splits if_splits prod.splits)

lemma payment_action_prices:
  "same_prices d (snd (recordPayment req form newId d))"
  "same_prices d (snd (updatePayment req form d))"
  "same_prices d (snd (softDeletePayment req k t d))"
  "same_prices d (snd (restorePayment req k t d))"
  "same_prices d (snd (recordInvoiceSettlement i actor newId t d))"
  "same_prices d (snd (handleStripeWebhook verify isUuid delivery newId d))"
  by (auto simp: recordPayment_def updatePayment_def softDeletePayment_def restorePayment_def recordInvoiceSettlement_def
      handleStripeWebhook_def Let_def dest: payment_write_prices
      split: sum.splits option.splits prod.splits write_result.splits stripe_write_result.splits)

lemma settlement_prices: "recordInvoiceSettlement i actor newId t d = (x, d1) \<Longrightarrow> same_prices d d1"
  using payment_action_prices(5) [of d i actor newId t] by simp

lemma markInvoicePaid_prices: "same_prices d (snd (markInvoicePaid req k newId t d))"
  by (auto simp: markInvoicePaid_def Let_def dest: settlement_prices
      split: sum.splits option.splits prod.splits transition.splits)

lemma checkout_prices: "same_prices d (snd (startInvoiceCheckout stripe target token d))"
  by (simp add: startInvoiceCheckout_def Let_def split: checkout_decision.splits option.splits prod.splits)

lemma claim_credit_prices: "claimCreditNoteNumber d = Inr (n, d1) \<Longrightarrow> same_prices d' d1 = same_prices d' d"
  by (auto simp: claimCreditNoteNumber_def Let_def split: option.splits)

lemma credit_note_prices:
  "same_prices d (snd (createCreditNote store req credit newId lineIds t d))"
  "same_prices d (snd (softDeleteCreditNote req k t d))"
  "same_prices d (snd (restoreCreditNote req k t d))"
  by (auto simp: createCreditNote_def softDeleteCreditNote_def restoreCreditNote_def Let_def claim_credit_prices
      simp del: resolveRestoreBlocker.simps split: sum.splits option.splits if_splits)

lemma put_prices:
  "(\<And>r. price_row (g r) = price_row r) \<Longrightarrow> same_prices d (d\<lparr>invoices := put_id inv_id i g (invoices d)\<rparr>)"
  by (simp add: same_prices_def lines_of_invoices_def map_put_id)

lemma trash_prices:
  "same_prices d (snd (softDeleteInvoice req k t d))" "same_prices d (snd (restoreInvoice req k d))"
  by (auto simp: softDeleteInvoice_def restoreInvoice_def Let_def price_row_def intro!: put_prices
      simp del: resolveRestoreBlocker.simps split: sum.splits option.splits if_splits)

lemma sendInvoice_prices: "same_prices d (snd (sendInvoice mail req k t d))"
proof -
  obtain r d1 where c: "sendInvoice mail req k t d = (r, d1)" by fastforce
  have "map price_row (update_where (live_draft i) (\<lambda>r. r\<lparr>inv_status := Sent, inv_issueDate := Some a, inv_dueDate := Some b\<rparr>) rows)
      = map price_row rows" for i a b rows
    by (auto simp: update_where_def price_row_def)
  then show ?thesis using sendInvoice_result [OF c] c
    by (elim disjE exE conjE) (simp_all add: same_prices_def lines_of_invoices_def)
qed

section \<open>The writes that set a price\<close>

lemma priced_map_rows:
  assumes "prices_ok d" "invoices d' = map g (invoices d)" "lines_of_invoices d' = lines_of_invoices d"
    and "\<And>r. r \<in> set (invoices d) \<Longrightarrow> inv_id (g r) = inv_id r \<and> priced_row d (g r)"
  shows "prices_ok d'"
proof -
  have "priced_row d' r = priced_row d r" for r using priced_row_by_price [OF refl assms(3)] .
  moreover have "inv_id ` set (invoices d') = inv_id ` set (invoices d)"
    unfolding assms(2) using assms(4) by (simp add: image_image)
  ultimately show ?thesis using assms by (simp add: prices_ok_def lines_known_iff)
qed

text \<open>Writing the lines of an invoice no line belongs to yet.\<close>

definition prices_of :: "line_row_input list \<Rightarrow> discount option \<Rightarrow> invoice_totals" where
  "prices_of rows disc = calculateInvoiceTotal (map row_input rows) disc"

lemma written_prices:
  assumes "\<forall>l\<in>set (lineItems d). li_invoiceId l \<noteq> Some i" "valid_items (map row_input rows) disc"
    and "lineItems d1 = lineItems (writeInvoiceLineItems store lineIds i rows disc d)"
  shows "lines_total i d1 = totalCents (prices_of rows disc)" "lines_tax i d1 = taxAmountCents (prices_of rows disc)"
    and "\<And>j. j \<noteq> i \<Longrightarrow> lines_total j d1 = lines_total j d" "\<And>j. j \<noteq> i \<Longrightarrow> lines_tax j d1 = lines_tax j d"
    and "li_invoiceId ` set (lineItems d1) \<subseteq> insert (Some i) (li_invoiceId ` set (lineItems d))"
proof -
  note sums = line_totals_sum [of "map row_input rows" disc]
  show "lines_total i d1 = totalCents (prices_of rows disc)" "lines_tax i d1 = taxAmountCents (prices_of rows disc)"
    using arg_cong [OF written_lines(2) [OF assms(1), of store lineIds rows disc], of "\<lambda>xs. sum_list (map (snd \<circ> snd) xs)"]
      arg_cong [OF written_lines(2) [OF assms(1), of store lineIds rows disc], of "\<lambda>xs. sum_list (map (fst \<circ> snd) xs)"]
      sums assms(2)
    by (simp_all add: lines_total_def lines_tax_def prices_of_def valid_items_def comp_def assms(3))
  obtain new where new: "lineItems d1 = lineItems d @ new" "\<forall>l\<in>set new. li_invoiceId l = Some i"
    unfolding assms(3)
    by (simp add: writeInvoiceLineItems_def Let_def insert_batches_eq concat_chunks line_row_def case_prod_unfold)
  have none: "filter (live_line j) new = []" if "j \<noteq> i" for j
    using new(2) that by (auto simp: filter_empty_conv live_line_def)
  show "\<And>j. j \<noteq> i \<Longrightarrow> lines_total j d1 = lines_total j d" "\<And>j. j \<noteq> i \<Longrightarrow> lines_tax j d1 = lines_tax j d"
    by (simp_all add: lines_total_def lines_tax_def new(1) none)
  show "li_invoiceId ` set (lineItems d1) \<subseteq> insert (Some i) (li_invoiceId ` set (lineItems d))"
    using new by auto
qed

lemma priced_add:
  assumes ok: "prices_ok d" and fresh: "inv_id r \<notin> inv_id ` set (invoices d)"
    and inv: "invoices d1 = add_row r (invoices d)"
    and lines: "lineItems d1 = lineItems (writeInvoiceLineItems store lineIds (inv_id r) rows disc d)"
    and valid: "valid_items (map row_input rows) disc"
    and row: "inv_totalCents r = totalCents (prices_of rows disc)" "inv_taxAmountCents r = taxAmountCents (prices_of rows disc)"
      "inv_lateFeeCents r = None"
  shows "prices_ok d1"
proof -
  have known: "lines_known d" using ok by (simp add: prices_ok_def)
  have none: "\<forall>l\<in>set (lineItems d). li_invoiceId l \<noteq> Some (inv_id r)"
    using known fresh unfolding lines_known_def by blast
  note w = written_prices [OF none valid lines]
  have "priced_row d1 r" using w(1,2) row by (simp add: priced_row_def late_fee_of_def)
  moreover have "priced_row d1 x" if x: "x \<in> set (invoices d)" for x
  proof -
    have "inv_id x \<noteq> inv_id r" using x fresh by (metis image_eqI)
    then show ?thesis using ok x w(3,4) by (simp add: prices_ok_def priced_row_def)
  qed
  moreover have "lines_known d1"
    unfolding lines_known_def
  proof (intro ballI allI impI)
    fix l i assume "l \<in> set (lineItems d1)" "li_invoiceId l = Some i"
    then have "Some i \<in> insert (Some (inv_id r)) (li_invoiceId ` set (lineItems d))" using w(5) by (metis image_eqI subsetD)
    then have "i = inv_id r \<or> (\<exists>l\<in>set (lineItems d). li_invoiceId l = Some i)" by force
    then show "i \<in> inv_id ` set (invoices d1)" using known unfolding lines_known_def inv by (auto simp: add_row_def)
  qed
  ultimately show ?thesis by (auto simp: prices_ok_def inv add_row_def)
qed

lemma form_rows: "map row_input (toInvoiceLineItemRows items ps) = toLineItemInputs items ps"
  by (simp add: toInvoiceLineItemRows_def toLineItemInputs_def row_input_def column_discount_round_trip comp_def
      del: toInvoiceDiscount.simps toInvoiceColumnDiscount.simps)

lemma createInvoice_priced:
  assumes "prices_ok d" "newId \<notin> inv_id ` set (invoices d)" "good_invoice_form form d"
  shows "prices_ok (snd (createInvoice store req form newId lineIds token d))"
proof -
  obtain r d1 where c: "createInvoice store req form newId lineIds token d = (r, d1)" by fastforce
  show ?thesis using createInvoice_result [OF c]
  proof (elim disjE exE conjE)
    assume "d1 = d" then show ?thesis using assms(1) c by simp
  next
    fix actor and f :: invoice_form and project ps number d0
    let ?rows = "toInvoiceLineItemRows (if_lineItems f) ps" and ?disc = "toInvoiceDiscount (if_discount f)"
    let ?t = "calculateInvoiceTotal (toLineItemInputs (if_lineItems f) ps) ?disc"
    let ?row = "put_form f ?t (blank_draft newId project number token)"
    assume f: "form = Inr f" "getTaxPercentages (if_lineItems f) d = Inr ps"
      and t: "invoices d1 = add_row ?row (invoices d)" "lineItems d1 = lineItems (writeInvoiceLineItems store lineIds newId ?rows ?disc d)"
    have valid: "valid_items (map row_input ?rows) ?disc"
      using assms(3) f by (simp add: good_invoice_form_def valid_invoice_form_def form_rows)
    have row: "inv_id ?row = newId" "inv_totalCents ?row = totalCents (prices_of ?rows ?disc)"
      "inv_taxAmountCents ?row = taxAmountCents (prices_of ?rows ?disc)" "inv_lateFeeCents ?row = None"
      by (simp_all add: put_form_def blank_draft_def prices_of_def form_rows)
    have "prices_ok d1"
      using priced_add [OF assms(1) _ t(1) _ valid row(2-4)] assms(2) t(2) row(1) by simp
    then show ?thesis using c by simp
  qed
qed

text \<open>Rewriting the one live draft an id names, and its lines.\<close>

lemma priced_rewrite:
  assumes ok: "prices_ok d" "books_ok d" and lock: "lockInvoice i d = Some row" "inv_status row = Draft"
    and rows: "map price_row (invoices d1)
      = map (\<lambda>r. if inv_id r = i then (i, tot, tax, inv_lateFeeCents r) else price_row r) (invoices d)"
    and lines: "lines_total i d1 = tot" "lines_tax i d1 = tax"
      "\<And>j. j \<noteq> i \<Longrightarrow> lines_total j d1 = lines_total j d" "\<And>j. j \<noteq> i \<Longrightarrow> lines_tax j d1 = lines_tax j d"
      "li_invoiceId ` set (lineItems d1) \<subseteq> insert (Some i) (li_invoiceId ` set (lineItems d))"
  shows "prices_ok d1"
proof -
  have ids: "map inv_id (invoices d1) = map inv_id (invoices d)"
    using arg_cong [OF rows, of "map fst"] by (simp add: comp_def price_row_def if_distrib cong: if_cong)
  then have known: "inv_id ` set (invoices d1) = inv_id ` set (invoices d)" by (metis list.set_map)
  have "priced_row d1 r'" if r': "r' \<in> set (invoices d1)" for r'
  proof -
    have "price_row r' \<in> set (map (\<lambda>r. if inv_id r = i then (i, tot, tax, inv_lateFeeCents r) else price_row r) (invoices d))"
      unfolding rows [symmetric] using r' by simp
    then obtain r where r: "r \<in> set (invoices d)"
      "price_row r' = (if inv_id r = i then (i, tot, tax, inv_lateFeeCents r) else price_row r)" by auto
    show ?thesis
    proof (cases "inv_id r = i")
      case True
      then have "r = row" using same_id_same_row [OF ok(2) lock(1) r(1)] by simp
      then have "inv_lateFeeCents r = None" using draft_carries_nothing(5) [OF ok(2) r(1)] lock(2) by simp
      then show ?thesis using r(2) True lines(1,2) by (simp add: priced_row_def price_row_def late_fee_of_def)
    next
      case False
      then show ?thesis using ok(1) r lines(3,4) by (auto simp: priced_row_def price_row_def late_fee_of_def prices_ok_def)
    qed
  qed
  moreover have "lines_known d1"
    unfolding lines_known_def known
  proof (intro ballI allI impI)
    fix l j assume "l \<in> set (lineItems d1)" "li_invoiceId l = Some j"
    then have "Some j \<in> insert (Some i) (li_invoiceId ` set (lineItems d))" using lines(5) by (metis image_eqI subsetD)
    then have "j = i \<or> (\<exists>l\<in>set (lineItems d). li_invoiceId l = Some j)" by force
    then show "j \<in> inv_id ` set (invoices d)"
      using ok(1) invoice_id_known [OF lock(1)] unfolding prices_ok_def lines_known_def by blast
  qed
  ultimately show ?thesis by (simp add: prices_ok_def)
qed

lemma filter_within: "(\<And>x. P x \<Longrightarrow> Q x) \<Longrightarrow> filter P (filter Q xs) = filter P xs"
  by (induction xs) auto

lemma updateInvoice_draft:
  assumes "updateInvoice store req (Inr f) lineIds d = (Inr k, d1)"
  shows "\<exists>row. lockInvoice (if_subject f) d = Some row \<and> inv_status row = Draft"
  using assms by (auto simp: updateInvoice_def isInvoiceEditable_def split: sum.splits option.splits if_splits)

lemma updateInvoice_priced:
  assumes ok: "prices_ok d" "books_ok d" and good: "good_invoice_form form d"
  shows "prices_ok (snd (updateInvoice store req form lineIds d))"
proof -
  obtain r d1 where c: "updateInvoice store req form lineIds d = (r, d1)" by fastforce
  show ?thesis using updateInvoice_result [OF c]
  proof (elim disjE exE conjE)
    assume "d1 = d" then show ?thesis using ok(1) c by simp
  next
    fix actor and f :: invoice_form and ps
    let ?i = "if_subject f" and ?rows = "toInvoiceLineItemRows (if_lineItems f) ps" and ?disc = "toInvoiceDiscount (if_discount f)"
    let ?t = "calculateInvoiceTotal (toLineItemInputs (if_lineItems f) ps) ?disc"
    let ?d0 = "d\<lparr>lineItems := filter (\<lambda>l. li_invoiceId l \<noteq> Some ?i) (lineItems d)\<rparr>"
    assume f: "form = Inr f" "getTaxPercentages (if_lineItems f) d = Inr ps" and r: "r = Inr ?i"
      and t: "invoices d1 = update_where (live_draft ?i) (put_form f ?t) (invoices d)"
        "lineItems d1 = lineItems (writeInvoiceLineItems store lineIds ?i ?rows ?disc ?d0)"
    obtain row where lock: "lockInvoice ?i d = Some row" "inv_status row = Draft"
      using updateInvoice_draft [of store req f lineIds d ?i d1] c f(1) r by auto
    have valid: "valid_items (map row_input ?rows) ?disc"
      using good f by (simp add: good_invoice_form_def valid_invoice_form_def form_rows)
    have none: "\<forall>l\<in>set (lineItems ?d0). li_invoiceId l \<noteq> Some ?i" by simp
    note w = written_prices [OF none valid t(2)]
    have other: "filter (live_line j) (lineItems ?d0) = filter (live_line j) (lineItems d)" if "j \<noteq> ?i" for j
      using that by (simp del: filter_filter, intro filter_within, auto simp: live_line_def)
    have keep: "lines_total j ?d0 = lines_total j d" "lines_tax j ?d0 = lines_tax j d" if "j \<noteq> ?i" for j
      by (simp_all only: lines_total_def lines_tax_def other [OF that])
    have "li_invoiceId ` set (lineItems ?d0) \<subseteq> li_invoiceId ` set (lineItems d)" by auto
    then have sub: "li_invoiceId ` set (lineItems d1) \<subseteq> insert (Some ?i) (li_invoiceId ` set (lineItems d))"
      using w(5) by blast
    have one: "live_draft ?i x \<longleftrightarrow> inv_id x = ?i" if "x \<in> set (invoices d)" for x
      using same_id_same_row [OF ok(2) lock(1) that] lock by (auto simp: live_draft_def lockInvoice_Some)
    have "map price_row (invoices d1) = map (\<lambda>r. if inv_id r = ?i
        then (?i, totalCents (prices_of ?rows ?disc), taxAmountCents (prices_of ?rows ?disc), inv_lateFeeCents r)
        else price_row r) (invoices d)"
      unfolding t(1) update_where_def list.map_comp
      by (rule map_cong [OF refl]) (simp add: one price_row_def put_form_def prices_of_def form_rows)
    then have "prices_ok d1"
      using w(3,4) keep by (intro priced_rewrite [OF ok lock _ w(1,2) _ _ sub]) simp_all
    then show ?thesis using c by simp
  qed
qed

lemma adjustInvoiceLateFee_priced:
  assumes ok: "prices_ok d" "books_ok d"
  shows "prices_ok (snd (adjustInvoiceLateFee req fee t d))"
proof -
  obtain r d1 where c: "adjustInvoiceLateFee req fee t d = (r, d1)" by fastforce
  have lines: "lines_of_invoices d1 = lines_of_invoices d"
    using c by (auto simp: adjustInvoiceLateFee_def lines_of_invoices_def Let_def split: sum.splits option.splits if_splits)
  show ?thesis using adjustInvoiceLateFee_result [OF c]
  proof (elim disjE exE conjE)
    assume "d1 = d" then show ?thesis using ok(1) c by simp
  next
    fix i f row previous
    let ?g = "set_late_fee row f (inv_totalCents row - previous + f)
              (settled_amounts (inv_totalCents row - previous + f) (inv_amountPaidCents row) (sumCreditedCents i d)) t"
    assume lock: "lockInvoice i d = Some row" and prev: "inv_lateFeeCents row = Some previous"
      and inv: "invoices d1 = put_id inv_id i ?g (invoices d)"
    have "prices_ok d1"
    proof (rule priced_map_rows [OF ok(1) _ lines])
      show "invoices d1 = map (\<lambda>r. if inv_id r = i then ?g r else r) (invoices d)"
        by (simp add: inv put_id_def update_where_def)
      fix r assume r: "r \<in> set (invoices d)"
      have p: "priced_row d r" using ok(1) r by (simp add: prices_ok_def)
      moreover have "r = row" if "inv_id r = i" using same_id_same_row [OF ok(2) lock r that] .
      ultimately show "inv_id (if inv_id r = i then ?g r else r) = inv_id r \<and> priced_row d (if inv_id r = i then ?g r else r)"
        using prev by (auto simp: priced_row_def late_fee_of_def set_late_fee_def)
    qed
    then show ?thesis using c by simp
  qed
qed

lemma sweep_lines: "lineItems (applyLateFees now d) = lineItems d"
proof -
  have "lineItems (foldl (apply_candidate policy now) d cs) = lineItems d" for policy cs
    by (induction cs arbitrary: d) (simp_all add: apply_candidate_tables)
  then show ?thesis by (simp add: applyLateFees_def Let_def)
qed

lemma applyLateFees_priced:
  assumes ok: "prices_ok d" "books_ok d"
  shows "prices_ok (applyLateFees now d)"
proof -
  have dist: "distinct (map inv_id (invoices d))" using ok(2) by (simp add: books_ok_def ids_ok_def)
  have "lines_of_invoices (applyLateFees now d) = lines_of_invoices d" by (simp add: lines_of_invoices_def sweep_lines)
  then show ?thesis
  proof (rule priced_map_rows [OF ok(1) sweep_is_map(1) [OF dist]])
    fix r assume r: "r \<in> set (invoices d)"
    then have "priced_row d r" using ok(1) by (simp add: prices_ok_def)
    then show "inv_id (swept now d r) = inv_id r \<and> priced_row d (swept now d r)"
      by (cases rule: swept_cases [of now d r]) (auto simp: priced_row_def late_fee_of_def charged_def is_candidate_def)
  qed
qed

section \<open>Billing, generation and conversion\<close>

text \<open>The line rows a confirmed plan writes, and when the database takes them: priced in range, with ids of their own.\<close>

definition billing_rows :: "billable_plan \<Rightarrow> db \<Rightarrow> line_row_input list" where
  "billing_rows p d = map (\<lambda>l. billing_row l (getDefaultTaxRate d)) (bp_lines p)"

definition fresh_lines :: "(nat \<Rightarrow> ident) \<Rightarrow> db \<Rightarrow> bool" where
  "fresh_lines lineIds d \<longleftrightarrow> distinct (map li_id (lineItems d)) \<and> inj lineIds \<and> (\<forall>k. lineIds k \<notin> li_id ` set (lineItems d))"

definition good_billing :: "(nat \<Rightarrow> ident) \<Rightarrow> billing_words \<Rightarrow> billing_form result \<Rightarrow> workspace \<Rightarrow> bool" where
  "good_billing lineIds words parsed w \<longleftrightarrow>
     (\<forall>f p. parsed = Inr f \<longrightarrow> buildPlan words f w = Billable p \<longrightarrow>
        fresh_lines lineIds (ledger w)
        \<and> valid_items (map row_input (billing_rows p (ledger w))) None
        \<and> (\<forall>i r. bf_targetInvoiceId f = Some i \<longrightarrow> lockInvoice i (ledger w) = Some r \<longrightarrow>
             valid_items (map stored_input (invoice_lines i (ledger w)) @ map row_input (billing_rows p (ledger w)))
               (toInvoiceColumnDiscount (inv_discount r))))"

lemma createBillingInvoice_result:
  assumes "createBillingInvoice store lineIds newId token p rows d = Inr (i, d1)"
  shows "\<exists>row. i = newId \<and> inv_id row = newId \<and> inv_status row = Draft \<and> inv_amountPaidCents row = 0 \<and> inv_paidAt row = None
    \<and> inv_lateFeeCents row = None \<and> inv_totalCents row = totalCents (prices_of rows None)
    \<and> inv_taxAmountCents row = taxAmountCents (prices_of rows None) \<and> invoices d1 = add_row row (invoices d)
    \<and> payments d1 = payments d \<and> creditNotes d1 = creditNotes d
    \<and> lineItems d1 = lineItems (writeInvoiceLineItems store lineIds newId rows None d)"
proof -
  obtain number d0 row where n: "claimInvoiceNumber d = Inr (number, d0)" "i = newId"
    and d1: "d1 = writeInvoiceLineItems store lineIds newId rows None (d0\<lparr>invoices := add_row row (invoices d0)\<rparr>)"
    and row: "inv_id row = newId" "inv_status row = Draft" "inv_amountPaidCents row = 0" "inv_paidAt row = None"
      "inv_lateFeeCents row = None" "inv_totalCents row = totalCents (prices_of rows None)"
      "inv_taxAmountCents row = taxAmountCents (prices_of rows None)"
    using assms unfolding createBillingInvoice_def bind_result_Inr Let_def prices_of_def by force
  then show ?thesis
    by (intro exI [of _ row]) (simp add: claim_tables [OF n(1)] writeInvoiceLineItems_def insert_batches_eq Let_def)
qed

text \<open>Both ways of writing a new invoice keep both invariants.\<close>

lemma new_invoice_kept:
  assumes ok: "prices_ok d" "books_ok d" and fresh: "inv_id r \<notin> inv_id ` set (invoices d)"
    and same: "invoices d1 = add_row r (invoices d)" "payments d1 = payments d" "creditNotes d1 = creditNotes d"
    and lines: "lineItems d1 = lineItems (writeInvoiceLineItems store lineIds (inv_id r) rows disc d)"
    and valid: "valid_items (map row_input rows) disc"
    and row: "inv_totalCents r = totalCents (prices_of rows disc)" "inv_taxAmountCents r = taxAmountCents (prices_of rows disc)"
      "inv_status r = Draft \<or> inv_status r = Sent" "inv_amountPaidCents r = 0" "inv_paidAt r = None" "inv_lateFeeCents r = None"
  shows "prices_ok d1 \<and> books_ok d1"
proof
  show "prices_ok d1" by (rule priced_add [OF ok(1) fresh same(1) lines valid row(1,2,6)])
  have "0 \<le> inv_totalCents r" unfolding row(1) prices_of_def by (rule valid_total [OF valid])
  then show "books_ok d1" by (intro books_add_draft [OF ok(2) fresh same row(3-6)])
qed

lemma lines_in_order:
  "lines_total i d = sum_list (map li_totalCents (invoice_lines i d))" "lines_tax i d = sum_list (map li_taxAmountCents (invoice_lines i d))"
proof -
  have "sum_list (map f (invoice_lines i d)) = sum_list (map f (filter (live_line i) (lineItems d)))" for f :: "line_item_row \<Rightarrow> int"
    unfolding invoice_lines_def by (metis mset_map mset_sort sum_mset_sum_list)
  then show "lines_total i d = sum_list (map li_totalCents (invoice_lines i d))"
    "lines_tax i d = sum_list (map li_taxAmountCents (invoice_lines i d))"
    by (simp_all add: lines_total_def lines_tax_def)
qed

lemma appendToBillingInvoice_kept:
  assumes ok: "prices_ok d" "books_ok d" and lock: "lockInvoice i d = Some r" "inv_status r = Draft"
    and lines: "fresh_lines lineIds d"
    and valid: "valid_items (map stored_input (invoice_lines i d) @ map row_input rows) (toInvoiceColumnDiscount (inv_discount r))"
    and run: "appendToBillingInvoice store lineIds r rows d = (j, d1)"
  shows "prices_ok d1 \<and> books_ok d1"
proof -
  let ?disc = "toInvoiceColumnDiscount (inv_discount r)"
  have r: "inv_id r = i" using lockInvoice_id [OF lock(1)] .
  have find: "find_id inv_id i (invoices d) = Some r" using lock(1) by (simp add: lockInvoice_Some)
  obtain t d0 where app: "appendInvoiceLineItems store lineIds i rows ?disc d = (t, d0)" by fastforce
  let ?g = "\<lambda>x. x\<lparr>inv_subtotalCents := subtotalCents t, inv_discountAmountTotalCents := discountAmountTotalCents t,
                   inv_taxAmountCents := taxAmountCents t, inv_totalCents := totalCents t\<rparr>"
  have d0: "invoices d0 = invoices d" "payments d0 = payments d" "creditNotes d0 = creditNotes d"
    and t: "t = calculateInvoiceTotal (map stored_input (invoice_lines i d) @ map row_input rows) ?disc"
    and sub: "li_invoiceId ` set (lineItems d0) \<subseteq> insert (Some i) (li_invoiceId ` set (lineItems d))"
    using app by (auto simp: appendInvoiceLineItems_def Let_def insert_batches_eq concat_chunks line_row_def)
  have d1: "d1 = d0\<lparr>invoices := put_id inv_id i ?g (invoices d)\<rparr>"
    using run app d0 by (auto simp: appendToBillingInvoice_def find r Let_def)
  have f: "distinct (map li_id (lineItems d))" "inj lineIds" "\<forall>k. lineIds k \<notin> li_id ` set (lineItems d)"
    using lines by (simp_all add: fresh_lines_def)
  note sums = appended_lines_add_up [OF f app]
  have sum: "lines_total i d0 = totalCents t" "lines_tax i d0 = taxAmountCents t"
    "\<And>k. k \<noteq> i \<Longrightarrow> filter (live_line k) (lineItems d0) = filter (live_line k) (lineItems d)"
    using sums valid unfolding lines_in_order valid_items_def by blast+
  have at: "lines_total k d1 = lines_total k d0" "lines_tax k d1 = lines_tax k d0" for k
    by (simp_all add: d1 lines_total_def lines_tax_def)
  have "map price_row (invoices d1) = map (\<lambda>r. if inv_id r = i then (i, totalCents t, taxAmountCents t, inv_lateFeeCents r)
      else price_row r) (invoices d)"
    by (auto simp: d1 put_id_def update_where_def price_row_def)
  then have "prices_ok d1"
    using sum sub by (intro priced_rewrite [OF ok lock]) (simp_all add: at, simp_all add: d1 lines_total_def lines_tax_def)
  moreover have "0 \<le> totalCents t" unfolding t by (rule valid_total [OF valid])
  then have "aggregate_ok d (?g r) \<and> status_ok d (?g r)"
    using draft_rewrite_ok [OF ok(2) invoice_table.lookup_in [OF find] lock(2), of ?g] lock(2) by simp
  then have "books_ok d1"
    by (intro books_put_row [OF ok(2) find, of d1 ?g]) (simp_all add: d1 d0)
  ultimately show ?thesis ..
qed

lemma resolveTarget_Some:
  "resolveTarget k p d = Inr (Some t) \<Longrightarrow> \<exists>i. k = Some i \<and> lockInvoice i d = Some t \<and> inv_status t = Draft"
  by (auto simp: resolveTarget_def split: option.splits if_splits)

lemma stamped_ledger: "stampBilled i p w = Inr w1 \<Longrightarrow> ledger w1 = ledger w"
  by (auto simp: stampBilled_def Let_def split: if_splits)

lemma logged_prices:
  "same_prices (ledger w) (ledger (emitted e i u (audited e' a i' w)))"
  "books_ok (ledger (emitted e i u (audited e' a i' w))) = books_ok (ledger w)"
  by (simp_all add: emitted_def audited_def)

lemma convertBillableWork_kept:
  assumes ok: "prices_ok (ledger w)" "books_ok (ledger w)" and fresh: "newId \<notin> inv_id ` set (invoices (ledger w))"
    and good: "good_billing lineIds words parsed w"
    and run: "convertBillableWork store words req parsed newId lineIds token w = (x, w1)"
  shows "prices_ok (ledger w1) \<and> books_ok (ledger w1)"
  using convertBillableWork_result [OF run]
proof (elim disjE exE conjE)
  fix actor :: actor and f :: billing_form and p :: billable_plan and target :: "invoice_row option" and i and d :: db and w2 :: workspace
  let ?rows = "map (\<lambda>l. billing_row l (getDefaultTaxRate (ledger w))) (bp_lines p)"
  assume f: "parsed = Inr f" "buildPlan words f w = Billable p" and target: "resolveTarget (bf_targetInvoiceId f) p (ledger w) = Inr target"
    and written: "(case target of None \<Rightarrow> createBillingInvoice store lineIds newId token p ?rows (ledger w)
         | Some t \<Rightarrow> Inr (appendToBillingInvoice store lineIds t ?rows (ledger w))) = Inr (i, d)"
    and stamp: "stampBilled i p (w\<lparr>ledger := d\<rparr>) = Inr w2"
    and w1: "w1 = emitted (if target = None then ''invoice.created'' else ''invoice.updated'') i (Some (actor_userId actor))
               (audited (if target = None then ''invoice.created'' else ''invoice.updated'') actor i w2)"
  have inputs: "fresh_lines lineIds (ledger w)" "valid_items (map row_input ?rows) None"
    and more: "\<And>k r. bf_targetInvoiceId f = Some k \<Longrightarrow> lockInvoice k (ledger w) = Some r \<Longrightarrow>
      valid_items (map stored_input (invoice_lines k (ledger w)) @ map row_input ?rows) (toInvoiceColumnDiscount (inv_discount r))"
    using good f unfolding good_billing_def billing_rows_def by blast+
  have "prices_ok d \<and> books_ok d"
  proof (cases target)
    case None
    with written have "createBillingInvoice store lineIds newId token p ?rows (ledger w) = Inr (i, d)" by simp
    from createBillingInvoice_result [OF this] show ?thesis
      using new_invoice_kept [OF ok, of _ d store lineIds ?rows None] fresh inputs(2) by blast
  next
    case (Some t)
    then obtain k where k: "bf_targetInvoiceId f = Some k" "lockInvoice k (ledger w) = Some t" "inv_status t = Draft"
      using resolveTarget_Some target by blast
    from Some written show ?thesis
      by (intro appendToBillingInvoice_kept [OF ok k(2,3) inputs(1) more [OF k(1,2)]]) simp
  qed
  moreover have "ledger w2 = d" using stamped_ledger [OF stamp] by simp
  ultimately show ?thesis unfolding w1 using same_prices_priced [OF logged_prices(1)] logged_prices(2) by simp
qed (use ok in simp)

lemma generateRecurringInvoice_kept:
  assumes ok: "prices_ok (ledger w)" "books_ok (ledger w)" and fresh: "newId \<notin> inv_id ` set (invoices (ledger w))"
    and valid: "\<And>s. live_schedule k w = Some s \<Longrightarrow>
      valid_items (map row_input (generation_rows words s (resolveRetainerUsage s w))) None"
  shows "prices_ok (ledger (snd (generateRecurringInvoice store words isUuid k now newId lineIds token w)))
    \<and> books_ok (ledger (snd (generateRecurringInvoice store words isUuid k now newId lineIds token w)))"
proof -
  obtain x w' where g: "generateRecurringInvoice store words isUuid k now newId lineIds token w = (x, w')" by fastforce
  from g have "prices_ok (ledger w') \<and> books_ok (ledger w')"
  proof (cases rule: generate_cases)
    case (generated s number d out)
    let ?rows = "generation_rows words s (resolveRetainerUsage s w)"
    let ?input = "generation_input s ?rows now"
    obtain n d0 where c: "claimInvoiceNumber (ledger w) = Inr (n, d0)"
      and d: "d = writeInvoiceLineItems store lineIds newId (sys_lineItems ?input) None
             (d0\<lparr>invoices := add_row (system_row newId token n ?input (ledger w)) (invoices d0)\<rparr>)"
      using writeSystemInvoice_result [OF generated(5)] by blast
    have rows: "sys_lineItems ?input = ?rows" by (simp add: generation_input_def)
    have tax: "inv_taxAmountCents (system_row newId token n ?input (ledger w)) = taxAmountCents (prices_of ?rows None)"
      by (simp add: system_row_def prices_of_def rows Let_def)
    have "prices_ok d \<and> books_ok d"
      by (rule new_invoice_kept [OF ok, of "system_row newId token n ?input (ledger w)" d store lineIds ?rows None])
        (use fresh valid [OF generated(1)] rows tax in \<open>simp_all add: d claim_tables [OF c] prices_of_def writeInvoiceLineItems_def
          insert_batches_eq Let_def\<close>)
    moreover have "same_prices d (ledger w')" "books_ok (ledger w') = books_ok d"
      by (simp_all add: generated(8) same_prices_def lines_of_invoices_def) (rule books_ok_tables; simp)
    ultimately show ?thesis using same_prices_priced by blast
  qed (use ok in \<open>simp_all add: completed_only_def\<close>)
  then show ?thesis by (simp add: g)
qed

lemma createInvoiceFromProposal_kept:
  assumes ok: "prices_ok (books s)" "books_ok (books s)" and fresh: "newId \<notin> inv_id ` set (invoices (books s))"
    and valid: "\<And>p. p \<in> set (proposals s) \<Longrightarrow> parsed = Inr (pp_id p) \<Longrightarrow>
      valid_items (map stored_input (proposal_lines (pp_id p) (books s))) (toInvoiceColumnDiscount (pp_discount p))"
  shows "prices_ok (books (snd (createInvoiceFromProposal store req parsed newId lineIds token s)))
    \<and> books_ok (books (snd (createInvoiceFromProposal store req parsed newId lineIds token s)))"
proof -
  obtain res s1 where run: "createInvoiceFromProposal store req parsed newId lineIds token s = (res, s1)" by fastforce
  from createInvoiceFromProposal_result [OF run] have "prices_ok (books s1) \<and> books_ok (books s1)"
  proof (elim disjE exE conjE)
    fix p :: proposal_row and n :: invoice_snapshot and number and d0 :: db
    let ?lines = "proposal_lines (pp_id p) (books s)" and ?disc = "toInvoiceColumnDiscount (pp_discount p)"
    let ?rows = "map (toSnapshotLineItemRow \<circ> toSnapshotLine) ?lines"
    let ?r = "converted_invoice n (agreed_totals (pp_id p) p s) newId number token"
    assume p: "p \<in> set (proposals s)" "parsed = Inr (pp_id p)" and t: "invoices (books s1) = add_row ?r (invoices (books s))"
      "payments (books s1) = payments (books s)" "creditNotes (books s1) = creditNotes (books s)"
      "lineItems (books s1) = lineItems (writeInvoiceLineItems store lineIds newId ?rows ?disc (books s))"
    have inputs: "map row_input ?rows = map stored_input ?lines" by (simp only: list.map_comp snapshot_inputs(2))
    have r: "inv_id ?r = newId" "inv_totalCents ?r = totalCents (prices_of ?rows ?disc)"
      "inv_taxAmountCents ?r = taxAmountCents (prices_of ?rows ?disc)" "inv_status ?r = Draft \<or> inv_status ?r = Sent"
      "inv_amountPaidCents ?r = 0" "inv_paidAt ?r = None" "inv_lateFeeCents ?r = None"
      by (simp_all only: prices_of_def inputs) (simp_all add: converted_invoice_def agreed_totals_def del: toInvoiceColumnDiscount.simps)
    have fresh': "inv_id ?r \<notin> inv_id ` set (invoices (books s))" unfolding r(1) by (rule fresh)
    have lines: "lineItems (books s1) = lineItems (writeInvoiceLineItems store lineIds (inv_id ?r) ?rows ?disc (books s))"
      unfolding r(1) by (rule t(4))
    have "valid_items (map row_input ?rows) ?disc" unfolding inputs by (rule valid [OF p])
    from new_invoice_kept [OF ok fresh' t(1-3) lines this r(2-7)] show ?thesis .
  qed (use ok in simp)
  then show ?thesis by (simp add: run)
qed

section \<open>Every way money moves\<close>

inductive money_step :: "db \<Rightarrow> db \<Rightarrow> bool" where
  core: "ledger_step d d' \<Longrightarrow> money_step d d'"
| bill: "newId \<notin> inv_id ` set (invoices (ledger w)) \<Longrightarrow> good_billing lineIds words form w \<Longrightarrow>
    money_step (ledger w) (ledger (snd (convertBillableWork store words req form newId lineIds token w)))"
| generate: "newId \<notin> inv_id ` set (invoices (ledger w)) \<Longrightarrow>
    (\<And>s. live_schedule k w = Some s \<Longrightarrow> valid_items (map row_input (generation_rows overage s (resolveRetainerUsage s w))) None) \<Longrightarrow>
    money_step (ledger w) (ledger (snd (generateRecurringInvoice store overage isUuid k now newId lineIds token w)))"
| convert: "newId \<notin> inv_id ` set (invoices (books s)) \<Longrightarrow>
    (\<And>p. p \<in> set (proposals s) \<Longrightarrow> k' = Inr (pp_id p) \<Longrightarrow>
      valid_items (map stored_input (proposal_lines (pp_id p) (books s))) (toInvoiceColumnDiscount (pp_discount p))) \<Longrightarrow>
    money_step (books s) (books (snd (createInvoiceFromProposal store req k' newId lineIds token s)))"

inductive money_reachable :: "db \<Rightarrow> bool" where
  start: "empty_ledger d \<Longrightarrow> money_reachable d"
| step: "money_reachable d \<Longrightarrow> money_step d d' \<Longrightarrow> money_reachable d'"

lemma ledger_step_prices:
  assumes "ledger_step d d'" "books_ok d" "prices_ok d"
  shows "prices_ok d'"
  using assms
proof (induction rule: ledger_step.induct)
  case (elsewhere d' d)
  then show ?case by (intro same_prices_priced [of d d']) (simp_all add: same_prices_def)
next
  case (create_invoice form d newId store req lineIds token)
  then show ?case by (intro createInvoice_priced)
next
  case (update_invoice form d store req lineIds)
  then show ?case by (intro updateInvoice_priced)
qed (intro adjustInvoiceLateFee_priced applyLateFees_priced; assumption
    | rule same_prices_priced, rule payment_action_prices markInvoicePaid_prices checkout_prices credit_note_prices
        trash_prices sendInvoice_prices, assumption)+

lemma money_step_kept:
  assumes "money_step d d'" "prices_ok d" "books_ok d"
  shows "prices_ok d' \<and> books_ok d'"
  using assms
proof (induction rule: money_step.induct)
  case (core d d')
  then show ?case using ledger_step_prices step_books by blast
next
  case (bill newId w lineIds words form store req token)
  then show ?case
    using convertBillableWork_kept [OF bill(3,4,1,2), of store req token, OF surjective_pairing] by simp
next
  case (generate newId w k overage store isUuid now lineIds token)
  then show ?case by (intro generateRecurringInvoice_kept)
next
  case (convert newId s k' store req lineIds token)
  then show ?case by (intro createInvoiceFromProposal_kept)
qed

lemma money_reachable_kept: "money_reachable d \<Longrightarrow> prices_ok d \<and> books_ok d"
proof (induction rule: money_reachable.induct)
  case (start d)
  then show ?case by (simp add: empty_ledger_def prices_ok_def lines_known_iff books_ok_def ids_ok_def)
next
  case (step d d')
  then show ?case using money_step_kept by blast
qed

lemma reachable_money: "reachable d \<Longrightarrow> money_reachable d"
  by (induction rule: reachable.induct) (blast intro: money_reachable.intros money_step.core)+

definition sent_invoice_db :: db where
  "sent_invoice_db = snd (sendInvoice False owner_request (Inr ''i2'') 1700179200000 first_invoice_db)"

definition overdue_db :: db where
  "overdue_db = applyLateFees 1709251200000 sent_invoice_db"

lemma overdue_rows: "map (\<lambda>r. (inv_id r, inv_totalCents r, inv_lateFeeCents r)) (invoices overdue_db) = [(''i2'', 1061, Some 51)]"
  by code_simp

lemma overdue_reachable: "money_reachable overdue_db"
proof -
  have "ledger_step first_invoice_db sent_invoice_db" unfolding sent_invoice_db_def by (rule ledger_step.send_invoice)
  moreover have "ledger_step sent_invoice_db overdue_db" unfolding overdue_db_def by (rule ledger_step.sweep)
  ultimately show ?thesis using first_invoice_reachable(1) reachable_money reachable.step by blast
qed

section \<open>Properties\<close>

text \<open>
  C2. Every invoice costs its lines: in every ledger that the actions on invoices, payments and credit notes, the Stripe
  deliveries, the late-fee sweep, billing tracked work, the recurring job and proposal conversion can reach from an empty
  instance, the total of each invoice is the sum of its stored lines and its late fee, its tax the sum of theirs, and no
  line belongs to an invoice that does not exist; and the balance holds: the aggregate of each is the sum of its live
  payments, within its total, and a draft has neither.
\<close>

theorem invoices_cost_their_lines:
  assumes "money_reachable d" and "r \<in> set (invoices d)"
  shows "inv_totalCents r
      = sum_list (map li_totalCents (filter (live_line (inv_id r)) (lineItems d)))
        + (case inv_lateFeeCents r of None \<Rightarrow> 0 | Some f \<Rightarrow> f)
    \<and> inv_taxAmountCents r = sum_list (map li_taxAmountCents (filter (live_line (inv_id r)) (lineItems d)))
    \<and> (\<forall>l\<in>set (lineItems d). \<forall>i. li_invoiceId l = Some i \<longrightarrow> i \<in> inv_id ` set (invoices d))
    \<and> inv_amountPaidCents r = sumRecordedPayments (inv_id r) None d
    \<and> 0 \<le> inv_amountPaidCents r \<and> inv_amountPaidCents r \<le> inv_totalCents r
    \<and> (inv_status r = Draft \<longrightarrow> inv_amountPaidCents r = 0 \<and> inv_lateFeeCents r = None)"
proof -
  have ok: "prices_ok d" "books_ok d" using money_reachable_kept [OF assms(1)] by simp_all
  have "priced_row d r" "lines_known d" using ok(1) assms(2) by (simp_all add: prices_ok_def)
  moreover have "aggregate_ok d r" using books_row [OF ok(2) assms(2)] by simp
  moreover have "inv_status r = Draft \<longrightarrow> inv_amountPaidCents r = 0 \<and> inv_lateFeeCents r = None"
    using draft_carries_nothing(1,5) [OF ok(2) assms(2)] by blast
  ultimately show ?thesis
    unfolding priced_row_def late_fee_of_def lines_total_def lines_tax_def lines_known_def aggregate_ok_def by blast
qed

lemma invoices_cost_their_lines_witness:
  "\<exists>r\<in>set (invoices overdue_db). inv_totalCents r = 1061
    \<and> sum_list (map li_totalCents (filter (live_line (inv_id r)) (lineItems overdue_db))) = 1010"
proof -
  have "(''i2'', 1061, Some 51) \<in> set (map (\<lambda>r. (inv_id r, inv_totalCents r, inv_lateFeeCents r)) (invoices overdue_db))"
    unfolding overdue_rows by simp
  then obtain r where r: "r \<in> set (invoices overdue_db)" "inv_totalCents r = 1061" "inv_lateFeeCents r = Some 51" by auto
  with invoices_cost_their_lines [OF overdue_reachable r(1)] show ?thesis by auto
qed

end
