(* ===== verification/Csv.thy ===== *)
theory Csv
  imports Expression Billing
begin

text \<open>
  Text that leaves the application: amounts typed and shown in a form (\<open>lib/utils/money.ts\<close>), the CSV writer
  (\<open>lib/utils/csv.ts\<close>) and the rows of the expense export (\<open>buildExpenseCsvRows.ts\<close>). The reader of a CSV file is not
  part of the program: it is the grammar of RFC 4180, stated here as the reference the writer is proved against.
\<close>

section \<open>Amounts\<close>

text \<open>\<open>/^\d+(\.\d{1,2})?$/\<close>, as the parts before and after the point.\<close>

definition amount_parts :: "string \<Rightarrow> (string \<times> string) option" where
  "amount_parts s =
     (let whole = takeWhile is_digit s; rest = dropWhile is_digit s
      in if whole = [] then None
         else case rest of
           [] \<Rightarrow> Some (whole, [])
         | c # fraction \<Rightarrow>
             if c = CHR ''.'' \<and> 1 \<le> length fraction \<and> length fraction \<le> 2 \<and> list_all is_digit fraction
             then Some (whole, fraction) else None)"

definition isValidAmount :: "string \<Rightarrow> bool" where
  "isValidAmount v = (let normalized = js_trim v in normalized = [] \<or> amount_parts normalized \<noteq> None)"

definition parseAmountToCents :: "string \<Rightarrow> jsfloat option" where
  "parseAmountToCents v =
     (case amount_parts (js_trim v) of
        None \<Rightarrow> None
      | Some (whole, fraction) \<Rightarrow>
          let fractionCents = of_nat (digits_value (take 2 (fraction @ ''00'')))
          in Some (add_float (mul_float (double (of_nat (digits_value whole))) (Fin 100)) (Fin fractionCents)))"

definition formatCentsForInput :: "int option \<Rightarrow> string" where
  "formatCentsForInput cents =
     (case cents of
        None \<Rightarrow> []
      | Some c \<Rightarrow>
          let absolute = \<bar>c\<bar>; whole = \<lfloor>js_div (of_int absolute) 100\<rfloor>; fraction = absolute mod 100
          in (if c < 0 then ''-'' else []) @ js_int_string whole @ ''.'' @ padStart (js_int_string fraction) 2 CHR ''0'')"

lemma whole_units:
  assumes "0 \<le> c" "c < 2 ^ 53"
  shows "\<lfloor>js_div (of_int c) 100\<rfloor> = c div 100"
proof -
  let ?x = "of_int c / 100 :: rat"
  have "\<bar>fl ?x - ?x\<bar> \<le> \<bar>?x\<bar> / 2 ^ 53" by (rule fl_error)
  moreover have "\<bar>?x\<bar> / 2 ^ 53 < 1 / 100" using assms by simp
  ultimately have near: "fl ?x < ?x + 1 / 100" by linarith
  have split: "of_int c = (100 * of_int (c div 100) + of_int (c mod 100) :: rat)"
    by (metis mult_div_mod_eq of_int_add of_int_mult of_int_numeral)
  have "of_int (c mod 100) \<le> (99 :: rat)" using pos_mod_bound [of 100 c] by linarith
  then have "?x + 1 / 100 \<le> of_int (c div 100) + 1" unfolding split by (simp add: field_simps)
  then have upper: "fl ?x < of_int (c div 100) + 1" using near by simp
  have "of_int (c div 100) \<le> ?x" using split pos_mod_sign [of 100 c] by simp
  then have "fl (of_int (c div 100)) \<le> fl ?x" by (rule fl_mono)
  moreover have "\<bar>c div 100\<bar> \<le> 2 ^ 53" using assms by simp
  ultimately have "of_int (c div 100) \<le> fl ?x" by simp
  then show ?thesis using upper by (simp add: js_div_def floor_eq_iff)
qed

lemma digits_all: "list_all is_digit (nat_digits n)"
  by (simp add: list_all_iff nat_digits_are_digits)

lemma cents_text:
  assumes "0 \<le> f" "f < 100"
  shows "length (padStart (js_int_string f) 2 CHR ''0'') = 2"
    and "list_all is_digit (padStart (js_int_string f) 2 CHR ''0'')"
    and "digits_value (padStart (js_int_string f) 2 CHR ''0'') = nat f"
proof -
  have "length (nat_digits (nat f)) \<le> 2"
  proof (cases "f = 0")
    case False
    then have "10 ^ (length (nat_digits (nat f)) - 1) \<le> nat f" using assms by (intro nat_digits_bounds(2)) simp
    also have "\<dots> < 10 ^ 2" using assms by simp
    finally have "length (nat_digits (nat f)) - 1 < 2" by (rule power_less_imp_less_exp [rotated]) simp
    then show ?thesis by simp
  qed (simp add: nat_digits.simps)
  then show "length (padStart (js_int_string f) 2 CHR ''0'') = 2"
    using assms by (simp add: padStart_def js_int_string_def)
  show "list_all is_digit (padStart (js_int_string f) 2 CHR ''0'')"
    using assms digits_all [of "nat f"] by (auto simp: padStart_def js_int_string_def list_all_iff is_digit_def)
  show "digits_value (padStart (js_int_string f) 2 CHR ''0'') = nat f"
    using assms by (simp add: padStart_def js_int_string_def digits_value_zeros digits_value_nat)
qed

lemma amount_parts_text:
  assumes "list_all is_digit w" "w \<noteq> []" "list_all is_digit f" "length f = 2"
  shows "amount_parts (w @ CHR ''.'' # f) = Some (w, f)"
proof -
  have "\<not> is_digit CHR ''.''" by (simp add: is_digit_def)
  then have "takeWhile is_digit (w @ CHR ''.'' # f) = w" "dropWhile is_digit (w @ CHR ''.'' # f) = CHR ''.'' # f"
    using assms(1) by (simp_all add: list_all_iff)
  then show ?thesis using assms by (simp add: amount_parts_def)
qed

lemma trim_digits:
  assumes "s \<noteq> []" "is_digit (hd s)" "is_digit (last s)"
  shows "js_trim s = s"
proof -
  have d: "is_digit c \<Longrightarrow> \<not> js_space c" for c by (auto simp: is_digit_def js_space_def Let_def)
  have "dropWhile js_space s = s" using assms d by (cases s) auto
  moreover have "dropWhile js_space (rev s) = rev s" using assms d by (cases "rev s") (auto simp: hd_rev [symmetric])
  ultimately show ?thesis by (simp add: js_trim_def)
qed

text \<open>C38. What the application shows for an amount reads back as that amount: for every number of cents from zero up to
  the largest exact integer, the string \<open>formatCentsForInput\<close> writes is a valid amount and \<open>parseAmountToCents\<close> gives the
  cents back, without a cent lost to binary fractions.\<close>

theorem amounts_round_trip:
  assumes "0 \<le> c" "c < 2 ^ 53"
  shows "isValidAmount (formatCentsForInput (Some c)) \<and> parseAmountToCents (formatCentsForInput (Some c)) = Some (Fin (of_int c))"
proof -
  let ?w = "nat_digits (nat (c div 100))" and ?f = "padStart (js_int_string (c mod 100)) 2 CHR ''0''"
  have range: "0 \<le> c mod 100" "c mod 100 < 100" "0 \<le> c div 100" using assms by auto
  note f = cents_text [OF range(1,2)]
  have w: "list_all is_digit ?w" "?w \<noteq> []" using digits_all nat_digits_nonempty by auto
  have shown: "formatCentsForInput (Some c) = ?w @ CHR ''.'' # ?f"
    unfolding formatCentsForInput_def Let_def option.case abs_of_nonneg [OF assms(1)] whole_units [OF assms]
    using assms range by (simp add: js_int_string_def)
  have "?f \<noteq> []" using f(1) by auto
  then have "js_trim (?w @ CHR ''.'' # ?f) = ?w @ CHR ''.'' # ?f"
    using w f(2) by (intro trim_digits) (auto simp: list_all_iff hd_append intro: last_in_set)
  then have trimmed: "js_trim (formatCentsForInput (Some c)) = ?w @ CHR ''.'' # ?f" by (simp only: shown)
  have parts: "amount_parts (?w @ CHR ''.'' # ?f) = Some (?w, ?f)" by (rule amount_parts_text [OF w f(2,1)])
  have small: "\<bar>c div 100\<bar> \<le> 2 ^ 53" "\<bar>c div 100 * 100\<bar> \<le> 2 ^ 53" "\<bar>c div 100 * 100 + c mod 100\<bar> \<le> 2 ^ 53"
    using assms by auto
  have "mul_float (double (of_int (c div 100))) (Fin 100) = Fin (of_int (c div 100 * 100))"
    using double_int [OF small(1)] double_int [OF small(2)] by simp
  moreover have "add_float (Fin (of_int (c div 100 * 100))) (Fin (of_int (c mod 100))) = Fin (of_int c)"
  proof -
    have "of_int (c div 100) * 100 + of_int (c mod 100) = (of_int c :: rat)"
      by (metis div_mult_mod_eq of_int_add of_int_mult of_int_numeral)
    then show ?thesis using double_int [OF small(3)] by simp
  qed
  ultimately have "parseAmountToCents (formatCentsForInput (Some c)) = Some (Fin (of_int c))"
    using f range by (simp add: parseAmountToCents_def trimmed parts digits_value_nat of_nat_nat)
  then show ?thesis using trimmed parts by (simp add: isValidAmount_def Let_def)
qed

lemma amounts_round_trip_witness:
  "formatCentsForInput (Some 820) = ''8.20'' \<and> parseAmountToCents ''8.20'' = Some (Fin 820)"
proof -
  have "formatCentsForInput (Some 820) = ''8.20''" by code_simp
  moreover have "parseAmountToCents (formatCentsForInput (Some 820)) = Some (Fin 820)" using amounts_round_trip [of 820] by simp
  ultimately show ?thesis by metis
qed

section \<open>The writer\<close>

text \<open>\<open>Date.prototype.toISOString\<close>.\<close>

definition iso_year :: "int \<Rightarrow> string" where
  "iso_year y =
     (if 0 \<le> y \<and> y \<le> 9999 then padStart (js_int_string y) 4 CHR ''0''
      else (if y < 0 then ''-'' else ''+'') @ padStart (js_int_string \<bar>y\<bar>) 6 CHR ''0'')"

definition toISOString :: "jsdate \<Rightarrow> string" where
  "toISOString t =
     (let two = (\<lambda>i. padStart (js_int_string i) 2 CHR ''0''); ms = t mod ms_per_day
      in iso_year (utc_year t) @ ''-'' @ two (utc_month t + 1) @ ''-'' @ two (utc_date t) @ ''T'' @ two (ms div 3600000) @ '':''
           @ two (ms div 60000 mod 60) @ '':'' @ two (ms div 1000 mod 60) @ ''.'' @ padStart (js_int_string (ms mod 1000)) 3 CHR ''0''
           @ ''Z'')"

text \<open>A cell, with \<open>JSON.stringify\<close> already applied to the values the writer hands to it.\<close>

datatype csv_value = Csv_missing | Csv_date jsdate | Csv_text string | Csv_number jsnum | Csv_boolean bool | Csv_bigint int | Csv_json string

abbreviation "quote_char \<equiv> CHR 0x22"
abbreviation "cr_char \<equiv> CHR 0x0D"
abbreviation "lf_char \<equiv> CHR 0x0A"

definition csv_special :: "char \<Rightarrow> bool" where
  "csv_special c \<longleftrightarrow> c \<in> {quote_char, CHR '','', cr_char, lf_char}"

definition formula_prefix :: "char \<Rightarrow> bool" where
  "formula_prefix c \<longleftrightarrow> c \<in> {CHR ''='', CHR ''+'', CHR ''-'', CHR ''@'', CHR 0x09, cr_char}"

definition neutralizeFormula :: "string \<Rightarrow> string" where
  "neutralizeFormula t = (if t \<noteq> [] \<and> formula_prefix (hd t) then CHR 0x27 # t else t)"

definition csv_text :: "csv_value \<Rightarrow> string" where
  "csv_text v =
     (case v of
        Csv_missing \<Rightarrow> []
      | Csv_date t \<Rightarrow> toISOString t
      | Csv_text t \<Rightarrow> neutralizeFormula t
      | Csv_number n \<Rightarrow> number_text n
      | Csv_boolean b \<Rightarrow> if b then ''true'' else ''false''
      | Csv_bigint i \<Rightarrow> js_int_string i
      | Csv_json t \<Rightarrow> t)"

primrec double_quotes :: "string \<Rightarrow> string" where
  "double_quotes [] = []"
| "double_quotes (c # s) = (if c = quote_char then [quote_char, quote_char] else [c]) @ double_quotes s"

definition escape_text :: "string \<Rightarrow> string" where
  "escape_text t = (if list_ex csv_special t then quote_char # double_quotes t @ [quote_char] else t)"

definition escapeCsvValue :: "csv_value \<Rightarrow> string" where
  "escapeCsvValue v = (if v = Csv_missing then [] else escape_text (csv_text v))"

fun join_with :: "string \<Rightarrow> string list \<Rightarrow> string" where
  "join_with sep [] = []"
| "join_with sep [s] = s"
| "join_with sep (s # t # ss) = s @ sep @ join_with sep (t # ss)"

definition serializeCsv :: "csv_value list list \<Rightarrow> string" where
  "serializeCsv rows = join_with [cr_char, lf_char] (map (\<lambda>row. join_with '','' (map escapeCsvValue row)) rows)"

section \<open>The grammar of RFC 4180\<close>

text \<open>
  A reader by character: what has been read of the field, of the record and of the file, and where in a field it is.
\<close>

datatype csv_place = Field_start | Bare | Quoted | After_quote

fun read_csv :: "csv_place \<Rightarrow> string \<Rightarrow> string list \<Rightarrow> string list list \<Rightarrow> string \<Rightarrow> string list list" where
  "read_csv p cell row rows [] = rows @ [row @ [cell]]"
| "read_csv Quoted cell row rows (c # s) =
     (if c = quote_char then read_csv After_quote cell row rows s else read_csv Quoted (cell @ [c]) row rows s)"
| "read_csv p cell row rows (c # s) =
     (if c = quote_char \<and> p = Field_start then read_csv Quoted cell row rows s
      else if c = quote_char \<and> p = After_quote then read_csv Quoted (cell @ [c]) row rows s
      else if c = CHR '','' then read_csv Field_start [] (row @ [cell]) rows s
      else if c = cr_char \<and> s \<noteq> [] \<and> hd s = lf_char then read_csv Field_start [] [] (rows @ [row @ [cell]]) (tl s)
      else read_csv Bare (cell @ [c]) row rows s)"

definition csv_records :: "string \<Rightarrow> string list list" where
  "csv_records s = read_csv Field_start [] [] [] s"

section \<open>What is written is what is read\<close>

text \<open>What may follow a field.\<close>

definition field_end :: "string \<Rightarrow> bool" where
  "field_end s \<longleftrightarrow> s = [] \<or> hd s = CHR '','' \<or> (\<exists>u. s = cr_char # lf_char # u)"

lemma end_of_field:
  assumes "field_end s"
  shows "read_csv Field_start cell row rows s = read_csv Bare cell row rows s"
    and "read_csv After_quote cell row rows s = read_csv Bare cell row rows s"
  using assms by (cases s; auto simp: field_end_def)+

lemma read_bare: "\<not> list_ex csv_special t \<Longrightarrow> read_csv Bare cell row rows (t @ s) = read_csv Bare (cell @ t) row rows s"
  by (induction t arbitrary: cell) (auto simp: csv_special_def)

lemma read_plain:
  assumes "\<not> list_ex csv_special t" "field_end s"
  shows "read_csv Field_start [] row rows (t @ s) = read_csv Bare t row rows s"
proof (cases t)
  case Nil
  then show ?thesis using assms end_of_field by simp
next
  case (Cons c u)
  then show ?thesis using assms(1) read_bare [of u "[c]" row rows s] by (auto simp: csv_special_def)
qed

lemma read_quoted:
  "field_end s \<Longrightarrow> read_csv Quoted cell row rows (double_quotes t @ quote_char # s) = read_csv Bare (cell @ t) row rows s"
proof (induction t arbitrary: cell)
  case (Cons c t)
  then show ?case by (cases "c = quote_char") simp_all
qed (simp add: end_of_field)

lemma read_field: "field_end s \<Longrightarrow> read_csv Field_start [] row rows (escape_text t @ s) = read_csv Bare t row rows s"
  by (simp add: escape_text_def read_plain read_quoted)

lemma read_row:
  assumes "ts \<noteq> []" "s = [] \<or> (\<exists>u. s = cr_char # lf_char # u)"
  shows "read_csv Field_start [] row rows (join_with '','' (map escape_text ts) @ s) = read_csv Bare (last ts) (row @ butlast ts) rows s"
  using assms(1)
proof (induction ts arbitrary: row rule: induct_list012)
  case (2 t)
  have "field_end s" using assms(2) by (auto simp: field_end_def)
  from read_field [OF this, of row rows t] show ?case by simp
next
  case (3 t u ts)
  then show ?case by (simp add: read_field field_end_def)
qed simp

lemma read_file:
  assumes "tss \<noteq> []" "[] \<notin> set tss"
  shows "read_csv Field_start [] [] rows (join_with [cr_char, lf_char] (map (\<lambda>ts. join_with '','' (map escape_text ts)) tss)) = rows @ tss"
  using assms
proof (induction tss arbitrary: rows rule: induct_list012)
  case (2 ts)
  then show ?case using read_row [of ts "[]" "[]" rows] by simp
next
  case (3 ts us tss)
  then have ne: "ts \<noteq> []" by auto
  let ?rest = "join_with [cr_char, lf_char] (map (\<lambda>ts. join_with '','' (map escape_text ts)) (us # tss))"
  have "read_csv Field_start [] [] rows (join_with '','' (map escape_text ts) @ [cr_char, lf_char] @ ?rest)
      = read_csv Bare (last ts) (butlast ts) rows ([cr_char, lf_char] @ ?rest)"
    using ne read_row [of ts "[cr_char, lf_char] @ ?rest" "[]" rows] by simp
  also have "\<dots> = read_csv Field_start [] [] (rows @ [ts]) ?rest" using ne by simp
  also have "\<dots> = (rows @ [ts]) @ us # tss" using 3 by simp
  finally show ?case by simp
qed simp

lemma escape_missing: "escapeCsvValue = (\<lambda>v. escape_text (csv_text v))"
  by (rule ext) (simp add: escapeCsvValue_def csv_text_def escape_text_def)

text \<open>C37. A CSV file is read back cell by cell as it was written: whatever commas, quotes and line breaks the values
  contain, a reader of RFC 4180 finds the same records with the same texts, and no cell that came from a string opens
  with a character a spreadsheet takes for a formula.\<close>

theorem csv_files_read_back:
  assumes "rows \<noteq> []" "[] \<notin> set rows"
  shows "csv_records (serializeCsv rows) = map (map csv_text) rows
    \<and> (csv_text (Csv_text t) = [] \<or> \<not> formula_prefix (hd (csv_text (Csv_text t))))
    \<and> (csv_text (Csv_text t) = t \<or> csv_text (Csv_text t) = CHR 0x27 # t)"
proof -
  have "serializeCsv rows = join_with [cr_char, lf_char] (map (\<lambda>ts. join_with '','' (map escape_text ts)) (map (map csv_text) rows))"
    by (simp add: serializeCsv_def escape_missing comp_def)
  then have "csv_records (serializeCsv rows) = [] @ map (map csv_text) rows"
    unfolding csv_records_def by (simp only:) (rule read_file, use assms in auto)
  then show ?thesis by (simp add: csv_text_def neutralizeFormula_def formula_prefix_def)
qed

lemma csv_files_read_back_witness:
  "csv_records (serializeCsv [[Csv_text ''=1,2'', Csv_number 5], [Csv_missing, Csv_text [quote_char]]]) = [[CHR 0x27 # ''=1,2'', ''5''], [[], [quote_char]]]"
proof -
  have "csv_records (serializeCsv [[Csv_text ''=1,2'', Csv_number 5], [Csv_missing, Csv_text [quote_char]]])
      = map (map csv_text) [[Csv_text ''=1,2'', Csv_number 5], [Csv_missing, Csv_text [quote_char]]]"
    using csv_files_read_back [of "[[Csv_text ''=1,2'', Csv_number 5], [Csv_missing, Csv_text [quote_char]]]"] by simp
  also have "\<dots> = [[CHR 0x27 # ''=1,2'', ''5''], [[], [quote_char]]]" by code_simp
  finally show ?thesis .
qed

section \<open>The rows of the expense export\<close>

record expense_csv_row =
  xc_spentAt :: jsdate
  xc_category :: string
  xc_description :: string
  xc_projectName :: "string option"
  xc_clientName :: "string option"
  xc_amountCents :: int
  xc_currency :: string
  xc_rebillable :: bool
  xc_markupPercentage :: "jsnum option"
  xc_invoicedInId :: "ident option"
  xc_receiptFilename :: "string option"

definition or_empty :: "string option \<Rightarrow> string" where
  "or_empty v = (case v of Some s \<Rightarrow> s | None \<Rightarrow> [])"

definition buildExpenseCsvRows :: "expense_csv_row list \<Rightarrow> string list \<Rightarrow> string \<Rightarrow> string \<Rightarrow> string list list" where
  "buildExpenseCsvRows es headers yes no =
     headers # map (\<lambda>e.
       [take 10 (toISOString (xc_spentAt e)), xc_category e, xc_description e, or_empty (xc_projectName e),
        or_empty (xc_clientName e), formatCentsForInput (Some (xc_amountCents e)), xc_currency e,
        (if xc_rebillable e then yes else no),
        (case xc_markupPercentage e of None \<Rightarrow> [] | Some m \<Rightarrow> number_text m),
        formatCentsForInput (Some (calculateRebillableCents (xc_amountCents e) (xc_rebillable e) (xc_markupPercentage e))),
        (if (case xc_invoicedInId e of None \<Rightarrow> False | Some k \<Rightarrow> k \<noteq> []) then yes else no), or_empty (xc_receiptFilename e)]) es"

end
