(* ===== verification/Reports.thy ===== *)
theory Reports
  imports Csv
begin

text \<open>
  The reports (\<open>features/reports/services\<close>): every report turns its rows into buckets of cells, and one function groups the
  buckets by currency and key and sums them. The maps of the code keep the order of insertion and are association lists
  here; \<open>String.prototype.localeCompare\<close> is an argument, and \<open>toSorted\<close> is the stable sort by a comparator.
\<close>

section \<open>Cells and rows\<close>

datatype report_cell = Money int | Count int | Duration int

record report_bucket =
  bk_key :: string
  bk_label :: string
  bk_sublabel :: "string option"
  bk_currency :: string
  bk_cells :: "report_cell list"

record report_row =
  rr_key :: string
  rr_label :: string
  rr_sublabel :: "string option"
  rr_cells :: "report_cell list"

record report_group =
  rg_currency :: string
  rg_rows :: "report_row list"
  rg_totals :: "report_cell list"

datatype report_column = InvoiceCount | Invoiced | Credited | NetRevenue | PaidColumn | OutstandingColumn | NetTaxable | NetTax | NetGross
  | EntryCount | Hours | BillableValue | ExpenseCount | Amount | RebillableAmount | TaxableBase | TaxAmount | CreditedTaxable
  | CreditedTax | NetTaxDue

record report_result =
  rs_columns :: "report_column list"
  rs_groups :: "report_group list"

datatype report_order = By_value | By_key

fun getCellValue :: "report_cell \<Rightarrow> int" where
  "getCellValue (Money c) = c"
| "getCellValue (Count n) = n"
| "getCellValue (Duration d) = d"

fun is_money :: "report_cell \<Rightarrow> bool" where
  "is_money (Money c) = True"
| "is_money _ = False"

fun addCell :: "report_cell \<Rightarrow> report_cell option \<Rightarrow> report_cell" where
  "addCell c None = c"
| "addCell (Money c) (Some d) = Money (c + getCellValue d)"
| "addCell (Duration c) (Some d) = Duration (c + getCellValue d)"
| "addCell (Count c) (Some d) = Count (c + getCellValue d)"

fun addCells :: "report_cell list \<Rightarrow> report_cell list \<Rightarrow> report_cell list" where
  "addCells [] ds = []"
| "addCells (c # cs) [] = addCell c None # addCells cs []"
| "addCells (c # cs) (d # ds) = addCell c (Some d) # addCells cs ds"

definition sumCells :: "report_row list \<Rightarrow> report_cell list" where
  "sumCells rows =
     (case rows of
        [] \<Rightarrow> []
      | r # rest \<Rightarrow> foldl (\<lambda>totals row. addCells totals (rr_cells row)) (rr_cells r) rest)"

section \<open>Sorting\<close>

fun insert_by :: "('a \<Rightarrow> 'a \<Rightarrow> int) \<Rightarrow> 'a \<Rightarrow> 'a list \<Rightarrow> 'a list" where
  "insert_by cmp x [] = [x]"
| "insert_by cmp x (y # ys) = (if cmp x y \<le> 0 then x # y # ys else y # insert_by cmp x ys)"

definition toSorted :: "('a \<Rightarrow> 'a \<Rightarrow> int) \<Rightarrow> 'a list \<Rightarrow> 'a list" where
  "toSorted cmp xs = foldr (insert_by cmp) xs []"

definition getCellAt :: "report_row \<Rightarrow> nat \<Rightarrow> int" where
  "getCellAt r i = (if i < length (rr_cells r) then getCellValue (rr_cells r ! i) else 0)"

definition find_money :: "report_cell list \<Rightarrow> nat option" where
  "find_money cs = List.find (\<lambda>i. is_money (cs ! i)) [0..<length cs]"

definition sortRows :: "(string \<Rightarrow> string \<Rightarrow> int) \<Rightarrow> report_order \<Rightarrow> report_row list \<Rightarrow> report_row list" where
  "sortRows localeCompare order rows =
     (if order = By_key then toSorted (\<lambda>a b. localeCompare (rr_key a) (rr_key b)) rows
      else case (case rows of [] \<Rightarrow> None | r # _ \<Rightarrow> find_money (rr_cells r)) of
        None \<Rightarrow> toSorted (\<lambda>a b. localeCompare (rr_label a) (rr_label b)) rows
      | Some i \<Rightarrow> toSorted (\<lambda>a b. let difference = getCellAt b i - getCellAt a i
                             in if difference \<noteq> 0 then difference else localeCompare (rr_label a) (rr_label b)) rows)"

definition getGroupWeight :: "report_group \<Rightarrow> int" where
  "getGroupWeight g =
     (case List.find is_money (rg_totals g) of Some c \<Rightarrow> getCellValue c | None \<Rightarrow> int (length (rg_rows g)))"

definition compareGroups :: "(string \<Rightarrow> string \<Rightarrow> int) \<Rightarrow> report_group \<Rightarrow> report_group \<Rightarrow> int" where
  "compareGroups localeCompare a b =
     (let difference = getGroupWeight b - getGroupWeight a
      in if difference \<noteq> 0 then difference else localeCompare (rg_currency a) (rg_currency b))"

section \<open>Grouping\<close>

definition bucket_row :: "report_bucket \<Rightarrow> report_row" where
  "bucket_row b = \<lparr>rr_key = bk_key b, rr_label = bk_label b, rr_sublabel = bk_sublabel b, rr_cells = bk_cells b\<rparr>"

definition put_row :: "report_bucket \<Rightarrow> report_row list \<Rightarrow> report_row list" where
  "put_row b rows =
     (if list_ex (\<lambda>r. rr_key r = bk_key b) rows
      then update_where (\<lambda>r. rr_key r = bk_key b) (\<lambda>r. r\<lparr>rr_cells := addCells (rr_cells r) (bk_cells b)\<rparr>) rows
      else rows @ [bucket_row b])"

definition put_bucket :: "(string \<times> report_row list) list \<Rightarrow> report_bucket \<Rightarrow> (string \<times> report_row list) list" where
  "put_bucket groups b =
     (if list_ex (\<lambda>g. fst g = bk_currency b) groups
      then update_where (\<lambda>g. fst g = bk_currency b) (\<lambda>g. (fst g, put_row b (snd g))) groups
      else groups @ [(bk_currency b, put_row b [])])"

definition toReportResult ::
  "(string \<Rightarrow> string \<Rightarrow> int) \<Rightarrow> report_column list \<Rightarrow> report_bucket list \<Rightarrow> report_order \<Rightarrow> report_result" where
  "toReportResult localeCompare columns buckets order =
     \<lparr>rs_columns = columns,
      rs_groups = toSorted (compareGroups localeCompare)
        (map (\<lambda>(currency, rows). let sorted_rows = sortRows localeCompare order rows
              in \<lparr>rg_currency = currency, rg_rows = sorted_rows, rg_totals = sumCells sorted_rows\<rparr>)
          (foldl put_bucket [] buckets))\<rparr>"

definition countReportRows :: "report_result \<Rightarrow> nat" where
  "countReportRows result = sum_list (map (\<lambda>g. length (rg_rows g)) (rs_groups result))"

definition toReportTableRows :: "report_result \<Rightarrow> (report_row \<times> string) list" where
  "toReportTableRows result = concat (map (\<lambda>g. map (\<lambda>r. (r, rg_currency g)) (rg_rows g)) (rs_groups result))"

section \<open>The reports\<close>

record revenue_report_row =
  rv_key :: string
  rv_label :: string
  rv_sublabel :: "string option"
  rv_currency :: string
  rv_totalCents :: int
  rv_creditedCents :: int
  rv_amountPaidCents :: int

definition aggregateRevenue :: "(string \<Rightarrow> string \<Rightarrow> int) \<Rightarrow> revenue_report_row list \<Rightarrow> report_order \<Rightarrow> report_result" where
  "aggregateRevenue localeCompare rows order =
     toReportResult localeCompare [InvoiceCount, Invoiced, Credited, NetRevenue, PaidColumn, OutstandingColumn]
       (map (\<lambda>r. \<lparr>bk_key = rv_key r, bk_label = rv_label r, bk_sublabel = rv_sublabel r, bk_currency = rv_currency r,
          bk_cells = [Count 1, Money (rv_totalCents r), Money (rv_creditedCents r), Money (rv_totalCents r - rv_creditedCents r),
            Money (rv_amountPaidCents r),
            Money (getInvoiceOutstandingCents \<lparr>oi_totalCents = rv_totalCents r, oi_amountPaidCents = rv_amountPaidCents r,
              oi_creditedCents = rv_creditedCents r\<rparr>)]\<rparr>) rows) order"

record expense_report_row =
  xr_category :: string
  xr_currency :: string
  xr_amountCents :: int
  xr_rebillableCents :: int

definition expense_bucket :: "expense_report_row \<Rightarrow> report_bucket" where
  "expense_bucket r = \<lparr>bk_key = xr_category r, bk_label = xr_category r, bk_sublabel = None, bk_currency = xr_currency r,
     bk_cells = [Count 1, Money (xr_amountCents r), Money (xr_rebillableCents r)]\<rparr>"

definition aggregateExpensesByCategory :: "(string \<Rightarrow> string \<Rightarrow> int) \<Rightarrow> expense_report_row list \<Rightarrow> report_result" where
  "aggregateExpensesByCategory localeCompare rows =
     toReportResult localeCompare [ExpenseCount, Amount, RebillableAmount] (map expense_bucket rows) By_value"

record time_report_row =
  tr_projectId :: ident
  tr_projectLabel :: string
  tr_billable :: bool
  tr_currency :: string
  tr_durationSeconds :: int
  tr_amountCents :: int

definition aggregateTimeByProject ::
  "(string \<Rightarrow> string \<Rightarrow> int) \<Rightarrow> time_report_row list \<Rightarrow> string \<Rightarrow> string \<Rightarrow> report_result" where
  "aggregateTimeByProject localeCompare rows billable nonBillable =
     toReportResult localeCompare [EntryCount, Hours, BillableValue]
       (map (\<lambda>r. \<lparr>bk_key = tr_projectId r @ '':'' @ (if tr_billable r then ''billable'' else ''nonBillable''),
          bk_label = tr_projectLabel r, bk_sublabel = Some (if tr_billable r then billable else nonBillable),
          bk_currency = tr_currency r,
          bk_cells = [Count 1, Duration (tr_durationSeconds r), Money (tr_amountCents r)]\<rparr>) rows) By_value"

record tax_report_row =
  tx_key :: string
  tx_label :: string
  tx_sublabel :: "string option"
  tx_currency :: string
  tx_taxableCents :: int
  tx_taxCents :: int
  tx_creditedTaxableCents :: int
  tx_creditedTaxCents :: int

definition aggregateRevenueByTaxRate :: "(string \<Rightarrow> string \<Rightarrow> int) \<Rightarrow> tax_report_row list \<Rightarrow> report_result" where
  "aggregateRevenueByTaxRate localeCompare rows =
     toReportResult localeCompare [NetTaxable, NetTax, NetGross]
       (map (\<lambda>r. let netTaxableCents = tx_taxableCents r - tx_creditedTaxableCents r; netTaxCents = tx_taxCents r - tx_creditedTaxCents r
          in \<lparr>bk_key = tx_key r, bk_label = tx_label r, bk_sublabel = tx_sublabel r, bk_currency = tx_currency r,
              bk_cells = [Money netTaxableCents, Money netTaxCents, Money (netTaxableCents + netTaxCents)]\<rparr>) rows) By_value"

definition aggregateTaxSummary :: "(string \<Rightarrow> string \<Rightarrow> int) \<Rightarrow> tax_report_row list \<Rightarrow> report_result" where
  "aggregateTaxSummary localeCompare rows =
     toReportResult localeCompare [TaxableBase, TaxAmount, CreditedTaxable, CreditedTax, NetTaxDue]
       (map (\<lambda>r. \<lparr>bk_key = tx_key r, bk_label = tx_label r, bk_sublabel = tx_sublabel r, bk_currency = tx_currency r,
          bk_cells = [Money (tx_taxableCents r), Money (tx_taxCents r), Money (tx_creditedTaxableCents r), Money (tx_creditedTaxCents r),
            Money (tx_taxCents r - tx_creditedTaxCents r)]\<rparr>) rows) By_value"

text \<open>\<open>buildReportCsvRows\<close>, with the headings as arguments.\<close>

definition toHundredthHours :: "int \<Rightarrow> int" where
  "toHundredthHours elapsed = math_round (js_div (js_mul (of_int elapsed) 100) 3600)"

fun toCsvCell :: "report_cell \<Rightarrow> string" where
  "toCsvCell (Money c) = formatCentsForInput (Some c)"
| "toCsvCell (Duration d) = formatCentsForInput (Some (toHundredthHours d))"
| "toCsvCell (Count n) = js_int_string n"

definition buildReportCsvRows ::
  "report_result \<Rightarrow> string \<Rightarrow> string \<Rightarrow> string \<Rightarrow> string list \<Rightarrow> string \<Rightarrow> string list list" where
  "buildReportCsvRows result label sublabel currency columns total_label =
     (label # sublabel # currency # columns)
     # concat (map (\<lambda>g. map (\<lambda>r. rr_label r # or_empty (rr_sublabel r) # rg_currency g # map toCsvCell (rr_cells r)) (rg_rows g)
         @ [total_label # [] # rg_currency g # map toCsvCell (rg_totals g)]) (rs_groups result))"

text \<open>The overview of the expense list (\<open>summarizeExpenses.ts\<close>), per currency and over the same amounts.\<close>

record expenses_aggregate =
  xa_count :: nat
  xa_totalCentsByCurrency :: "string \<Rightarrow> int option"
  xa_rebillableCentsByCurrency :: "string \<Rightarrow> int option"
  xa_unbilledRebillableCentsByCurrency :: "string \<Rightarrow> int option"

definition add_to :: "string \<Rightarrow> int \<Rightarrow> (string \<Rightarrow> int option) \<Rightarrow> (string \<Rightarrow> int option)" where
  "add_to currency cents m = m(currency \<mapsto> (case m currency of Some c \<Rightarrow> c | None \<Rightarrow> 0) + cents)"

definition summarizeExpenses :: "expense_row list \<Rightarrow> expenses_aggregate" where
  "summarizeExpenses rows =
     foldl (\<lambda>a r. let rebillableCents = calculateRebillableCents (ex_amountCents r) (ex_rebillable r) (ex_markupPercentage r);
                     a1 = a\<lparr>xa_totalCentsByCurrency := add_to (ex_currency r) (ex_amountCents r) (xa_totalCentsByCurrency a),
                            xa_rebillableCentsByCurrency := add_to (ex_currency r) rebillableCents (xa_rebillableCentsByCurrency a)\<rparr>
                 in if ex_invoicedInId r = None
                    then a1\<lparr>xa_unbilledRebillableCentsByCurrency :=
                      add_to (ex_currency r) rebillableCents (xa_unbilledRebillableCentsByCurrency a1)\<rparr>
                    else a1)
       \<lparr>xa_count = length rows, xa_totalCentsByCurrency = Map.empty, xa_rebillableCentsByCurrency = Map.empty,
        xa_unbilledRebillableCentsByCurrency = Map.empty\<rparr> rows"


section \<open>Sums of cells\<close>

fun cell_kind :: "report_cell \<Rightarrow> nat" where
  "cell_kind (Money _) = 0" | "cell_kind (Count _) = 1" | "cell_kind (Duration _) = 2"

text \<open>What a column adds up to over the rows that produced a report.\<close>

definition column_sum :: "nat \<Rightarrow> report_bucket list \<Rightarrow> int" where
  "column_sum j bs = sum_list (map (\<lambda>b. getCellValue (bk_cells b ! j)) bs)"

definition holds_sums :: "nat list \<Rightarrow> report_cell list \<Rightarrow> report_bucket list \<Rightarrow> bool" where
  "holds_sums ks cells bs \<longleftrightarrow> map cell_kind cells = ks \<and> (\<forall>j<length ks. getCellValue (cells ! j) = column_sum j bs)"

lemma addCell_value [simp]: "getCellValue (addCell c (Some d)) = getCellValue c + getCellValue d" "cell_kind (addCell c e) = cell_kind c"
  by (cases c; simp) (cases c; cases e; simp)

lemma addCells_kinds [simp]: "map cell_kind (addCells cs ds) = map cell_kind cs"
  by (induction cs ds rule: addCells.induct) simp_all

lemma addCells_length [simp]: "length (addCells cs ds) = length cs"
  by (induction cs ds rule: addCells.induct) simp_all

lemma addCells_value:
  "length cs = length ds \<Longrightarrow> j < length cs \<Longrightarrow> getCellValue (addCells cs ds ! j) = getCellValue (cs ! j) + getCellValue (ds ! j)"
proof (induction cs ds arbitrary: j rule: addCells.induct)
  case (3 c cs d ds)
  then show ?case by (cases j) simp_all
qed simp_all

lemma column_sum_append [simp]: "column_sum j (bs @ cs) = column_sum j bs + column_sum j cs"
  by (simp add: column_sum_def)

lemma column_sum_single [simp]: "column_sum j [b] = getCellValue (bk_cells b ! j)" "column_sum j [] = 0"
  by (simp_all add: column_sum_def)

lemma holds_sums_add:
  assumes "holds_sums ks cells bs" "map cell_kind (bk_cells b) = ks"
  shows "holds_sums ks (addCells cells (bk_cells b)) (bs @ [b])"
proof -
  have "length cells = length ks" "length (bk_cells b) = length ks" using assms by (auto simp: holds_sums_def dest: map_eq_imp_length_eq)
  then show ?thesis using assms by (simp add: holds_sums_def addCells_value)
qed

lemma sum_rows:
  assumes "\<And>r. r \<in> set rows \<Longrightarrow> map cell_kind (rr_cells r) = ks" "map cell_kind cells = ks"
  shows "map cell_kind (foldl (\<lambda>t r. addCells t (rr_cells r)) cells rows) = ks
    \<and> (\<forall>j<length ks. getCellValue (foldl (\<lambda>t r. addCells t (rr_cells r)) cells rows ! j)
        = getCellValue (cells ! j) + sum_list (map (\<lambda>r. getCellValue (rr_cells r ! j)) rows))"
  using assms
proof (induction rows arbitrary: cells)
  case (Cons r rows)
  have r: "map cell_kind (rr_cells r) = ks" using Cons.prems by simp
  have "length cells = length ks" "length (rr_cells r) = length ks"
    using arg_cong [OF r, of length] arg_cong [OF Cons.prems(2), of length] by simp_all
  then show ?case using Cons.IH [of "addCells cells (rr_cells r)"] Cons.prems by (simp add: addCells_value)
qed simp

lemma sumCells_value:
  assumes "rows \<noteq> []" "\<And>r. r \<in> set rows \<Longrightarrow> map cell_kind (rr_cells r) = ks"
  shows "map cell_kind (sumCells rows) = ks
    \<and> (\<forall>j<length ks. getCellValue (sumCells rows ! j) = sum_list (map (\<lambda>r. getCellValue (rr_cells r ! j)) rows))"
  using assms sum_rows [of "tl rows" ks "rr_cells (hd rows)"] by (cases rows) (auto simp: sumCells_def)

section \<open>Sorting keeps the rows\<close>

lemma insert_by_mset: "mset (insert_by cmp x xs) = add_mset x (mset xs)"
  by (induction xs) auto

lemma toSorted_mset [simp]: "mset (toSorted cmp xs) = mset xs"
  by (induction xs) (simp_all add: toSorted_def insert_by_mset)

lemma toSorted_set [simp]: "set (toSorted cmp xs) = set xs"
  by (metis toSorted_mset set_mset_mset)

lemma sortRows_mset: "mset (sortRows localeCompare order rows) = mset rows"
  by (simp add: sortRows_def split: option.splits list.splits)

lemma sortRows_sum: "sum_list (map f (sortRows localeCompare order rows)) = (sum_list (map f rows) :: int)"
  by (metis mset_map sortRows_mset sum_mset_sum_list)

lemma sortRows_set: "set (sortRows localeCompare order rows) = set rows"
  by (metis set_mset_mset sortRows_mset)

lemma sortRows_distinct: "distinct (map f (sortRows localeCompare order rows)) \<longleftrightarrow> distinct (map f rows)"
  by (metis mset_map mset_eq_imp_distinct_iff sortRows_mset)

section \<open>Grouping adds up\<close>

definition of_currency :: "string \<Rightarrow> report_bucket list \<Rightarrow> report_bucket list" where
  "of_currency c bs = filter (\<lambda>b. bk_currency b = c) bs"

definition of_key :: "string \<Rightarrow> report_bucket list \<Rightarrow> report_bucket list" where
  "of_key k bs = filter (\<lambda>b. bk_key b = k) bs"

definition rows_of :: "nat list \<Rightarrow> report_bucket list \<Rightarrow> report_row list \<Rightarrow> bool" where
  "rows_of ks bs rows \<longleftrightarrow>
     distinct (map rr_key rows) \<and> rr_key ` set rows = bk_key ` set bs
     \<and> (\<forall>r\<in>set rows. holds_sums ks (rr_cells r) (of_key (rr_key r) bs))"

lemma put_row_of:
  assumes rows: "rows_of ks bs rows" and b: "map cell_kind (bk_cells b) = ks"
  shows "rows_of ks (bs @ [b]) (put_row b rows)"
proof (cases "list_ex (\<lambda>r. rr_key r = bk_key b) rows")
  case True
  let ?g = "\<lambda>r. r\<lparr>rr_cells := addCells (rr_cells r) (bk_cells b)\<rparr>"
  have put: "put_row b rows = update_where (\<lambda>r. rr_key r = bk_key b) ?g rows" using True by (simp add: put_row_def)
  have keys: "map rr_key (put_row b rows) = map rr_key rows" by (simp add: put update_where_def)
  have "holds_sums ks (rr_cells r) (of_key (rr_key r) (bs @ [b]))" if "r \<in> set (put_row b rows)" for r
  proof -
    from that obtain r' where r': "r' \<in> set rows" "r = (if rr_key r' = bk_key b then ?g r' else r')"
      by (auto simp: put update_where_def)
    have old: "holds_sums ks (rr_cells r') (of_key (rr_key r') bs)" using r'(1) rows by (simp add: rows_of_def)
    show ?thesis
    proof (cases "rr_key r' = bk_key b")
      case True
      then show ?thesis using r'(2) holds_sums_add [OF old b] by (simp add: of_key_def)
    qed (use r'(2) old in \<open>simp add: of_key_def\<close>)
  qed
  moreover have "bk_key b \<in> bk_key ` set bs"
  proof -
    have "bk_key b \<in> rr_key ` set rows" using True by (force simp: list_ex_iff)
    then show ?thesis using rows by (simp add: rows_of_def)
  qed
  moreover have "rr_key ` set (put_row b rows) = rr_key ` set rows" using arg_cong [OF keys, of set] by simp
  ultimately show ?thesis using rows by (simp add: rows_of_def keys insert_absorb)
next
  case False
  then have "bk_key b \<notin> rr_key ` set rows" by (auto simp: list_ex_iff)
  then have new: "bk_key b \<notin> bk_key ` set bs" using rows by (simp add: rows_of_def)
  then have none: "of_key (bk_key b) bs = []" unfolding of_key_def filter_empty_conv by (metis imageI)
  have put: "put_row b rows = rows @ [bucket_row b]" using False by (simp add: put_row_def)
  have fresh: "bk_key b \<notin> rr_key ` set rows" using new rows by (simp add: rows_of_def)
  have "holds_sums ks (rr_cells r) (of_key (rr_key r) (bs @ [b]))" if "r \<in> set rows" for r
  proof -
    have "rr_key r \<noteq> bk_key b" using that fresh by (metis imageI)
    then have "of_key (rr_key r) (bs @ [b]) = of_key (rr_key r) bs" by (simp add: of_key_def)
    then show ?thesis using that rows by (simp add: rows_of_def)
  qed
  moreover have "holds_sums ks (bk_cells b) (of_key (bk_key b) (bs @ [b]))" using b none by (simp add: holds_sums_def of_key_def)
  ultimately show ?thesis using rows fresh by (auto simp: rows_of_def put bucket_row_def)
qed

definition groups_of :: "nat list \<Rightarrow> report_bucket list \<Rightarrow> (string \<times> report_row list) list \<Rightarrow> bool" where
  "groups_of ks bs groups \<longleftrightarrow>
     distinct (map fst groups) \<and> fst ` set groups = bk_currency ` set bs
     \<and> (\<forall>g\<in>set groups. rows_of ks (of_currency (fst g) bs) (snd g))"

lemma put_bucket_of:
  assumes groups: "groups_of ks bs groups" and b: "map cell_kind (bk_cells b) = ks"
  shows "groups_of ks (bs @ [b]) (put_bucket groups b)"
proof (cases "list_ex (\<lambda>g. fst g = bk_currency b) groups")
  case True
  have put: "put_bucket groups b = update_where (\<lambda>g. fst g = bk_currency b) (\<lambda>g. (fst g, put_row b (snd g))) groups"
    using True by (simp add: put_bucket_def)
  have keys: "map fst (put_bucket groups b) = map fst groups" by (simp add: put update_where_def)
  have "rows_of ks (of_currency (fst g) (bs @ [b])) (snd g)" if "g \<in> set (put_bucket groups b)" for g
    using that groups put_row_of [OF _ b] by (fastforce simp: put update_where_def groups_of_def of_currency_def split: if_splits)
  moreover have "bk_currency b \<in> bk_currency ` set bs" using True groups by (force simp: list_ex_iff groups_of_def)
  moreover have "fst ` set (put_bucket groups b) = fst ` set groups" using arg_cong [OF keys, of set] by simp
  ultimately show ?thesis using groups by (simp add: groups_of_def keys insert_absorb)
next
  case False
  then have "bk_currency b \<notin> fst ` set groups" by (auto simp: list_ex_iff)
  then have new: "bk_currency b \<notin> bk_currency ` set bs" using groups by (simp add: groups_of_def)
  then have none: "of_currency (bk_currency b) bs = []" unfolding of_currency_def filter_empty_conv by (metis imageI)
  have "rows_of ks [] []" by (simp add: rows_of_def)
  from put_row_of [OF this b] have "rows_of ks [b] (put_row b [])" by simp
  moreover have "fst g \<noteq> bk_currency b" if "g \<in> set groups" for g
    using that groups new unfolding groups_of_def by (metis imageI)
  ultimately show ?thesis using groups new none False
    by (auto simp: groups_of_def put_bucket_def of_currency_def)
qed

lemma grouped:
  assumes "\<And>b. b \<in> set bs \<Longrightarrow> map cell_kind (bk_cells b) = ks"
  shows "groups_of ks bs (foldl put_bucket [] bs)"
  using assms
proof (induction bs rule: rev_induct)
  case Nil
  show ?case by (simp add: groups_of_def)
next
  case (snoc b bs)
  then show ?case by (simp add: put_bucket_of)
qed

lemma sum_over_keys:
  assumes "distinct ks" "set (map key bs) \<subseteq> set ks"
  shows "sum_list (map (\<lambda>k. sum_list (map f (filter (\<lambda>b. key b = k) bs))) ks) = (sum_list (map f bs) :: int)"
  using assms
proof (induction bs)
  case (Cons b bs)
  have one: "sum_list (map (\<lambda>k. if key b = k then f b else 0) ks) = f b"
    using Cons.prems sum_list_map_eq_sum_count2 [of "map (\<lambda>k. if key b = k then f b else 0) ks"]
    by (simp add: sum_list_distinct_conv_sum_set)
  have "sum_list (map (\<lambda>k. sum_list (map f (filter (\<lambda>b. key b = k) (b # bs)))) ks)
      = sum_list (map (\<lambda>k. (if key b = k then f b else 0) + sum_list (map f (filter (\<lambda>b. key b = k) bs))) ks)"
    by (rule arg_cong [of _ _ sum_list]) simp
  also have "\<dots> = f b + sum_list (map f bs)" using Cons one by (simp add: sum_list_addf)
  finally show ?case by simp
qed simp

lemma rows_sum:
  assumes "rows_of ks bs rows" "j < length ks"
  shows "sum_list (map (\<lambda>r. getCellValue (rr_cells r ! j)) rows) = column_sum j bs"
proof -
  have "sum_list (map (\<lambda>r. getCellValue (rr_cells r ! j)) rows) = sum_list (map (\<lambda>k. column_sum j (of_key k bs)) (map rr_key rows))"
    unfolding map_map comp_def
    by (rule arg_cong [of _ _ sum_list], rule map_cong [OF refl]) (use assms in \<open>auto simp: rows_of_def holds_sums_def\<close>)
  also have "\<dots> = column_sum j bs"
    unfolding column_sum_def of_key_def
    by (rule sum_over_keys) (use assms in \<open>auto simp: rows_of_def\<close>)
  finally show ?thesis .
qed


lemma result_groups:
  assumes "\<And>b. b \<in> set bs \<Longrightarrow> map cell_kind (bk_cells b) = ks" "g \<in> set (rs_groups (toReportResult localeCompare columns bs order))"
  obtains rows where "rg_rows g = sortRows localeCompare order rows" "rg_totals g = sumCells (rg_rows g)"
    "rows_of ks (of_currency (rg_currency g) bs) rows" "rg_currency g \<in> bk_currency ` set bs"
proof -
  have grouped_bs: "groups_of ks bs (foldl put_bucket [] bs)" by (rule grouped [OF assms(1)])
  from assms(2) obtain c rows where "(c, rows) \<in> set (foldl put_bucket [] bs)"
    "g = \<lparr>rg_currency = c, rg_rows = sortRows localeCompare order rows, rg_totals = sumCells (sortRows localeCompare order rows)\<rparr>"
    by (auto simp: toReportResult_def Let_def)
  then show ?thesis using grouped_bs by (intro that [of rows]) (force simp: groups_of_def)+
qed

lemma rows_nonempty: "rows_of ks (of_currency c bs) rows \<Longrightarrow> c \<in> bk_currency ` set bs \<Longrightarrow> rows \<noteq> []"
  by (auto simp: rows_of_def of_currency_def filter_empty_conv image_iff)

lemma total_sum:
  assumes "\<And>b. b \<in> set bs \<Longrightarrow> map cell_kind (bk_cells b) = ks" "g \<in> set (rs_groups (toReportResult localeCompare columns bs order))"
    and "j < length ks"
  shows "getCellValue (rg_totals g ! j) = column_sum j (of_currency (rg_currency g) bs)"
proof -
  obtain rows where rows: "rg_rows g = sortRows localeCompare order rows" "rg_totals g = sumCells (rg_rows g)"
    "rows_of ks (of_currency (rg_currency g) bs) rows" "rg_currency g \<in> bk_currency ` set bs"
    by (rule result_groups [OF assms(1,2)])
  have "sortRows localeCompare order rows \<noteq> []" using rows_nonempty [OF rows(3,4)] sortRows_mset [of localeCompare order rows] by auto
  moreover have "map cell_kind (rr_cells r) = ks" if "r \<in> set (sortRows localeCompare order rows)" for r
    using that rows(3) by (simp add: sortRows_set rows_of_def holds_sums_def)
  ultimately have "getCellValue (rg_totals g ! j) = sum_list (map (\<lambda>r. getCellValue (rr_cells r ! j)) (sortRows localeCompare order rows))"
    unfolding rows(2) rows(1) using sumCells_value [of "sortRows localeCompare order rows" ks] assms(3) by simp
  then show ?thesis using rows_sum [OF rows(3) assms(3)] by (simp add: sortRows_sum)
qed

lemma group_currencies:
  assumes "\<And>b. b \<in> set bs \<Longrightarrow> map cell_kind (bk_cells b) = ks"
  shows "distinct (map rg_currency (rs_groups (toReportResult localeCompare columns bs order)))"
    and "rg_currency ` set (rs_groups (toReportResult localeCompare columns bs order)) = bk_currency ` set bs"
proof -
  have grouped_bs: "groups_of ks bs (foldl put_bucket [] bs)" by (rule grouped [OF assms])
  let ?groups = "map (\<lambda>(currency, rows). let sorted_rows = sortRows localeCompare order rows
              in \<lparr>rg_currency = currency, rg_rows = sorted_rows, rg_totals = sumCells sorted_rows\<rparr>) (foldl put_bucket [] bs)"
  have currencies: "map rg_currency ?groups = map fst (foldl put_bucket [] bs)" by (auto simp: Let_def)
  have "mset (map rg_currency (toSorted (compareGroups localeCompare) ?groups)) = mset (map rg_currency ?groups)"
    by (simp only: mset_map toSorted_mset)
  from mset_eq_imp_distinct_iff [OF this] have "distinct (map rg_currency (toSorted (compareGroups localeCompare) ?groups))"
    unfolding currencies using grouped_bs by (simp add: groups_of_def)
  then show "distinct (map rg_currency (rs_groups (toReportResult localeCompare columns bs order)))"
    by (simp only: toReportResult_def report_result.simps)
  have "rg_currency ` set ?groups = set (map rg_currency ?groups)" by (simp only: set_map)
  also have "\<dots> = bk_currency ` set bs" unfolding currencies using grouped_bs by (simp add: groups_of_def)
  finally show "rg_currency ` set (rs_groups (toReportResult localeCompare columns bs order)) = bk_currency ` set bs"
    by (simp only: toReportResult_def report_result.simps toSorted_set)
qed

text \<open>The total a report shows in a column for a currency, when it shows that currency.\<close>

definition report_total :: "report_result \<Rightarrow> string \<Rightarrow> nat \<Rightarrow> int option" where
  "report_total result c j = map_option (\<lambda>g. getCellValue (rg_totals g ! j)) (List.find (\<lambda>g. rg_currency g = c) (rs_groups result))"

lemma report_total_sum:
  assumes "\<And>b. b \<in> set bs \<Longrightarrow> map cell_kind (bk_cells b) = ks" "j < length ks"
  shows "report_total (toReportResult localeCompare columns bs order) c j
    = (if c \<in> bk_currency ` set bs then Some (column_sum j (of_currency c bs)) else None)"
proof (cases "List.find (\<lambda>g. rg_currency g = c) (rs_groups (toReportResult localeCompare columns bs order))")
  case None
  then have "c \<notin> rg_currency ` set (rs_groups (toReportResult localeCompare columns bs order))" by (auto simp: find_None_iff)
  then show ?thesis using None group_currencies(2) [OF assms(1)] by (simp add: report_total_def)
next
  case (Some g)
  then have g: "g \<in> set (rs_groups (toReportResult localeCompare columns bs order))" "rg_currency g = c"
    by (auto simp: find_Some_iff)
  then have "c \<in> bk_currency ` set bs" using group_currencies(2) [OF assms(1)] by blast
  then show ?thesis using Some total_sum [OF assms(1) g(1) assms(2)] g(2) by (simp add: report_total_def)
qed


definition sample_buckets :: "report_bucket list" where
  "sample_buckets = map expense_bucket
     [\<lparr>xr_category = ''travel'', xr_currency = ''EUR'', xr_amountCents = 500, xr_rebillableCents = 0\<rparr>,
      \<lparr>xr_category = ''travel'', xr_currency = ''USD'', xr_amountCents = 70, xr_rebillableCents = 70\<rparr>,
      \<lparr>xr_category = ''travel'', xr_currency = ''EUR'', xr_amountCents = 250, xr_rebillableCents = 300\<rparr>]"

lemma sample_kinds: "b \<in> set sample_buckets \<Longrightarrow> map cell_kind (bk_cells b) = [1, 0, 0]"
  by (auto simp: sample_buckets_def expense_bucket_def)


section \<open>Two reports on the same rows\<close>

lemma tax_report_totals:
  assumes "j < 3" "k < 5"
  shows "report_total (aggregateRevenueByTaxRate localeCompare rows) c j
      = (if c \<in> tx_currency ` set rows
         then Some (sum_list (map (\<lambda>r. [tx_taxableCents r - tx_creditedTaxableCents r, tx_taxCents r - tx_creditedTaxCents r,
             tx_taxableCents r - tx_creditedTaxableCents r + (tx_taxCents r - tx_creditedTaxCents r)] ! j)
             (filter (\<lambda>r. tx_currency r = c) rows))) else None)"
    and "report_total (aggregateTaxSummary localeCompare rows) c k
      = (if c \<in> tx_currency ` set rows
         then Some (sum_list (map (\<lambda>r. [tx_taxableCents r, tx_taxCents r, tx_creditedTaxableCents r, tx_creditedTaxCents r,
             tx_taxCents r - tx_creditedTaxCents r] ! k)
             (filter (\<lambda>r. tx_currency r = c) rows))) else None)"
proof -
  have j: "j \<in> {0, 1, 2}" and k: "k \<in> {0, 1, 2, 3, 4}" using assms by auto
  show "report_total (aggregateRevenueByTaxRate localeCompare rows) c j
      = (if c \<in> tx_currency ` set rows
         then Some (sum_list (map (\<lambda>r. [tx_taxableCents r - tx_creditedTaxableCents r, tx_taxCents r - tx_creditedTaxCents r,
             tx_taxableCents r - tx_creditedTaxableCents r + (tx_taxCents r - tx_creditedTaxCents r)] ! j)
             (filter (\<lambda>r. tx_currency r = c) rows))) else None)"
    unfolding aggregateRevenueByTaxRate_def
    by (subst report_total_sum [of _ "[0, 0, 0]"])
      (use j in \<open>auto simp: Let_def image_image of_currency_def filter_map comp_def column_sum_def\<close>)
  show "report_total (aggregateTaxSummary localeCompare rows) c k
      = (if c \<in> tx_currency ` set rows
         then Some (sum_list (map (\<lambda>r. [tx_taxableCents r, tx_taxCents r, tx_creditedTaxableCents r, tx_creditedTaxCents r,
             tx_taxCents r - tx_creditedTaxCents r] ! k)
             (filter (\<lambda>r. tx_currency r = c) rows))) else None)"
    unfolding aggregateTaxSummary_def
    by (subst report_total_sum [of _ "[0, 0, 0, 0, 0]"])
      (use k in \<open>auto simp: image_image of_currency_def filter_map comp_def column_sum_def\<close>)
qed


lemma sum_list_minus: "sum_list (map (\<lambda>r. f r - g r) xs) = (sum_list (map f xs) - sum_list (map g xs) :: int)"
  by (induction xs) simp_all

text \<open>The two tax reports over the same rows agree to the cent, currency by currency: the tax earned per rate adds up to
  the tax still due, the net base to the base charged less the base credited, and the gross column to net plus tax.\<close>

theorem tax_reports_reconcile:
  "report_total (aggregateRevenueByTaxRate localeCompare rows) c 1 = report_total (aggregateTaxSummary localeCompare rows) c 4
   \<and> report_total (aggregateRevenueByTaxRate localeCompare rows) c 0
      = Option.bind (report_total (aggregateTaxSummary localeCompare rows) c 0)
          (\<lambda>base. map_option (\<lambda>credited. base - credited) (report_total (aggregateTaxSummary localeCompare rows) c 2))
   \<and> report_total (aggregateRevenueByTaxRate localeCompare rows) c 2
      = Option.bind (report_total (aggregateRevenueByTaxRate localeCompare rows) c 0)
          (\<lambda>net. map_option (\<lambda>tax. net + tax) (report_total (aggregateRevenueByTaxRate localeCompare rows) c 1))"
  by (simp add: tax_report_totals(1) [where k = 0] tax_report_totals(2) [where j = 0] sum_list_minus sum_list_addf)

section \<open>The overview of the expense list and the expense report\<close>

definition report_row_of :: "(expense_row \<Rightarrow> string) \<Rightarrow> expense_row \<Rightarrow> expense_report_row" where
  "report_row_of category e = \<lparr>xr_category = category e, xr_currency = ex_currency e, xr_amountCents = ex_amountCents e,
     xr_rebillableCents = calculateRebillableCents (ex_amountCents e) (ex_rebillable e) (ex_markupPercentage e)\<rparr>"

definition summed :: "(expense_row \<Rightarrow> bool) \<Rightarrow> (expense_row \<Rightarrow> int) \<Rightarrow> expense_row list \<Rightarrow> string \<Rightarrow> int option" where
  "summed p f es c = (if list_ex (\<lambda>e. p e \<and> ex_currency e = c) es
     then Some (sum_list (map f (filter (\<lambda>e. p e \<and> ex_currency e = c) es))) else None)"

lemma summed_snoc:
  "summed p f (es @ [e]) = (if p e then add_to (ex_currency e) (f e) (summed p f es) else summed p f es)"
proof
  fix c
  have none: "\<not> list_ex (\<lambda>e. p e \<and> ex_currency e = c) es \<Longrightarrow> filter (\<lambda>e. p e \<and> ex_currency e = c) es = []"
    by (simp add: list_ex_iff filter_empty_conv)
  show "summed p f (es @ [e]) c = (if p e then add_to (ex_currency e) (f e) (summed p f es) else summed p f es) c"
    using none by (auto simp: add_to_def summed_def)
qed

lemma summed_Nil [simp]: "summed p f [] = Map.empty"
  by (rule ext) (simp add: summed_def)

lemma summarizeExpenses_sums:
  "summarizeExpenses es = \<lparr>xa_count = length es, xa_totalCentsByCurrency = summed (\<lambda>e. True) ex_amountCents es,
     xa_rebillableCentsByCurrency =
       summed (\<lambda>e. True) (\<lambda>e. calculateRebillableCents (ex_amountCents e) (ex_rebillable e) (ex_markupPercentage e)) es,
     xa_unbilledRebillableCentsByCurrency =
       summed (\<lambda>e. ex_invoicedInId e = None) (\<lambda>e. calculateRebillableCents (ex_amountCents e) (ex_rebillable e) (ex_markupPercentage e)) es\<rparr>"
proof -
  let ?step = "\<lambda>a r. let rebillableCents = calculateRebillableCents (ex_amountCents r) (ex_rebillable r) (ex_markupPercentage r);
                     a1 = a\<lparr>xa_totalCentsByCurrency := add_to (ex_currency r) (ex_amountCents r) (xa_totalCentsByCurrency a),
                            xa_rebillableCentsByCurrency := add_to (ex_currency r) rebillableCents (xa_rebillableCentsByCurrency a)\<rparr>
                 in if ex_invoicedInId r = None
                    then a1\<lparr>xa_unbilledRebillableCentsByCurrency :=
                      add_to (ex_currency r) rebillableCents (xa_unbilledRebillableCentsByCurrency a1)\<rparr>
                    else a1"
  have "foldl ?step \<lparr>xa_count = n, xa_totalCentsByCurrency = Map.empty, xa_rebillableCentsByCurrency = Map.empty,
        xa_unbilledRebillableCentsByCurrency = Map.empty\<rparr> es
      = \<lparr>xa_count = n, xa_totalCentsByCurrency = summed (\<lambda>e. True) ex_amountCents es,
         xa_rebillableCentsByCurrency =
           summed (\<lambda>e. True) (\<lambda>e. calculateRebillableCents (ex_amountCents e) (ex_rebillable e) (ex_markupPercentage e)) es,
         xa_unbilledRebillableCentsByCurrency =
           summed (\<lambda>e. ex_invoicedInId e = None) (\<lambda>e. calculateRebillableCents (ex_amountCents e) (ex_rebillable e) (ex_markupPercentage e)) es\<rparr>" for n
  proof (induction es rule: rev_induct)
    case (snoc e es)
    then show ?case by (simp add: summed_snoc Let_def)
  qed simp
  then show ?thesis by (simp add: summarizeExpenses_def)
qed

text \<open>C36. The overview above the expense list and the expense report are two computations of the same figures: for every
  currency the overview's spend and rebillable amount are the totals of the report over the same rows, whatever the
  categories are, and both leave out the currencies nobody spent in.\<close>

theorem expense_overview_matches_report:
  "xa_totalCentsByCurrency (summarizeExpenses es) c
     = report_total (aggregateExpensesByCategory localeCompare (map (report_row_of category) es)) c 1
   \<and> xa_rebillableCentsByCurrency (summarizeExpenses es) c
     = report_total (aggregateExpensesByCategory localeCompare (map (report_row_of category) es)) c 2"
proof -
  let ?bs = "map expense_bucket (map (report_row_of category) es)"
  have kinds: "map cell_kind (bk_cells b) = [1, 0, 0]" if "b \<in> set ?bs" for b using that by (auto simp: expense_bucket_def)
  have currency: "c \<in> bk_currency ` set ?bs \<longleftrightarrow> list_ex (\<lambda>e. ex_currency e = c) es"
    by (auto simp: expense_bucket_def report_row_of_def list_ex_iff image_image)
  have cells: "column_sum 1 (of_currency c ?bs) = sum_list (map ex_amountCents (filter (\<lambda>e. ex_currency e = c) es))"
    "column_sum 2 (of_currency c ?bs) = sum_list (map (\<lambda>e. calculateRebillableCents (ex_amountCents e) (ex_rebillable e) (ex_markupPercentage e))
        (filter (\<lambda>e. ex_currency e = c) es))"
    by (simp_all add: column_sum_def of_currency_def filter_map comp_def expense_bucket_def report_row_of_def)
  have total_of: "report_total (aggregateExpensesByCategory localeCompare (map (report_row_of category) es)) c j
      = (if list_ex (\<lambda>e. ex_currency e = c) es then Some (column_sum j (of_currency c ?bs)) else None)" if "j < 3" for j
    unfolding aggregateExpensesByCategory_def currency [symmetric]
    by (rule report_total_sum [OF kinds]) (use that in simp_all)
  have "xa_totalCentsByCurrency (summarizeExpenses es) c
      = (if list_ex (\<lambda>e. ex_currency e = c) es then Some (column_sum 1 (of_currency c ?bs)) else None)"
    unfolding summarizeExpenses_sums cells by (simp add: summed_def)
  moreover have "xa_rebillableCentsByCurrency (summarizeExpenses es) c
      = (if list_ex (\<lambda>e. ex_currency e = c) es then Some (column_sum 2 (of_currency c ?bs)) else None)"
    unfolding summarizeExpenses_sums cells by (simp add: summed_def)
  moreover have "(1 :: nat) < 3" "(2 :: nat) < 3" by simp_all
  ultimately show ?thesis by (simp only: total_of)
qed

section \<open>Negative amounts in an exported report\<close>

text \<open>
  \<open>escapeCsvValue\<close> spares numbers from the apostrophe it puts before formulas, so that negative amounts stay numbers.
  The report builder hands it amounts that are strings already: a rate that was only credited is exported as text.
\<close>

definition credited_row :: tax_report_row where
  "credited_row = \<lparr>tx_key = ''r1:23'', tx_label = ''VAT'', tx_sublabel = None, tx_currency = ''EUR'', tx_taxableCents = 0,
     tx_taxCents = 0, tx_creditedTaxableCents = 10000, tx_creditedTaxCents = 1250\<rparr>"

theorem credited_tax_is_exported_as_text:
  "map (map escapeCsvValue) (map (map Csv_text)
     (tl (buildReportCsvRows (aggregateRevenueByTaxRate (\<lambda>a b. 0) [credited_row]) ''Rate'' '''' ''Currency'' [''Net'', ''Tax'', ''Gross''] ''Total'')))
   = [[''VAT'', '''', ''EUR'', CHR 0x27 # ''-100.00'', CHR 0x27 # ''-12.50'', CHR 0x27 # ''-112.50''],
      [''Total'', '''', ''EUR'', CHR 0x27 # ''-100.00'', CHR 0x27 # ''-12.50'', CHR 0x27 # ''-112.50'']]"
  by code_simp

end
