(* ===== verification/Dashboard.thy ===== *)
theory Dashboard
  imports Reports
begin

text \<open>
  The figures of the dashboard (\<open>features/dashboard/services\<close>) and of a client's balance
  (\<open>features/clients/services\<close>): money per currency, windows of time, the age of what is owed, cash flow by month.
\<close>

section \<open>Money per currency\<close>

record currency_total =
  ct_currency :: string
  ct_totalCents :: int

text \<open>\<open>totals.set(c, (totals.get(c) ?? 0) + n)\<close> on a map in the order of insertion.\<close>

definition add_total :: "string \<Rightarrow> int \<Rightarrow> (string \<times> int) list \<Rightarrow> (string \<times> int) list" where
  "add_total c n totals =
     (if list_ex (\<lambda>e. fst e = c) totals then update_where (\<lambda>e. fst e = c) (\<lambda>e. (fst e, snd e + n)) totals else totals @ [(c, n)])"

definition toCurrencyTotals :: "(string \<times> int) list \<Rightarrow> currency_total list" where
  "toCurrencyTotals totals =
     toSorted (\<lambda>a b. ct_totalCents b - ct_totalCents a) (map (\<lambda>(c, n). \<lparr>ct_currency = c, ct_totalCents = n\<rparr>) totals)"

definition getCurrencyTotal :: "currency_total list \<Rightarrow> string \<Rightarrow> int" where
  "getCurrencyTotal totals currency =
     (case List.find (\<lambda>e. ct_currency e = currency) totals of Some e \<Rightarrow> ct_totalCents e | None \<Rightarrow> 0)"

definition resolvePrimaryCurrency :: "currency_total list list \<Rightarrow> string \<Rightarrow> string \<times> int" where
  "resolvePrimaryCurrency buckets fallback =
     (case toCurrencyTotals (foldl (\<lambda>m e. add_total (ct_currency e) (ct_totalCents e) m) [] (concat buckets)) of
        [] \<Rightarrow> (fallback, 0)
      | leading # rest \<Rightarrow> (ct_currency leading, int (length rest)))"

section \<open>Windows\<close>

datatype dashboard_period = Month_period | Quarter_period | Year_period | All_time

definition startOfUtcMonth :: "jsdate \<Rightarrow> jsdate" where
  "startOfUtcMonth now = date_UTC (utc_year now) (utc_month now) 1"

definition startOfUtcQuarter :: "jsdate \<Rightarrow> jsdate" where
  "startOfUtcQuarter now = date_UTC (utc_year now) (utc_month now div 3 * 3) 1"

definition startOfUtcYear :: "jsdate \<Rightarrow> jsdate" where
  "startOfUtcYear now = date_UTC (utc_year now) 0 1"

fun resolveDashboardWindow :: "dashboard_period \<Rightarrow> jsdate \<Rightarrow> jsdate option" where
  "resolveDashboardWindow Month_period now = Some (startOfUtcMonth now)"
| "resolveDashboardWindow Quarter_period now = Some (startOfUtcQuarter now)"
| "resolveDashboardWindow Year_period now = Some (startOfUtcYear now)"
| "resolveDashboardWindow All_time now = None"

fun shiftBackOnePeriod :: "dashboard_period \<Rightarrow> jsdate \<Rightarrow> jsdate" where
  "shiftBackOnePeriod Month_period start = date_UTC (utc_year start) (utc_month start - 1) 1"
| "shiftBackOnePeriod Quarter_period start = date_UTC (utc_year start) (utc_month start - 3) 1"
| "shiftBackOnePeriod _ start = date_UTC (utc_year start - 1) 0 1"

definition resolveComparisonRange :: "dashboard_period \<Rightarrow> jsdate \<Rightarrow> (jsdate \<times> jsdate) option" where
  "resolveComparisonRange period now =
     (case resolveDashboardWindow period now of
        None \<Rightarrow> None
      | Some currentStart \<Rightarrow>
          let elapsedMilliseconds = now - currentStart; start = shiftBackOnePeriod period currentStart
          in Some (start, start + elapsedMilliseconds))"

definition isWithinRange :: "jsdate \<Rightarrow> jsdate \<times> jsdate \<Rightarrow> bool" where
  "isWithinRange v bounds \<longleftrightarrow> fst bounds \<le> v \<and> v < snd bounds"

definition isWithinWindow :: "jsdate \<Rightarrow> jsdate option \<Rightarrow> bool" where
  "isWithinWindow v start = (case start of None \<Rightarrow> True | Some s \<Rightarrow> s \<le> v)"

fun earliest_start :: "jsdate option \<Rightarrow> jsdate option list \<Rightarrow> jsdate option" where
  "earliest_start earliest [] = earliest"
| "earliest_start earliest (None # ws) = None"
| "earliest_start earliest (Some s # ws) =
     earliest_start (case earliest of None \<Rightarrow> Some s | Some e \<Rightarrow> if s < e then Some s else Some e) ws"

definition resolveEarliestWindowStart :: "jsdate option list \<Rightarrow> jsdate option" where
  "resolveEarliestWindowStart windows = earliest_start None windows"

definition resolveReportWindow :: "jsdate option \<Rightarrow> jsdate option \<Rightarrow> jsdate option \<times> jsdate option" where
  "resolveReportWindow from_day to_day = (from_day, map_option (\<lambda>d. d + 24 * 60 * 60 * 1000) to_day)"

definition toUtcMonthKey :: "jsdate \<Rightarrow> string" where
  "toUtcMonthKey v = js_int_string (utc_year v) @ ''-'' @ padStart (js_int_string (utc_month v + 1)) 2 CHR ''0''"

section \<open>Revenue and its change\<close>

record revenue_payment_row =
  rp_amountCents :: int
  rp_currency :: string
  rp_paidAt :: jsdate

record revenue_summary =
  rsm_monthToDate :: "currency_total list"
  rsm_yearToDate :: "currency_total list"
  rsm_period :: "currency_total list"

definition summarizeRevenue :: "revenue_payment_row list \<Rightarrow> jsdate \<Rightarrow> jsdate option \<Rightarrow> revenue_summary" where
  "summarizeRevenue rows now window =
     (let paid_in = (\<lambda>w. toCurrencyTotals (foldl (\<lambda>m r. if isWithinWindow (rp_paidAt r) w
                        then add_total (rp_currency r) (rp_amountCents r) m else m) [] rows))
      in \<lparr>rsm_monthToDate = paid_in (Some (startOfUtcMonth now)), rsm_yearToDate = paid_in (Some (startOfUtcYear now)),
          rsm_period = paid_in window\<rparr>)"

record ranged_amount_row =
  ra_occurredAt :: jsdate
  ra_amountCents :: int
  ra_currency :: string

definition sumRangeCents :: "ranged_amount_row list \<Rightarrow> (jsdate \<times> jsdate) option \<Rightarrow> string \<Rightarrow> int option" where
  "sumRangeCents rows bounds currency =
     (case bounds of
        None \<Rightarrow> None
      | Some rg \<Rightarrow> Some (sum_where (\<lambda>r. ra_currency r = currency \<and> isWithinRange (ra_occurredAt r) rg) ra_amountCents rows))"

datatype delta_direction = Up | Down | Flat | Unknown

record period_delta =
  pd_currentCents :: int
  pd_previousCents :: "int option"
  pd_changePercentage :: "jsnum option"
  pd_direction :: delta_direction

definition summarizeDelta :: "int \<Rightarrow> int option \<Rightarrow> period_delta" where
  "summarizeDelta currentCents previousCents =
     (case previousCents of
        None \<Rightarrow> \<lparr>pd_currentCents = currentCents, pd_previousCents = None, pd_changePercentage = None, pd_direction = Unknown\<rparr>
      | Some previous \<Rightarrow>
          if previous = 0 then
            \<lparr>pd_currentCents = currentCents, pd_previousCents = previousCents, pd_changePercentage = None,
             pd_direction = (if currentCents > 0 then Up else Flat)\<rparr>
          else
            let change = js_mul (js_div (of_int (currentCents - previous)) (of_int previous)) 100
            in \<lparr>pd_currentCents = currentCents, pd_previousCents = previousCents,
                pd_changePercentage = Some (js_div (of_int (math_round (js_mul change 10))) 10),
                pd_direction = (if currentCents = previous then Flat else if currentCents > previous then Up else Down)\<rparr>)"

section \<open>What is owed\<close>

record receivable_row =
  rc_currency :: string
  rc_totalCents :: int
  rc_amountPaidCents :: int
  rc_creditedCents :: int
  rc_isOverdue :: bool

record receivables_summary =
  rcs_outstanding :: "currency_total list"
  rcs_outstandingCount :: nat
  rcs_overdue :: "currency_total list"
  rcs_overdueCount :: nat

definition receivable_of :: "receivable_row \<Rightarrow> int" where
  "receivable_of r = getInvoiceOutstandingCents
     \<lparr>oi_totalCents = rc_totalCents r, oi_amountPaidCents = rc_amountPaidCents r, oi_creditedCents = rc_creditedCents r\<rparr>"

definition summarizeReceivables :: "receivable_row list \<Rightarrow> receivables_summary" where
  "summarizeReceivables rows =
     (let (outstanding, outstandingCount, overdue, overdueCount) =
        foldl (\<lambda>(outstanding, outstandingCount, overdue, overdueCount) r.
            let receivableCents = receivable_of r
            in if receivableCents = 0 then (outstanding, outstandingCount, overdue, overdueCount)
               else
                 let outstanding' = add_total (rc_currency r) receivableCents outstanding
                 in if \<not> rc_isOverdue r then (outstanding', outstandingCount + 1, overdue, overdueCount)
                    else (outstanding', outstandingCount + 1, add_total (rc_currency r) receivableCents overdue, overdueCount + 1))
          ([], 0, [], 0) rows
      in \<lparr>rcs_outstanding = toCurrencyTotals outstanding, rcs_outstandingCount = outstandingCount,
          rcs_overdue = toCurrencyTotals overdue, rcs_overdueCount = overdueCount\<rparr>)"

datatype aging_bucket_id = NotDue | Days1To30 | Days31To60 | Days61Plus

record aging_invoice_row =
  ag_currency :: string
  ag_receivableCents :: int
  ag_dueDate :: "jsdate option"

record aging_bucket =
  ab_id :: aging_bucket_id
  ab_cents :: int
  ab_count :: nat
  ab_sharePercentage :: jsnum

record receivables_aging =
  rag_buckets :: "aging_bucket list"
  rag_totalCents :: int
  rag_lateCents :: int
  rag_oldestDaysLate :: int

definition toBucketId :: "int \<Rightarrow> aging_bucket_id" where
  "toBucketId daysLate =
     (if daysLate \<le> 0 then NotDue else if daysLate \<le> 30 then Days1To30 else if daysLate \<le> 60 then Days31To60 else Days61Plus)"

definition days_late :: "jsdate \<Rightarrow> jsdate option \<Rightarrow> int" where
  "days_late now dueDate =
     (case dueDate of None \<Rightarrow> 0 | Some due \<Rightarrow> math_round (js_div (of_int (toUtcDay now - toUtcDay due)) (of_int ms_per_day)))"

definition share_of :: "int \<Rightarrow> int \<Rightarrow> jsnum" where
  "share_of part whole =
     (if whole = 0 then 0 else js_div (of_int (math_round (js_mul (js_div (of_int part) (of_int whole)) 1000))) 10)"

definition age_row ::
  "string \<Rightarrow> jsdate \<Rightarrow> (aging_bucket_id \<Rightarrow> int) \<times> (aging_bucket_id \<Rightarrow> nat) \<times> int \<times> int \<times> int \<Rightarrow> aging_invoice_row
    \<Rightarrow> (aging_bucket_id \<Rightarrow> int) \<times> (aging_bucket_id \<Rightarrow> nat) \<times> int \<times> int \<times> int" where
  "age_row currency now state r =
     (case state of (cents, counts, owedCents, lateCents, oldestDaysLate) \<Rightarrow>
        if ag_currency r \<noteq> currency \<or> ag_receivableCents r = 0 then state
        else
          let daysLate = days_late now (ag_dueDate r); bucket = toBucketId daysLate;
              cents' = cents(bucket := cents bucket + ag_receivableCents r); counts' = counts(bucket := counts bucket + 1);
              owedCents' = owedCents + ag_receivableCents r
          in if bucket = NotDue then (cents', counts', owedCents', lateCents, oldestDaysLate)
             else (cents', counts', owedCents', lateCents + ag_receivableCents r, max oldestDaysLate daysLate))"

definition summarizeReceivablesAging :: "aging_invoice_row list \<Rightarrow> string \<Rightarrow> jsdate \<Rightarrow> receivables_aging" where
  "summarizeReceivablesAging rows currency now =
     (case foldl (age_row currency now) (\<lambda>b. 0, \<lambda>b. 0, 0, 0, 0) rows of (cents, counts, owedCents, lateCents, oldestDaysLate) \<Rightarrow>
        \<lparr>rag_buckets = map (\<lambda>i. \<lparr>ab_id = i, ab_cents = cents i, ab_count = counts i, ab_sharePercentage = share_of (cents i) owedCents\<rparr>)
           [NotDue, Days1To30, Days31To60, Days61Plus],
         rag_totalCents = owedCents, rag_lateCents = lateCents, rag_oldestDaysLate = oldestDaysLate\<rparr>)"

section \<open>Cash flow\<close>

record cashflow_row =
  cf_occurredAt :: jsdate
  cf_amountCents :: int

record cashflow_point =
  cp_month :: string
  cp_revenueCents :: int
  cp_expenseCents :: int

definition sumInRange :: "cashflow_row list \<Rightarrow> jsdate \<Rightarrow> jsdate \<Rightarrow> int" where
  "sumInRange rows start end_ms = sum_where (\<lambda>r. start \<le> cf_occurredAt r \<and> cf_occurredAt r < end_ms) cf_amountCents rows"

definition month_point :: "cashflow_row list \<Rightarrow> cashflow_row list \<Rightarrow> int \<Rightarrow> int \<Rightarrow> cashflow_point" where
  "month_point revenue spending year month =
     (let start = date_UTC year month 1; end_ms = date_UTC year (month + 1) 1
      in \<lparr>cp_month = js_int_string year @ ''-'' @ padStart (js_int_string (month + 1)) 2 CHR ''0'',
          cp_revenueCents = sumInRange revenue start end_ms, cp_expenseCents = sumInRange spending start end_ms\<rparr>)"

text \<open>The loop runs backwards and puts each month in front of those it has.\<close>

fun cashflow_loop :: "cashflow_row list \<Rightarrow> cashflow_row list \<Rightarrow> int \<Rightarrow> int \<Rightarrow> nat \<Rightarrow> cashflow_point list \<Rightarrow> cashflow_point list" where
  "cashflow_loop revenue spending year month 0 buckets = buckets"
| "cashflow_loop revenue spending year month (Suc n) buckets =
     (let buckets' = month_point revenue spending year month # buckets; month' = month - 1
      in if month' < 0 then cashflow_loop revenue spending (year - 1) 11 n buckets'
         else cashflow_loop revenue spending year month' n buckets')"

definition buildCashflowSeries :: "cashflow_row list \<Rightarrow> cashflow_row list \<Rightarrow> jsdate \<Rightarrow> nat \<Rightarrow> cashflow_point list" where
  "buildCashflowSeries revenue spending now months = cashflow_loop revenue spending (utc_year now) (utc_month now) months []"

definition toCashflowNetSeries :: "cashflow_point list \<Rightarrow> int list" where
  "toCashflowNetSeries points = map (\<lambda>p. cp_revenueCents p - cp_expenseCents p) points"

section \<open>Clients\<close>

record outstanding_invoice =
  ob_status :: invoice_status
  ob_totalCents :: int
  ob_paidCents :: int
  ob_creditedCents :: int

definition isOutstandingInvoiceStatus :: "invoice_status \<Rightarrow> bool" where
  "isOutstandingInvoiceStatus st \<longleftrightarrow> st \<in> {Sent, Paid}"

definition safe_integer :: "int \<Rightarrow> bool" where
  "safe_integer n \<longleftrightarrow> \<bar>n\<bar> \<le> 2 ^ 53 - 1"

fun calculateOutstandingBalanceCents :: "outstanding_invoice list \<Rightarrow> int option" where
  "calculateOutstandingBalanceCents [] = Some 0"
| "calculateOutstandingBalanceCents (i # is) =
     (if \<not> (safe_integer (ob_totalCents i) \<and> safe_integer (ob_paidCents i) \<and> safe_integer (ob_creditedCents i)) then None
      else map_option (\<lambda>rest. (if isOutstandingInvoiceStatus (ob_status i)
             then getInvoiceOutstandingCents \<lparr>oi_totalCents = ob_totalCents i, oi_amountPaidCents = ob_paidCents i,
                    oi_creditedCents = ob_creditedCents i\<rparr> else 0) + rest) (calculateOutstandingBalanceCents is))"

definition summarizePortalOutstanding :: "(string \<times> int) list \<Rightarrow> (string \<times> int) list" where
  "summarizePortalOutstanding rows = foldl (\<lambda>m (c, outstandingCents). if outstandingCents \<le> 0 then m else add_total c outstandingCents m) [] rows"

datatype client_health = Owing | Settled | Dormant

definition getClientHealth :: "int \<Rightarrow> int \<Rightarrow> client_health" where
  "getClientHealth outstandingBalanceCents invoiceCount =
     (if outstandingBalanceCents > 0 then Owing else if invoiceCount > 0 then Settled else Dormant)"

record client_revenue_row =
  cr_clientId :: ident
  cr_clientName :: string
  cr_currency :: string
  cr_amountCents :: int

record top_client =
  tc_clientId :: ident
  tc_name :: string
  tc_revenueCents :: int
  tc_sharePercentage :: jsnum

definition put_client :: "client_revenue_row \<Rightarrow> (ident \<times> string \<times> int) list \<Rightarrow> (ident \<times> string \<times> int) list" where
  "put_client r totals =
     (if list_ex (\<lambda>e. fst e = cr_clientId r) totals
      then update_where (\<lambda>e. fst e = cr_clientId r) (\<lambda>e. (fst e, cr_clientName r, snd (snd e) + cr_amountCents r)) totals
      else totals @ [(cr_clientId r, cr_clientName r, cr_amountCents r)])"

definition summarizeTopClients :: "client_revenue_row list \<Rightarrow> string \<Rightarrow> nat \<Rightarrow> top_client list" where
  "summarizeTopClients rows currency limit =
     (let mine = filter (\<lambda>r. cr_currency r = currency) rows; totals = foldl (\<lambda>m r. put_client r m) [] mine;
          allCents = sum_list (map cr_amountCents mine)
      in take limit (toSorted (\<lambda>a b. tc_revenueCents b - tc_revenueCents a)
           (map (\<lambda>(k, name, n). \<lparr>tc_clientId = k, tc_name = name, tc_revenueCents = n, tc_sharePercentage = share_of n allCents\<rparr>) totals)))"

section \<open>The life of an invoice\<close>

datatype lifecycle_stage = DraftStage | SentStage | ViewedStage | OverdueStage | PaidStage

record lifecycle_row =
  lc_status :: invoice_status
  lc_currency :: string
  lc_totalCents :: int
  lc_receivableCents :: int
  lc_viewCount :: nat
  lc_isOverdue :: bool

definition lifecycle_adds :: "lifecycle_row \<Rightarrow> (lifecycle_stage \<times> int) list" where
  "lifecycle_adds r =
     (case lc_status r of
        Draft \<Rightarrow> [(DraftStage, lc_totalCents r)]
      | Paid \<Rightarrow> [(PaidStage, lc_totalCents r)]
      | Sent \<Rightarrow> [(SentStage, lc_receivableCents r)]
          @ (if lc_viewCount r > 0 then [(ViewedStage, lc_receivableCents r)] else [])
          @ (if lc_isOverdue r then [(OverdueStage, lc_receivableCents r)] else []))"

definition summarizeInvoiceLifecycle :: "lifecycle_row list \<Rightarrow> string \<Rightarrow> (lifecycle_stage \<times> nat \<times> int) list \<times> nat \<times> nat" where
  "summarizeInvoiceLifecycle rows currency =
     (let mine = filter (\<lambda>r. lc_currency r = currency) rows; adds = concat (map lifecycle_adds mine);
          issued = filter (\<lambda>r. lc_status r \<noteq> Draft) mine
      in (map (\<lambda>i. (i, length (filter (\<lambda>a. fst a = i) adds), sum_where (\<lambda>a. fst a = i) snd adds))
            [DraftStage, SentStage, ViewedStage, OverdueStage, PaidStage],
          length issued, length (filter (\<lambda>r. lc_viewCount r = 0) issued)))"


section \<open>Ageing loses nothing\<close>

definition ages_into :: "string \<Rightarrow> jsdate \<Rightarrow> aging_bucket_id \<Rightarrow> aging_invoice_row \<Rightarrow> bool" where
  "ages_into currency now b r \<longleftrightarrow> ag_currency r = currency \<and> toBucketId (days_late now (ag_dueDate r)) = b"

definition aged :: "string \<Rightarrow> jsdate \<Rightarrow> aging_invoice_row list \<Rightarrow> aging_bucket_id \<Rightarrow> int" where
  "aged currency now rows b = sum_where (ages_into currency now b) ag_receivableCents rows"

lemma aged_snoc:
  "aged currency now (rows @ [r]) b = aged currency now rows b + (if ages_into currency now b r then ag_receivableCents r else 0)"
  by (simp add: aged_def money_simps)

lemma age_rows:
  "\<exists>counts oldest. foldl (age_row currency now) (\<lambda>b. 0, \<lambda>b. 0, 0, 0, 0) rows
     = (aged currency now rows, counts, sum_where (\<lambda>r. ag_currency r = currency) ag_receivableCents rows,
        sum_where (\<lambda>r. ag_currency r = currency \<and> days_late now (ag_dueDate r) > 0) ag_receivableCents rows, oldest)"
proof (induction rows rule: rev_induct)
  case Nil
  have "aged currency now [] = (\<lambda>b. 0)" by (rule ext) (simp add: aged_def money_simps)
  then show ?case by (simp add: money_simps)
next
  case (snoc r rows)
  then obtain counts oldest where rows: "foldl (age_row currency now) (\<lambda>b. 0, \<lambda>b. 0, 0, 0, 0) rows
     = (aged currency now rows, counts, sum_where (\<lambda>r. ag_currency r = currency) ag_receivableCents rows,
        sum_where (\<lambda>r. ag_currency r = currency \<and> days_late now (ag_dueDate r) > 0) ag_receivableCents rows, oldest)"
    by blast
  show ?case
  proof (cases "ag_currency r \<noteq> currency \<or> ag_receivableCents r = 0")
    case True
    then have "aged currency now (rows @ [r]) = aged currency now rows"
      by (intro ext) (auto simp: aged_snoc ages_into_def)
    then show ?thesis using True unfolding foldl_append foldl.simps rows by (auto simp: age_row_def money_simps)
  next
    case False
    let ?b = "toBucketId (days_late now (ag_dueDate r))"
    have "(aged currency now rows)(?b := aged currency now rows ?b + ag_receivableCents r) = aged currency now (rows @ [r])"
      using False by (intro ext) (auto simp: aged_snoc ages_into_def)
    moreover have "?b = NotDue \<longleftrightarrow> \<not> days_late now (ag_dueDate r) > 0" by (auto simp: toBucketId_def)
    ultimately show ?thesis using False unfolding foldl_append foldl.simps rows by (auto simp: age_row_def money_simps Let_def)
  qed
qed

lemma aged_total:
  "aged currency now rows NotDue + aged currency now rows Days1To30 + aged currency now rows Days31To60 + aged currency now rows Days61Plus
     = sum_where (\<lambda>r. ag_currency r = currency) ag_receivableCents rows"
proof (induction rows)
  case (Cons r rows)
  then show ?case
    by (cases "toBucketId (days_late now (ag_dueDate r))") (simp_all add: aged_def money_simps ages_into_def)
qed (simp add: aged_def money_simps)

text \<open>The instants a \<open>Date\<close> can hold.\<close>

definition js_instant :: "jsdate \<Rightarrow> bool" where
  "js_instant t \<longleftrightarrow> \<bar>t\<bar> \<le> 8640000000000000"

lemma days_late_days:
  assumes "modern now" "modern due" "js_instant now" "js_instant due"
  shows "days_late now (Some due) = day_of now - day_of due"
proof -
  have days: "toUtcDay now - toUtcDay due = (day_of now - day_of due) * ms_per_day"
    using assms by (simp add: toUtcDay_modern algebra_simps)
  have "\<bar>day_of now\<bar> \<le> 100000001" "\<bar>day_of due\<bar> \<le> 100000001"
    using assms by (auto simp: js_instant_def day_of_def ms_per_day_def)
  then have small: "\<bar>day_of now - day_of due\<bar> \<le> 2 ^ 53" by simp
  have "of_int ((day_of now - day_of due) * ms_per_day) / of_int ms_per_day = (of_int (day_of now - day_of due) :: rat)"
    by (simp add: ms_per_day_def)
  then show ?thesis using fl_int [OF small] by (simp only: days_late_def option.case days js_div_def math_round_of_int)
qed

text \<open>C34. The age bars add up to what is owed: the four buckets together hold every receivable of the currency and nothing
  else, the late amount is what is outside the first bucket, and an invoice counts as late exactly when the invoice list
  calls it overdue.\<close>

theorem aging_accounts_for_receivables:
  assumes now: "modern now" "js_instant now"
    and dates: "\<And>r due. r \<in> set rows \<Longrightarrow> ag_dueDate r = Some due \<Longrightarrow> modern due \<and> js_instant due"
  shows "sum_list (map ab_cents (rag_buckets (summarizeReceivablesAging rows currency now)))
      = rag_totalCents (summarizeReceivablesAging rows currency now)
    \<and> rag_totalCents (summarizeReceivablesAging rows currency now) = sum_where (\<lambda>r. ag_currency r = currency) ag_receivableCents rows
    \<and> rag_lateCents (summarizeReceivablesAging rows currency now)
      = sum_where (\<lambda>r. ag_currency r = currency \<and> isInvoiceOverdue Sent (ag_dueDate r) None now) ag_receivableCents rows
    \<and> rag_lateCents (summarizeReceivablesAging rows currency now)
      = rag_totalCents (summarizeReceivablesAging rows currency now) - ab_cents (hd (rag_buckets (summarizeReceivablesAging rows currency now)))"
proof -
  obtain counts oldest where rows: "foldl (age_row currency now) (\<lambda>b. 0, \<lambda>b. 0, 0, 0, 0) rows
     = (aged currency now rows, counts, sum_where (\<lambda>r. ag_currency r = currency) ag_receivableCents rows,
        sum_where (\<lambda>r. ag_currency r = currency \<and> days_late now (ag_dueDate r) > 0) ag_receivableCents rows, oldest)"
    using age_rows by blast
  have overdue: "days_late now (ag_dueDate r) > 0 \<longleftrightarrow> isInvoiceOverdue Sent (ag_dueDate r) None now" if "r \<in> set rows" for r
  proof (cases "ag_dueDate r")
    case (Some due)
    then show ?thesis using dates [OF that Some] now days_late_days [of now due]
      by (auto simp: isInvoiceOverdue_def toUtcDay_modern ms_per_day_def)
  qed (simp add: days_late_def isInvoiceOverdue_def)
  have late: "sum_where (\<lambda>r. ag_currency r = currency \<and> days_late now (ag_dueDate r) > 0) ag_receivableCents rows
      = sum_where (\<lambda>r. ag_currency r = currency \<and> isInvoiceOverdue Sent (ag_dueDate r) None now) ag_receivableCents rows"
    by (rule sum_where_cong) (use overdue in auto)
  have "sum_where (\<lambda>r. ag_currency r = currency \<and> days_late now (ag_dueDate r) > 0) ag_receivableCents rows
      = sum_where (\<lambda>r. ag_currency r = currency) ag_receivableCents rows - aged currency now rows NotDue"
    by (induction rows) (auto simp: aged_def money_simps ages_into_def toBucketId_def)
  then show ?thesis using aged_total [of currency now rows]
    by (simp add: summarizeReceivablesAging_def rows late [symmetric])
qed

definition sample_ages :: "aging_invoice_row list" where
  "sample_ages = [\<lparr>ag_currency = ''EUR'', ag_receivableCents = 700, ag_dueDate = Some 1700000000000\<rparr>,
     \<lparr>ag_currency = ''EUR'', ag_receivableCents = 300, ag_dueDate = None\<rparr>]"

lemma aging_accounts_for_receivables_witness:
  "rag_lateCents (summarizeReceivablesAging sample_ages ''EUR'' 1701000000000) = 700"
proof -
  have "rag_lateCents (summarizeReceivablesAging sample_ages ''EUR'' 1701000000000)
      = sum_where (\<lambda>r. ag_currency r = ''EUR'' \<and> isInvoiceOverdue Sent (ag_dueDate r) None 1701000000000) ag_receivableCents sample_ages"
  proof -
    have "modern due \<and> js_instant due" if "r \<in> set sample_ages" "ag_dueDate r = Some due" for r due
      using that by (auto simp: sample_ages_def modern_def js_instant_def)
    moreover have "modern 1701000000000" "js_instant 1701000000000" by (simp_all add: modern_def js_instant_def)
    ultimately show ?thesis using aging_accounts_for_receivables [of 1701000000000 sample_ages "''EUR''"] by blast
  qed
  also have "\<dots> = 700" by code_simp
  finally show ?thesis .
qed

section \<open>Cash flow counts every row once\<close>

lemma date_UTC_next_year: "100 \<le> y \<Longrightarrow> date_UTC y (m + 12) d = date_UTC (y + 1) m d"
  by (simp add: date_UTC_def make_day_def Let_def algebra_simps)

lemma make_day_next_month: "make_day y m 1 \<le> make_day y (m + 1) 1"
proof (cases "m mod 12 = 11")
  case True
  define q where "q = m div 12"
  have "q * 12 + 11 = m" using div_mult_mod_eq [of m 12] unfolding True q_def .
  then have "m + 1 = 12 * (q + 1)" by simp
  then have m: "m + 1 = 12 * (m div 12 + 1)" unfolding q_def .
  have "make_day y (m + 1) 1 = year_start (y + (m div 12 + 1))" unfolding m by (simp add: make_day_def month_start_def Let_def)
  moreover have "make_day y m 1 = year_start (y + m div 12) + month_start (leap_year (y + m div 12)) 11"
    using True by (simp add: make_day_def Let_def)
  moreover have "month_start (leap_year (y + m div 12)) 11 \<le> 335" by (simp add: month_start_def Let_def)
  moreover have "year_start (y + m div 12) + 365 \<le> year_start (y + (m div 12 + 1))"
    using year_start_Suc [of "y + m div 12"] by (simp add: add.assoc)
  ultimately show ?thesis by linarith
next
  case False
  have range: "0 \<le> m mod 12" "m mod 12 \<le> 10" using False pos_mod_bound [of 12 m] by auto
  have m: "m + 1 = 12 * (m div 12) + (m mod 12 + 1)" using div_mult_mod_eq [of m 12] by linarith
  have parts: "(m + 1) div 12 = m div 12" "(m + 1) mod 12 = m mod 12 + 1"
    by (rule int_div_pos_eq [OF m] int_mod_pos_eq [OF m]; use range in simp)+
  have "month_start lp (m mod 12) \<le> month_start lp (m mod 12 + 1)" for lp
    using range by (auto simp: month_start_def Let_def)
  then show ?thesis by (simp add: make_day_def Let_def parts)
qed

lemma date_UTC_months:
  assumes "100 \<le> y"
  shows "date_UTC y (m - int n) 1 \<le> date_UTC y m 1"
proof (induction n)
  case (Suc n)
  have "make_day y (m - int (Suc n)) 1 \<le> make_day y (m - int n) 1" using make_day_next_month [of y "m - int (Suc n)"] by simp
  then show ?case using Suc assms by (simp add: date_UTC_def Let_def ms_per_day_def)
qed simp

lemma sum_adjacent:
  assumes "a \<le> b" "b \<le> c"
  shows "sumInRange rows a b + sumInRange rows b c = sumInRange rows a c"
  using assms by (induction rows) (auto simp: sumInRange_def money_simps)


text \<open>The months the loop has to go back for \<open>n\<close> buckets, before the month it starts in.\<close>

lemma loop_revenue:
  assumes "0 \<le> m" "m \<le> 11" "int n \<le> 12 * (y - 101) + m + 1"
  shows "sum_list (map cp_revenueCents (cashflow_loop revenue spending y m n buckets))
      = (if n = 0 then 0 else sumInRange revenue (date_UTC y (m + 1 - int n) 1) (date_UTC y (m + 1) 1))
        + sum_list (map cp_revenueCents buckets)"
  using assms
proof (induction n arbitrary: y m buckets)
  case (Suc n)
  then have y: "100 < y" by simp
  let ?p = "month_point revenue spending y m"
  have here: "cp_revenueCents ?p = sumInRange revenue (date_UTC y m 1) (date_UTC y (m + 1) 1)"
    by (simp add: month_point_def Let_def)
  have "sumInRange revenue (date_UTC y (m - int n) 1) (date_UTC y m 1) + cp_revenueCents ?p
      = sumInRange revenue (date_UTC y (m - int n) 1) (date_UTC y (m + 1) 1)"
    unfolding here using date_UTC_months [of y m n] date_UTC_months [of y "m + 1" 1] y by (intro sum_adjacent) simp_all
  moreover have "sum_list (map cp_revenueCents (cashflow_loop revenue spending y m (Suc n) buckets))
      = (if n = 0 then 0 else sumInRange revenue (date_UTC y (m - int n) 1) (date_UTC y m 1)) + cp_revenueCents ?p
        + sum_list (map cp_revenueCents buckets)"
  proof (cases "m = 0")
    case True
    have "date_UTC (y - 1) (12 - int n) 1 = date_UTC y (- int n) 1" "date_UTC (y - 1) 12 1 = date_UTC y 0 1"
      using date_UTC_next_year [of "y - 1" "- int n" 1] date_UTC_next_year [of "y - 1" 0 1] y by (simp_all add: algebra_simps)
    then show ?thesis using True Suc.IH [of 11 "y - 1" "?p # buckets"] Suc.prems by simp
  next
    case False
    then show ?thesis using Suc.IH [of "m - 1" y "?p # buckets"] Suc.prems by simp
  qed
  ultimately show ?case by (cases "n = 0") (auto simp: here)
qed simp


lemma loop_length: "length (cashflow_loop revenue spending y m n buckets) = n + length buckets"
  by (induction n arbitrary: y m buckets) (simp_all add: Let_def)

lemma swap_point: "month_point revenue spending y m
    = \<lparr>cp_month = cp_month (month_point spending revenue y m), cp_revenueCents = cp_expenseCents (month_point spending revenue y m),
       cp_expenseCents = cp_revenueCents (month_point spending revenue y m)\<rparr>"
  by (simp add: month_point_def Let_def)

definition swapped :: "cashflow_point \<Rightarrow> cashflow_point" where
  "swapped p = \<lparr>cp_month = cp_month p, cp_revenueCents = cp_expenseCents p, cp_expenseCents = cp_revenueCents p\<rparr>"

lemma loop_swapped:
  "cashflow_loop revenue spending y m n (map swapped buckets) = map swapped (cashflow_loop spending revenue y m n buckets)"
proof (induction n arbitrary: y m buckets)
  case (Suc n)
  have "month_point revenue spending y m # map swapped buckets = map swapped (month_point spending revenue y m # buckets)"
    using swap_point [of revenue spending y m] by (simp add: swapped_def)
  then show ?case unfolding cashflow_loop.simps Let_def by (simp only: Suc if_distrib [of "map swapped"])
qed simp

lemma series_spending:
  "map cp_expenseCents (buildCashflowSeries revenue spending now n) = map cp_revenueCents (buildCashflowSeries spending revenue now n)"
  using loop_swapped [of revenue spending "utc_year now" "utc_month now" n "[]"]
  by (simp add: buildCashflowSeries_def comp_def swapped_def)

lemma net_series: "sum_list (toCashflowNetSeries ps) = sum_list (map cp_revenueCents ps) - sum_list (map cp_expenseCents ps)"
  by (simp add: toCashflowNetSeries_def sum_list_minus)

text \<open>C35. The cash flow chart counts every row once: over any number of months the bars add up to exactly the rows from the
  first day of the oldest month to the end of the current one, for revenue and for expenses, so the net line adds up to
  their difference; every month has a bar, with or without rows.\<close>

theorem cashflow_counts_every_row_once:
  assumes "0 < n" "int n \<le> 12 * (utc_year now - 101)"
  shows "length (buildCashflowSeries revenue spending now n) = n
    \<and> sum_list (map cp_revenueCents (buildCashflowSeries revenue spending now n))
      = sumInRange revenue (date_UTC (utc_year now) (utc_month now + 1 - int n) 1) (date_UTC (utc_year now) (utc_month now + 1) 1)
    \<and> sum_list (toCashflowNetSeries (buildCashflowSeries revenue spending now n))
      = sumInRange revenue (date_UTC (utc_year now) (utc_month now + 1 - int n) 1) (date_UTC (utc_year now) (utc_month now + 1) 1)
        - sumInRange spending (date_UTC (utc_year now) (utc_month now + 1 - int n) 1) (date_UTC (utc_year now) (utc_month now + 1) 1)"
proof -
  have month: "0 \<le> utc_month now" "utc_month now \<le> 11"
    using month_of_yday_range by (simp_all add: utc_month_def Let_def)
  have revenue: "sum_list (map cp_revenueCents (buildCashflowSeries rows others now n))
      = sumInRange rows (date_UTC (utc_year now) (utc_month now + 1 - int n) 1) (date_UTC (utc_year now) (utc_month now + 1) 1)" for rows others
    unfolding buildCashflowSeries_def using loop_revenue [OF month, of n "utc_year now" rows others "[]"] assms month by simp
  show ?thesis unfolding net_series series_spending revenue by (simp add: buildCashflowSeries_def loop_length)
qed

lemma cashflow_counts_every_row_once_witness:
  "sum_list (map cp_revenueCents (buildCashflowSeries [\<lparr>cf_occurredAt = 1704067200000, cf_amountCents = 900\<rparr>,
     \<lparr>cf_occurredAt = 1600000000000, cf_amountCents = 50\<rparr>] [] 1710000000000 12)) = 900"
proof -
  let ?rows = "[\<lparr>cf_occurredAt = 1704067200000, cf_amountCents = 900\<rparr>, \<lparr>cf_occurredAt = 1600000000000, cf_amountCents = 50\<rparr>]"
  have "int 12 \<le> 12 * (utc_year 1710000000000 - 101)" by code_simp
  then have "sum_list (map cp_revenueCents (buildCashflowSeries ?rows [] 1710000000000 12))
      = sumInRange ?rows (date_UTC (utc_year 1710000000000) (utc_month 1710000000000 + 1 - int 12) 1)
          (date_UTC (utc_year 1710000000000) (utc_month 1710000000000 + 1) 1)"
    using cashflow_counts_every_row_once [of 12 1710000000000 ?rows "[]"] by (simp only: zero_less_numeral simp_thms)
  also have "\<dots> = 900" by code_simp
  finally show ?thesis .
qed

section \<open>The comparison period\<close>

text \<open>
  The slice compared with has the length of the elapsed part of the period. After a short month it runs into the current
  one: on 31 March the slice of February ends in March, so the first days of March are counted on both sides.
\<close>

theorem comparison_slice_spills_over:
  "resolveComparisonRange Month_period (date_UTC 2026 2 31) = Some (date_UTC 2026 1 1, date_UTC 2026 2 3)
   \<and> isWithinRange (date_UTC 2026 2 2) (the (resolveComparisonRange Month_period (date_UTC 2026 2 31)))
   \<and> isWithinWindow (date_UTC 2026 2 2) (resolveDashboardWindow Month_period (date_UTC 2026 2 31))"
  by code_simp

end
