(* ===== verification/Expenses.thy ===== *)
theory Expenses
  imports Csv Sales
begin

text \<open>
  The actions on expenses (\<open>features/expenses\<close>): create, edit, delete, restore and export, with the receipt
  files in the \<open>uploads\<close> table and the object store. The zod result is an argument, as in the other actions;
  SHA-256, the wording of the headers and the query of the list are parameters. The object store is a map from
  keys to the bytes stored under them. None of these actions runs in a transaction: a write that fails leaves the
  writes before it in place, which is why every function here returns the world it leaves, with an error too.
\<close>

section \<open>Rows and forms\<close>

record upload_row =
  upl_id :: ident
  upl_filename :: string
  upl_path :: string
  upl_mimeType :: string
  upl_sizeBytes :: int
  upl_checksumSha256 :: string

record expense_world =
  xw_workspace :: workspace
  xw_uploads :: "upload_row list"
  xw_objects :: "string \<Rightarrow> string option"

record receipt_values =
  rcv_objectKey :: string
  rcv_filename :: string
  rcv_mimeType :: string
  rcv_sizeBytes :: int

record expense_form =
  xf_id :: ident
  xf_projectId :: "ident option"
  xf_clientId :: "ident option"
  xf_spentAt :: jsdate
  xf_amount :: int
  xf_currency :: string
  xf_category :: string
  xf_description :: string
  xf_rebillable :: bool
  xf_markupPercentage :: "jsnum option"
  xf_receipt :: "receipt_values option"

record expense_form_data =
  fd_id :: ident
  fd_projectId :: string
  fd_clientId :: string
  fd_spentAt :: string
  fd_amount :: string
  fd_currency :: string
  fd_category :: string
  fd_description :: string
  fd_rebillable :: bool
  fd_markupPercentage :: string
  fd_receipt :: "receipt_values option"

interpretation expense_table: row_store ex_id "find_id ex_id" "put_id ex_id" add_row
  by (rule row_store_lists)

interpretation upload_table: row_store upl_id "find_id upl_id" "put_id upl_id" add_row
  by (rule row_store_lists)

section \<open>Gates\<close>

definition requireExpenseWrite :: "request \<Rightarrow> actor result" where
  "requireExpenseWrite req =
     bind_result (getActionContext req)
       (\<lambda>a. if actor_role a \<noteq> Owner \<and> actor_role a \<noteq> Assistant then Inl ''errors.forbidden'' else Inr a)"

definition requireExpenseDelete :: "request \<Rightarrow> actor result" where
  "requireExpenseDelete req =
     bind_result (getActionContext req) (\<lambda>a. if actor_role a \<noteq> Owner then Inl ''errors.forbidden'' else Inr a)"

definition requireExpenseExport :: "request \<Rightarrow> actor result" where
  "requireExpenseExport req =
     bind_result (getActionContext req)
       (\<lambda>a. if actor_role a \<noteq> Owner \<and> actor_role a \<noteq> Accountant then Inl ''errors.forbidden'' else Inr a)"

lemma owner_or_accountant:
  "bind_result (getActionContext req)
     (\<lambda>a. if actor_role a \<noteq> Owner \<and> actor_role a \<noteq> Accountant then Inl ''errors.forbidden'' else Inr a)
   = require_role [Owner, Accountant] req"
  unfolding require_role_def by (rule arg_cong [where f = "bind_result (getActionContext req)"]) auto

interpretation expense_write: role_gate requireExpenseWrite "{Owner, Assistant}"
  using role_gate_require_role [of "[Owner, Assistant]"]
  by (simp add: requireExpenseWrite_def [abs_def] owner_or_assistant cong: if_cong)

interpretation expense_delete: role_gate requireExpenseDelete "{Owner}"
  using role_gate_require_role [of "[Owner]"] by (simp add: requireExpenseDelete_def [abs_def] owner_only)

interpretation expense_export: role_gate requireExpenseExport "{Owner, Accountant}"
  using role_gate_require_role [of "[Owner, Accountant]"]
  by (simp add: requireExpenseExport_def [abs_def] owner_or_accountant cong: if_cong)

section \<open>What the database accepts\<close>

text \<open>The checks of the table, and \<open>numeric(5, 2)\<close>, which holds less than a thousand.\<close>

definition expense_row_ok :: "expense_row \<Rightarrow> bool" where
  "expense_row_ok e \<longleftrightarrow>
     (ex_projectId e = None \<or> ex_clientId e \<noteq> None) \<and> 0 \<le> ex_amountCents e
     \<and> (case ex_markupPercentage e of None \<Rightarrow> True | Some m \<Rightarrow> 0 \<le> m \<and> m \<le> 1000)"

definition numeric_5_2_overflow :: "jsnum option \<Rightarrow> bool" where
  "numeric_5_2_overflow v = (case v of None \<Rightarrow> False | Some m \<Rightarrow> 1000 \<le> \<bar>m\<bar>)"

section \<open>Receipts\<close>

definition verifyUploadedObject :: "(string \<Rightarrow> string) \<Rightarrow> string \<Rightarrow> int \<Rightarrow> (string \<Rightarrow> string option) \<Rightarrow> (int \<times> string) option" where
  "verifyUploadedObject sha256 objectKey maxBytes objects =
     (case objects objectKey of
        None \<Rightarrow> None
      | Some bytes \<Rightarrow>
          if int (length bytes) = 0 \<or> int (length bytes) > maxBytes then None else Some (int (length bytes), sha256 bytes))"

definition receipt_max_bytes :: int where "receipt_max_bytes = 10 * 1024 * 1024"

text \<open>\<open>uploads.path\<close> is unique: a second row for the same object throws, and the action answers its fallback.\<close>

definition insertReceiptUpload ::
  "(string \<Rightarrow> string) \<Rightarrow> ident \<Rightarrow> receipt_values option \<Rightarrow> expense_world \<Rightarrow> ident option result \<times> expense_world" where
  "insertReceiptUpload sha256 newUploadId receipt xw =
     (case receipt of
        None \<Rightarrow> (Inr None, xw)
      | Some r \<Rightarrow>
     (case verifyUploadedObject sha256 (rcv_objectKey r) receipt_max_bytes (xw_objects xw) of
        None \<Rightarrow> (Inl ''expenses.errors.uploadFailed'', xw)
      | Some (sizeBytes, checksum) \<Rightarrow>
          if list_ex (\<lambda>u. upl_path u = rcv_objectKey r) (xw_uploads xw) then (Inl ''expenses.errors.updateFailed'', xw)
          else (Inr (Some newUploadId),
                xw\<lparr>xw_uploads := add_row \<lparr>upl_id = newUploadId, upl_filename = rcv_filename r, upl_path = rcv_objectKey r,
                     upl_mimeType = rcv_mimeType r, upl_sizeBytes = sizeBytes, upl_checksumSha256 = checksum\<rparr> (xw_uploads xw)\<rparr>)))"

datatype receipt_change = Keep_existing | Replace_with "ident option"

definition resolveReceiptChange ::
  "(string \<Rightarrow> string) \<Rightarrow> ident \<Rightarrow> receipt_values option \<Rightarrow> string option \<Rightarrow> expense_world \<Rightarrow> receipt_change result \<times> expense_world" where
  "resolveReceiptChange sha256 newUploadId receipt existingPath xw =
     (if (case receipt of None \<Rightarrow> False | Some r \<Rightarrow> Some (rcv_objectKey r) = existingPath) then (Inr Keep_existing, xw)
      else if receipt = None \<and> (existingPath = None \<or> existingPath = Some []) then (Inr Keep_existing, xw)
      else case insertReceiptUpload sha256 newUploadId receipt xw of
             (Inl e, xw1) \<Rightarrow> (Inl e, xw1)
           | (Inr upload, xw1) \<Rightarrow> (Inr (Replace_with upload), xw1))"

definition on_expenses :: "(expense_row list \<Rightarrow> expense_row list) \<Rightarrow> expense_world \<Rightarrow> expense_world" where
  "on_expenses f xw = xw\<lparr>xw_workspace := (xw_workspace xw)\<lparr>expenses := f (expenses (xw_workspace xw))\<rparr>\<rparr>"

abbreviation expenses_of :: "expense_world \<Rightarrow> expense_row list" where
  "expenses_of xw \<equiv> expenses (xw_workspace xw)"

abbreviation ledger_projects :: "expense_world \<Rightarrow> project_row list" where
  "ledger_projects xw \<equiv> projects (ledger (xw_workspace xw))"

text \<open>The foreign key is \<open>ON DELETE SET NULL\<close>; \<open>deleteStorageObject\<close> of a missing key does nothing.\<close>

definition discardReceiptUpload :: "ident \<Rightarrow> string option \<Rightarrow> expense_world \<Rightarrow> expense_world" where
  "discardReceiptUpload uploadId objectKey xw =
     (let xw1 = on_expenses (update_where (\<lambda>e. ex_receiptUploadId e = Some uploadId) (\<lambda>e. e\<lparr>ex_receiptUploadId := None\<rparr>))
                  (xw\<lparr>xw_uploads := filter (\<lambda>u. upl_id u \<noteq> uploadId) (xw_uploads xw)\<rparr>)
      in case objectKey of None \<Rightarrow> xw1
         | Some key \<Rightarrow> if key = [] then xw1 else xw1\<lparr>xw_objects := (xw_objects xw1)(key := None)\<rparr>)"

section \<open>The actions\<close>

definition resolveExpenseScope :: "expense_form \<Rightarrow> workspace \<Rightarrow> (ident option \<times> ident option) result" where
  "resolveExpenseScope f w =
     (let project = Option.bind (xf_projectId f) (\<lambda>k. live_project k (ledger w));
          client = Option.bind (xf_clientId f) (\<lambda>k. live_client k (ledger w))
      in if xf_projectId f \<noteq> None \<and> project = None then Inl ''expenses.errors.projectNotFound''
         else if xf_clientId f \<noteq> None \<and> client = None then Inl ''expenses.errors.clientNotFound''
         else if (case (project, client) of (Some p, Some c) \<Rightarrow> prj_clientId p \<noteq> cli_id c | _ \<Rightarrow> False)
         then Inl ''expenses.errors.clientProjectMismatch''
         else Inr (map_option prj_id project,
                   case project of Some p \<Rightarrow> Some (prj_clientId p) | None \<Rightarrow> map_option cli_id client))"

definition toExpenseColumns :: "expense_form \<Rightarrow> ident option \<times> ident option \<Rightarrow> expense_row \<Rightarrow> expense_row" where
  "toExpenseColumns f scope e =
     e\<lparr>ex_projectId := fst scope, ex_clientId := snd scope, ex_spentAt := xf_spentAt f, ex_amountCents := xf_amount f,
       ex_currency := xf_currency f, ex_category := xf_category f, ex_description := xf_description f,
       ex_rebillable := xf_rebillable f, ex_markupPercentage := xf_markupPercentage f\<rparr>"

definition blank_expense :: "ident \<Rightarrow> expense_row" where
  "blank_expense k = \<lparr>ex_id = k, ex_projectId = None, ex_clientId = None, ex_amountCents = 0, ex_currency = [],
     ex_category = [], ex_description = [], ex_spentAt = 0, ex_receiptUploadId = None, ex_rebillable = False,
     ex_markupPercentage = None, ex_invoicedInId = None, ex_deletedAt = None\<rparr>"

definition live_expense :: "ident \<Rightarrow> expense_row \<Rightarrow> bool" where
  "live_expense k e \<longleftrightarrow> ex_id e = k \<and> ex_deletedAt e = None"

definition receipt_of :: "expense_row \<Rightarrow> expense_world \<Rightarrow> upload_row option" where
  "receipt_of e xw = Option.bind (ex_receiptUploadId e) (\<lambda>k. find_id upl_id k (xw_uploads xw))"

definition getExpenseForEdit :: "ident \<Rightarrow> expense_world \<Rightarrow> expense_form_data option" where
  "getExpenseForEdit k xw =
     map_option (\<lambda>e.
       \<lparr>fd_id = ex_id e, fd_projectId = or_empty (ex_projectId e), fd_clientId = or_empty (ex_clientId e),
        fd_spentAt = take 10 (toISOString (ex_spentAt e)), fd_amount = formatCentsForInput (Some (ex_amountCents e)),
        fd_currency = ex_currency e, fd_category = ex_category e, fd_description = ex_description e,
        fd_rebillable = ex_rebillable e,
        fd_markupPercentage = (case ex_markupPercentage e of None \<Rightarrow> [] | Some m \<Rightarrow> number_text m),
        fd_receipt = map_option (\<lambda>u. \<lparr>rcv_objectKey = upl_path u, rcv_filename = upl_filename u,
            rcv_mimeType = upl_mimeType u, rcv_sizeBytes = upl_sizeBytes u\<rparr>) (receipt_of e xw)\<rparr>)
       (List.find (live_expense k) (expenses_of xw))"

definition loadExpenseResult :: "ident \<Rightarrow> expense_world \<Rightarrow> expense_form_data result" where
  "loadExpenseResult k xw = (case getExpenseForEdit k xw of None \<Rightarrow> Inl ''expenses.errors.notFound'' | Some d \<Rightarrow> Inr d)"

definition expense_logged :: "string \<Rightarrow> actor \<Rightarrow> ident \<Rightarrow> expense_world \<Rightarrow> expense_world" where
  "expense_logged event who target xw = xw\<lparr>xw_workspace := audited event who target (xw_workspace xw)\<rparr>"

definition expense_announced :: "ident \<Rightarrow> actor \<Rightarrow> expense_world \<Rightarrow> expense_world" where
  "expense_announced target who xw =
     xw\<lparr>xw_workspace := emitted ''expense.created'' target (Some (actor_userId who)) (xw_workspace xw)\<rparr>"

definition createExpense ::
  "(string \<Rightarrow> string) \<Rightarrow> request \<Rightarrow> expense_form result \<Rightarrow> ident \<Rightarrow> ident \<Rightarrow> expense_world
    \<Rightarrow> expense_form_data result \<times> expense_world" where
  "createExpense sha256 req parsed newId newUploadId xw =
     (case requireExpenseWrite req of
        Inl e \<Rightarrow> (Inl e, xw)
      | Inr actor \<Rightarrow>
     (case parsed of
        Inl m \<Rightarrow> (Inl m, xw)
      | Inr f \<Rightarrow>
     (case resolveExpenseScope f (xw_workspace xw) of
        Inl e \<Rightarrow> (Inl e, xw)
      | Inr scope \<Rightarrow>
     (case insertReceiptUpload sha256 newUploadId (xf_receipt f) xw of
        (Inl e, xw1) \<Rightarrow> (Inl e, xw1)
      | (Inr receiptUploadId, xw1) \<Rightarrow>
          let row = toExpenseColumns f scope (blank_expense newId)\<lparr>ex_receiptUploadId := receiptUploadId\<rparr>
          in if \<not> expense_row_ok row \<or> numeric_5_2_overflow (ex_markupPercentage row)
             then (Inl ''expenses.errors.updateFailed'', xw1)
             else let xw2 = expense_announced newId actor
                        (expense_logged ''expense.created'' actor newId (on_expenses (add_row row) xw1))
                  in (loadExpenseResult newId xw2, xw2)))))"

text \<open>The second half of an edit: the row was read as \<open>existing\<close>, and is written as it is by then.\<close>

definition writeExpenseEdit ::
  "(string \<Rightarrow> string) \<Rightarrow> actor \<Rightarrow> expense_form \<Rightarrow> ident \<Rightarrow> ident option \<Rightarrow> string option \<Rightarrow> expense_world
    \<Rightarrow> expense_form_data result \<times> expense_world" where
  "writeExpenseEdit sha256 actor f newUploadId existingUploadId existingPath xw =
     (case resolveExpenseScope f (xw_workspace xw) of
        Inl e \<Rightarrow> (Inl e, xw)
      | Inr scope \<Rightarrow>
     (case resolveReceiptChange sha256 newUploadId (xf_receipt f) existingPath xw of
        (Inl e, xw1) \<Rightarrow> (Inl e, xw1)
      | (Inr receipt, xw1) \<Rightarrow>
          let edit = (\<lambda>e. toExpenseColumns f scope e
                \<lparr>ex_receiptUploadId := (case receipt of Keep_existing \<Rightarrow> existingUploadId | Replace_with u \<Rightarrow> u)\<rparr>)
          in if \<not> list_ex (live_expense (xf_id f)) (expenses_of xw1) then (Inl ''expenses.errors.notFound'', xw1)
             else if list_ex (\<lambda>e. live_expense (xf_id f) e
                    \<and> (\<not> expense_row_ok (edit e) \<or> numeric_5_2_overflow (ex_markupPercentage (edit e)))) (expenses_of xw1)
             then (Inl ''expenses.errors.updateFailed'', xw1)
             else let xw2 = on_expenses (update_where (live_expense (xf_id f)) edit) xw1;
                      xw3 = (case (receipt, existingUploadId) of
                               (Replace_with u, Some old) \<Rightarrow> discardReceiptUpload old existingPath xw2
                             | _ \<Rightarrow> xw2);
                      xw4 = expense_logged ''expense.updated'' actor (xf_id f) xw3
                  in (loadExpenseResult (xf_id f) xw4, xw4)))"

definition updateExpense ::
  "(string \<Rightarrow> string) \<Rightarrow> request \<Rightarrow> expense_form result \<Rightarrow> ident \<Rightarrow> expense_world \<Rightarrow> expense_form_data result \<times> expense_world" where
  "updateExpense sha256 req parsed newUploadId xw =
     (case requireExpenseWrite req of
        Inl e \<Rightarrow> (Inl e, xw)
      | Inr actor \<Rightarrow>
     (case parsed of
        Inl m \<Rightarrow> (Inl m, xw)
      | Inr f \<Rightarrow>
     (case List.find (live_expense (xf_id f)) (expenses_of xw) of
        None \<Rightarrow> (Inl ''expenses.errors.notFound'', xw)
      | Some existing \<Rightarrow>
          if ex_invoicedInId existing \<noteq> None then (Inl ''expenses.errors.alreadyInvoiced'', xw)
          else writeExpenseEdit sha256 actor f newUploadId (ex_receiptUploadId existing)
                 (map_option upl_path (receipt_of existing xw)) xw)))"

definition softDeleteExpense :: "request \<Rightarrow> ident result \<Rightarrow> jsdate \<Rightarrow> expense_world \<Rightarrow> ident result \<times> expense_world" where
  "softDeleteExpense req parsed now xw =
     (case requireExpenseDelete req of
        Inl e \<Rightarrow> (Inl e, xw)
      | Inr actor \<Rightarrow>
     (case parsed of
        Inl m \<Rightarrow> (Inl m, xw)
      | Inr k \<Rightarrow>
     (case List.find (live_expense k) (expenses_of xw) of
        None \<Rightarrow> (Inl ''expenses.errors.notFound'', xw)
      | Some existing \<Rightarrow>
          if ex_invoicedInId existing \<noteq> None then (Inl ''expenses.errors.alreadyInvoiced'', xw)
          else (Inr k, expense_logged ''expense.deleted'' actor k
                  (on_expenses (update_where (live_expense k) (\<lambda>e. e\<lparr>ex_deletedAt := Some now\<rparr>)) xw)))))"

definition deleted_expense :: "ident \<Rightarrow> expense_row \<Rightarrow> bool" where
  "deleted_expense k e \<longleftrightarrow> ex_id e = k \<and> ex_deletedAt e \<noteq> None"

definition restoreExpense :: "request \<Rightarrow> ident result \<Rightarrow> expense_world \<Rightarrow> ident result \<times> expense_world" where
  "restoreExpense req parsed xw =
     (case requireExpenseDelete req of
        Inl e \<Rightarrow> (Inl e, xw)
      | Inr actor \<Rightarrow>
     (case parsed of
        Inl m \<Rightarrow> (Inl m, xw)
      | Inr k \<Rightarrow>
     (case List.find (deleted_expense k) (expenses_of xw) of
        None \<Rightarrow> (Inl ''expenses.errors.notFound'', xw)
      | Some existing \<Rightarrow>
     (case resolveRestoreBlocker
             [(''trash.entities.client'', client_deletedAt (ex_clientId existing) (ledger (xw_workspace xw))),
              (''trash.entities.project'', project_deletedAt (ex_projectId existing) (ledger (xw_workspace xw)))] of
        Some parent \<Rightarrow> (Inl (restore_blocked parent), xw)
      | None \<Rightarrow>
          (Inr k, expense_logged ''expense.restored'' actor k
             (on_expenses (update_where (deleted_expense k) (\<lambda>e. e\<lparr>ex_deletedAt := None\<rparr>)) xw))))))"


section \<open>Exporting\<close>

datatype status_filter = Active_only | Deleted_only | Any_status

text \<open>The filters of the list; which rows match the search text is Postgres's \<open>ILIKE\<close> over four columns, a parameter.\<close>

record expense_query =
  xq_search :: string
  xq_status :: status_filter
  xq_projectIds :: "ident list"
  xq_clientIds :: "ident list"
  xq_categories :: "string list"
  xq_currencies :: "string list"
  xq_rebillable :: "bool list"
  xq_unbilled :: "bool list"
  xq_spentFrom :: "jsdate option"
  xq_spentTo :: "jsdate option"

definition one_of :: "'a list \<Rightarrow> 'a \<Rightarrow> bool" where
  "one_of chosen v \<longleftrightarrow> chosen = [] \<or> v \<in> set chosen"

definition getRebillableCondition :: "bool list \<Rightarrow> expense_row \<Rightarrow> bool" where
  "getRebillableCondition vs e \<longleftrightarrow> length vs = 0 \<or> length vs = 2 \<or> ex_rebillable e = hd vs"

definition getInvoicedCondition :: "bool list \<Rightarrow> expense_row \<Rightarrow> bool" where
  "getInvoicedCondition vs e \<longleftrightarrow> length vs = 0 \<or> length vs = 2 \<or> (ex_invoicedInId e = None) = hd vs"

definition getExpenseWhereClause :: "(string \<Rightarrow> expense_row \<Rightarrow> bool) \<Rightarrow> expense_query \<Rightarrow> expense_row \<Rightarrow> bool" where
  "getExpenseWhereClause matches q e \<longleftrightarrow>
     (xq_status q = Active_only \<longrightarrow> ex_deletedAt e = None) \<and> (xq_status q = Deleted_only \<longrightarrow> ex_deletedAt e \<noteq> None)
     \<and> (xq_search q \<noteq> [] \<longrightarrow> matches (xq_search q) e)
     \<and> (xq_projectIds q = [] \<or> (case ex_projectId e of None \<Rightarrow> False | Some p \<Rightarrow> p \<in> set (xq_projectIds q)))
     \<and> (xq_clientIds q = [] \<or> (case ex_clientId e of None \<Rightarrow> False | Some c \<Rightarrow> c \<in> set (xq_clientIds q)))
     \<and> one_of (xq_categories q) (ex_category e) \<and> one_of (xq_currencies q) (ex_currency e)
     \<and> getRebillableCondition (xq_rebillable q) e \<and> getInvoicedCondition (xq_unbilled q) e
     \<and> (case xq_spentFrom q of None \<Rightarrow> True | Some d \<Rightarrow> d \<le> ex_spentAt e)
     \<and> (case xq_spentTo q of None \<Rightarrow> True | Some d \<Rightarrow> ex_spentAt e \<le> d)"

text \<open>A row of the list; the names come from the left joins, the order from the \<open>ORDER BY\<close>, a parameter.\<close>

definition to_csv_row :: "expense_world \<Rightarrow> expense_row \<Rightarrow> expense_csv_row" where
  "to_csv_row xw e =
     \<lparr>xc_spentAt = ex_spentAt e, xc_category = ex_category e, xc_description = ex_description e,
      xc_projectName = Option.bind (ex_projectId e) (\<lambda>k. map_option prj_name (find_id prj_id k (projects (ledger (xw_workspace xw))))),
      xc_clientName = Option.bind (ex_clientId e) (\<lambda>k. map_option cli_name (find_id cli_id k (clients (ledger (xw_workspace xw))))),
      xc_amountCents = ex_amountCents e,
      xc_currency = (if ex_currency e = [] then getDefaultCurrency (ledger (xw_workspace xw)) else ex_currency e),
      xc_rebillable = ex_rebillable e, xc_markupPercentage = ex_markupPercentage e, xc_invoicedInId = ex_invoicedInId e,
      xc_receiptFilename = map_option upl_filename (receipt_of e xw)\<rparr>"

definition listExpensesForExport ::
  "(string \<Rightarrow> expense_row \<Rightarrow> bool) \<Rightarrow> (expense_row list \<Rightarrow> expense_row list) \<Rightarrow> expense_query \<Rightarrow> expense_world \<Rightarrow> expense_row list" where
  "listExpensesForExport matches order_by q xw = order_by (filter (getExpenseWhereClause matches q) (expenses_of xw))"

definition exportExpensesCsv ::
  "(string \<Rightarrow> expense_row \<Rightarrow> bool) \<Rightarrow> (expense_row list \<Rightarrow> expense_row list) \<Rightarrow> string list \<Rightarrow> string \<Rightarrow> string \<Rightarrow> request
    \<Rightarrow> expense_query result \<Rightarrow> jsdate \<Rightarrow> expense_world \<Rightarrow> (string \<times> string \<times> nat) result \<times> expense_world" where
  "exportExpensesCsv matches order_by headers yes no req parsed now xw =
     (case requireExpenseExport req of
        Inl e \<Rightarrow> (Inl e, xw)
      | Inr actor \<Rightarrow>
     (case parsed of
        Inl m \<Rightarrow> (Inl m, xw)
      | Inr q \<Rightarrow>
          let rows = listExpensesForExport matches order_by q xw;
              csv = serializeCsv (map (map Csv_text) (buildExpenseCsvRows (map (to_csv_row xw) rows) headers yes no));
              w = xw_workspace xw
          in (Inr (''expenses-'' @ take 10 (toISOString now) @ ''.csv'', csv, length rows),
              xw\<lparr>xw_workspace := w\<lparr>ledger := writeAudit ''expense.exported'' (Some (actor_userId actor)) None (ledger w)\<rparr>\<rparr>)))"

section \<open>What holds of every expense\<close>

definition refineExpenseFields :: "expense_form \<Rightarrow> bool" where
  "refineExpenseFields f \<longleftrightarrow> xf_rebillable f \<or> xf_markupPercentage f = None"

text \<open>The foreign key \<open>fk_expenses_project_client\<close>: the client of the row is its project's client.\<close>

definition of_its_project :: "workspace \<Rightarrow> expense_row \<Rightarrow> bool" where
  "of_its_project w e \<longleftrightarrow>
     (\<forall>p. ex_projectId e = Some p \<longrightarrow> (\<exists>r\<in>set (projects (ledger w)). prj_id r = p \<and> ex_clientId e = Some (prj_clientId r)))"

definition row_sound :: "workspace \<Rightarrow> expense_row \<Rightarrow> bool" where
  "row_sound w e \<longleftrightarrow> expense_row_ok e \<and> \<not> numeric_5_2_overflow (ex_markupPercentage e)
     \<and> (ex_rebillable e \<or> ex_markupPercentage e = None) \<and> of_its_project w e
     \<and> (ex_invoicedInId e = None \<or> ex_deletedAt e = None)"

text \<open>The file a row of \<open>uploads\<close> describes is in the store, with the measured size and checksum.\<close>

definition filed :: "(string \<Rightarrow> string) \<Rightarrow> expense_world \<Rightarrow> upload_row \<Rightarrow> bool" where
  "filed sha256 xw u \<longleftrightarrow>
     (\<exists>bytes. xw_objects xw (upl_path u) = Some bytes \<and> bytes \<noteq> [] \<and> upl_sizeBytes u = int (length bytes)
        \<and> upl_checksumSha256 u = sha256 bytes)"

definition receipts_sound :: "(string \<Rightarrow> string) \<Rightarrow> expense_world \<Rightarrow> bool" where
  "receipts_sound sha256 xw \<longleftrightarrow>
     distinct (map upl_id (xw_uploads xw)) \<and> distinct (map upl_path (xw_uploads xw))
     \<and> (\<forall>e\<in>set (expenses_of xw). \<forall>k. ex_receiptUploadId e = Some k \<longrightarrow>
          (\<exists>u\<in>set (xw_uploads xw). upl_id u = k \<and> filed sha256 xw u)
          \<and> (\<forall>e'\<in>set (expenses_of xw). ex_receiptUploadId e' = Some k \<longrightarrow> ex_id e' = ex_id e))"

definition expenses_ok :: "(string \<Rightarrow> string) \<Rightarrow> expense_world \<Rightarrow> bool" where
  "expenses_ok sha256 xw \<longleftrightarrow>
     distinct (map ex_id (expenses_of xw)) \<and> (\<forall>e\<in>set (expenses_of xw). row_sound (xw_workspace xw) e) \<and> receipts_sound sha256 xw"

lemma world_simps [simp]:
  "expenses_of (expense_logged ev a t xw) = expenses_of xw" "xw_uploads (expense_logged ev a t xw) = xw_uploads xw"
  "xw_objects (expense_logged ev a t xw) = xw_objects xw"
  "expenses_of (expense_announced t a xw) = expenses_of xw" "xw_uploads (expense_announced t a xw) = xw_uploads xw"
  "xw_objects (expense_announced t a xw) = xw_objects xw"
  "projects (ledger (xw_workspace (expense_logged ev a t xw))) = projects (ledger (xw_workspace xw))"
  "projects (ledger (xw_workspace (expense_announced t a xw))) = projects (ledger (xw_workspace xw))"
  "expenses_of (on_expenses f xw) = f (expenses_of xw)" "xw_uploads (on_expenses f xw) = xw_uploads xw"
  "xw_objects (on_expenses f xw) = xw_objects xw" "ledger (xw_workspace (on_expenses f xw)) = ledger (xw_workspace xw)"
  by (simp_all add: expense_logged_def expense_announced_def on_expenses_def audited_def emitted_def writeAudit_def emit_def)

text \<open>The invariant sees a world through its expenses, its projects, its uploads and its store.\<close>

lemma expenses_ok_cong:
  assumes "expenses_of xw' = expenses_of xw" "xw_uploads xw' = xw_uploads xw" "xw_objects xw' = xw_objects xw"
    and "projects (ledger (xw_workspace xw')) = projects (ledger (xw_workspace xw))"
  shows "expenses_ok sha256 xw' = expenses_ok sha256 xw"
  using assms by (simp add: expenses_ok_def row_sound_def of_its_project_def receipts_sound_def filed_def)

lemma only_expense:
  "expenses_ok sha256 xw \<Longrightarrow> e \<in> set (expenses_of xw) \<Longrightarrow> e' \<in> set (expenses_of xw) \<Longrightarrow> ex_id e = ex_id e' \<Longrightarrow> e = e'"
  unfolding expenses_ok_def by (metis distinct_lookup option.inject)

text \<open>A change of the rows that leaves alone what the invariant reads.\<close>

definition same_cost :: "expense_row \<Rightarrow> expense_row \<Rightarrow> bool" where
  "same_cost e e' \<longleftrightarrow> ex_id e' = ex_id e \<and> ex_receiptUploadId e' = ex_receiptUploadId e \<and> ex_projectId e' = ex_projectId e
     \<and> ex_clientId e' = ex_clientId e \<and> ex_amountCents e' = ex_amountCents e \<and> ex_rebillable e' = ex_rebillable e
     \<and> ex_markupPercentage e' = ex_markupPercentage e"

lemma ok_same_cost:
  assumes ok: "expenses_ok sha256 xw" and f: "\<And>e. same_cost e (f e)"
    and live: "\<And>e. e \<in> set (expenses_of xw) \<Longrightarrow> ex_invoicedInId (f e) = None \<or> ex_deletedAt (f e) = None"
    and rest: "expenses_of xw' = map f (expenses_of xw)" "xw_uploads xw' = xw_uploads xw" "xw_objects xw' = xw_objects xw"
      "projects (ledger (xw_workspace xw')) = projects (ledger (xw_workspace xw))"
  shows "expenses_ok sha256 xw'"
proof -
  note f' = f [unfolded same_cost_def]
  have ids: "map ex_id (expenses_of xw') = map ex_id (expenses_of xw)" using f' by (simp add: rest)
  have rows: "row_sound (xw_workspace xw') (f e)" if "row_sound (xw_workspace xw) e" "e \<in> set (expenses_of xw)" for e
    using that(1) live [OF that(2)] f' [of e] by (simp add: row_sound_def expense_row_ok_def of_its_project_def rest)
  have filed: "filed sha256 xw' u = filed sha256 xw u" for u by (simp add: filed_def rest)
  have sound: "receipts_sound sha256 xw" using ok by (simp add: expenses_ok_def)
  have "receipts_sound sha256 xw'"
    unfolding receipts_sound_def rest filed set_map ball_simps
  proof (intro conjI ballI allI impI)
    fix e k assume e: "e \<in> set (expenses_of xw)" "ex_receiptUploadId (f e) = Some k"
    then have k: "ex_receiptUploadId e = Some k" using f' [of e] by simp
    then show "\<exists>u\<in>set (xw_uploads xw). upl_id u = k \<and> filed sha256 xw u"
      using sound e(1) unfolding receipts_sound_def by blast
    fix e' assume "e' \<in> set (expenses_of xw)" "ex_receiptUploadId (f e') = Some k"
    then have "ex_id e' = ex_id e" using sound e(1) k f' [of e'] unfolding receipts_sound_def by metis
    then show "ex_id (f e') = ex_id (f e)" using f' [of e] f' [of e'] by simp
  qed (use sound in \<open>simp_all add: receipts_sound_def\<close>)
  then show ?thesis using ok ids rows unfolding expenses_ok_def rest by (simp only: set_map) blast
qed

section \<open>Receipts keep their files\<close>

lemma insertReceiptUpload_result:
  assumes "insertReceiptUpload sha256 k receipt xw = (x, xw1)"
  shows "((\<exists>e. x = Inl e) \<or> x = Inr None) \<and> xw1 = xw
    \<or> (\<exists>u. x = Inr (Some k) \<and> upl_id u = k \<and> filed sha256 xw u \<and> upl_path u \<notin> upl_path ` set (xw_uploads xw)
         \<and> xw1 = xw\<lparr>xw_uploads := add_row u (xw_uploads xw)\<rparr>)"
proof (cases x)
  case (Inr upload)
  show ?thesis
  proof (cases receipt)
    case (Some v)
    then obtain bytes where b: "xw_objects xw (rcv_objectKey v) = Some bytes" "bytes \<noteq> []"
      "\<forall>u\<in>set (xw_uploads xw). upl_path u \<noteq> rcv_objectKey v" "upload = Some k"
      "xw1 = xw\<lparr>xw_uploads := add_row \<lparr>upl_id = k, upl_filename = rcv_filename v, upl_path = rcv_objectKey v,
                upl_mimeType = rcv_mimeType v, upl_sizeBytes = int (length bytes), upl_checksumSha256 = sha256 bytes\<rparr> (xw_uploads xw)\<rparr>"
      using assms Inr
      by (auto simp: insertReceiptUpload_def verifyUploadedObject_def list_ex_iff split: option.splits if_splits)
    let ?u = "\<lparr>upl_id = k, upl_filename = rcv_filename v, upl_path = rcv_objectKey v,
                upl_mimeType = rcv_mimeType v, upl_sizeBytes = int (length bytes), upl_checksumSha256 = sha256 bytes\<rparr>"
    have "filed sha256 xw ?u" using b(1,2) by (simp add: filed_def)
    moreover have "upl_path ?u \<notin> upl_path ` set (xw_uploads xw)" using b(3) by (metis imageE upload_row.select_convs(3))
    ultimately show ?thesis unfolding Inr b(4) b(5) by (intro disjI2 exI [of _ ?u]) simp
  qed (use assms Inr in \<open>simp add: insertReceiptUpload_def\<close>)
qed (use assms in \<open>auto simp: insertReceiptUpload_def split: option.splits prod.splits if_splits\<close>)

text \<open>What may have happened to the uploads before the row itself is written: nothing, or one more row with a file of its own.\<close>

definition uploads_grow :: "(string \<Rightarrow> string) \<Rightarrow> ident \<Rightarrow> expense_world \<Rightarrow> expense_world \<Rightarrow> bool" where
  "uploads_grow sha256 k xw xw1 \<longleftrightarrow> xw1 = xw \<or>
     (\<exists>u. upl_id u = k \<and> filed sha256 xw u \<and> upl_path u \<notin> upl_path ` set (xw_uploads xw)
        \<and> xw1 = xw\<lparr>xw_uploads := add_row u (xw_uploads xw)\<rparr>)"

lemma uploads_growE:
  assumes "uploads_grow sha256 k xw xw1"
  obtains us where "xw_uploads xw1 = xw_uploads xw @ us" "xw_workspace xw1 = xw_workspace xw" "xw_objects xw1 = xw_objects xw"
    "us = [] \<or> (\<exists>u. us = [u] \<and> upl_id u = k \<and> filed sha256 xw u \<and> upl_path u \<notin> upl_path ` set (xw_uploads xw))"
  using assms unfolding uploads_grow_def add_row_def by fastforce

lemma grown_ok:
  assumes ok: "expenses_ok sha256 xw" and k: "k \<notin> upl_id ` set (xw_uploads xw)" and g: "uploads_grow sha256 k xw xw1"
  shows "expenses_ok sha256 xw1"
  using g
proof (rule uploads_growE)
  fix us assume us: "xw_uploads xw1 = xw_uploads xw @ us" "xw_workspace xw1 = xw_workspace xw" "xw_objects xw1 = xw_objects xw"
    "us = [] \<or> (\<exists>u. us = [u] \<and> upl_id u = k \<and> filed sha256 xw u \<and> upl_path u \<notin> upl_path ` set (xw_uploads xw))"
  have sound: "receipts_sound sha256 xw" using ok by (simp add: expenses_ok_def)
  have filed: "filed sha256 xw1 u = filed sha256 xw u" for u by (simp add: filed_def us)
  have old: "distinct (map upl_id (xw_uploads xw))" "distinct (map upl_path (xw_uploads xw))" using sound by (simp_all add: receipts_sound_def)
  have "distinct (map upl_id (xw_uploads xw1)) \<and> distinct (map upl_path (xw_uploads xw1))"
  proof (cases "us = []")
    case False
    then obtain u where "us = [u]" "upl_id u = k" "upl_path u \<notin> upl_path ` set (xw_uploads xw)" using us(4) by blast
    then show ?thesis using old k by (simp add: us(1))
  qed (use old us(1) in simp)
  then have "receipts_sound sha256 xw1" using sound unfolding receipts_sound_def us(2) filed set_append us(1) bex_Un by blast
  then show ?thesis using ok by (simp add: expenses_ok_def us(2))
qed

lemma resolveReceiptChange_result:
  assumes "resolveReceiptChange sha256 k receipt path xw = (x, xw1)"
  shows "uploads_grow sha256 k xw xw1"
    and "x = Inr (Replace_with u) \<Longrightarrow> u = None \<or> u = Some k \<and> (\<exists>r\<in>set (xw_uploads xw1). upl_id r = k \<and> filed sha256 xw1 r)"
proof -
  have "uploads_grow sha256 k xw xw1 \<and> (x = Inr (Replace_with u) \<longrightarrow>
      u = None \<or> u = Some k \<and> (\<exists>r\<in>set (xw_uploads xw1). upl_id r = k \<and> filed sha256 xw1 r))"
  proof (cases "(case receipt of None \<Rightarrow> False | Some r \<Rightarrow> Some (rcv_objectKey r) = path) \<or> receipt = None \<and> (path = None \<or> path = Some [])")
    case False
    obtain y xw2 where y: "insertReceiptUpload sha256 k receipt xw = (y, xw2)" by fastforce
    then have "xw2 = xw1" "x = (case y of Inl e \<Rightarrow> Inl e | Inr v \<Rightarrow> Inr (Replace_with v))"
      using assms False by (auto simp: resolveReceiptChange_def split: sum.splits if_splits)
    then show ?thesis using insertReceiptUpload_result [OF y]
      by (auto simp: uploads_grow_def add_row_def filed_def split: sum.splits)
  qed (use assms in \<open>auto simp: resolveReceiptChange_def uploads_grow_def split: if_splits\<close>)
  then show "uploads_grow sha256 k xw xw1"
    and "x = Inr (Replace_with u) \<Longrightarrow> u = None \<or> u = Some k \<and> (\<exists>r\<in>set (xw_uploads xw1). upl_id r = k \<and> filed sha256 xw1 r)"
    by blast+
qed

text \<open>One row rewritten, with its own receipt, none, or one no other row has.\<close>

lemma ok_edit:
  assumes ok: "expenses_ok sha256 xw" and e: "e \<in> set (expenses_of xw)"
    and p: "\<And>x. x \<in> set (expenses_of xw) \<Longrightarrow> p x \<longleftrightarrow> x = e" and id: "ex_id (g e) = ex_id e"
    and row: "row_sound (xw_workspace xw) (g e)"
    and receipt: "\<And>k. ex_receiptUploadId (g e) = Some k \<Longrightarrow> ex_receiptUploadId e = Some k
        \<or> (\<exists>u\<in>set (xw_uploads xw). upl_id u = k \<and> filed sha256 xw u) \<and> (\<forall>x\<in>set (expenses_of xw). ex_receiptUploadId x \<noteq> Some k)"
  shows "expenses_ok sha256 (on_expenses (update_where p g) xw)"
proof -
  let ?f = "\<lambda>x. if x = e then g e else x"
  have rows: "update_where p g (expenses_of xw) = map ?f (expenses_of xw)" using p by (auto simp: update_where_def)
  have ids: "map ex_id (map ?f (expenses_of xw)) = map ex_id (expenses_of xw)" using id by simp
  have sound: "receipts_sound sha256 xw" using ok by (simp add: expenses_ok_def)
  have filed: "filed sha256 (on_expenses h xw) u = filed sha256 xw u" for h u by (simp add: filed_def)
  have workspace: "row_sound (xw_workspace (on_expenses h xw)) x = row_sound (xw_workspace xw) x" for h x
    by (simp add: row_sound_def of_its_project_def)
  have receipts: "receipts_sound sha256 (on_expenses (update_where p g) xw)"
    unfolding receipts_sound_def filed world_simps rows set_map ball_simps
  proof (intro conjI ballI allI impI)
    fix x k assume x: "x \<in> set (expenses_of xw)" "ex_receiptUploadId (?f x) = Some k"
    have of_row: "\<exists>u\<in>set (xw_uploads xw). upl_id u = k \<and> filed sha256 xw u" if "ex_receiptUploadId x = Some k"
      using sound x(1) that unfolding receipts_sound_def by blast
    show "\<exists>u\<in>set (xw_uploads xw). upl_id u = k \<and> filed sha256 xw u"
      using of_row receipt [of k] x(2) by (cases "x = e") auto
    fix x' assume x': "x' \<in> set (expenses_of xw)" "ex_receiptUploadId (?f x') = Some k"
    show "ex_id (?f x') = ex_id (?f x)"
    proof (cases "x = x'")
      case False
      have "ex_receiptUploadId x = Some k" "ex_receiptUploadId x' = Some k"
        using x x' receipt [of k] e False by (auto split: if_splits)
      then have "ex_id x' = ex_id x" using sound x(1) x'(1) unfolding receipts_sound_def by blast
      then show ?thesis using id by auto
    qed simp
  qed (use sound in \<open>simp_all add: receipts_sound_def\<close>)
  have rows_sound: "\<forall>x\<in>set (map ?f (expenses_of xw)). row_sound (xw_workspace xw) x" using ok row by (auto simp: expenses_ok_def)
  have distinct_ids: "distinct (map ex_id (map ?f (expenses_of xw)))" using ok unfolding ids by (simp add: expenses_ok_def)
  show ?thesis
    unfolding expenses_ok_def workspace world_simps rows by (intro conjI distinct_ids rows_sound receipts)
qed

lemma discard_ok:
  assumes ok: "expenses_ok sha256 xw" and free: "\<forall>e\<in>set (expenses_of xw). ex_receiptUploadId e \<noteq> Some old"
    and path: "\<And>key. path = Some key \<Longrightarrow> \<exists>u\<in>set (xw_uploads xw). upl_id u = old \<and> upl_path u = key"
  shows "expenses_ok sha256 (discardReceiptUpload old path xw)"
    and "expenses_of (discardReceiptUpload old path xw) = expenses_of xw"
    and "u \<in> set (xw_uploads xw) \<Longrightarrow> upl_id u \<noteq> old \<Longrightarrow> u \<in> set (xw_uploads (discardReceiptUpload old path xw))
      \<and> xw_objects (discardReceiptUpload old path xw) (upl_path u) = xw_objects xw (upl_path u)"
    and "ledger (xw_workspace (discardReceiptUpload old path xw)) = ledger (xw_workspace xw)"
proof -
  let ?x = "discardReceiptUpload old path xw"
  have sound: "receipts_sound sha256 xw" using ok by (simp add: expenses_ok_def)
  have "update_where (\<lambda>e. ex_receiptUploadId e = Some old) (\<lambda>e. e\<lparr>ex_receiptUploadId := None\<rparr>) (expenses_of xw) = expenses_of xw"
    using free by (simp add: update_where_def map_idI)
  then show es: "expenses_of ?x = expenses_of xw" by (simp add: discardReceiptUpload_def Let_def on_expenses_def split: option.split)
  show led: "ledger (xw_workspace ?x) = ledger (xw_workspace xw)"
    by (simp add: discardReceiptUpload_def Let_def on_expenses_def split: option.split)
  have ups: "xw_uploads ?x = filter (\<lambda>u. upl_id u \<noteq> old) (xw_uploads xw)"
    by (simp add: discardReceiptUpload_def Let_def on_expenses_def split: option.split)
  have kept: "xw_objects ?x (upl_path u) = xw_objects xw (upl_path u)" if "u \<in> set (xw_uploads xw)" "upl_id u \<noteq> old" for u
  proof -
    have "path \<noteq> Some (upl_path u)"
    proof
      assume "path = Some (upl_path u)"
      then obtain v where "v \<in> set (xw_uploads xw)" "upl_id v = old" "upl_path v = upl_path u" using path by blast
      then have "v = u" using sound that(1) unfolding receipts_sound_def by (metis distinct_lookup option.inject)
      then show False using \<open>upl_id v = old\<close> that(2) by simp
    qed
    then show ?thesis by (auto simp: discardReceiptUpload_def Let_def on_expenses_def split: option.split)
  qed
  then show "u \<in> set (xw_uploads xw) \<Longrightarrow> upl_id u \<noteq> old \<Longrightarrow> u \<in> set (xw_uploads ?x)
      \<and> xw_objects ?x (upl_path u) = xw_objects xw (upl_path u)" by (simp add: ups)
  have filed: "filed sha256 ?x u = filed sha256 xw u" if "u \<in> set (xw_uploads xw)" "upl_id u \<noteq> old" for u
    using kept [OF that] by (simp add: filed_def)
  have "receipts_sound sha256 ?x"
    unfolding receipts_sound_def es
  proof (intro conjI ballI allI impI)
    fix e k assume e: "e \<in> set (expenses_of xw)" "ex_receiptUploadId e = Some k"
    then have "k \<noteq> old" using free by auto
    with e show "\<exists>u\<in>set (xw_uploads ?x). upl_id u = k \<and> filed sha256 ?x u"
      using sound filed unfolding receipts_sound_def ups by fastforce
    show "ex_id e' = ex_id e" if "e' \<in> set (expenses_of xw)" "ex_receiptUploadId e' = Some k" for e'
      using sound e that unfolding receipts_sound_def by blast
  qed (use sound in \<open>simp_all add: receipts_sound_def ups distinct_map_filter\<close>)
  then show "expenses_ok sha256 ?x" using ok by (simp add: expenses_ok_def es row_sound_def of_its_project_def led)
qed

section \<open>What each action leaves\<close>

lemma insert_grows:
  assumes "insertReceiptUpload sha256 k receipt xw = (x, xw1)"
  shows "uploads_grow sha256 k xw xw1"
  using insertReceiptUpload_result [OF assms] unfolding uploads_grow_def by blast

lemma scope_project:
  assumes "resolveExpenseScope f w = Inr scope" "fst scope = Some p"
  shows "\<exists>r\<in>set (projects (ledger w)). prj_id r = p \<and> snd scope = Some (prj_clientId r)"
  using assms by (auto simp: resolveExpenseScope_def Let_def live_project_def dest!: find_id_Some split: if_splits option.splits bind_splits)

lemma columns_simps [simp]:
  "ex_id (toExpenseColumns f scope e) = ex_id e" "ex_receiptUploadId (toExpenseColumns f scope e) = ex_receiptUploadId e"
  "ex_invoicedInId (toExpenseColumns f scope e) = ex_invoicedInId e" "ex_deletedAt (toExpenseColumns f scope e) = ex_deletedAt e"
  by (simp_all add: toExpenseColumns_def)

lemma columns_sound:
  assumes "resolveExpenseScope f w = Inr scope" "refineExpenseFields f"
    and "expense_row_ok (toExpenseColumns f scope e\<lparr>ex_receiptUploadId := u\<rparr>)"
    and "\<not> numeric_5_2_overflow (xf_markupPercentage f)" and "ex_invoicedInId e = None \<or> ex_deletedAt e = None"
  shows "row_sound w (toExpenseColumns f scope e\<lparr>ex_receiptUploadId := u\<rparr>)"
  using assms scope_project [OF assms(1)]
  by (auto simp: row_sound_def toExpenseColumns_def of_its_project_def refineExpenseFields_def)

lemma createExpense_result:
  assumes "createExpense sha256 req parsed newId k xw = (x, xw')"
  shows "(\<exists>e. x = Inl e) \<and> uploads_grow sha256 k xw xw'
    \<or> (\<exists>actor f scope u xw1. requireExpenseWrite req = Inr actor \<and> parsed = Inr f
        \<and> resolveExpenseScope f (xw_workspace xw) = Inr scope \<and> insertReceiptUpload sha256 k (xf_receipt f) xw = (Inr u, xw1)
        \<and> expense_row_ok (toExpenseColumns f scope (blank_expense newId)\<lparr>ex_receiptUploadId := u\<rparr>)
        \<and> \<not> numeric_5_2_overflow (xf_markupPercentage f)
        \<and> xw' = expense_announced newId actor (expense_logged ''expense.created'' actor newId
             (on_expenses (add_row (toExpenseColumns f scope (blank_expense newId)\<lparr>ex_receiptUploadId := u\<rparr>)) xw1))
        \<and> x = loadExpenseResult newId xw')"
proof (cases "requireExpenseWrite req")
  case (Inr actor)
  show ?thesis
  proof (cases parsed)
    case parsed: (Inr f)
    show ?thesis
    proof (cases "resolveExpenseScope f (xw_workspace xw)")
      case scope: (Inr scope)
      obtain y xw1 where y: "insertReceiptUpload sha256 k (xf_receipt f) xw = (y, xw1)" by fastforce
      let ?row = "\<lambda>u. toExpenseColumns f scope (blank_expense newId)\<lparr>ex_receiptUploadId := u\<rparr>"
      have markup: "ex_markupPercentage (?row u) = xf_markupPercentage f" for u by (simp add: toExpenseColumns_def)
      note made = assms [unfolded createExpense_def Inr parsed scope y sum.case prod.case Let_def markup]
      show ?thesis
      proof (cases y)
        case (Inl e)
        then show ?thesis using made insert_grows [OF y] by (intro disjI1) auto
      next
        case upload: (Inr u)
        show ?thesis
        proof (cases "\<not> expense_row_ok (?row u) \<or> numeric_5_2_overflow (xf_markupPercentage f)")
          case True
          then show ?thesis using made insert_grows [OF y] by (intro disjI1) (auto simp: upload)
        next
          case False
          then show ?thesis using made Inr parsed scope y by (intro disjI2 exI) (auto simp: upload)
        qed
      qed
    qed (use assms Inr parsed in \<open>auto simp: createExpense_def uploads_grow_def\<close>)
  qed (use assms Inr in \<open>auto simp: createExpense_def uploads_grow_def\<close>)
qed (use assms in \<open>auto simp: createExpense_def uploads_grow_def\<close>)

text \<open>The row an edit leaves, and the world after the old receipt is dropped where there is one to drop.\<close>

definition edited_expense :: "expense_form \<Rightarrow> ident option \<times> ident option \<Rightarrow> receipt_change \<Rightarrow> ident option \<Rightarrow> expense_row \<Rightarrow> expense_row" where
  "edited_expense f scope receipt existingUploadId e = toExpenseColumns f scope e
     \<lparr>ex_receiptUploadId := (case receipt of Keep_existing \<Rightarrow> existingUploadId | Replace_with u \<Rightarrow> u)\<rparr>"

definition drop_old_receipt :: "receipt_change \<Rightarrow> ident option \<Rightarrow> string option \<Rightarrow> expense_world \<Rightarrow> expense_world" where
  "drop_old_receipt receipt existingUploadId existingPath xw =
     (case receipt of Keep_existing \<Rightarrow> xw
      | Replace_with u \<Rightarrow> (case existingUploadId of None \<Rightarrow> xw | Some old \<Rightarrow> discardReceiptUpload old existingPath xw))"

lemma writeExpenseEdit_result:
  assumes "writeExpenseEdit sha256 actor f k old path xw = (x, xw')"
  shows "(\<exists>e. x = Inl e) \<and> uploads_grow sha256 k xw xw'
    \<or> (\<exists>scope receipt xw1. resolveExpenseScope f (xw_workspace xw) = Inr scope
        \<and> resolveReceiptChange sha256 k (xf_receipt f) path xw = (Inr receipt, xw1)
        \<and> (\<forall>e\<in>set (expenses_of xw1). live_expense (xf_id f) e \<longrightarrow> expense_row_ok (edited_expense f scope receipt old e))
        \<and> ((\<exists>e\<in>set (expenses_of xw1). live_expense (xf_id f) e) \<longrightarrow> \<not> numeric_5_2_overflow (xf_markupPercentage f))
        \<and> xw' = expense_logged ''expense.updated'' actor (xf_id f) (drop_old_receipt receipt old path
             (on_expenses (update_where (live_expense (xf_id f)) (edited_expense f scope receipt old)) xw1))
        \<and> x = loadExpenseResult (xf_id f) xw')"
proof (cases "resolveExpenseScope f (xw_workspace xw)")
  case scope: (Inr scope)
  obtain y xw1 where y: "resolveReceiptChange sha256 k (xf_receipt f) path xw = (y, xw1)" by fastforce
  note grown = resolveReceiptChange_result(1) [OF y]
  have markup: "ex_markupPercentage (edited_expense f scope r u e) = xf_markupPercentage f" for r u e
    by (simp add: edited_expense_def toExpenseColumns_def)
  note made = assms [unfolded writeExpenseEdit_def scope y sum.case prod.case Let_def, folded edited_expense_def drop_old_receipt_def]
  show ?thesis
  proof (cases y)
    case receipt: (Inr receipt)
    let ?bad = "\<lambda>e. live_expense (xf_id f) e \<and> (\<not> expense_row_ok (edited_expense f scope receipt old e) \<or> numeric_5_2_overflow (xf_markupPercentage f))"
    show ?thesis
    proof (cases "\<not> list_ex (live_expense (xf_id f)) (expenses_of xw1) \<or> list_ex ?bad (expenses_of xw1)")
      case True
      then show ?thesis using made grown by (auto simp: receipt markup split: if_splits)
    next
      case False
      have good: "\<forall>e\<in>set (expenses_of xw1). live_expense (xf_id f) e \<longrightarrow> expense_row_ok (edited_expense f scope receipt old e)"
        "(\<exists>e\<in>set (expenses_of xw1). live_expense (xf_id f) e) \<longrightarrow> \<not> numeric_5_2_overflow (xf_markupPercentage f)"
        using False by (auto simp: list_ex_iff)
      show ?thesis using made False good scope y unfolding receipt sum.case markup by (intro disjI2 exI) auto
    qed
  next
    case (Inl e)
    then show ?thesis using made grown by (intro disjI1) auto
  qed
qed (use assms in \<open>auto simp: writeExpenseEdit_def uploads_grow_def\<close>)

lemma updateExpense_result:
  assumes "updateExpense sha256 req parsed k xw = (x, xw')"
  shows "(\<exists>e. x = Inl e) \<and> xw' = xw
    \<or> (\<exists>actor f existing. requireExpenseWrite req = Inr actor \<and> parsed = Inr f
        \<and> List.find (live_expense (xf_id f)) (expenses_of xw) = Some existing \<and> ex_invoicedInId existing = None
        \<and> writeExpenseEdit sha256 actor f k (ex_receiptUploadId existing) (map_option upl_path (receipt_of existing xw)) xw = (x, xw'))"
  using assms unfolding updateExpense_def by (auto split: sum.splits option.splits if_splits)

lemma softDeleteExpense_result:
  assumes "softDeleteExpense req parsed now xw = (x, xw')"
  shows "(\<exists>e. x = Inl e) \<and> xw' = xw
    \<or> (\<exists>actor k existing. requireExpenseDelete req = Inr actor \<and> parsed = Inr k \<and> x = Inr k
        \<and> List.find (live_expense k) (expenses_of xw) = Some existing \<and> ex_invoicedInId existing = None
        \<and> xw' = expense_logged ''expense.deleted'' actor k
             (on_expenses (update_where (live_expense k) (\<lambda>e. e\<lparr>ex_deletedAt := Some now\<rparr>)) xw))"
  using assms unfolding softDeleteExpense_def by (auto split: sum.splits option.splits if_splits)

lemma restoreExpense_result:
  assumes "restoreExpense req parsed xw = (x, xw')"
  shows "(\<exists>e. x = Inl e) \<and> xw' = xw
    \<or> (\<exists>actor k. requireExpenseDelete req = Inr actor \<and> parsed = Inr k \<and> x = Inr k
        \<and> xw' = expense_logged ''expense.restored'' actor k
             (on_expenses (update_where (deleted_expense k) (\<lambda>e. e\<lparr>ex_deletedAt := None\<rparr>)) xw))"
  using assms unfolding restoreExpense_def
  by (auto simp del: resolveRestoreBlocker.simps split: sum.splits option.splits if_splits)

lemma billing_stamps:
  assumes "distinct (map ex_id (expenses w))"
  shows "\<exists>i ids. expenses (snd (convertBillableWork store words req parsed newId lineIds token w))
      = update_where (\<lambda>e. ex_id e \<in> set ids \<and> ex_invoicedInId e = None) (\<lambda>e. e\<lparr>ex_invoicedInId := Some i\<rparr>) (expenses w)
      \<and> (\<forall>e\<in>set (expenses w). ex_id e \<in> set ids \<longrightarrow> ex_deletedAt e = None)"
    and "projects (ledger (snd (convertBillableWork store words req parsed newId lineIds token w))) = projects (ledger w)"
proof -
  let ?stamped = "\<lambda>i ids w1. expenses w1 = update_where (\<lambda>e. ex_id e \<in> set ids \<and> ex_invoicedInId e = None)
      (\<lambda>e. e\<lparr>ex_invoicedInId := Some i\<rparr>) (expenses w) \<and> (\<forall>e\<in>set (expenses w). ex_id e \<in> set ids \<longrightarrow> ex_deletedAt e = None)"
  obtain x w1 where c: "convertBillableWork store words req parsed newId lineIds token w = (x, w1)" by fastforce
  have "(\<exists>i ids. ?stamped i ids w1) \<and> projects (ledger w1) = projects (ledger w)"
  proof (cases x)
    case (Inl e)
    then have "w1 = w" using convertBillableWork_result [OF c] by auto
    then show ?thesis by (auto intro!: exI [of _ "[]"] simp: update_where_def)
  next
    case (Inr j)
    from convertBillableWork_result [OF c] Inr obtain actor f p target i d w2 where
      plan: "buildPlan words f w = Billable p"
      and written: "(case target of
           None \<Rightarrow> createBillingInvoice store lineIds newId token p
                     (map (\<lambda>l. billing_row l (getDefaultTaxRate (ledger w))) (bp_lines p)) (ledger w)
         | Some t \<Rightarrow> Inr (appendToBillingInvoice store lineIds t
                     (map (\<lambda>l. billing_row l (getDefaultTaxRate (ledger w))) (bp_lines p)) (ledger w))) = Inr (i, d)"
      and st: "stampBilled i p (w\<lparr>ledger := d\<rparr>) = Inr w2"
      and w1: "w1 = emitted (if target = None then ''invoice.created'' else ''invoice.updated'') i (Some (actor_userId actor))
               (audited (if target = None then ''invoice.created'' else ''invoice.updated'') actor i w2)" by blast
    have "ex_deletedAt e = None" if e: "e \<in> set (expenses w)" "ex_id e \<in> set (bp_expenseIds p)" for e
    proof -
      obtain e' where "e' \<in> set (expenses w)" "ex_id e' = ex_id e" "billable_expense_row (bf_expenseIds f) (ledger w) e'"
        using e(2) unfolding plan_billable(6) [OF plan [unfolded plans_agree(2)]] selected_expense_rows by auto
      moreover have "e' = e" using calculation(1,2) e(1) assms by (metis distinct_lookup option.inject)
      ultimately show ?thesis by (simp add: billable_expense_row_def)
    qed
    moreover have "same_parents (ledger w) d"
      using written createBillingInvoice_parents(1) appendToBillingInvoice_parents(1) by (auto split: option.splits)
    moreover have "ledger w2 = d" "expenses w2 = update_where (\<lambda>e. ex_id e \<in> set (bp_expenseIds p) \<and> ex_invoicedInId e = None)
        (\<lambda>e. e\<lparr>ex_invoicedInId := Some i\<rparr>) (expenses w)"
      using st by (auto simp: stampBilled_def Let_def split: if_splits)
    ultimately show ?thesis by (auto simp: w1 same_parents_def emitted_def audited_def writeAudit_def emit_def)
  qed
  then show "\<exists>i ids. ?stamped i ids (snd (convertBillableWork store words req parsed newId lineIds token w))"
    "projects (ledger (snd (convertBillableWork store words req parsed newId lineIds token w))) = projects (ledger w)"
    by (simp_all add: c)
qed

section \<open>Every reachable world\<close>

text \<open>
  What other code may do to the same tables: anything to the uploads and files no expense points at, and to the rest
  of the workspace, as long as no project changes its client (\<open>ON UPDATE RESTRICT\<close>) and no unique index is broken.
\<close>

definition expense_elsewhere :: "expense_world \<Rightarrow> expense_world \<Rightarrow> bool" where
  "expense_elsewhere xw xw' \<longleftrightarrow> expenses_of xw' = expenses_of xw
     \<and> (\<forall>r\<in>set (projects (ledger (xw_workspace xw))). \<exists>r'\<in>set (projects (ledger (xw_workspace xw'))).
          prj_id r' = prj_id r \<and> prj_clientId r' = prj_clientId r)
     \<and> distinct (map upl_id (xw_uploads xw')) \<and> distinct (map upl_path (xw_uploads xw'))
     \<and> (\<forall>u\<in>set (xw_uploads xw). \<forall>e\<in>set (expenses_of xw). ex_receiptUploadId e = Some (upl_id u) \<longrightarrow>
          u \<in> set (xw_uploads xw') \<and> xw_objects xw' (upl_path u) = xw_objects xw (upl_path u))"

inductive expense_step :: "(string \<Rightarrow> string) \<Rightarrow> expense_world \<Rightarrow> expense_world \<Rightarrow> bool" for sha256 where
  create: "newId \<notin> ex_id ` set (expenses_of xw) \<Longrightarrow> k \<notin> upl_id ` set (xw_uploads xw) \<Longrightarrow>
      (\<And>f. parsed = Inr f \<Longrightarrow> refineExpenseFields f) \<Longrightarrow>
      expense_step sha256 xw (snd (createExpense sha256 req parsed newId k xw))"
| edit: "k \<notin> upl_id ` set (xw_uploads xw) \<Longrightarrow> (\<And>f. parsed = Inr f \<Longrightarrow> refineExpenseFields f) \<Longrightarrow>
      expense_step sha256 xw (snd (updateExpense sha256 req parsed k xw))"
| delete: "expense_step sha256 xw (snd (softDeleteExpense req parsed_id now xw))"
| restore: "expense_step sha256 xw (snd (restoreExpense req parsed_id xw))"
| export: "expense_step sha256 xw (snd (exportExpensesCsv matches order_by headers yes no req query now xw))"
| bill: "expense_step sha256 xw
      (xw\<lparr>xw_workspace := snd (convertBillableWork store words req billing newId lineIds token (xw_workspace xw))\<rparr>)"
| elsewhere: "expense_elsewhere xw xw' \<Longrightarrow> expense_step sha256 xw xw'"

text \<open>What a step owes an expense on an invoice: the row, the row of its receipt and the file.\<close>

definition keeps_billed :: "expense_world \<Rightarrow> expense_world \<Rightarrow> bool" where
  "keeps_billed xw xw' \<longleftrightarrow>
     (\<forall>e\<in>set (expenses_of xw). ex_invoicedInId e \<noteq> None \<longrightarrow> e \<in> set (expenses_of xw')
        \<and> (\<forall>u\<in>set (xw_uploads xw). ex_receiptUploadId e = Some (upl_id u) \<longrightarrow>
             u \<in> set (xw_uploads xw') \<and> xw_objects xw' (upl_path u) = xw_objects xw (upl_path u)))"

lemma grown_keeps: "uploads_grow sha256 k xw xw1 \<Longrightarrow> keeps_billed xw xw1"
  by (erule uploads_growE) (simp add: keeps_billed_def)

lemma logged_world:
  "expenses_ok sha256 (expense_logged ev a t xw') = expenses_ok sha256 xw'"
  "keeps_billed xw (expense_logged ev a t xw') = keeps_billed xw xw'"
  by (intro expenses_ok_cong) (simp_all add: keeps_billed_def)

lemma grown_uploads: "uploads_grow sha256 k xw xw1 \<Longrightarrow> set (xw_uploads xw) \<subseteq> set (xw_uploads xw1)"
  by (erule uploads_growE) simp

lemma discard_keeps:
  assumes keeps: "keeps_billed xw xw2" and unused: "\<forall>e\<in>set (expenses_of xw2). ex_receiptUploadId e \<noteq> Some i"
    and es: "expenses_of xw3 = expenses_of xw2"
    and files: "\<And>u. u \<in> set (xw_uploads xw2) \<Longrightarrow> upl_id u \<noteq> i \<Longrightarrow>
      u \<in> set (xw_uploads xw3) \<and> xw_objects xw3 (upl_path u) = xw_objects xw2 (upl_path u)"
  shows "keeps_billed xw xw3"
  unfolding keeps_billed_def es
proof (intro ballI impI)
  fix y assume y: "y \<in> set (expenses_of xw)" "ex_invoicedInId y \<noteq> None"
  have y2: "y \<in> set (expenses_of xw2)" using keeps y unfolding keeps_billed_def by blast
  have "v \<in> set (xw_uploads xw3) \<and> xw_objects xw3 (upl_path v) = xw_objects xw (upl_path v)"
    if v: "v \<in> set (xw_uploads xw)" "ex_receiptUploadId y = Some (upl_id v)" for v
  proof -
    have v2: "v \<in> set (xw_uploads xw2)" "xw_objects xw2 (upl_path v) = xw_objects xw (upl_path v)"
      using keeps y v unfolding keeps_billed_def by blast+
    have "upl_id v \<noteq> i" using unused y2 v(2) by metis
    then show ?thesis using files [OF v2(1)] v2(2) by simp
  qed
  then show "y \<in> set (expenses_of xw2) \<and> (\<forall>v\<in>set (xw_uploads xw). ex_receiptUploadId y = Some (upl_id v) \<longrightarrow>
      v \<in> set (xw_uploads xw3) \<and> xw_objects xw3 (upl_path v) = xw_objects xw (upl_path v))" using y2 by blast
qed

lemma mapped_keeps:
  assumes "expenses_of xw' = map f (expenses_of xw)" "xw_uploads xw' = xw_uploads xw" "xw_objects xw' = xw_objects xw"
    and "\<And>e. e \<in> set (expenses_of xw) \<Longrightarrow> ex_invoicedInId e \<noteq> None \<Longrightarrow> f e = e"
  shows "keeps_billed xw xw'"
proof -
  have "e \<in> set (map f (expenses_of xw))" if "e \<in> set (expenses_of xw)" "ex_invoicedInId e \<noteq> None" for e
    using assms(4) [OF that] that(1) by (metis image_eqI set_map)
  then show ?thesis by (simp only: keeps_billed_def assms(1-3)) blast
qed

lemma live_found:
  assumes "expenses_ok sha256 xw" "List.find (live_expense k) (expenses_of xw) = Some e"
  shows "e \<in> set (expenses_of xw)" "ex_id e = k" "ex_deletedAt e = None"
    and "x \<in> set (expenses_of xw) \<Longrightarrow> live_expense k x \<longleftrightarrow> x = e"
proof -
  show e: "e \<in> set (expenses_of xw)" "ex_id e = k" "ex_deletedAt e = None"
    using find_hit [OF assms(2)] by (simp_all add: live_expense_def)
  assume x: "x \<in> set (expenses_of xw)"
  have "x = e" if "live_expense k x" using that only_expense [OF assms(1) x e(1)] e(2) by (simp add: live_expense_def)
  moreover have "live_expense k e" using e(2,3) by (simp add: live_expense_def)
  ultimately show "live_expense k x \<longleftrightarrow> x = e" by blast
qed

text \<open>A new row, with a receipt no other row has.\<close>

lemma ok_insert:
  assumes ok: "expenses_ok sha256 xw" and new: "ex_id row \<notin> ex_id ` set (expenses_of xw)" and row: "row_sound (xw_workspace xw) row"
    and receipt: "\<And>k. ex_receiptUploadId row = Some k \<Longrightarrow> (\<exists>u\<in>set (xw_uploads xw). upl_id u = k \<and> filed sha256 xw u)
        \<and> (\<forall>e\<in>set (expenses_of xw). ex_receiptUploadId e \<noteq> Some k)"
  shows "expenses_ok sha256 (on_expenses (add_row row) xw)"
proof -
  have filed: "filed sha256 (on_expenses h xw) u = filed sha256 xw u" for h u by (simp add: filed_def)
  have workspace: "row_sound (xw_workspace (on_expenses h xw)) x = row_sound (xw_workspace xw) x" for h x
    by (simp add: row_sound_def of_its_project_def)
  have sound: "receipts_sound sha256 xw" using ok by (simp add: expenses_ok_def)
  have rows: "add_row row (expenses_of xw) = expenses_of xw @ [row]" by (simp add: add_row_def)
  have receipts: "receipts_sound sha256 (on_expenses (add_row row) xw)"
    unfolding receipts_sound_def filed world_simps rows
  proof (intro conjI ballI allI impI)
    fix e k assume e: "e \<in> set (expenses_of xw @ [row])" "ex_receiptUploadId e = Some k"
    have old: "(\<exists>u\<in>set (xw_uploads xw). upl_id u = k \<and> filed sha256 xw u)
        \<and> (\<forall>x\<in>set (expenses_of xw). ex_receiptUploadId x = Some k \<longrightarrow> ex_id x = ex_id e)" if "e \<in> set (expenses_of xw)"
      using sound that e(2) unfolding receipts_sound_def by blast
    have e_in: "e = row \<or> e \<in> set (expenses_of xw)" using e(1) by auto
    then show "\<exists>u\<in>set (xw_uploads xw). upl_id u = k \<and> filed sha256 xw u"
      using old receipt [of k] e(2) by blast
    fix e' assume e': "e' \<in> set (expenses_of xw @ [row])" "ex_receiptUploadId e' = Some k"
    have "e' = row \<or> e' \<in> set (expenses_of xw)" using e'(1) by auto
    with e_in show "ex_id e' = ex_id e"
      using old receipt [of k] e(2) e'(2) by blast
  qed (use sound in \<open>simp_all add: receipts_sound_def\<close>)
  have "distinct (map ex_id (expenses_of xw @ [row]))" using ok new by (simp add: expenses_ok_def)
  moreover have "\<forall>x\<in>set (expenses_of xw @ [row]). row_sound (xw_workspace xw) x" using ok row by (simp add: expenses_ok_def)
  ultimately show ?thesis unfolding expenses_ok_def workspace world_simps rows using receipts by blast
qed

lemma create_step:
  assumes ok: "expenses_ok sha256 xw" and new: "newId \<notin> ex_id ` set (expenses_of xw)" "k \<notin> upl_id ` set (xw_uploads xw)"
    and form: "\<And>f. parsed = Inr f \<Longrightarrow> refineExpenseFields f"
    and made: "createExpense sha256 req parsed newId k xw = (x, xw')"
  shows "expenses_ok sha256 xw' \<and> keeps_billed xw xw'"
  using createExpense_result [OF made]
proof (elim disjE conjE exE)
  assume "uploads_grow sha256 k xw xw'"
  then show ?thesis using grown_ok [OF ok new(2)] grown_keeps by blast
next
  fix actor f scope u xw1
  let ?row = "toExpenseColumns f scope (blank_expense newId)\<lparr>ex_receiptUploadId := u\<rparr>"
  assume f: "parsed = Inr f" "resolveExpenseScope f (xw_workspace xw) = Inr scope"
      "insertReceiptUpload sha256 k (xf_receipt f) xw = (Inr u, xw1)"
    and row: "expense_row_ok ?row" "\<not> numeric_5_2_overflow (xf_markupPercentage f)"
    and xw': "xw' = expense_announced newId actor (expense_logged ''expense.created'' actor newId (on_expenses (add_row ?row) xw1))"
  note grown = insert_grows [OF f(3)] and upload = insertReceiptUpload_result [OF f(3)]
  have same: "xw_workspace xw1 = xw_workspace xw" using grown by (auto elim: uploads_growE)
  have ok1: "expenses_ok sha256 xw1" by (rule grown_ok [OF ok new(2) grown])
  have id: "ex_id ?row = newId" "ex_receiptUploadId ?row = u" by (simp_all add: blank_expense_def)
  have sound: "row_sound (xw_workspace xw1) ?row"
    unfolding same by (rule columns_sound [OF f(2) form [OF f(1)] row]) (simp add: blank_expense_def)
  have own: "(\<exists>r\<in>set (xw_uploads xw1). upl_id r = i \<and> filed sha256 xw1 r)
      \<and> (\<forall>e\<in>set (expenses_of xw1). ex_receiptUploadId e \<noteq> Some i)" if "ex_receiptUploadId ?row = Some i" for i
  proof -
    have u: "u = Some k" "i = k" using that upload unfolding id(2) by auto
    have "ex_receiptUploadId e \<noteq> Some k" if "e \<in> set (expenses_of xw)" for e
      using that ok new(2) unfolding expenses_ok_def receipts_sound_def by (metis image_eqI)
    moreover have "\<exists>r\<in>set (xw_uploads xw1). upl_id r = k \<and> filed sha256 xw1 r"
      using upload u(1) by (auto simp: add_row_def filed_def)
    ultimately show ?thesis using same u(2) by simp
  qed
  have "ex_id ?row \<notin> ex_id ` set (expenses_of xw1)" using new(1) by (simp only: id same not_False_eq_True)
  then have "expenses_ok sha256 (on_expenses (add_row ?row) xw1)" by (rule ok_insert [OF ok1 _ sound own])
  then have "expenses_ok sha256 xw'" by (subst expenses_ok_cong [of _ "on_expenses (add_row ?row) xw1"]) (simp_all add: xw')
  moreover have "keeps_billed xw xw'"
    using grown_keeps [OF grown] by (simp add: keeps_billed_def xw' add_row_def same)
  ultimately show ?thesis by blast
qed

lemma edit_step:
  assumes ok: "expenses_ok sha256 xw" and new: "k \<notin> upl_id ` set (xw_uploads xw)"
    and form: "\<And>f. parsed = Inr f \<Longrightarrow> refineExpenseFields f"
    and made: "updateExpense sha256 req parsed k xw = (x, xw')"
  shows "expenses_ok sha256 xw' \<and> keeps_billed xw xw'"
  using updateExpense_result [OF made]
proof (elim disjE conjE exE)
  assume "xw' = xw"
  then show ?thesis using ok by (simp add: keeps_billed_def)
next
  fix actor f e
  let ?old = "ex_receiptUploadId e" and ?path = "map_option upl_path (receipt_of e xw)"
  assume f: "parsed = Inr f" and found: "List.find (live_expense (xf_id f)) (expenses_of xw) = Some e" "ex_invoicedInId e = None"
    and w: "writeExpenseEdit sha256 actor f k ?old ?path xw = (x, xw')"
  note e = live_found [OF ok found(1)]
  show ?thesis
    using writeExpenseEdit_result [OF w]
  proof (elim disjE conjE exE)
    assume "uploads_grow sha256 k xw xw'"
    then show ?thesis using grown_ok [OF ok new] grown_keeps by blast
  next
    fix scope receipt xw1
    let ?g = "edited_expense f scope receipt ?old"
    let ?xw2 = "on_expenses (update_where (live_expense (xf_id f)) ?g) xw1"
    assume r: "resolveExpenseScope f (xw_workspace xw) = Inr scope"
        "resolveReceiptChange sha256 k (xf_receipt f) ?path xw = (Inr receipt, xw1)"
      and rows: "\<forall>e\<in>set (expenses_of xw1). live_expense (xf_id f) e \<longrightarrow> expense_row_ok (?g e)"
        "(\<exists>e\<in>set (expenses_of xw1). live_expense (xf_id f) e) \<longrightarrow> \<not> numeric_5_2_overflow (xf_markupPercentage f)"
      and xw': "xw' = expense_logged ''expense.updated'' actor (xf_id f) (drop_old_receipt receipt ?old ?path ?xw2)"
    note grown = resolveReceiptChange_result(1) [OF r(2)]
    have ok1: "expenses_ok sha256 xw1" by (rule grown_ok [OF ok new grown])
    have same: "xw_workspace xw1 = xw_workspace xw" using grown by (auto elim: uploads_growE)
    have free: "ex_receiptUploadId y \<noteq> Some k" if "y \<in> set (expenses_of xw)" for y
      using that ok new unfolding expenses_ok_def receipts_sound_def by (metis image_eqI)
    have e1: "e \<in> set (expenses_of xw1)" "\<And>y. y \<in> set (expenses_of xw1) \<Longrightarrow> live_expense (xf_id f) y \<longleftrightarrow> y = e"
      using e(1,4) by (simp_all only: same)
    have new_receipt: "ex_receiptUploadId (?g e) = ?old \<or> ex_receiptUploadId (?g e) = None \<or> ex_receiptUploadId (?g e) = Some k
        \<and> (\<exists>u\<in>set (xw_uploads xw1). upl_id u = k \<and> filed sha256 xw1 u)"
      using resolveReceiptChange_result(2) [OF r(2)] by (cases receipt) (auto simp: edited_expense_def)
    have ok2: "expenses_ok sha256 ?xw2"
    proof (rule ok_edit [OF ok1 e1])
      have "expense_row_ok (?g e)" "\<not> numeric_5_2_overflow (xf_markupPercentage f)" using rows e1 by blast+
      then show "row_sound (xw_workspace xw1) (?g e)"
        unfolding same edited_expense_def by (intro columns_sound [OF r(1) form [OF f]]) (simp_all add: e(3))
      fix i assume "ex_receiptUploadId (?g e) = Some i"
      then show "?old = Some i \<or> (\<exists>u\<in>set (xw_uploads xw1). upl_id u = i \<and> filed sha256 xw1 u)
          \<and> (\<forall>y\<in>set (expenses_of xw1). ex_receiptUploadId y \<noteq> Some i)"
        using new_receipt free same by auto
    qed (simp_all add: edited_expense_def)
    have others: "y \<in> set (expenses_of ?xw2)" if "y \<in> set (expenses_of xw)" "y \<noteq> e" for y
      using that e(4) by (force simp: update_where_def same)
    have up: "xw_uploads ?xw2 = xw_uploads xw1" "xw_objects ?xw2 = xw_objects xw1" by simp_all
    have "y \<in> set (expenses_of ?xw2)" if "y \<in> set (expenses_of xw)" "ex_invoicedInId y \<noteq> None" for y
      using others that found(2) by (cases "y = e") auto
    then have keeps2: "keeps_billed xw ?xw2" using grown_keeps [OF grown] unfolding keeps_billed_def up by blast
    have sound: "receipts_sound sha256 xw" using ok by (simp add: expenses_ok_def)
    show ?thesis
    proof (cases "\<exists>u i. receipt = Replace_with u \<and> ?old = Some i")
      case False
      then have "drop_old_receipt receipt ?old ?path ?xw2 = ?xw2"
        by (auto simp: drop_old_receipt_def split: receipt_change.split option.split)
      then show ?thesis using ok2 keeps2 by (simp only: xw' logged_world)
    next
      case True
      then obtain u i where u: "receipt = Replace_with u" and i: "?old = Some i" by blast
      have drop: "drop_old_receipt receipt ?old ?path ?xw2 = discardReceiptUpload i ?path ?xw2" by (simp add: drop_old_receipt_def u i)
      have "i \<noteq> k" using free [OF e(1)] i by blast
      have unused: "\<forall>y\<in>set (expenses_of ?xw2). ex_receiptUploadId y \<noteq> Some i"
      proof
        fix y assume "y \<in> set (expenses_of ?xw2)"
        then have "y = ?g e \<or> y \<in> set (expenses_of xw) \<and> y \<noteq> e"
          using e(4) by (auto simp: update_where_def same split: if_splits)
        then show "ex_receiptUploadId y \<noteq> Some i"
        proof
          assume "y = ?g e"
          then show ?thesis using resolveReceiptChange_result(2) [OF r(2) refl [THEN trans, OF arg_cong [OF u]]] \<open>i \<noteq> k\<close>
            by (auto simp: edited_expense_def u)
        next
          assume y: "y \<in> set (expenses_of xw) \<and> y \<noteq> e"
          then have "ex_id y \<noteq> ex_id e" using only_expense [OF ok _ e(1)] by blast
          then show ?thesis using sound y e(1) i unfolding receipts_sound_def by metis
        qed
      qed
      have path: "\<exists>v\<in>set (xw_uploads ?xw2). upl_id v = i \<and> upl_path v = key" if key: "?path = Some key" for key
      proof -
        obtain v where "find_id upl_id i (xw_uploads xw) = Some v" "upl_path v = key"
          using key i by (auto simp: receipt_of_def)
        then have "v \<in> set (xw_uploads xw)" "upl_id v = i" "upl_path v = key" by (auto dest: find_id_Some)
        then show ?thesis using grown_uploads [OF grown] unfolding up by blast
      qed
      note dropped = discard_ok [OF ok2 unused path]
      have "keeps_billed xw (discardReceiptUpload i ?path ?xw2)"
        by (rule discard_keeps [OF keeps2 unused dropped(2,3)])
      then show ?thesis using dropped(1) by (simp only: xw' drop logged_world)
    qed
  qed
qed

lemma unchanged_world: "expenses_ok sha256 xw \<Longrightarrow> expenses_ok sha256 xw \<and> keeps_billed xw xw"
  by (simp add: keeps_billed_def)

text \<open>The remaining actions change one column of one row, or stamp the billed ones.\<close>

lemma column_step:
  assumes ok: "expenses_ok sha256 xw" and cost: "\<And>e. same_cost e (g e)"
    and live: "\<And>e. e \<in> set (expenses_of xw) \<Longrightarrow> p e \<Longrightarrow> ex_invoicedInId e = None \<and> (ex_invoicedInId (g e) = None \<or> ex_deletedAt (g e) = None)"
    and rest: "expenses_of xw' = update_where p g (expenses_of xw)" "xw_uploads xw' = xw_uploads xw" "xw_objects xw' = xw_objects xw"
      "projects (ledger (xw_workspace xw')) = projects (ledger (xw_workspace xw))"
  shows "expenses_ok sha256 xw' \<and> keeps_billed xw xw'"
proof
  let ?f = "\<lambda>e. if p e then g e else e"
  have rows: "expenses_of xw' = map ?f (expenses_of xw)" by (simp add: rest update_where_def)
  have "same_cost e (?f e)" for e using cost [of e] by (simp add: same_cost_def)
  moreover have "ex_invoicedInId (?f e) = None \<or> ex_deletedAt (?f e) = None" if "e \<in> set (expenses_of xw)" for e
    using that live [OF that] ok by (cases "p e") (auto simp: expenses_ok_def row_sound_def)
  ultimately show "expenses_ok sha256 xw'" by (rule ok_same_cost [OF ok _ _ rows rest(2,3,4)])
  have "?f e = e" if "e \<in> set (expenses_of xw)" "ex_invoicedInId e \<noteq> None" for e using that live [OF that(1)] by auto
  then show "keeps_billed xw xw'" by (rule mapped_keeps [OF rows rest(2,3)])
qed

lemma delete_step:
  assumes ok: "expenses_ok sha256 xw" and made: "softDeleteExpense req parsed now xw = (x, xw')"
  shows "expenses_ok sha256 xw' \<and> keeps_billed xw xw'"
  using softDeleteExpense_result [OF made]
proof (elim disjE conjE exE)
  fix actor k e assume found: "List.find (live_expense k) (expenses_of xw) = Some e" "ex_invoicedInId e = None"
    and xw': "xw' = expense_logged ''expense.deleted'' actor k
        (on_expenses (update_where (live_expense k) (\<lambda>e. e\<lparr>ex_deletedAt := Some now\<rparr>)) xw)"
  have free: "ex_invoicedInId y = None" if y: "y \<in> set (expenses_of xw)" "live_expense k y" for y
    using found(2) unfolding iffD1 [OF live_found(4) [OF ok found(1) y(1)] y(2)] .
  show ?thesis
    using free by (intro column_step [OF ok, where p = "live_expense k" and g = "\<lambda>e. e\<lparr>ex_deletedAt := Some now\<rparr>"]) (simp_all add: xw' same_cost_def)
qed (use unchanged_world [OF ok] in simp)

lemma restore_step:
  assumes ok: "expenses_ok sha256 xw" and made: "restoreExpense req parsed xw = (x, xw')"
  shows "expenses_ok sha256 xw' \<and> keeps_billed xw xw'"
  using restoreExpense_result [OF made]
proof (elim disjE conjE exE)
  fix actor k assume xw': "xw' = expense_logged ''expense.restored'' actor k
        (on_expenses (update_where (deleted_expense k) (\<lambda>e. e\<lparr>ex_deletedAt := None\<rparr>)) xw)"
  have rows: "\<forall>y\<in>set (expenses_of xw). row_sound (xw_workspace xw) y" using ok by (simp only: expenses_ok_def) simp
  have free: "ex_invoicedInId y = None" if y: "y \<in> set (expenses_of xw)" "deleted_expense k y" for y
    using bspec [OF rows y(1)] y(2) by (auto simp: row_sound_def deleted_expense_def)
  show ?thesis
    using free by (intro column_step [OF ok, where p = "deleted_expense k" and g = "\<lambda>e. e\<lparr>ex_deletedAt := None\<rparr>"]) (simp_all add: xw' same_cost_def)
qed (use unchanged_world [OF ok] in simp)

lemma bill_step:
  assumes ok: "expenses_ok sha256 xw"
    and xw': "xw' = xw\<lparr>xw_workspace := snd (convertBillableWork store words req billing newId lineIds token (xw_workspace xw))\<rparr>"
  shows "expenses_ok sha256 xw' \<and> keeps_billed xw xw'"
proof -
  have ids: "distinct (map ex_id (expenses_of xw))" using ok by (simp add: expenses_ok_def)
  obtain i ids where s: "expenses_of xw' = update_where (\<lambda>e. ex_id e \<in> set ids \<and> ex_invoicedInId e = None)
      (\<lambda>e. e\<lparr>ex_invoicedInId := Some i\<rparr>) (expenses_of xw)" "\<forall>e\<in>set (expenses_of xw). ex_id e \<in> set ids \<longrightarrow> ex_deletedAt e = None"
    using billing_stamps(1) [OF ids] by (fastforce simp: xw')
  then show ?thesis
    by (intro column_step [OF ok, where p = "\<lambda>e. ex_id e \<in> set ids \<and> ex_invoicedInId e = None" and g = "\<lambda>e. e\<lparr>ex_invoicedInId := Some i\<rparr>"])
      (simp_all add: same_cost_def xw' billing_stamps(2) [OF ids])
qed

lemma elsewhere_step:
  assumes ok: "expenses_ok sha256 xw" and other: "expense_elsewhere xw xw'"
  shows "expenses_ok sha256 xw' \<and> keeps_billed xw xw'"
proof
  note o = other [unfolded expense_elsewhere_def]
  have es: "expenses_of xw' = expenses_of xw" using o by blast
  have sound: "receipts_sound sha256 xw" using ok by (simp add: expenses_ok_def)
  have "row_sound (xw_workspace xw') e" if "row_sound (xw_workspace xw) e" for e
    using that o unfolding row_sound_def of_its_project_def by (metis (no_types, lifting))
  moreover have "receipts_sound sha256 xw'"
    unfolding receipts_sound_def es
  proof (intro conjI ballI allI impI)
    fix e k assume e: "e \<in> set (expenses_of xw)" "ex_receiptUploadId e = Some k"
    then obtain u where u: "u \<in> set (xw_uploads xw)" "upl_id u = k" "filed sha256 xw u"
      using sound unfolding receipts_sound_def by blast
    then have kept: "u \<in> set (xw_uploads xw')" "xw_objects xw' (upl_path u) = xw_objects xw (upl_path u)"
      using o e by blast+
    have "filed sha256 xw' u" using u(3) by (simp only: filed_def kept(2))
    then show "\<exists>u\<in>set (xw_uploads xw'). upl_id u = k \<and> filed sha256 xw' u" using u(2) kept(1) by blast
    show "ex_id e' = ex_id e" if "e' \<in> set (expenses_of xw)" "ex_receiptUploadId e' = Some k" for e'
      using sound e that unfolding receipts_sound_def by blast
  qed (use o in simp_all)
  ultimately show "expenses_ok sha256 xw'" using ok by (simp add: expenses_ok_def es)
  show "keeps_billed xw xw'" using o unfolding keeps_billed_def es by blast
qed

lemma step_keeps:
  assumes "expense_step sha256 xw xw'" "expenses_ok sha256 xw"
  shows "expenses_ok sha256 xw' \<and> keeps_billed xw xw'"
  using assms(1)
proof cases
  case (create newId k parsed req)
  then show ?thesis using create_step [OF assms(2) create(2,3,4) prod.collapse [symmetric]] by simp
next
  case (edit k parsed req)
  then show ?thesis using edit_step [OF assms(2) edit(2,3) prod.collapse [symmetric]] by simp
next
  case (delete req parsed now)
  then show ?thesis using delete_step [OF assms(2) prod.collapse [symmetric]] by simp
next
  case (restore req parsed)
  then show ?thesis using restore_step [OF assms(2) prod.collapse [symmetric]] by simp
next
  case (export matches order_by headers yes no req query now)
  have same: "expenses_of xw' = expenses_of xw" "xw_uploads xw' = xw_uploads xw" "xw_objects xw' = xw_objects xw"
    "projects (ledger (xw_workspace xw')) = projects (ledger (xw_workspace xw))"
    by (simp_all add: export exportExpensesCsv_def Let_def writeAudit_def split: sum.split)
  have "keeps_billed xw xw'" unfolding keeps_billed_def same by blast
  then show ?thesis using assms(2) unfolding expenses_ok_cong [OF same] by blast
next
  case (bill store words req billing newId lineIds token)
  then show ?thesis by (rule bill_step [OF assms(2)])
next
  case elsewhere
  then show ?thesis by (rule elsewhere_step [OF assms(2)])
qed

lemma steps_keep:
  assumes "(expense_step sha256)\<^sup>*\<^sup>* xw xw'" "expenses_ok sha256 xw"
  shows "expenses_ok sha256 xw' \<and> keeps_billed xw xw'"
  using assms
proof (induction rule: rtranclp_induct)
  case base
  then show ?case by (rule unchanged_world)
next
  case (step y z)
  then have y: "expenses_ok sha256 y" "keeps_billed xw y" by blast+
  note z = step_keeps [OF step(2) y(1)]
  moreover have "keeps_billed xw z"
    unfolding keeps_billed_def
  proof (intro ballI impI)
    fix e assume e: "e \<in> set (expenses_of xw)" "ex_invoicedInId e \<noteq> None"
    then have "e \<in> set (expenses_of y)" using y(2) unfolding keeps_billed_def by blast
    with e show "e \<in> set (expenses_of z) \<and> (\<forall>u\<in>set (xw_uploads xw). ex_receiptUploadId e = Some (upl_id u) \<longrightarrow>
        u \<in> set (xw_uploads z) \<and> xw_objects z (upl_path u) = xw_objects xw (upl_path u))"
      using y(2) conjunct2 [OF z] unfolding keeps_billed_def by (metis (no_types, lifting))
  qed
  ultimately show ?case by blast
qed

section \<open>Properties\<close>

text \<open>C40. In every world the actions can reach, each expense satisfies the checks of its table and of the form (a markup
  only on what is rebilled, and less than a thousand), belongs to its project's client, is in the trash only while no
  invoice bills it, and a receipt it names is a row of its own whose file is in the store with the measured size and
  checksum.\<close>

theorem expenses_stay_consistent:
  assumes start: "expenses_of xw0 = []" "distinct (map upl_id (xw_uploads xw0))" "distinct (map upl_path (xw_uploads xw0))"
    and reached: "(expense_step sha256)\<^sup>*\<^sup>* xw0 xw" and e: "e \<in> set (expenses_of xw)"
  shows "expense_row_ok e \<and> (ex_rebillable e \<or> ex_markupPercentage e = None) \<and> \<not> numeric_5_2_overflow (ex_markupPercentage e)
    \<and> (ex_projectId e = None \<or> (\<exists>r\<in>set (projects (ledger (xw_workspace xw))).
          ex_projectId e = Some (prj_id r) \<and> ex_clientId e = Some (prj_clientId r)))
    \<and> (ex_invoicedInId e = None \<or> ex_deletedAt e = None)
    \<and> (\<forall>k. ex_receiptUploadId e = Some k \<longrightarrow>
         (\<exists>u bytes. receipt_of e xw = Some u \<and> xw_objects xw (upl_path u) = Some bytes \<and> upl_sizeBytes u = int (length bytes)
            \<and> upl_checksumSha256 u = sha256 bytes)
         \<and> (\<forall>e'\<in>set (expenses_of xw). ex_receiptUploadId e' = Some k \<longrightarrow> e' = e))"
proof -
  have "expenses_ok sha256 xw0" using start by (simp add: expenses_ok_def receipts_sound_def)
  then have ok: "expenses_ok sha256 xw" using steps_keep [OF reached] by blast
  then have row: "row_sound (xw_workspace xw) e" and sound: "receipts_sound sha256 xw" using e by (simp_all add: expenses_ok_def)
  have receipt: "(\<exists>u bytes. receipt_of e xw = Some u \<and> xw_objects xw (upl_path u) = Some bytes \<and> upl_sizeBytes u = int (length bytes)
            \<and> upl_checksumSha256 u = sha256 bytes)
         \<and> (\<forall>e'\<in>set (expenses_of xw). ex_receiptUploadId e' = Some k \<longrightarrow> e' = e)" if k: "ex_receiptUploadId e = Some k" for k
  proof
    obtain u where u: "u \<in> set (xw_uploads xw)" "upl_id u = k" "filed sha256 xw u"
      using sound e k unfolding receipts_sound_def by blast
    have "find_id upl_id k (xw_uploads xw) = Some u"
      using distinct_lookup [OF _ u(1), of upl_id] sound u(2) by (simp add: receipts_sound_def)
    then show "\<exists>u bytes. receipt_of e xw = Some u \<and> xw_objects xw (upl_path u) = Some bytes
        \<and> upl_sizeBytes u = int (length bytes) \<and> upl_checksumSha256 u = sha256 bytes"
      using u(3) by (auto simp: receipt_of_def k filed_def)
    show "\<forall>e'\<in>set (expenses_of xw). ex_receiptUploadId e' = Some k \<longrightarrow> e' = e"
      using sound e k only_expense [OF ok _ e] unfolding receipts_sound_def by blast
  qed
  have "ex_projectId e = None \<or> (\<exists>r\<in>set (projects (ledger (xw_workspace xw))).
          ex_projectId e = Some (prj_id r) \<and> ex_clientId e = Some (prj_clientId r))"
    using row unfolding row_sound_def of_its_project_def by (cases "ex_projectId e") blast+
  then show ?thesis using row receipt by (simp add: row_sound_def)
qed

definition empty_world :: expense_world where
  "empty_world = \<lparr>xw_workspace = sample_workspace, xw_uploads = [],
     xw_objects = (\<lambda>k. if k = ''expenses/r1'' then Some ''%PDF'' else None)\<rparr>"

definition taxi :: expense_form where
  "taxi = \<lparr>xf_id = [], xf_projectId = Some ''p1'', xf_clientId = None, xf_spentAt = 1700006400000, xf_amount = 2450,
     xf_currency = ''EUR'', xf_category = ''Travel'', xf_description = ''Taxi'', xf_rebillable = True,
     xf_markupPercentage = Some 10, xf_receipt = Some \<lparr>rcv_objectKey = ''expenses/r1'', rcv_filename = ''taxi.pdf'',
       rcv_mimeType = ''application/pdf'', rcv_sizeBytes = 9\<rparr>\<rparr>"

definition taxi_row :: expense_row where
  "taxi_row = \<lparr>ex_id = ''x1'', ex_projectId = Some ''p1'', ex_clientId = Some ''c1'', ex_amountCents = 2450, ex_currency = ''EUR'',
     ex_category = ''Travel'', ex_description = ''Taxi'', ex_spentAt = 1700006400000, ex_receiptUploadId = Some ''u1'',
     ex_rebillable = True, ex_markupPercentage = Some 10, ex_invoicedInId = None, ex_deletedAt = None\<rparr>"

definition taxi_world :: expense_world where
  "taxi_world = snd (createExpense id owner_request (Inr taxi) ''x1'' ''u1'' empty_world)"

definition taxi_upload :: upload_row where
  "taxi_upload = \<lparr>upl_id = ''u1'', upl_filename = ''taxi.pdf'', upl_path = ''expenses/r1'',
     upl_mimeType = ''application/pdf'', upl_sizeBytes = 4, upl_checksumSha256 = ''%PDF''\<rparr>"

lemma owner_writes: "\<exists>a. requireExpenseWrite owner_request = Inr a"
  using expense_write.pass_iff [of owner_request] by (auto simp: owner_request_def signed_in_as_def)

lemma taxi_scope:
  assumes "projects (ledger w) = projects (ledger sample_workspace)" "xf_projectId f = Some ''p1''" "xf_clientId f = None"
  shows "resolveExpenseScope f w = Inr (Some ''p1'', Some ''c1'')"
  using assms by (simp add: resolveExpenseScope_def live_project_def sample_workspace_def sample_defs row_simps)

lemma taxi_receipt:
  "insertReceiptUpload id ''u1'' (xf_receipt taxi) empty_world = (Inr (Some ''u1''), empty_world\<lparr>xw_uploads := [taxi_upload]\<rparr>)"
  by (simp add: insertReceiptUpload_def verifyUploadedObject_def taxi_def empty_world_def receipt_max_bytes_def taxi_upload_def add_row_def)

lemma taxi_rows:
  "expenses_of taxi_world = [taxi_row]" "xw_uploads taxi_world = [taxi_upload]" "xw_objects taxi_world = xw_objects empty_world"
  "ledger_projects taxi_world = ledger_projects empty_world"
proof -
  obtain a where a: "requireExpenseWrite owner_request = Inr a" using owner_writes by blast
  have scope: "resolveExpenseScope taxi (xw_workspace empty_world) = Inr (Some ''p1'', Some ''c1'')"
    by (rule taxi_scope) (simp_all add: taxi_def empty_world_def)
  have "toExpenseColumns taxi (Some ''p1'', Some ''c1'') (blank_expense ''x1'')\<lparr>ex_receiptUploadId := Some ''u1''\<rparr> = taxi_row"
    by (simp add: toExpenseColumns_def taxi_def blank_expense_def taxi_row_def)
  moreover have "expense_row_ok taxi_row" "\<not> numeric_5_2_overflow (ex_markupPercentage taxi_row)"
    by (simp_all add: expense_row_ok_def taxi_row_def numeric_5_2_overflow_def)
  ultimately show "expenses_of taxi_world = [taxi_row]" "xw_uploads taxi_world = [taxi_upload]"
    "xw_objects taxi_world = xw_objects empty_world" "ledger_projects taxi_world = ledger_projects empty_world"
    by (simp_all add: taxi_world_def createExpense_def a scope taxi_receipt Let_def add_row_def)
      (simp_all add: empty_world_def sample_workspace_def)
qed

lemma expenses_stay_consistent_witness:
  "\<exists>u. receipt_of taxi_row taxi_world = Some u \<and> xw_objects taxi_world (upl_path u) = Some ''%PDF'' \<and> upl_sizeBytes u = 4"
proof -
  have start: "expenses_of empty_world = []" "distinct (map upl_id (xw_uploads empty_world))"
    "distinct (map upl_path (xw_uploads empty_world))" by (simp_all add: empty_world_def sample_workspace_def)
  have "expense_step id empty_world taxi_world"
    unfolding taxi_world_def by (rule expense_step.create) (use start in \<open>auto simp: refineExpenseFields_def taxi_def empty_world_def\<close>)
  then have reached: "(expense_step id)\<^sup>*\<^sup>* empty_world taxi_world" by (rule r_into_rtranclp)
  have row: "taxi_row \<in> set (expenses_of taxi_world)" by (simp add: taxi_rows)
  have k: "ex_receiptUploadId taxi_row = Some ''u1''" by (simp add: taxi_row_def)
  obtain u bytes where u: "receipt_of taxi_row taxi_world = Some u" "xw_objects taxi_world (upl_path u) = Some bytes"
      "upl_sizeBytes u = int (length bytes)"
    using expenses_stay_consistent [OF start reached row] k by blast
  then have "bytes = ''%PDF''" by (auto simp: taxi_rows(3) empty_world_def split: if_splits)
  then show ?thesis using u by simp
qed

text \<open>C39. Once an invoice bills it, an expense is frozen: whatever edits, deletions, restorations, billings and exports
  follow, its row, the row of its receipt and the file itself stay as they are, and an edit or a deletion of it is
  refused.\<close>

theorem billed_expenses_are_frozen:
  assumes ok: "expenses_ok sha256 xw" and e: "e \<in> set (expenses_of xw)" "ex_invoicedInId e \<noteq> None"
    and later: "(expense_step sha256)\<^sup>*\<^sup>* xw xw'"
  shows "e \<in> set (expenses_of xw')
    \<and> (\<forall>u\<in>set (xw_uploads xw). ex_receiptUploadId e = Some (upl_id u) \<longrightarrow>
         u \<in> set (xw_uploads xw') \<and> xw_objects xw' (upl_path u) = xw_objects xw (upl_path u))
    \<and> (requireExpenseWrite req = Inr actor \<longrightarrow> xf_id f = ex_id e \<longrightarrow>
         updateExpense sha256 req (Inr f) k xw' = (Inl ''expenses.errors.alreadyInvoiced'', xw'))
    \<and> (requireExpenseDelete req = Inr actor \<longrightarrow>
         softDeleteExpense req (Inr (ex_id e)) now xw' = (Inl ''expenses.errors.alreadyInvoiced'', xw'))"
proof -
  note kept = steps_keep [OF later ok]
  then have e': "e \<in> set (expenses_of xw')" and ok': "expenses_ok sha256 xw'" using e unfolding keeps_billed_def by blast+
  have rows: "\<forall>y\<in>set (expenses_of xw'). row_sound (xw_workspace xw') y" using ok' by (simp only: expenses_ok_def) simp
  then have live: "live_expense (ex_id e) e" using e(2) e' by (auto simp: row_sound_def live_expense_def)
  then have "List.find (live_expense (ex_id e)) (expenses_of xw') \<noteq> None" using e' by (metis find_None_iff)
  then obtain y where y: "List.find (live_expense (ex_id e)) (expenses_of xw') = Some y" by blast
  have "y = e" using live_found(4) [OF ok' y e'] live by metis
  then show ?thesis using kept e y by (auto simp: keeps_billed_def updateExpense_def softDeleteExpense_def)
qed

definition billed_world :: expense_world where
  "billed_world = on_expenses (map (\<lambda>e. e\<lparr>ex_invoicedInId := Some ''i1''\<rparr>)) taxi_world"

lemma billed_expenses_are_frozen_witness:
  "updateExpense id owner_request (Inr (taxi\<lparr>xf_id := ''x1'', xf_amount := 99\<rparr>)) ''u2'' billed_world
     = (Inl ''expenses.errors.alreadyInvoiced'', billed_world)"
proof -
  have es: "expenses_of billed_world = [taxi_row\<lparr>ex_invoicedInId := Some ''i1''\<rparr>]" by (simp add: billed_world_def taxi_rows)
  have up: "xw_uploads billed_world = [taxi_upload]" and stored: "xw_objects billed_world ''expenses/r1'' = Some ''%PDF''"
    by (simp_all add: billed_world_def taxi_rows) (simp add: empty_world_def)
  have project: "\<exists>r\<in>set (ledger_projects billed_world). prj_id r = ''p1'' \<and> ''c1'' = prj_clientId r"
    by (simp add: billed_world_def taxi_rows) (simp add: empty_world_def sample_workspace_def sample_defs)
  have ok: "expenses_ok id billed_world"
    using stored project
    by (simp add: expenses_ok_def es up row_sound_def of_its_project_def receipts_sound_def filed_def taxi_row_def
        taxi_upload_def expense_row_ok_def numeric_5_2_overflow_def)
  have row: "taxi_row\<lparr>ex_invoicedInId := Some ''i1''\<rparr> \<in> set (expenses_of billed_world)" by (simp add: es)
  obtain a where a: "requireExpenseWrite owner_request = Inr a" using owner_writes by blast
  from billed_expenses_are_frozen [OF ok row _ rtranclp.rtrancl_refl, of owner_request a "taxi\<lparr>xf_id := ''x1'', xf_amount := 99\<rparr>" "''u2''"]
  show ?thesis using a by (simp add: taxi_row_def)
qed

section \<open>Where it goes wrong\<close>

text \<open>
  The edit reads the row, resolves the receipt and only then updates it, and the update asks whether the row is live,
  not whether it is still unbilled: an expense billed in between is rewritten although its invoice stands.
\<close>

theorem overlapping_edit_changes_a_billed_expense:
  assumes "late = snd (writeExpenseEdit id who (taxi\<lparr>xf_id := ''x1'', xf_amount := 99\<rparr>) ''u2'' (ex_receiptUploadId taxi_row)
                     (map_option upl_path (receipt_of taxi_row taxi_world)) billed_world)"
  shows "map ex_invoicedInId (expenses_of late) = [Some ''i1''] \<and> map ex_amountCents (expenses_of late) = [99]"
proof -
  let ?f = "taxi\<lparr>xf_id := ''x1'', xf_amount := 99\<rparr>"
  have rows: "expenses_of billed_world = [taxi_row\<lparr>ex_invoicedInId := Some ''i1''\<rparr>]" by (simp add: billed_world_def taxi_rows)
  have scope: "resolveExpenseScope ?f (xw_workspace billed_world) = Inr (Some ''p1'', Some ''c1'')"
    by (rule taxi_scope) (simp_all add: billed_world_def taxi_rows, simp_all add: taxi_def empty_world_def)
  have path: "map_option upl_path (receipt_of taxi_row taxi_world) = Some ''expenses/r1''"
    by (simp add: receipt_of_def taxi_row_def taxi_rows row_simps taxi_upload_def)
  have keep: "resolveReceiptChange id ''u2'' (xf_receipt ?f) (Some ''expenses/r1'') billed_world = (Inr Keep_existing, billed_world)"
    by (simp add: resolveReceiptChange_def taxi_def)
  show ?thesis
    unfolding assms path writeExpenseEdit_def scope keep
    by (simp add: Let_def rows update_where_def live_expense_def taxi_row_def toExpenseColumns_def taxi_def expense_row_ok_def
        numeric_5_2_overflow_def)
qed

text \<open>
  A markup of 1000, which the form and the check of the table allow, does not fit \<open>numeric(5, 2)\<close>; the receipt row
  written before the failing insert stays, and since paths are unique no later attempt can save that receipt.
\<close>

theorem highest_markup_loses_the_receipt:
  assumes "createExpense id owner_request (Inr (taxi\<lparr>xf_markupPercentage := Some 1000\<rparr>)) ''x1'' ''u1'' empty_world = (x, xw1)"
    and "createExpense id owner_request (Inr taxi) ''x1'' ''u2'' xw1 = (y, xw2)"
  shows "x = Inl ''expenses.errors.updateFailed'' \<and> xw_uploads xw1 = [taxi_upload]
      \<and> y = Inl ''expenses.errors.updateFailed'' \<and> xw2 = xw1"
proof -
  obtain a where a: "requireExpenseWrite owner_request = Inr a" using owner_writes by blast
  have scope: "resolveExpenseScope taxi sample_workspace = Inr (Some ''p1'', Some ''c1'')"
    "resolveExpenseScope (taxi\<lparr>xf_markupPercentage := Some 1000\<rparr>) sample_workspace = Inr (Some ''p1'', Some ''c1'')"
    by (rule taxi_scope; simp add: taxi_def)+
  have world: "xw_workspace empty_world = sample_workspace" by (simp add: empty_world_def)
  have first: "x = Inl ''expenses.errors.updateFailed''" "xw1 = empty_world\<lparr>xw_uploads := [taxi_upload]\<rparr>"
    using assms(1) taxi_receipt scope
    by (simp_all add: createExpense_def a world Let_def toExpenseColumns_def numeric_5_2_overflow_def)
  have "insertReceiptUpload id ''u2'' (xf_receipt taxi) xw1 = (Inl ''expenses.errors.updateFailed'', xw1)"
    by (simp add: first insertReceiptUpload_def verifyUploadedObject_def taxi_upload_def taxi_def empty_world_def receipt_max_bytes_def)
  moreover have "xw_workspace xw1 = sample_workspace" by (simp add: first world)
  ultimately have "y = Inl ''expenses.errors.updateFailed''" "xw2 = xw1" using assms(2) scope(1) by (simp_all add: createExpense_def a)
  then show ?thesis using first by simp
qed

end
