(* ===== verification/ReportQueries.thy ===== *)
theory ReportQueries
  imports InvoicePrices Dashboard Expenses
begin

text \<open>
  Where the reports get their rows (\<open>features/reports/queries.ts\<close>, \<open>schemas.ts\<close>) and the export of a report
  (\<open>mutations.ts\<close>). A join on a primary key is a lookup; rows come in table order, the statements give none. The
  words of the page and how a number or a month is written are a record of functions, the readers of the URL and
  whether an id is a uuid are arguments. The main result reconciles the revenue and the tax reports on every
  ledger the money actions reach.
\<close>

section \<open>The query\<close>

datatype report_kind = RevenueByClient | RevenueByProject | RevenueByMonth | RevenueByTaxRate | TimeByProject
  | ExpensesByCategory | TaxSummary

datatype report_filter = Client_filter | Project_filter | Tax_rate_filter

record report_query =
  rq_report :: report_kind
  rq_from :: "jsdate option"
  rq_to :: "jsdate option"
  rq_clientId :: "ident option"
  rq_projectId :: "ident option"
  rq_taxRateId :: "ident option"

fun report_filters :: "report_kind \<Rightarrow> report_filter list" where
  "report_filters RevenueByClient = [Client_filter]"
| "report_filters RevenueByProject = [Client_filter, Project_filter]"
| "report_filters RevenueByMonth = [Client_filter]"
| "report_filters RevenueByTaxRate = [Tax_rate_filter]"
| "report_filters TimeByProject = [Client_filter, Project_filter]"
| "report_filters ExpensesByCategory = [Client_filter, Project_filter]"
| "report_filters TaxSummary = [Tax_rate_filter]"

definition scopeReportFilters :: "report_query \<Rightarrow> report_query" where
  "scopeReportFilters q =
     (let allowed = set (report_filters (rq_report q))
      in q\<lparr>rq_clientId := (if Client_filter \<in> allowed then rq_clientId q else None),
           rq_projectId := (if Project_filter \<in> allowed then rq_projectId q else None),
           rq_taxRateId := (if Tax_rate_filter \<in> allowed then rq_taxRateId q else None)\<rparr>)"

fun report_key :: "report_kind \<Rightarrow> string" where
  "report_key RevenueByClient = ''revenueByClient''"
| "report_key RevenueByProject = ''revenueByProject''"
| "report_key RevenueByMonth = ''revenueByMonth''"
| "report_key RevenueByTaxRate = ''revenueByTaxRate''"
| "report_key TimeByProject = ''timeByProject''"
| "report_key ExpensesByCategory = ''expensesByCategory''"
| "report_key TaxSummary = ''taxSummary''"

definition report_kinds :: "report_kind list" where
  "report_kinds = [RevenueByClient, RevenueByProject, RevenueByMonth, RevenueByTaxRate, TimeByProject, ExpensesByCategory, TaxSummary]"

definition default_report :: report_kind where "default_report = RevenueByClient"

text \<open>\<open>z.enum(REPORT_KINDS).catch(DEFAULT_REPORT)\<close> and \<open>z.uuid().nullable().catch(null)\<close> on \<open>raw || null\<close>.\<close>

definition read_kind :: "string \<Rightarrow> report_kind" where
  "read_kind raw = (case List.find (\<lambda>k. report_key k = raw) report_kinds of Some k \<Rightarrow> k | None \<Rightarrow> default_report)"

definition read_id :: "(ident \<Rightarrow> bool) \<Rightarrow> string \<Rightarrow> ident option" where
  "read_id isUuid raw = (if raw \<noteq> [] \<and> isUuid raw then Some raw else None)"

definition digit_value :: "char \<Rightarrow> int option" where
  "digit_value c = (let n = (of_char c :: nat) in if 48 \<le> n \<and> n \<le> 57 then Some (int n - 48) else None)"

fun digits_int :: "int \<Rightarrow> string \<Rightarrow> int option" where
  "digits_int a [] = Some a"
| "digits_int a (c # cs) = (case digit_value c of None \<Rightarrow> None | Some v \<Rightarrow> digits_int (10 * a + v) cs)"

text \<open>
  \<open>DAY_PATTERN\<close> and \<open>new Date(`${raw}T00:00:00.000Z`)\<close>: a month outside 1 to 12 or a day outside 1 to 31 is no
  date, and a day past the end of its month rolls into the next one.
\<close>

definition readDay :: "string \<Rightarrow> jsdate option" where
  "readDay raw =
     (if length raw \<noteq> 10 \<or> raw ! 4 \<noteq> CHR ''-'' \<or> raw ! 7 \<noteq> CHR ''-'' then None
      else case (digits_int 0 (take 4 raw), digits_int 0 (take 2 (drop 5 raw)), digits_int 0 (drop 8 raw)) of
        (Some year, Some month, Some day) \<Rightarrow>
          if month < 1 \<or> 12 < month \<or> day < 1 \<or> 31 < day then None
          else Some (make_day year (month - 1) day * ms_per_day)
      | _ \<Rightarrow> None)"

definition parseReportQuery :: "(ident \<Rightarrow> bool) \<Rightarrow> (string \<Rightarrow> string) \<Rightarrow> report_query" where
  "parseReportQuery isUuid param =
     scopeReportFilters
       \<lparr>rq_report = read_kind (param ''report''), rq_from = readDay (param ''from''), rq_to = readDay (param ''to''),
        rq_clientId = read_id isUuid (param ''client''), rq_projectId = read_id isUuid (param ''project''),
        rq_taxRateId = read_id isUuid (param ''taxRate'')\<rparr>"

section \<open>Revenue\<close>

record report_words =
  rw_noClient :: string
  rw_noProject :: string
  rw_noTaxRate :: string
  rw_projectOption :: "string \<Rightarrow> string \<Rightarrow> string"
  rw_percentage :: "jsnum \<Rightarrow> string"
  rw_billable :: string
  rw_nonBillable :: string
  rw_month :: "string \<Rightarrow> string"
  rw_number :: "jsnum \<Rightarrow> string"

definition coalesce :: "'a option \<Rightarrow> 'a option \<Rightarrow> 'a option" where
  "coalesce a b = (case a of None \<Rightarrow> b | Some x \<Rightarrow> Some x)"

text \<open>\<open>LEFT JOIN projects ON projects.id = project_id\<close>, and the client a row has itself or through its project.\<close>

definition joined_project :: "ident option \<Rightarrow> db \<Rightarrow> project_row option" where
  "joined_project k d = Option.bind k (\<lambda>p. find_id prj_id p (projects d))"

definition client_of :: "ident option \<Rightarrow> ident option \<Rightarrow> db \<Rightarrow> ident option" where
  "client_of clientId projectId d = coalesce clientId (map_option prj_clientId (joined_project projectId d))"

definition client_name :: "ident option \<Rightarrow> db \<Rightarrow> string option" where
  "client_name k d = map_option cli_name (Option.bind k (\<lambda>c. find_id cli_id c (clients d)))"

definition within_window :: "report_query \<Rightarrow> jsdate \<Rightarrow> bool" where
  "within_window q t \<longleftrightarrow>
     (let window = resolveReportWindow (rq_from q) (rq_to q)
      in (case fst window of None \<Rightarrow> True | Some a \<Rightarrow> a \<le> t) \<and> (case snd window of None \<Rightarrow> True | Some b \<Rightarrow> t < b))"

definition equals_if_given :: "'a option \<Rightarrow> 'a option \<Rightarrow> bool" where
  "equals_if_given wanted v \<longleftrightarrow> wanted = None \<or> v = wanted"

definition buildRevenueConditions :: "report_query \<Rightarrow> db \<Rightarrow> invoice_row \<Rightarrow> bool" where
  "buildRevenueConditions q d r \<longleftrightarrow>
     inv_deletedAt r = None \<and> inv_status r \<in> {Sent, Paid}
     \<and> (case inv_issueDate r of None \<Rightarrow> False | Some t \<Rightarrow> within_window q t)
     \<and> equals_if_given (rq_projectId q) (inv_projectId r)
     \<and> equals_if_given (rq_clientId q) (client_of (inv_clientId r) (inv_projectId r) d)"

text \<open>The left-joined sum of the live credit notes of an invoice.\<close>

definition getCreditNoteTotalsSubquery :: "ident \<Rightarrow> db \<Rightarrow> int" where
  "getCreditNoteTotalsSubquery i d =
     sum_list (map cn_totalCents (filter (\<lambda>c. cn_invoiceId c = i \<and> cn_deletedAt c = None) (creditNotes d)))"

datatype revenue_dimension = By_client | By_project | By_month

fun toRevenueDimension ::
  "report_words \<Rightarrow> revenue_dimension \<Rightarrow> jsdate option \<Rightarrow> ident option \<Rightarrow> string option \<Rightarrow> ident option \<Rightarrow> string option
    \<Rightarrow> string \<times> string \<times> string option" where
  "toRevenueDimension words By_month issueDate clientId clientName projectId projectName =
     (let monthKey = (case issueDate of None \<Rightarrow> [] | Some t \<Rightarrow> toUtcMonthKey t) in (monthKey, rw_month words monthKey, None))"
| "toRevenueDimension words By_project issueDate clientId clientName projectId projectName =
     (or_empty projectId, case projectName of None \<Rightarrow> rw_noProject words | Some n \<Rightarrow> n, clientName)"
| "toRevenueDimension words By_client issueDate clientId clientName projectId projectName =
     (or_empty clientId, case clientName of None \<Rightarrow> rw_noClient words | Some n \<Rightarrow> n, None)"

definition revenue_row_of :: "report_words \<Rightarrow> revenue_dimension \<Rightarrow> db \<Rightarrow> invoice_row \<Rightarrow> revenue_report_row" where
  "revenue_row_of words by d r =
     (let project = joined_project (inv_projectId r) d;
          clientName = coalesce (client_name (inv_clientId r) d) (client_name (map_option prj_clientId project) d);
          (key, label, sublabel) = toRevenueDimension words by (inv_issueDate r)
            (client_of (inv_clientId r) (inv_projectId r) d) clientName (inv_projectId r) (map_option prj_name project)
      in \<lparr>rv_key = key, rv_label = label, rv_sublabel = sublabel, rv_currency = inv_currency r, rv_totalCents = inv_totalCents r,
          rv_creditedCents = getCreditNoteTotalsSubquery (inv_id r) d, rv_amountPaidCents = inv_amountPaidCents r\<rparr>)"

definition listRevenueRows :: "report_words \<Rightarrow> report_query \<Rightarrow> revenue_dimension \<Rightarrow> db \<Rightarrow> revenue_report_row list" where
  "listRevenueRows words q by d = map (revenue_row_of words by d) (filter (buildRevenueConditions q d) (invoices d))"

section \<open>Tax\<close>

record tax_line_row =
  tl_taxRateId :: "ident option"
  tl_taxRateName :: "string option"
  tl_percentage :: jsnum
  tl_currency :: string
  tl_totalCents :: int
  tl_taxAmountCents :: int

definition getTaxLineColumns :: "string \<Rightarrow> line_item_row \<Rightarrow> db \<Rightarrow> tax_line_row" where
  "getTaxLineColumns currency l d =
     \<lparr>tl_taxRateId = li_taxRateId l,
      tl_taxRateName = map_option tax_name (Option.bind (li_taxRateId l) (\<lambda>k. find_id tax_id k (taxRates d))),
      tl_percentage = li_taxPercentageSnapshot l, tl_currency = currency, tl_totalCents = li_totalCents l,
      tl_taxAmountCents = li_taxAmountCents l\<rparr>"

definition buildTaxLineConditions :: "report_query \<Rightarrow> db \<Rightarrow> invoice_row \<Rightarrow> line_item_row \<Rightarrow> bool" where
  "buildTaxLineConditions q d r l \<longleftrightarrow>
     buildRevenueConditions q d r \<and> li_deletedAt l = None \<and> equals_if_given (rq_taxRateId q) (li_taxRateId l)"

definition listInvoiceTaxLines :: "report_query \<Rightarrow> db \<Rightarrow> tax_line_row list" where
  "listInvoiceTaxLines q d =
     List.map_filter (\<lambda>l.
       case Option.bind (li_invoiceId l) (\<lambda>i. find_id inv_id i (invoices d)) of
         None \<Rightarrow> None
       | Some r \<Rightarrow> if buildTaxLineConditions q d r l then Some (getTaxLineColumns (inv_currency r) l d) else None) (lineItems d)"

definition listCreditNoteTaxLines :: "report_query \<Rightarrow> db \<Rightarrow> tax_line_row list" where
  "listCreditNoteTaxLines q d =
     List.map_filter (\<lambda>l.
       case Option.bind (li_creditNoteId l) (\<lambda>k. find_id cn_id k (creditNotes d)) of
         None \<Rightarrow> None
       | Some c \<Rightarrow>
           (case find_id inv_id (cn_invoiceId c) (invoices d) of
              None \<Rightarrow> None
            | Some r \<Rightarrow> if buildTaxLineConditions q d r l \<and> cn_deletedAt c = None
                        then Some (getTaxLineColumns (cn_currency c) l d) else None)) (lineItems d)"

definition toTaxBucket :: "report_words \<Rightarrow> tax_line_row \<Rightarrow> tax_report_row" where
  "toTaxBucket words row =
     \<lparr>tx_key = (case tl_taxRateId row of None \<Rightarrow> ''none'' | Some k \<Rightarrow> k) @ '':'' @ rw_number words (tl_percentage row),
      tx_label = (case tl_taxRateName row of None \<Rightarrow> rw_noTaxRate words | Some n \<Rightarrow> n),
      tx_sublabel = Some (rw_percentage words (tl_percentage row)), tx_currency = tl_currency row,
      tx_taxableCents = 0, tx_taxCents = 0, tx_creditedTaxableCents = 0, tx_creditedTaxCents = 0\<rparr>"

definition listTaxRows :: "report_words \<Rightarrow> report_query \<Rightarrow> db \<Rightarrow> tax_report_row list" where
  "listTaxRows words q d =
     map (\<lambda>row. (toTaxBucket words row)\<lparr>tx_taxableCents := tl_totalCents row - tl_taxAmountCents row,
            tx_taxCents := tl_taxAmountCents row\<rparr>) (listInvoiceTaxLines q d)
     @ map (\<lambda>row. (toTaxBucket words row)\<lparr>tx_creditedTaxableCents := tl_totalCents row - tl_taxAmountCents row,
            tx_creditedTaxCents := tl_taxAmountCents row\<rparr>) (listCreditNoteTaxLines q d)"

section \<open>Time and expenses\<close>

record report_defaults =
  rd_defaultCurrency :: string

definition getReportDefaults :: "db \<Rightarrow> report_defaults" where
  "getReportDefaults d = \<lparr>rd_defaultCurrency = (case settings d of None \<Rightarrow> ''EUR'' | Some s \<Rightarrow> set_defaultCurrency s)\<rparr>"

definition listTimeRows :: "report_words \<Rightarrow> report_query \<Rightarrow> report_defaults \<Rightarrow> workspace \<Rightarrow> time_report_row list" where
  "listTimeRows words q defaults w =
     List.map_filter (\<lambda>e.
       case find_id prj_id (te_projectId e) (projects (ledger w)) of
         None \<Rightarrow> None
       | Some p \<Rightarrow>
           (case find_id cli_id (prj_clientId p) (clients (ledger w)) of
              None \<Rightarrow> None
            | Some c \<Rightarrow>
                if te_deletedAt e = None \<and> te_durationSeconds e \<noteq> None \<and> prj_deletedAt p = None \<and> within_window q (te_startedAt e)
                   \<and> equals_if_given (rq_projectId q) (Some (te_projectId e)) \<and> equals_if_given (rq_clientId q) (Some (prj_clientId p))
                then Some \<lparr>tr_projectId = te_projectId e, tr_projectLabel = rw_projectOption words (cli_name c) (prj_name p),
                       tr_billable = te_billable e,
                       tr_currency = (case coalesce (prj_currency p) (cli_currency c) of None \<Rightarrow> rd_defaultCurrency defaults | Some x \<Rightarrow> x),
                       tr_durationSeconds = (case te_durationSeconds e of None \<Rightarrow> 0 | Some s \<Rightarrow> s),
                       tr_amountCents = calculateEntryAmountCents (te_durationSeconds e) (te_hourlyRateSnapshotCents e)\<rparr>
                else None)) (timeEntries w)"

definition listExpenseRows :: "report_query \<Rightarrow> workspace \<Rightarrow> expense_report_row list" where
  "listExpenseRows q w =
     map (\<lambda>e. \<lparr>xr_category = ex_category e, xr_currency = ex_currency e, xr_amountCents = ex_amountCents e,
            xr_rebillableCents = calculateRebillableCents (ex_amountCents e) (ex_rebillable e) (ex_markupPercentage e)\<rparr>)
       (filter (\<lambda>e. ex_deletedAt e = None \<and> within_window q (ex_spentAt e) \<and> equals_if_given (rq_projectId q) (ex_projectId e)
          \<and> equals_if_given (rq_clientId q) (client_of (ex_clientId e) (ex_projectId e) (ledger w))) (expenses w))"

section \<open>The report and its export\<close>

fun report_of ::
  "report_words \<Rightarrow> (string \<Rightarrow> string \<Rightarrow> int) \<Rightarrow> report_query \<Rightarrow> report_defaults \<Rightarrow> workspace \<Rightarrow> report_kind \<Rightarrow> report_result" where
  "report_of words cmp q defaults w RevenueByClient = aggregateRevenue cmp (listRevenueRows words q By_client (ledger w)) By_value"
| "report_of words cmp q defaults w RevenueByProject = aggregateRevenue cmp (listRevenueRows words q By_project (ledger w)) By_value"
| "report_of words cmp q defaults w RevenueByMonth = aggregateRevenue cmp (listRevenueRows words q By_month (ledger w)) By_key"
| "report_of words cmp q defaults w RevenueByTaxRate = aggregateRevenueByTaxRate cmp (listTaxRows words q (ledger w))"
| "report_of words cmp q defaults w TimeByProject =
     aggregateTimeByProject cmp (listTimeRows words q defaults w) (rw_billable words) (rw_nonBillable words)"
| "report_of words cmp q defaults w ExpensesByCategory = aggregateExpensesByCategory cmp (listExpenseRows q w)"
| "report_of words cmp q defaults w TaxSummary = aggregateTaxSummary cmp (listTaxRows words q (ledger w))"

definition getReportResult ::
  "report_words \<Rightarrow> (string \<Rightarrow> string \<Rightarrow> int) \<Rightarrow> report_query \<Rightarrow> report_defaults \<Rightarrow> workspace \<Rightarrow> report_result" where
  "getReportResult words cmp q defaults w = report_of words cmp q defaults w (rq_report q)"

definition requireReportExport :: "request \<Rightarrow> actor result" where
  "requireReportExport req =
     bind_result (getActionContext req)
       (\<lambda>a. if actor_role a \<noteq> Owner \<and> actor_role a \<noteq> Accountant then Inl ''errors.forbidden'' else Inr a)"

interpretation report_export: role_gate requireReportExport "{Owner, Accountant}"
  using role_gate_require_role [of "[Owner, Accountant]"]
  by (simp add: requireReportExport_def [abs_def] owner_or_accountant cong: if_cong)

text \<open>The file name spells the report in kebab case.\<close>

definition buildReportExportFilename :: "report_kind \<Rightarrow> jsdate \<Rightarrow> string \<Rightarrow> string" where
  "buildReportExportFilename report exportedAt extension =
     concat (map (\<lambda>c. let n = (of_char c :: nat) in if 65 \<le> n \<and> n \<le> 90 then [CHR ''-'', char_of (n + 32)] else [c]) (report_key report))
     @ ''-'' @ take 10 (toISOString exportedAt) @ ''.'' @ extension"

record report_headings =
  rh_label :: "report_kind \<Rightarrow> string"
  rh_sublabel :: string
  rh_currency :: string
  rh_column :: "report_column \<Rightarrow> string"
  rh_total :: string

definition exportReportCsv ::
  "report_words \<Rightarrow> report_headings \<Rightarrow> (string \<Rightarrow> string \<Rightarrow> int) \<Rightarrow> request \<Rightarrow> report_query result \<Rightarrow> jsdate \<Rightarrow> workspace
    \<Rightarrow> (string \<times> string \<times> nat) result \<times> workspace" where
  "exportReportCsv words headings cmp req parsed now w =
     (case requireReportExport req of
        Inl e \<Rightarrow> (Inl e, w)
      | Inr actor \<Rightarrow>
     (case parsed of
        Inl m \<Rightarrow> (Inl m, w)
      | Inr raw \<Rightarrow>
          let q = scopeReportFilters raw;
              outcome = getReportResult words cmp q (getReportDefaults (ledger w)) w;
              csv = serializeCsv (map (map Csv_text) (buildReportCsvRows outcome (rh_label headings (rq_report q)) (rh_sublabel headings)
                      (rh_currency headings) (map (rh_column headings) (rs_columns outcome)) (rh_total headings)))
          in (Inr (buildReportExportFilename (rq_report q) now ''csv'', csv, countReportRows outcome),
              w\<lparr>ledger := writeAudit ''report.exported'' (Some (actor_userId actor)) None (ledger w)\<rparr>)))"

section \<open>Sums over a join\<close>

lemma sum_matching:
  "distinct (map key rows) \<Longrightarrow>
    sum_list (map (\<lambda>r. if P r \<and> key r = k then v else 0) rows)
      = (case find_id key k rows of None \<Rightarrow> 0 | Some r \<Rightarrow> if P r then v else (0 :: int))"
proof (induction rows)
  case (Cons r rows)
  then show ?case
  proof (cases "key r = k")
    case True
    then have "\<forall>x\<in>set rows. key x \<noteq> k" using Cons.prems by (auto simp: image_iff)
    then have "sum_list (map (\<lambda>r. if P r \<and> key r = k then v else 0) rows) = 0" by (induction rows) auto
    then show ?thesis using True by (simp add: find_id_def)
  qed (simp add: find_id_def)
qed (simp add: find_id_def)

lemma sum_if_filter: "sum_list (map (\<lambda>r. if P r then f r else 0) rows) = sum_list (map f (filter P rows))" for f :: "'a \<Rightarrow> int"
  by (induction rows) simp_all

lemma sum_list_swap:
  "sum_list (map (\<lambda>x. sum_list (map (f x) ys)) xs) = sum_list (map (\<lambda>y. sum_list (map (\<lambda>x. f x y) xs)) ys)" for f :: "'a \<Rightarrow> 'b \<Rightarrow> int"
  by (induction xs) (simp_all add: sum_list_addf)

text \<open>The lines of the reported invoices of a currency, counted by line or by invoice.\<close>

definition reported :: "report_query \<Rightarrow> string \<Rightarrow> db \<Rightarrow> invoice_row list" where
  "reported q c d = filter (\<lambda>r. buildRevenueConditions q d r \<and> inv_currency r = c) (invoices d)"

lemma tax_lines_sum:
  assumes dist: "distinct (map inv_id (invoices d))" and every: "rq_taxRateId q = None"
    and f: "\<And>cur l. f' (getTaxLineColumns cur l d) = (f l :: int)"
  shows "sum_list (map f' (filter (\<lambda>x. tl_currency x = c) (listInvoiceTaxLines q d)))
    = sum_list (map (\<lambda>r. sum_list (map f (filter (live_line (inv_id r)) (lineItems d)))) (reported q c d))"
proof -
  define g where "g = (\<lambda>l. case Option.bind (li_invoiceId l) (\<lambda>i. find_id inv_id i (invoices d)) of
       None \<Rightarrow> None
     | Some r \<Rightarrow> if buildTaxLineConditions q d r l then Some (getTaxLineColumns (inv_currency r) l d) else None)"
  let ?own = "\<lambda>l. sum_list (map (\<lambda>r. if live_line (inv_id r) l then f l else 0) (reported q c d))"
  have one: "sum_list (map f' (filter (\<lambda>x. tl_currency x = c) (List.map_filter g [l]))) = ?own l" for l
  proof (cases "li_deletedAt l = None \<and> li_invoiceId l \<noteq> None")
    case False
    then have "?own l = 0" by (induction "reported q c d") (auto simp: live_line_def)
    moreover have "g l = None" using False by (auto simp: g_def buildTaxLineConditions_def split: option.splits)
    ultimately show ?thesis by (simp add: List.map_filter_simps)
  next
    case True
    then obtain i where i: "li_invoiceId l = Some i" by blast
    have "?own l = sum_list (map (\<lambda>r. if (buildRevenueConditions q d r \<and> inv_currency r = c) \<and> inv_id r = i then f l else 0) (invoices d))"
      unfolding reported_def sum_if_filter [symmetric]
      by (rule arg_cong [where f = sum_list], rule map_cong [OF refl]) (use True i in \<open>auto simp: live_line_def\<close>)
    also have "\<dots> = (case find_id inv_id i (invoices d) of None \<Rightarrow> 0
        | Some r \<Rightarrow> if buildRevenueConditions q d r \<and> inv_currency r = c then f l else 0)" by (rule sum_matching [OF dist])
    also have "\<dots> = sum_list (map f' (filter (\<lambda>x. tl_currency x = c) (List.map_filter g [l])))"
      using True every by (auto simp: g_def i List.map_filter_simps buildTaxLineConditions_def equals_if_given_def f
          getTaxLineColumns_def [of _ _ d, THEN arg_cong [where f = tl_currency]] split: option.split)
    finally show ?thesis by simp
  qed
  have "sum_list (map f' (filter (\<lambda>x. tl_currency x = c) (List.map_filter g ls))) = sum_list (map ?own ls)" for ls
  proof (induction ls)
    case (Cons l ls)
    have "List.map_filter g (l # ls) = List.map_filter g [l] @ List.map_filter g ls" by (simp add: List.map_filter_simps split: option.split)
    then show ?case using Cons one [of l] by simp
  qed (simp add: List.map_filter_simps)
  then have "sum_list (map f' (filter (\<lambda>x. tl_currency x = c) (listInvoiceTaxLines q d))) = sum_list (map ?own (lineItems d))"
    by (simp add: listInvoiceTaxLines_def g_def)
  also have "\<dots> = sum_list (map (\<lambda>r. sum_list (map (\<lambda>l. if live_line (inv_id r) l then f l else 0) (lineItems d))) (reported q c d))"
    by (rule sum_list_swap [of _ "reported q c d" "lineItems d"])
  finally show ?thesis by (simp only: sum_if_filter)
qed

section \<open>What a report shows in a column\<close>

definition shown :: "report_result \<Rightarrow> string \<Rightarrow> nat \<Rightarrow> int" where
  "shown outcome c j = (case report_total outcome c j of None \<Rightarrow> 0 | Some v \<Rightarrow> v)"

lemma sum_none: "c \<notin> f ` set rows \<Longrightarrow> filter (\<lambda>r. f r = c) rows = []"
  by (auto simp: filter_empty_conv)

definition revenue_figure :: "nat \<Rightarrow> revenue_report_row \<Rightarrow> int" where
  "revenue_figure j = (\<lambda>r. [1, rv_totalCents r, rv_creditedCents r, rv_totalCents r - rv_creditedCents r, rv_amountPaidCents r,
     getInvoiceOutstandingCents \<lparr>oi_totalCents = rv_totalCents r, oi_amountPaidCents = rv_amountPaidCents r,
       oi_creditedCents = rv_creditedCents r\<rparr>] ! j)"

lemma revenue_shown:
  assumes "j < 6"
  shows "shown (aggregateRevenue cmp rows order) c j = sum_list (map (revenue_figure j) (filter (\<lambda>r. rv_currency r = c) rows))"
proof -
  have j: "j \<in> {0, 1, 2, 3, 4, 5}" using assms by auto
  have "report_total (aggregateRevenue cmp rows order) c j
      = (if c \<in> rv_currency ` set rows then Some (sum_list (map (revenue_figure j) (filter (\<lambda>r. rv_currency r = c) rows))) else None)"
    unfolding aggregateRevenue_def
    by (subst report_total_sum [of _ "[1, 0, 0, 0, 0, 0]"])
      (use j in \<open>auto simp: image_image of_currency_def filter_map comp_def column_sum_def revenue_figure_def\<close>)
  then show ?thesis using sum_none [of c rv_currency rows] by (simp add: shown_def)
qed

lemma tax_shown:
  "shown (aggregateTaxSummary cmp rows) c 0 = sum_list (map tx_taxableCents (filter (\<lambda>r. tx_currency r = c) rows))"
  "shown (aggregateTaxSummary cmp rows) c 1 = sum_list (map tx_taxCents (filter (\<lambda>r. tx_currency r = c) rows))"
  using sum_none [of c tx_currency rows] by (simp_all add: shown_def tax_report_totals(2) [where j = 0])

lemma revenue_row_fields [simp]:
  "rv_currency (revenue_row_of words by d r) = inv_currency r" "rv_totalCents (revenue_row_of words by d r) = inv_totalCents r"
  "rv_creditedCents (revenue_row_of words by d r) = getCreditNoteTotalsSubquery (inv_id r) d"
  "rv_amountPaidCents (revenue_row_of words by d r) = inv_amountPaidCents r"
  by (simp_all add: revenue_row_of_def Let_def split: prod.split)

lemma revenue_rows_shown:
  assumes "j < 6"
  shows "shown (aggregateRevenue cmp (listRevenueRows words q by d) order) c j
    = sum_list (map (\<lambda>r. revenue_figure j (revenue_row_of words By_client d r)) (reported q c d))"
  unfolding revenue_shown [OF assms] listRevenueRows_def reported_def
  by (simp add: filter_map comp_def conj_commute revenue_figure_def)

definition revenue_kind :: "report_kind \<Rightarrow> bool" where
  "revenue_kind k \<longleftrightarrow> k \<in> {RevenueByClient, RevenueByProject, RevenueByMonth}"

lemma revenue_report:
  assumes "revenue_kind k" "j < 6"
  shows "shown (report_of words cmp q defaults w k) c j
    = sum_list (map (\<lambda>r. revenue_figure j (revenue_row_of words By_client (ledger w) r)) (reported q c (ledger w)))"
  using assms by (auto simp: revenue_kind_def revenue_rows_shown)

text \<open>
  C32. The revenue and the tax reports reconcile on every ledger the money actions can reach: for any period, client and
  project, in each currency, what the revenue report shows as invoiced, whatever it is broken down by, is the taxable base
  and the tax of the tax summary over the same invoices and, on top of them, exactly the late fees charged on those
  invoices; and breaking revenue down by client, by project or by month shows the same totals in every column.
\<close>

theorem revenue_and_tax_reports_reconcile:
  assumes "money_reachable (ledger w)" and "rq_taxRateId q = None" and "revenue_kind k" and "revenue_kind k'" and "j < 6"
  shows "shown (report_of words cmp q defaults w k) c 1
      = shown (report_of words cmp q defaults w TaxSummary) c 0 + shown (report_of words cmp q defaults w TaxSummary) c 1
        + sum_list (map late_fee_of (reported q c (ledger w)))
    \<and> shown (report_of words cmp q defaults w k) c j = shown (report_of words cmp q defaults w k') c j"
proof
  let ?d = "ledger w"
  have ok: "prices_ok ?d" "books_ok ?d" using money_reachable_kept [OF assms(1)] by simp_all
  have dist: "distinct (map inv_id (invoices ?d))" using ok(2) by (simp add: books_ok_def ids_ok_def)
  have split: "shown (aggregateTaxSummary cmp (listTaxRows words q ?d)) c 0 + shown (aggregateTaxSummary cmp (listTaxRows words q ?d)) c 1
      = sum_list (map tl_totalCents (filter (\<lambda>x. tl_currency x = c) (listInvoiceTaxLines q ?d)))"
    unfolding tax_shown by (simp add: listTaxRows_def filter_map comp_def toTaxBucket_def sum_list_minus)
  have "inv_totalCents r = lines_total (inv_id r) ?d + late_fee_of r" if "r \<in> set (reported q c ?d)" for r
    using ok(1) that by (simp add: prices_ok_def priced_row_def reported_def)
  then have "sum_list (map inv_totalCents (reported q c ?d))
      = sum_list (map (\<lambda>r. lines_total (inv_id r) ?d + late_fee_of r) (reported q c ?d))"
    by (intro arg_cong [where f = sum_list] map_cong refl)
  also have "\<dots> = sum_list (map (\<lambda>r. lines_total (inv_id r) ?d) (reported q c ?d)) + sum_list (map late_fee_of (reported q c ?d))"
    by (rule sum_list_addf)
  finally have "sum_list (map inv_totalCents (reported q c ?d))
      = sum_list (map (\<lambda>r. lines_total (inv_id r) ?d) (reported q c ?d)) + sum_list (map late_fee_of (reported q c ?d))" .
  then show "shown (report_of words cmp q defaults w k) c 1
      = shown (report_of words cmp q defaults w TaxSummary) c 0 + shown (report_of words cmp q defaults w TaxSummary) c 1
        + sum_list (map late_fee_of (reported q c ?d))"
    using split tax_lines_sum [OF dist assms(2), of tl_totalCents li_totalCents c] revenue_report [OF assms(3), of 1 words cmp q defaults w c]
    by (simp add: getTaxLineColumns_def lines_total_def revenue_figure_def)
  show "shown (report_of words cmp q defaults w k) c j = shown (report_of words cmp q defaults w k') c j"
    using revenue_report [OF assms(3,5)] revenue_report [OF assms(4,5)] by simp
qed

definition sample_report_words :: report_words where
  "sample_report_words = \<lparr>rw_noClient = ''No client'', rw_noProject = ''No project'', rw_noTaxRate = ''No tax'',
     rw_projectOption = (\<lambda>c p. c @ '' / '' @ p), rw_percentage = (\<lambda>n. js_int_string \<lfloor>n\<rfloor> @ ''%''), rw_billable = ''Billable'',
     rw_nonBillable = ''Not billable'', rw_month = (\<lambda>k. k), rw_number = (\<lambda>n. js_int_string \<lfloor>n\<rfloor>)\<rparr>"

definition everything :: report_query where
  "everything = \<lparr>rq_report = TaxSummary, rq_from = None, rq_to = None, rq_clientId = None, rq_projectId = None, rq_taxRateId = None\<rparr>"

definition overdue_workspace :: workspace where
  "overdue_workspace = \<lparr>ledger = overdue_db, tasks = [], timeEntries = [], expenses = [], schedules = []\<rparr>"

lemma revenue_and_tax_reports_reconcile_witness:
  "shown (report_of sample_report_words (\<lambda>a b. 0) everything \<lparr>rd_defaultCurrency = ''EUR''\<rparr> overdue_workspace RevenueByClient) ''EUR'' 1
   = shown (report_of sample_report_words (\<lambda>a b. 0) everything \<lparr>rd_defaultCurrency = ''EUR''\<rparr> overdue_workspace TaxSummary) ''EUR'' 0
     + shown (report_of sample_report_words (\<lambda>a b. 0) everything \<lparr>rd_defaultCurrency = ''EUR''\<rparr> overdue_workspace TaxSummary) ''EUR'' 1 + 51"
proof -
  have "money_reachable (ledger overdue_workspace)" "rq_taxRateId everything = None"
    by (simp_all add: overdue_workspace_def overdue_reachable everything_def)
  moreover have "sum_list (map late_fee_of (reported everything ''EUR'' (ledger overdue_workspace))) = 51" by code_simp
  moreover have "revenue_kind RevenueByClient" by (simp add: revenue_kind_def)
  ultimately show ?thesis
    using revenue_and_tax_reports_reconcile [of overdue_workspace everything RevenueByClient RevenueByClient 1] by simp
qed

text \<open>
  The comment over \<open>TaxReportRow\<close> has the totals of the tax reports reconcile with the invoices they came from. Late fees
  are in no line: the invoice below is reported with 10.61 of revenue, and with 10.10 in the tax reports.
\<close>

theorem late_fee_is_in_no_tax_report:
  "shown (report_of sample_report_words (\<lambda>a b. 0) everything \<lparr>rd_defaultCurrency = ''EUR''\<rparr> overdue_workspace RevenueByClient) ''EUR'' 1 = 1061
   \<and> shown (report_of sample_report_words (\<lambda>a b. 0) everything \<lparr>rd_defaultCurrency = ''EUR''\<rparr> overdue_workspace RevenueByTaxRate) ''EUR'' 2 = 1010"
  by (intro conjI; code_simp)

end
