(* ===== verification/Spec2Isabelle.thy ===== *)
theory Spec2Isabelle
  imports CreditNoteTotals ProposalTotals StatusMachines Tasks Expression SourceMapCodec ContractGuarantees ReportQueries
begin

text \<open>
  A verification library of Remit, a self-hosted business manager for freelancers: a Next.js application in
  TypeScript over PostgreSQL (sources under \<open>src/\<close>). What is verified is the part that carries money and
  commitments: how documents are priced, how invoices are paid, credited, charged late and billed from recorded
  work, how proposals are answered and become contracts and invoices, and what the reports say about all of it.

  \<^bold>\<open>The program.\<close> Every feature of \<open>src/features\<close> has the same shape: pure functions under \<open>services/\<close>,
  zod schemas in \<open>schemas.ts\<close>, and server actions in \<open>mutations.ts\<close> (and its siblings) that check the session
  and the role, parse the input, read and write the database through Drizzle and answer \<open>{ data }\<close> or
  \<open>{ error }\<close>. Webhooks, scheduled jobs and the public pages of a document call the same writes. Money is
  integer cents, quantities and percentages are \<open>numeric\<close> columns read as numbers, dates are instants read in UTC.

  \<^bold>\<open>How it is modelled.\<close> A pure function is the HOL function of the same name. A table is the list of its rows
  (records whose fields carry a prefix: \<open>inv_\<close>, \<open>pay_\<close>, \<open>cn_\<close>, \<open>li_\<close>, \<open>pp_\<close>, \<open>con_\<close>, \<open>te_\<close>, \<open>ex_\<close>, \<open>rec_\<close>, \<open>tsk_\<close>), and an
  action is a function from the request, the parse result, the drawn identifiers and the time to the answer and the
  new state, one branch per check and early return of the code. Errors are the translation keys the code passes to
  \<open>t\<close>. The states are the ledger (\<open>db\<close>, theory \<open>Database\<close>), the workspace of tasks, time, expenses and schedules
  around it (\<open>Workspace\<close>), and the sales state of proposals, codes and contracts (\<open>Sales\<close>). Reachable states are
  those of inductive step relations (\<open>ledger_step\<close>, \<open>money_step\<close>, \<open>sales_step\<close>, \<open>contract_step\<close>, \<open>expense_step\<close>) whose steps are the actions,
  with a step for what unmodelled code may do to the same tables.

  Conventions that hold everywhere: cents are \<open>int\<close>; a JavaScript number that may be a fraction is a \<open>rat\<close>
  rounded by \<open>fl\<close> after every operation, so that the error of binary fractions is in the model (\<open>JsNumber\<close>);
  instants are milliseconds and the calendar is ECMA-262's (\<open>JsDate\<close>); a \<open>numeric(10, 2)\<close> column stores through the
  parameter \<open>store\<close>; strings have one byte per character. Identifiers, tokens and codes the code draws at random
  are arguments, with freshness as a hypothesis where a property needs it. An action, or a transaction inside one,
  is one atomic step; where the code reads, decides and writes outside a transaction, the two halves are
  functions of their own and theorems about overlapping requests are stated over them. CHECK constraints and
  unique indexes are branches of the write that runs into them, or part of the invariant the writes keep.
  Parameters stand for what is not under \<open>src/\<close>: hashing and comparing codes, Stripe's signature check and API,
  mail, \<open>localeCompare\<close>, \<open>JSON.stringify\<close>. The zod result is an argument of the action.

  \<^bold>\<open>Foundations.\<close>
  \<open>Prelude\<close>: results, tables and the locale \<open>row_store\<close>, which every table interprets.
  \<open>JsNumber\<close>, \<open>JsDate\<close>: IEEE doubles as rounded rationals, \<open>Math.round\<close>, UTC dates and day arithmetic.
  \<open>Session\<close>: roles and gates (\<open>lib/auth/session.ts\<close>), the locale \<open>role_gate\<close>, the restore blocker.
  \<open>Database\<close>: rows of invoices, payments, credit notes, line items, settings, with their CHECK constraints.
  \<open>StatusMachines\<close>: the transition tables of every document, and that no document goes back.

  \<^bold>\<open>The ledger.\<close>
  \<open>InvoiceTotals\<close>, \<open>CreditNoteTotals\<close>, \<open>ProposalTotals\<close>: pricing, with the largest-remainder shares of a document
  discount; the lines of a document sum to its total to the cent.
  \<open>InvoiceStatus\<close>: due dates, overdue, reminders, late-fee rules, settlement rules.
  \<open>Numbering\<close>: document numbers; formatting is injective and the claimed counters never repeat a number.
  \<open>InvoiceWrites\<close>, \<open>PaymentWrites\<close>: the locked writes of \<open>invoiceWrites.ts\<close> and \<open>paymentWrites.ts\<close>.
  \<open>PaymentActions\<close>, \<open>InvoiceActions\<close>, \<open>CreditNoteActions\<close>: the server actions, the Stripe webhook and checkout, the
  late-fee sweep. \<open>Ledger\<close>: the step relation over all of them; every reachable ledger balances, payment
  writes refine an abstract account book, issued documents are frozen.

  \<^bold>\<open>Recorded work.\<close>
  \<open>Workspace\<close>, \<open>TimeTracking\<close>: timers, entries, the rate ladder. \<open>Tasks\<close>: the board and its positions.
  \<open>Expenses\<close>: expenses and their receipt files; what is billed is frozen, rows and files agree.
  \<open>Billing\<close>: from selected time and expenses to invoice lines, each billed once.
  \<open>RecurringRules\<close>, \<open>Recurring\<close>: the calendar of a schedule, retainer pools, the job that raises the invoice of an
  occurrence exactly once, and that catching up ends.

  \<^bold>\<open>Selling.\<close>
  \<open>Sales\<close>, \<open>Proposals\<close>, \<open>ProposalAnswers\<close>, \<open>ProposalState\<close>, \<open>ProposalGuarantees\<close>: proposals, their public links and the
  one-time codes with which a client answers. \<open>Contracts\<close>, \<open>ContractState\<close>, \<open>ContractGuarantees\<close>: contracts and
  signatures. \<open>Conversion\<close>: the invoice made from an accepted proposal, at the accepted price.

  \<^bold>\<open>The parts together.\<close> \<open>InvoicePrices\<close>: \<open>money_step\<close> joins every way an invoice comes about or changes: the
  actions of the ledger, billing recorded work, the recurring job and conversion. Whatever their order, the columns of
  an invoice are what its lines cost.

  \<^bold>\<open>Reading the books.\<close>
  \<open>Csv\<close>: amounts as text and CSV files that read back. \<open>Reports\<close>: grouping and totals of the reports, which lose and
  mix nothing. \<open>ReportQueries\<close>: what a report asks of the tables, its rows and its CSV file; over the states of \<open>money_step\<close>
  the tax reports and the revenue reports agree, late fees apart. \<open>Dashboard\<close>: windows, receivables, ageing, cash flow.

  \<^bold>\<open>Tools.\<close> \<open>Expression\<close>: the arithmetic a number field of the template editor accepts, against its grammar.
  \<open>SourceMapCodec\<close>: base 64 VLQ mappings, decoding what was encoded.

  \<^bold>\<open>Bounds.\<close> Recursions are structural or have a measure, so no definition needs fuel; that a schedule which
  catches up on missed occurrences stops is a theorem over arbitrary queues of jobs. Dates are the years an ECMA-262 \<open>Date\<close> and its two-digit-year rule leave unambiguous
  (\<open>modern\<close>); exactness of amounts is stated up to 2 to the power 53, the largest exact integer.

  \<^bold>\<open>Not modelled\<close>, with the reason. Screens, components, hooks, stores, routes and translations (no state of the
  books). Queries that only fill a screen. Authentication, sessions, users and invitations (better-auth does the
  work). Sending mail, rendering PDFs, object storage, backups, the HTTP API, webhooks to other systems and the MCP
  server (input and output around third-party code; the writes they trigger are those modelled). Leads, clients
  and projects beyond the columns the modelled actions read (plain records with no arithmetic). The template
  engine of the editor (layout). Audit metadata, cache revalidation, logging and metrics (no effect on the tables
  modelled, apart from the audit entry and event, which are). Purging the trash.
\<close>

end
